(* ===== verification/Prelude.thy ===== *)
theory Prelude
  imports Main "HOL-Library.Word"
begin

unbundle bit_operations_syntax

section \<open>Machine integers and shared lemmas\<close>

text \<open>
  What every component theory shares: the names of the C++ integer types of
  \<open>core/types.h\<close>, the C++ operators the sources use on them (signed comparison,
  conversions), the generic facts on words and lists that carry the component proofs, and
  the fact collections of the development.

  A signed integer (\<open>s8\<close>, \<open>s16\<close>, \<open>s32\<close>, \<open>int\<close>, \<open>s64\<close>) is the word of the same width
  read by \<^const>\<open>sint\<close>; an unsigned one is the word read by \<^const>\<open>uint\<close>. A conversion to a
  wider unsigned type is \<open>ucast\<close>, one from a signed type is \<open>scast\<close>, and a
  conversion to a narrower type is \<open>ucast\<close> in both cases.
\<close>

type_synonym u8 = "8 word"
type_synonym u16 = "16 word"
type_synonym u32 = "32 word"
type_synonym u64 = "64 word"

subsection \<open>Fact collections\<close>

named_theorems field_defs \<open>bit fields of the hardware registers, as bits\<close>

subsection \<open>Words as integers\<close>

lemma int_mod_below: "- m \<le> x \<Longrightarrow> x < 0 \<Longrightarrow> x mod m = x + (m :: int)"
proof -
  assume "- m \<le> x" "x < 0"
  then have "(x + m) mod m = x + m" by (intro mod_pos_pos_trivial) simp_all
  then show ?thesis by simp
qed

lemma int_mod_above: "m \<le> x \<Longrightarrow> x < 2 * m \<Longrightarrow> x mod m = x - (m :: int)"
proof -
  assume "m \<le> x" "x < 2 * m"
  then have "(x - m) mod m = x - m" by (intro mod_pos_pos_trivial) simp_all
  then show ?thesis by (simp add: mod_diff_right_eq [symmetric])
qed

lemma uint32_bounds: "0 \<le> uint (a::u32)" "uint (a::u32) < 4294967296"
  using uint_lt2p [of a] by simp_all

lemma bit31_uint: "bit (uint (a::u32)) 31 \<longleftrightarrow> \<not> uint a < 2147483648"
proof (cases "uint a < 2147483648")
  case True
  then have "uint a div 2147483648 = 0"
    by (intro div_pos_pos_trivial uint32_bounds)
  with True show ?thesis by (simp add: bit_iff_odd)
next
  case False
  then have "uint a div 2147483648 = (uint a - 2147483648) div 2147483648 + 1"
    by (intro div_pos_geq) simp_all
  moreover have "(uint a - 2147483648) div 2147483648 = 0"
    using False uint32_bounds [of a] by (intro div_pos_pos_trivial) simp_all
  ultimately have "uint a div 2147483648 = 1" by simp
  with False show ?thesis by (simp add: bit_iff_odd)
qed

lemma sint32_uint:
  "sint (a::u32) = (if uint a < 2147483648 then uint a else uint a - 4294967296)"
proof -
  have "take_bit 32 (uint a) = uint a"
    using uint32_bounds [of a] by (simp add: take_bit_int_eq_self_iff)
  then show ?thesis
    by (simp add: sint_uint signed_take_bit_eq_take_bit_minus bit31_uint)
qed

lemma sint32_bounds: "- 2147483648 \<le> sint (a::u32)" "sint (a::u32) < 2147483648"
  using sint_greater_eq [of a] sint_lt [of a] by simp_all

lemma uint32_nonneg_sint: "0 \<le> sint (a::u32) \<Longrightarrow> uint a = sint a"
  using uint32_bounds [of a] by (simp add: sint32_uint split: if_splits)

lemma uint32_eq_m1: "uint (a::u32) = 4294967295 \<longleftrightarrow> a = - 1"
proof -
  have "uint (- 1 :: u32) = 4294967295" by (simp add: unsigned_minus_1_eq_mask mask_eq_exp_minus_1)
  then show ?thesis by (metis word_uint_eqI)
qed

lemma sint_sub32:
  assumes "- 2147483648 \<le> sint a - sint b" "sint a - sint b < 2147483648"
  shows "sint (a - b :: u32) = sint a - sint b"
  using assms by (simp add: sint_word_ariths signed_take_bit_int_eq_self)

lemma sint_add32:
  assumes "- 2147483648 \<le> sint a + sint b" "sint a + sint b < 2147483648"
  shows "sint (a + b :: u32) = sint a + sint b"
  using assms by (simp add: sint_word_ariths signed_take_bit_int_eq_self)

lemma uint_less_sint32: "0 \<le> sint a \<Longrightarrow> 0 \<le> sint b \<Longrightarrow> (a::u32) < b \<longleftrightarrow> sint a < sint b"
  by (simp add: word_less_def uint32_nonneg_sint)

lemma ucast_minus_down64: "(ucast (a - b :: u64) :: u32) = ucast a - ucast b"
  by (rule word_uint_eqI)
    (simp add: uint_word_ariths unsigned_ucast_eq take_bit_eq_mod mod_simps mod_mod_cancel)

lemma ucast_scast_down64: "(ucast (scast (a::u32) :: u64) :: u32) = a"
  by (rule bit_word_eqI) (auto simp: bit_simps min_def le_less)

lemma sint64_bounds: "- 9223372036854775808 \<le> sint (a::u64)" "sint (a::u64) < 9223372036854775808"
  using sint_greater_eq [of a] sint_lt [of a] by simp_all

lemma bit63_uint: "bit (uint (a::u64)) 63 \<longleftrightarrow> \<not> uint a < 9223372036854775808"
proof (cases "uint a < 9223372036854775808")
  case True
  then have "uint a div 9223372036854775808 = 0" by (intro div_pos_pos_trivial) simp_all
  with True show ?thesis by (simp add: bit_iff_odd)
next
  case False
  then have "uint a div 9223372036854775808
      = (uint a - 9223372036854775808) div 9223372036854775808 + 1"
    by (intro div_pos_geq) simp_all
  moreover have "(uint a - 9223372036854775808) div 9223372036854775808 = 0"
    using False uint_lt2p [of a] by (intro div_pos_pos_trivial) simp_all
  ultimately have "uint a div 9223372036854775808 = 1" by simp
  with False show ?thesis by (simp add: bit_iff_odd)
qed

lemma sint64_uint:
  "sint (a::u64) = (if uint a < 9223372036854775808 then uint a else uint a - 18446744073709551616)"
proof -
  have "take_bit 64 (uint a) = uint a" using uint_lt2p [of a] by (simp add: take_bit_int_eq_self_iff)
  then show ?thesis
    by (simp add: sint_uint signed_take_bit_eq_take_bit_minus bit63_uint)
qed

lemma word_sint_eqI_64: "sint (a::u64) = sint b \<Longrightarrow> a = b"
  by (rule signed_word_eqI)

lemma sint_scast64: "sint (scast (a::u32) :: u64) = sint a"
  by (simp add: signed_scast_eq signed_take_bit_int_eq_self sint32_bounds
      order_trans [OF _ sint32_bounds(1)] less_le_trans [OF sint32_bounds(2)])

lemma sint_sub64:
  assumes "- 9223372036854775808 \<le> sint a - sint b" "sint a - sint b < 9223372036854775808"
  shows "sint (a - b :: u64) = sint a - sint b"
  using assms by (simp add: sint_word_ariths signed_take_bit_int_eq_self)

lemma sint_add64:
  assumes "- 9223372036854775808 \<le> sint a + sint b" "sint a + sint b < 9223372036854775808"
  shows "sint (a + b :: u64) = sint a + sint b"
  using assms by (simp add: sint_word_ariths signed_take_bit_int_eq_self)

lemma ucast_of_sint64: "(ucast (a :: u64) :: u32) = word_of_int (sint a)"
  by (rule bit_word_eqI) (auto simp: bit_simps min_def)

lemma sint_word_of_int64:
  "- 9223372036854775808 \<le> x \<Longrightarrow> x < 9223372036854775808 \<Longrightarrow> sint (word_of_int x :: u64) = x"
  by (simp add: signed_of_int signed_take_bit_int_eq_self)

lemma word_le_4:
  assumes "(m :: u32) \<le> 4"
  shows "m = 0 \<or> m = 1 \<or> m = 2 \<or> m = 3 \<or> m = 4"
proof -
  have "unat m \<le> 4" using assms by (simp add: word_le_nat_alt)
  then have "unat m = 0 \<or> unat m = 1 \<or> unat m = 2 \<or> unat m = 3 \<or> unat m = 4" by linarith
  then show ?thesis unfolding word_unat_eq_iff by simp
qed

subsection \<open>Carry, borrow and sign\<close>

lemma uint32_add: "uint (a + b :: u32) = (uint a + uint b) mod 4294967296"
  by (simp add: uint_word_ariths)

lemma uint32_sub: "uint (a - b :: u32) = (uint a - uint b) mod 4294967296"
  by (simp add: uint_word_ariths)

lemma uint_add_carry: "uint (a + b :: u32) = uint a + uint b - (if a + b < a then 4294967296 else 0)"
proof (cases "uint a + uint b < 4294967296")
  case True
  then have "uint (a + b) = uint a + uint b"
    unfolding uint32_add using uint32_bounds [of a] uint32_bounds [of b] by (intro mod_pos_pos_trivial) linarith+
  then show ?thesis by (simp add: word_less_def)
next
  case False
  then have "uint (a + b) = uint a + uint b - 4294967296"
    unfolding uint32_add using uint32_bounds [of a] uint32_bounds [of b] by (intro int_mod_above) linarith+
  then show ?thesis using uint32_bounds [of b] by (simp add: word_less_def)
qed

lemma uint_sub_borrow: "uint (a - b :: u32) = uint a - uint b + (if a < b then 4294967296 else 0)"
proof (cases "a < b")
  case True
  then have "uint (a - b) = uint a - uint b + 4294967296"
    unfolding uint32_sub using uint32_bounds [of a] uint32_bounds [of b]
    unfolding word_less_def by (intro int_mod_below) linarith+
  with True show ?thesis by simp
next
  case False
  then have "uint (a - b) = uint a - uint b"
    unfolding uint32_sub using uint32_bounds [of a] uint32_bounds [of b]
    unfolding word_less_def by (intro mod_pos_pos_trivial) linarith+
  with False show ?thesis by simp
qed

lemma sub_less_iff: "(a < a - b) \<longleftrightarrow> (a :: u32) < b"
  using uint_sub_borrow [of a b] uint32_bounds [of a] uint32_bounds [of b]
  by (auto simp: word_less_def split: if_splits)

lemma T_less_carry:
  assumes "t = 0 \<or> t = 1"
  shows "uint (x + t :: u32) + (if x + t < x then 4294967296 else 0) = uint x + uint t"
    "uint (x - t :: u32) = uint x - uint t + (if x < x - t then 4294967296 else 0)"
  using uint_add_carry [of x t] uint_sub_borrow [of x t] sub_less_iff [of x t] by auto

lemma msb_and: "(0x80000000 AND (x :: u32) \<noteq> 0) \<longleftrightarrow> 2147483648 \<le> uint x"
proof -
  have "(0x80000000 :: u32) = push_bit 31 1" by simp
  then have "(0x80000000 AND x \<noteq> 0) \<longleftrightarrow> bit x 31"
    by (simp only: and.commute bit_iff_and_push_bit_not_eq_0)
  also have "bit x 31 \<longleftrightarrow> bit (uint x) 31" by (simp add: bit_uint_iff)
  finally show ?thesis by (simp add: bit31_uint not_less)
qed

subsection \<open>Bit fields\<close>

text \<open>A C++ bit field of \<open>w\<close> bits at position \<open>lo\<close> of an unsigned word: reading it, and
  assigning to it (the value is cut to the width of the field).\<close>

definition get_field :: "nat \<Rightarrow> nat \<Rightarrow> 'a::len word \<Rightarrow> 'a word" where
  "get_field lo w x = take_bit w (drop_bit lo x)"

definition set_field :: "nat \<Rightarrow> nat \<Rightarrow> 'a::len word \<Rightarrow> 'a word \<Rightarrow> 'a word" where
  "set_field lo w v x = (x AND NOT (push_bit lo (mask w))) OR push_bit lo (take_bit w v)"

lemma bit_get_field:
  "bit (get_field lo w x) n \<longleftrightarrow> n < w \<and> bit x (lo + n)"
  by (auto simp: get_field_def bit_simps)

lemma bit_set_field:
  "bit (set_field lo w v (x :: 'a::len word)) n \<longleftrightarrow>
     n < LENGTH('a) \<and> (if lo \<le> n \<and> n < lo + w then bit v (n - lo) else bit x n)"
  by (auto simp: set_field_def bit_simps)

lemmas field_bits = bit_get_field bit_set_field

lemma get_set_field_same:
  "lo + w \<le> LENGTH('a) \<Longrightarrow> get_field lo w (set_field lo w v (x :: 'a::len word)) = take_bit w v"
  by (rule bit_word_eqI) (auto simp: field_bits bit_simps)

lemma get_set_field_other:
  "lo + w \<le> lo' \<or> lo' + w' \<le> lo \<Longrightarrow>
     get_field lo w (set_field lo' w' v (x :: 'a::len word)) = get_field lo w x"
  by (rule bit_word_eqI) (auto simp: field_bits dest: bit_imp_le_length)

lemma get_field1_eq: "get_field lo (Suc 0) (x :: 'a::len word) = of_bool (bit x lo)"
  by (rule bit_word_eqI) (auto simp: field_bits bit_simps dest: bit_imp_le_length)

lemma and_one_cases: "x AND 1 = 0 \<or> x AND 1 = (1 :: 'a::len word)"
proof -
  have "x AND 1 = of_bool (odd x)" by (simp add: and_one_eq mod_2_eq_odd)
  then show ?thesis by (cases "odd x") simp_all
qed

subsection \<open>Errors as values\<close>

text \<open>Sequencing of operations that may fail: the first error ends the sequence.\<close>

fun sum_bind :: "'exn + 'x \<Rightarrow> ('x \<Rightarrow> 'exn + 'y) \<Rightarrow> 'exn + 'y" where
  "sum_bind (Inl exn) next_op = Inl exn"
| "sum_bind (Inr x) next_op = next_op x"

lemma sum_bind_Inr [simp]: "sum_bind m f = Inr y \<longleftrightarrow> (\<exists>x. m = Inr x \<and> f x = Inr y)"
  by (cases m) simp_all

lemma sum_bind_cong [fundef_cong]:
  "m = m' \<Longrightarrow> (\<And>x. m' = Inr x \<Longrightarrow> f x = f' x) \<Longrightarrow> sum_bind m f = sum_bind m' f'"
  by (cases m') simp_all

text \<open>Alignment to words.\<close>

lemma aligned_and: "(w :: u32) AND 3 = 0 \<Longrightarrow> w AND 0xFFFFFFFC = w"
proof -
  assume a: "w AND 3 = 0"
  have n: "(0xFFFFFFFC :: u32) = NOT 3" by simp
  have "w = (w AND 3) OR (w AND NOT 3)" by (simp add: bit.conj_disj_distrib [symmetric])
  then show ?thesis unfolding a n by simp
qed

end
