(* ===== verification/Sh4_Sched.thy ===== *)
theory Sh4_Sched
  imports Prelude
begin

section \<open>The SH4 event scheduler\<close>

text \<open>
  \<open>core/hw/sh4/sh4_sched.cpp\<close>: every emulated device registers a callback and asks for
  it to be called a number of SH4 cycles later. The state is the vector \<open>sch_list\<close>, the
  64 bit clock base \<open>sh4_sched_ffb\<close>, and the countdown \<open>Sh4cntx.sh4_sched_next\<close> of the
  earliest event, which the CPU loop decrements by one time slice at a time.

  A slot holds a callback (function pointer and argument, \<^typ>\<open>'cb\<close>); calling it is the
  parameter \<open>run_cb\<close> of the operations that do so, a function on the scheduler's own state
  and whatever else the program keeps (the record extension). \<open>verify\<close> failing, a vector
  index out of range and a call through a null pointer are error values.
\<close>

datatype sched_err = VerifyFailed | OutOfRange | NullCallback

record 'cb sched_list =
  cb :: "'cb option"
  tag :: u32
  start :: u32
  sched_end :: u32

record 'cb sched_st =
  sh4_sched_ffb :: u64
  sch_list :: "'cb sched_list list"
  sh4_sched_next_id :: int
  sh4_sched_next :: u32

definition SH4_MAIN_CLOCK :: u32 where
  "SH4_MAIN_CLOCK = 200 * 1000 * 1000"

definition SH4_TIMESLICE :: u32 where
  "SH4_TIMESLICE = 448"

definition sh4_sched_remaining :: "'cb sched_list \<Rightarrow> u32 \<Rightarrow> u32" where
  "sh4_sched_remaining sched reference =
     (if sched_end sched \<noteq> - 1 then sched_end sched - reference else - 1)"

definition sh4_sched_now64 :: "('cb, 'z) sched_st_scheme \<Rightarrow> u64" where
  "sh4_sched_now64 s = sh4_sched_ffb s - scast (sh4_sched_next s)"

definition sh4_sched_now :: "('cb, 'z) sched_st_scheme \<Rightarrow> u32" where
  "sh4_sched_now s = ucast (sh4_sched_ffb s - scast (sh4_sched_next s) :: u64)"

subsection \<open>Finding the earliest event\<close>

text \<open>The range-for loop of \<open>sh4_sched_ffts\<close>: \<open>i\<close> is the position, \<open>slot\<close> and \<open>diff\<close>
  the loop's variables.\<close>

fun ffts_loop :: "u32 \<Rightarrow> nat \<Rightarrow> 'cb sched_list list \<Rightarrow> int \<times> u32 \<Rightarrow> int \<times> u32" where
  "ffts_loop now i [] (slot, diff) = (slot, diff)"
| "ffts_loop now i (sched # rest) (slot, diff) =
     (let remaining = sh4_sched_remaining sched now
      in if remaining < diff then ffts_loop now (Suc i) rest (int i, remaining)
         else ffts_loop now (Suc i) rest (slot, diff))"

definition sh4_sched_ffts :: "('cb, 'z) sched_st_scheme \<Rightarrow> ('cb, 'z) sched_st_scheme" where
  "sh4_sched_ffts s =
     (let (slot, diff) = ffts_loop (sh4_sched_now s) 0 (sch_list s) (- 1, - 1);
          s1 = s\<lparr>sh4_sched_ffb := sh4_sched_ffb s - scast (sh4_sched_next s)\<rparr>;
          s2 = s1\<lparr>sh4_sched_next_id := slot\<rparr>;
          s3 = s2\<lparr>sh4_sched_next := (if slot \<noteq> - 1 then diff else SH4_MAIN_CLOCK)\<rparr>
      in s3\<lparr>sh4_sched_ffb := sh4_sched_ffb s3 + scast (sh4_sched_next s3)\<rparr>)"

subsection \<open>Registration and requests\<close>

text \<open>The search of \<open>sh4_sched_register\<close> for a slot whose callback is null.\<close>

fun first_free :: "nat \<Rightarrow> 'cb sched_list list \<Rightarrow> nat option" where
  "first_free i [] = None"
| "first_free i (sched # rest) = (if cb sched = None then Some i else first_free (Suc i) rest)"

definition sh4_sched_register ::
  "u32 \<Rightarrow> 'cb \<Rightarrow> ('cb, 'z) sched_st_scheme \<Rightarrow> nat \<times> ('cb, 'z) sched_st_scheme" where
  "sh4_sched_register tg ssc s =
     (let t = \<lparr>cb = Some ssc, tag = tg, start = - 1, sched_end = - 1\<rparr>
      in case first_free 0 (sch_list s) of
           Some i \<Rightarrow> (i, s\<lparr>sch_list := (sch_list s)[i := t]\<rparr>)
         | None \<Rightarrow> (length (sch_list s), s\<lparr>sch_list := sch_list s @ [t]\<rparr>))"

definition sh4_sched_unregister ::
  "int \<Rightarrow> ('cb, 'z) sched_st_scheme \<Rightarrow> sched_err + ('cb, 'z) sched_st_scheme" where
  "sh4_sched_unregister i s =
     (if i = - 1 then Inr s
      else if \<not> i < int (length (sch_list s)) then Inl VerifyFailed
      else if i = int (length (sch_list s)) - 1
        then Inr (sh4_sched_ffts (s\<lparr>sch_list := take (length (sch_list s) - 1) (sch_list s)\<rparr>))
      else if i < 0 then Inl OutOfRange
      else Inr (sh4_sched_ffts (s\<lparr>sch_list :=
             (sch_list s)[nat i := (sch_list s ! nat i)\<lparr>cb := None, sched_end := - 1\<rparr>]\<rparr>)))"

definition sh4_sched_request ::
  "nat \<Rightarrow> u32 \<Rightarrow> ('cb, 'z) sched_st_scheme \<Rightarrow> sched_err + ('cb, 'z) sched_st_scheme" where
  "sh4_sched_request i cycles s =
     (if \<not> (cycles = - 1 \<or> (0 \<le> sint cycles \<and> sint cycles \<le> sint SH4_MAIN_CLOCK))
        then Inl VerifyFailed
      else if \<not> i < length (sch_list s) then Inl OutOfRange
      else
        let sched = (sch_list s ! i)\<lparr>start := sh4_sched_now s\<rparr>;
            sched1 =
              (if cycles = - 1 then sched\<lparr>sched_end := - 1\<rparr>
               else let sched2 = sched\<lparr>sched_end := start sched + cycles\<rparr>
                    in if sched_end sched2 = - 1 then sched2\<lparr>sched_end := sched_end sched2 + 1\<rparr> else sched2)
        in Inr (sh4_sched_ffts (s\<lparr>sch_list := (sch_list s)[i := sched1]\<rparr>)))"

definition sh4_sched_is_scheduled :: "nat \<Rightarrow> ('cb, 'z) sched_st_scheme \<Rightarrow> bool" where
  "sh4_sched_is_scheduled i s \<longleftrightarrow> sched_end (sch_list s ! i) \<noteq> - 1"

subsection \<open>Calling back\<close>

text \<open>The time passed since the slot's \<open>start\<close>, which is reset to now; the slot is
  changed in place.\<close>

definition sh4_sched_elapsed ::
  "nat \<Rightarrow> ('cb, 'z) sched_st_scheme \<Rightarrow> u32 \<times> ('cb, 'z) sched_st_scheme" where
  "sh4_sched_elapsed i s =
     (let sched = sch_list s ! i
      in if sched_end sched \<noteq> - 1
         then (sh4_sched_now s - start sched,
               s\<lparr>sch_list := (sch_list s)[i := sched\<lparr>start := sh4_sched_now s\<rparr>]\<rparr>)
         else (- 1, s))"

type_synonym ('cb, 's) run_cb = "'cb \<Rightarrow> u32 \<Rightarrow> u32 \<Rightarrow> u32 \<Rightarrow> 's \<Rightarrow> sched_err + u32 \<times> 's"

definition handle_cb ::
  "('cb, ('cb, 'z) sched_st_scheme) run_cb \<Rightarrow> nat \<Rightarrow> ('cb, 'z) sched_st_scheme
     \<Rightarrow> sched_err + ('cb, 'z) sched_st_scheme" where
  "handle_cb run_cb i s =
     (let sched = sch_list s ! i;
          remain = sched_end sched - start sched;
          (elapsd, s1) = sh4_sched_elapsed i s;
          jitter = elapsd - remain;
          s2 = s1\<lparr>sch_list := (sch_list s1)[i := (sch_list s1 ! i)\<lparr>sched_end := - 1\<rparr>]\<rparr>
      in case cb sched of
           None \<Rightarrow> Inl NullCallback
         | Some c \<Rightarrow>
             (case run_cb c (tag sched) remain jitter s2 of
                Inl e \<Rightarrow> Inl e
              | Inr (re_sch, s3) \<Rightarrow>
                  if 0 < sint re_sch
                  then sh4_sched_request i (if 0 < sint (re_sch - jitter) then re_sch - jitter else 0) s3
                  else Inr s3))"

text \<open>The range-for loop of \<open>sh4_sched_tick\<close> over the positions still to visit.\<close>

fun tick_loop ::
  "('cb, ('cb, 'z) sched_st_scheme) run_cb \<Rightarrow> u32 \<Rightarrow> u32 \<Rightarrow> nat list
     \<Rightarrow> ('cb, 'z) sched_st_scheme \<Rightarrow> sched_err + ('cb, 'z) sched_st_scheme" where
  "tick_loop run_cb fztime cycles [] s = Inr s"
| "tick_loop run_cb fztime cycles (i # is) s =
     (if \<not> i < length (sch_list s) then Inl OutOfRange
      else
        let remaining = sh4_sched_remaining (sch_list s ! i) fztime
        in if 0 \<le> sint remaining \<and> sint remaining \<le> sint cycles
           then (case handle_cb run_cb i s of
                   Inl e \<Rightarrow> Inl e
                 | Inr s' \<Rightarrow> tick_loop run_cb fztime cycles is s')
           else tick_loop run_cb fztime cycles is s)"

definition sh4_sched_tick ::
  "('cb, ('cb, 'z) sched_st_scheme) run_cb \<Rightarrow> u32 \<Rightarrow> ('cb, 'z) sched_st_scheme
     \<Rightarrow> sched_err + ('cb, 'z) sched_st_scheme" where
  "sh4_sched_tick run_cb cycles s =
     (if 0 \<le> sint (sh4_sched_next s) then Inr s
      else
        let fztime = sh4_sched_now s - cycles
        in case (if sh4_sched_next_id s \<noteq> - 1
                 then tick_loop run_cb fztime cycles [0..<length (sch_list s)] s
                 else Inr s) of
             Inl e \<Rightarrow> Inl e
           | Inr s' \<Rightarrow> Inr (sh4_sched_ffts s'))"

text \<open>The scheduler's part of \<open>UpdateSystem_INTC\<close> (\<open>interpr/sh4_interpreter.cpp\<close>), run
  every \<^const>\<open>SH4_TIMESLICE\<close> cycles.\<close>

definition UpdateSystem_sched ::
  "('cb, ('cb, 'z) sched_st_scheme) run_cb \<Rightarrow> ('cb, 'z) sched_st_scheme
     \<Rightarrow> sched_err + ('cb, 'z) sched_st_scheme" where
  "UpdateSystem_sched run_cb s =
     (let s1 = s\<lparr>sh4_sched_next := sh4_sched_next s - SH4_TIMESLICE\<rparr>
      in if sint (sh4_sched_next s1) < 0 then sh4_sched_tick run_cb SH4_TIMESLICE s1 else Inr s1)"

definition sh4_sched_reset :: "bool \<Rightarrow> ('cb, 'z) sched_st_scheme \<Rightarrow> ('cb, 'z) sched_st_scheme" where
  "sh4_sched_reset hard s =
     (if hard
      then s\<lparr>sh4_sched_ffb := 0, sh4_sched_next_id := - 1,
             sch_list := map (\<lambda>sched. sched\<lparr>start := - 1, sched_end := - 1\<rparr>) (sch_list s),
             sh4_sched_next := 0\<rparr>
      else s)"

subsection \<open>Time\<close>

lemmas sched_consts = SH4_MAIN_CLOCK_def SH4_TIMESLICE_def

lemma sched_const_sint [simp]: "sint SH4_MAIN_CLOCK = 200000000" "sint SH4_TIMESLICE = 448"
  by (simp_all add: sched_consts)

lemma now_ucast: "sh4_sched_now s = ucast (sh4_sched_now64 s)"
  by (simp add: sh4_sched_now_def sh4_sched_now64_def)

lemma now_eq: "sh4_sched_now s = ucast (sh4_sched_ffb s) - sh4_sched_next s"
  by (simp add: sh4_sched_now_def ucast_minus_down64 ucast_scast_down64)

lemma ffts_now64 [simp]: "sh4_sched_now64 (sh4_sched_ffts s) = sh4_sched_now64 s"
  by (simp add: sh4_sched_ffts_def sh4_sched_now64_def Let_def split_beta)

lemma ffts_now [simp]: "sh4_sched_now (sh4_sched_ffts s) = sh4_sched_now s"
  by (simp add: now_ucast)

lemma ffts_sch_list [simp]: "sch_list (sh4_sched_ffts s) = sch_list s"
  by (simp add: sh4_sched_ffts_def Let_def split_beta)

lemma now64_sch_list [simp]: "sh4_sched_now64 (s\<lparr>sch_list := xs\<rparr>) = sh4_sched_now64 s"
  by (simp add: sh4_sched_now64_def)

lemma now_sch_list [simp]: "sh4_sched_now (s\<lparr>sch_list := xs\<rparr>) = sh4_sched_now s"
  by (simp add: now_ucast)

lemma request_now64: "sh4_sched_request i c s = Inr s' \<Longrightarrow> sh4_sched_now64 s' = sh4_sched_now64 s"
  by (auto simp: sh4_sched_request_def Let_def split: if_splits)

lemma elapsed_now64 [simp]: "sh4_sched_now64 (snd (sh4_sched_elapsed i s)) = sh4_sched_now64 s"
  by (simp add: sh4_sched_elapsed_def Let_def)

subsection \<open>The earliest event\<close>

lemma ffts_loop_spec:
  assumes "ffts_loop now i xs (slot, diff) = (slot', diff')"
  shows "diff' \<le> diff \<and> (\<forall>e \<in> set xs. diff' \<le> sh4_sched_remaining e now) \<and>
    ((slot' = slot \<and> diff' = diff) \<or>
     (\<exists>j < length xs. slot' = int (i + j) \<and> diff' = sh4_sched_remaining (xs ! j) now \<and> diff' < diff
        \<and> (\<forall>k < j. diff' < sh4_sched_remaining (xs ! k) now)))"
  using assms
proof (induction xs arbitrary: i slot diff)
  case Nil
  then show ?case by simp
next
  case (Cons e es)
  let ?r = "sh4_sched_remaining e now"
  show ?case
  proof (cases "?r < diff")
    case True
    with Cons.prems have "ffts_loop now (Suc i) es (int i, ?r) = (slot', diff')"
      by (simp add: Let_def)
    note IH = Cons.IH [OF this]
    then have bounds: "diff' \<le> ?r" "\<forall>e \<in> set es. diff' \<le> sh4_sched_remaining e now" by blast+
    from IH consider "slot' = int i" "diff' = ?r"
      | j where "j < length es" "slot' = int (Suc i + j)" "diff' < ?r"
        "diff' = sh4_sched_remaining (es ! j) now" "\<forall>k < j. diff' < sh4_sched_remaining (es ! k) now"
      by blast
    then show ?thesis
    proof cases
      case 1
      with True bounds show ?thesis by (intro conjI disjI2 exI [of _ 0]) auto
    next
      case 2
      then have "\<forall>k < Suc j. diff' < sh4_sched_remaining ((e # es) ! k) now"
        by (auto simp: less_Suc_eq_0_disj)
      with 2 True bounds show ?thesis by (intro conjI disjI2 exI [of _ "Suc j"]) auto
    qed
  next
    case False
    with Cons.prems have "ffts_loop now (Suc i) es (slot, diff) = (slot', diff')"
      by (simp add: Let_def)
    note IH = Cons.IH [OF this]
    then have bounds: "diff' \<le> diff" "\<forall>e \<in> set es. diff' \<le> sh4_sched_remaining e now" by blast+
    from IH consider "slot' = slot" "diff' = diff"
      | j where "j < length es" "slot' = int (Suc i + j)" "diff' < diff"
        "diff' = sh4_sched_remaining (es ! j) now" "\<forall>k < j. diff' < sh4_sched_remaining (es ! k) now"
      by blast
    then show ?thesis
    proof cases
      case 1
      with False bounds show ?thesis by auto
    next
      case 2
      then have "\<forall>k < Suc j. diff' < sh4_sched_remaining ((e # es) ! k) now"
        using False by (auto simp: less_Suc_eq_0_disj)
      with 2 False bounds show ?thesis by (intro conjI disjI2 exI [of _ "Suc j"]) auto
    qed
  qed
qed

lemma ffts_obtain:
  obtains slot diff where
    "ffts_loop (sh4_sched_now s) 0 (sch_list s) (- 1, - 1) = (slot, diff)"
    "sh4_sched_next_id (sh4_sched_ffts s) = slot"
    "sh4_sched_next (sh4_sched_ffts s) = (if slot \<noteq> - 1 then diff else SH4_MAIN_CLOCK)"
  by (cases "ffts_loop (sh4_sched_now s) 0 (sch_list s) (- 1, - 1)")
    (simp add: sh4_sched_ffts_def Let_def)

lemma ffts_choice:
  "(sh4_sched_next_id (sh4_sched_ffts s) = - 1 \<and> sh4_sched_next (sh4_sched_ffts s) = SH4_MAIN_CLOCK
      \<and> (\<forall>e \<in> set (sch_list s). sh4_sched_remaining e (sh4_sched_now s) = - 1)) \<or>
   (\<exists>j < length (sch_list s). sh4_sched_next_id (sh4_sched_ffts s) = int j
      \<and> sh4_sched_next (sh4_sched_ffts s) = sh4_sched_remaining (sch_list s ! j) (sh4_sched_now s)
      \<and> sh4_sched_next (sh4_sched_ffts s) \<noteq> - 1
      \<and> (\<forall>e \<in> set (sch_list s).
           sh4_sched_next (sh4_sched_ffts s) \<le> sh4_sched_remaining e (sh4_sched_now s))
      \<and> (\<forall>k < j. sh4_sched_next (sh4_sched_ffts s)
           < sh4_sched_remaining (sch_list s ! k) (sh4_sched_now s)))"
proof -
  obtain slot diff where
    loop: "ffts_loop (sh4_sched_now s) 0 (sch_list s) (- 1, - 1) = (slot, diff)" and
    res: "sh4_sched_next_id (sh4_sched_ffts s) = slot"
      "sh4_sched_next (sh4_sched_ffts s) = (if slot \<noteq> - 1 then diff else SH4_MAIN_CLOCK)"
    by (rule ffts_obtain)
  note spec = ffts_loop_spec [OF loop]
  show ?thesis
  proof (cases "slot = - 1")
    case True
    with spec have "diff = - 1" by auto
    moreover have "\<forall>e \<in> set (sch_list s). diff \<le> sh4_sched_remaining e (sh4_sched_now s)"
      using spec by blast
    ultimately have "\<forall>e \<in> set (sch_list s). sh4_sched_remaining e (sh4_sched_now s) = - 1"
      by (simp add: word_order.extremum_unique)
    with True res show ?thesis by simp
  next
    case False
    with spec obtain j where "j < length (sch_list s)" "slot = int j" "diff < - 1"
      "diff = sh4_sched_remaining (sch_list s ! j) (sh4_sched_now s)"
      "\<forall>k < j. diff < sh4_sched_remaining (sch_list s ! k) (sh4_sched_now s)"
      by auto
    with False res spec show ?thesis by auto
  qed
qed

subsection \<open>Deadlines\<close>

text \<open>
  \<open>left s e\<close> is the number of cycles until the deadline of a scheduled slot, negative when
  it has passed. The invariant says that no deadline has passed, that none is further away
  than the largest request, that the countdown \<open>sh4_sched_next\<close> runs out no later than the
  first deadline, and that a slot with no callback is not scheduled. Inside a tick the
  deadlines of the current slice have passed, by at most one slice: \<open>sched_ok (- 448)\<close>.
\<close>

definition scheduled :: "'cb sched_list \<Rightarrow> bool" where
  "scheduled e \<longleftrightarrow> sched_end e \<noteq> - 1"

definition left :: "('cb, 'z) sched_st_scheme \<Rightarrow> 'cb sched_list \<Rightarrow> int" where
  "left s e = sint (sched_end e - sh4_sched_now s)"

definition sched_ok :: "int \<Rightarrow> ('cb, 'z) sched_st_scheme \<Rightarrow> bool" where
  "sched_ok lo s \<longleftrightarrow> (\<forall>e \<in> set (sch_list s). scheduled e \<longrightarrow>
     lo \<le> left s e \<and> left s e \<le> 200000001 \<and> cb e \<noteq> None)"

definition sched_inv :: "('cb, 'z) sched_st_scheme \<Rightarrow> bool" where
  "sched_inv s \<longleftrightarrow> sched_ok 0 s
     \<and> 0 \<le> sint (sh4_sched_next s) \<and> sint (sh4_sched_next s) \<le> 200000001
     \<and> (\<forall>e \<in> set (sch_list s). scheduled e \<longrightarrow>
          sint (sh4_sched_next s) \<le> left s e \<and> sh4_sched_next_id s \<noteq> - 1)"

lemma sched_okI:
  assumes "\<And>i. i < length (sch_list s) \<Longrightarrow> scheduled (sch_list s ! i) \<Longrightarrow>
    lo \<le> left s (sch_list s ! i) \<and> left s (sch_list s ! i) \<le> 200000001
      \<and> cb (sch_list s ! i) \<noteq> None"
  shows "sched_ok lo s"
  using assms by (force simp: sched_ok_def in_set_conv_nth)

lemma sched_okD:
  "sched_ok lo s \<Longrightarrow> i < length (sch_list s) \<Longrightarrow> scheduled (sch_list s ! i) \<Longrightarrow>
    lo \<le> left s (sch_list s ! i) \<and> left s (sch_list s ! i) \<le> 200000001
      \<and> cb (sch_list s ! i) \<noteq> None"
  by (simp add: sched_ok_def)

lemma remaining_scheduled: "scheduled e \<Longrightarrow> sh4_sched_remaining e r = sched_end e - r"
  by (simp add: scheduled_def sh4_sched_remaining_def)

lemma ffts_left [simp]: "left (sh4_sched_ffts s) e = left s e"
  by (simp add: left_def)

lemma left_sch_list [simp]: "left (s\<lparr>sch_list := xs\<rparr>) e = left s e"
  by (simp add: left_def)

lemma left_now64: "sh4_sched_now64 s' = sh4_sched_now64 s \<Longrightarrow> left s' e = left s e"
  by (simp add: left_def now_ucast)

lemma sched_ok_ffts [simp]: "sched_ok lo (sh4_sched_ffts s) = sched_ok lo s"
  by (simp add: sched_ok_def)

text \<open>Finding the earliest event establishes the invariant.\<close>

lemma ffts_establishes_inv:
  assumes ok: "sched_ok 0 s"
  shows "sched_inv (sh4_sched_ffts s)"
proof -
  have rem: "uint (sh4_sched_remaining e (sh4_sched_now s)) = left s e"
    "sint (sh4_sched_remaining e (sh4_sched_now s)) = left s e"
    if "e \<in> set (sch_list s)" "scheduled e" for e
    using ok that by (auto simp: sched_ok_def left_def remaining_scheduled uint32_nonneg_sint)
  have not_m1: "sh4_sched_remaining e (sh4_sched_now s) \<noteq> - 1"
    if "e \<in> set (sch_list s)" "scheduled e" for e
    using rem(2) [OF that] ok that by (auto simp: sched_ok_def)
  consider (none) "sh4_sched_next (sh4_sched_ffts s) = SH4_MAIN_CLOCK"
      "\<forall>e \<in> set (sch_list s). \<not> scheduled e"
    | (some) j where "j < length (sch_list s)" "scheduled (sch_list s ! j)"
      "sh4_sched_next_id (sh4_sched_ffts s) = int j"
      "sh4_sched_next (sh4_sched_ffts s) = sh4_sched_remaining (sch_list s ! j) (sh4_sched_now s)"
      "\<forall>e \<in> set (sch_list s).
         sh4_sched_next (sh4_sched_ffts s) \<le> sh4_sched_remaining e (sh4_sched_now s)"
  proof (rule disjE [OF ffts_choice [of s]], goal_cases)
    case 1
    then show ?case using not_m1 by blast
  next
    case 2
    then obtain j where j: "j < length (sch_list s)" "sh4_sched_next_id (sh4_sched_ffts s) = int j"
      "sh4_sched_next (sh4_sched_ffts s) = sh4_sched_remaining (sch_list s ! j) (sh4_sched_now s)"
      "sh4_sched_next (sh4_sched_ffts s) \<noteq> - 1"
      "\<forall>e \<in> set (sch_list s).
         sh4_sched_next (sh4_sched_ffts s) \<le> sh4_sched_remaining e (sh4_sched_now s)"
      by blast
    then have "scheduled (sch_list s ! j)"
      by (auto simp: sh4_sched_remaining_def scheduled_def)
    with 2 j show ?case by blast
  qed
  then show ?thesis
  proof cases
    case none
    then show ?thesis using ok by (simp add: sched_inv_def)
  next
    case some
    let ?n = "sh4_sched_next (sh4_sched_ffts s)"
    have j: "sch_list s ! j \<in> set (sch_list s)" using some(1) by simp
    then have n: "sint ?n = left s (sch_list s ! j)" "uint ?n = left s (sch_list s ! j)"
      using rem some by simp_all
    have "sint ?n \<le> left s e" if "e \<in> set (sch_list s)" "scheduled e" for e
    proof -
      have "?n \<le> sh4_sched_remaining e (sh4_sched_now s)" using some(5) that(1) by blast
      then show ?thesis using n rem(1) [OF that] by (simp add: word_le_def)
    qed
    moreover have "0 \<le> sint ?n \<and> sint ?n \<le> 200000001"
      using n ok j some(2) by (auto simp: sched_ok_def)
    ultimately show ?thesis using ok some by (auto simp: sched_inv_def)
  qed
qed

subsection \<open>Requests\<close>

lemma request_Inr:
  assumes "sh4_sched_request i c s = Inr s'"
  obtains e where "i < length (sch_list s)" "s' = sh4_sched_ffts (s\<lparr>sch_list := (sch_list s)[i := e]\<rparr>)"
    "cb e = cb (sch_list s ! i)" "tag e = tag (sch_list s ! i)" "start e = sh4_sched_now s"
    "c = - 1 \<Longrightarrow> \<not> scheduled e"
    "c \<noteq> - 1 \<Longrightarrow> scheduled e \<and> 0 \<le> sint c \<and> sint c \<le> 200000000
       \<and> (left s e = sint c \<or> left s e = sint c + 1)"
proof -
  let ?now = "sh4_sched_now s"
  let ?e = "let sched = (sch_list s ! i)\<lparr>start := ?now\<rparr>
    in if c = - 1 then sched\<lparr>sched_end := - 1\<rparr>
       else let sched2 = sched\<lparr>sched_end := start sched + c\<rparr>
            in if sched_end sched2 = - 1 then sched2\<lparr>sched_end := sched_end sched2 + 1\<rparr> else sched2"
  have c: "c = - 1 \<or> (0 \<le> sint c \<and> sint c \<le> 200000000)" and i: "i < length (sch_list s)"
    and s': "s' = sh4_sched_ffts (s\<lparr>sch_list := (sch_list s)[i := ?e]\<rparr>)"
    using assms by (auto simp: sh4_sched_request_def Let_def split: if_splits)
  have "scheduled ?e \<and> (left s ?e = sint c \<or> left s ?e = sint c + 1)" if "c \<noteq> - 1"
  proof -
    have "0 - ?now = c + 1" if "?now + c = - 1"
    proof -
      have "0 - ?now = (?now + c) + 1 - ?now" using that by simp
      then show ?thesis by simp
    qed
    moreover have "sint (c + 1) = sint c + 1"
      using c that by (subst sint_add32) auto
    ultimately show ?thesis
      using that by (auto simp: scheduled_def left_def Let_def)
  qed
  with c show ?thesis
    by (intro that [OF i s']) (auto simp: Let_def scheduled_def)
qed

text \<open>A valid request never fails, keeps the invariant, and sets the deadline \<open>c\<close> cycles
  from now, one more when that time would collide with the marker of an idle slot.\<close>

lemma request_total:
  assumes "0 \<le> sint c" "sint c \<le> 200000000" "i < length (sch_list s)"
  shows "\<exists>s'. sh4_sched_request i c s = Inr s'"
  using assms by (auto simp: sh4_sched_request_def Let_def)

subsection \<open>What a callback may do\<close>

text \<open>
  A callback runs inside the tick. It may request and cancel events but keeps the time, the
  number of slots, their callbacks and tags; a deadline it leaves is the old one or a new one
  that has not passed.
\<close>

definition slot_frame ::
  "('cb, 'z) sched_st_scheme \<Rightarrow> 'cb sched_list \<Rightarrow> 'cb sched_list \<Rightarrow> bool" where
  "slot_frame s e e' \<longleftrightarrow> cb e' = cb e \<and> tag e' = tag e \<and>
     (scheduled e' \<longrightarrow> sched_end e' = sched_end e
        \<or> 0 \<le> left s e' \<and> left s e' \<le> 200000001 \<and> cb e \<noteq> None)"

definition cb_frame ::
  "('cb, 'z) sched_st_scheme \<Rightarrow> ('cb, 'z) sched_st_scheme \<Rightarrow> bool" where
  "cb_frame s s' \<longleftrightarrow> sh4_sched_now64 s' = sh4_sched_now64 s
     \<and> list_all2 (slot_frame s) (sch_list s) (sch_list s')"

lemma left_cong: "sh4_sched_now64 s' = sh4_sched_now64 s \<Longrightarrow> left s' = left s"
  by (simp add: fun_eq_iff left_def now_ucast)

lemma slot_frame_cong: "sh4_sched_now64 s' = sh4_sched_now64 s \<Longrightarrow> slot_frame s' = slot_frame s"
  by (drule left_cong) (simp add: fun_eq_iff slot_frame_def)

lemma slot_frame_refl [simp]: "slot_frame s e e"
  by (simp add: slot_frame_def)

lemma slot_frame_trans: "slot_frame s a b \<Longrightarrow> slot_frame s b c \<Longrightarrow> slot_frame s a c"
  by (auto simp: slot_frame_def scheduled_def left_def)

lemma cb_frame_refl [simp]: "cb_frame s s"
  by (simp add: cb_frame_def list_all2_refl)

lemma cb_frame_now: "cb_frame s s' \<Longrightarrow> sh4_sched_now64 s' = sh4_sched_now64 s"
  by (simp add: cb_frame_def)

lemma cb_frame_length: "cb_frame s s' \<Longrightarrow> length (sch_list s') = length (sch_list s)"
  by (auto simp: cb_frame_def dest: list_all2_lengthD)

lemma cb_frame_left: "cb_frame s s' \<Longrightarrow> left s' = left s"
  by (rule left_cong) (rule cb_frame_now)

lemma cb_frame_slot:
  "cb_frame s s' \<Longrightarrow> i < length (sch_list s) \<Longrightarrow> slot_frame s (sch_list s ! i) (sch_list s' ! i)"
  by (auto simp: cb_frame_def list_all2_conv_all_nth)

lemma cb_frame_trans:
  assumes "cb_frame s s1" "cb_frame s1 s2"
  shows "cb_frame s s2"
proof -
  have "slot_frame s1 = slot_frame s"
    by (rule slot_frame_cong) (rule cb_frame_now [OF assms(1)])
  then have "list_all2 (slot_frame s) (sch_list s) (sch_list s1)"
    "list_all2 (slot_frame s) (sch_list s1) (sch_list s2)"
    using assms by (simp_all add: cb_frame_def)
  then have "list_all2 (slot_frame s) (sch_list s) (sch_list s2)"
    by (rule list_all2_trans [rotated]) (rule slot_frame_trans)
  with assms show ?thesis by (simp add: cb_frame_def)
qed

lemma cb_frame_ok:
  assumes "cb_frame s s'" "sched_ok lo s" "lo \<le> 0"
  shows "sched_ok lo s'"
proof (rule sched_okI)
  fix i
  assume "i < length (sch_list s')" and sch: "scheduled (sch_list s' ! i)"
  then have i: "i < length (sch_list s)" using assms(1) by (simp add: cb_frame_length)
  have "slot_frame s (sch_list s ! i) (sch_list s' ! i)"
    using assms(1) i by (rule cb_frame_slot)
  then show "lo \<le> left s' (sch_list s' ! i) \<and> left s' (sch_list s' ! i) \<le> 200000001
      \<and> cb (sch_list s' ! i) \<noteq> None"
    using sch sched_okD [OF assms(2) i] assms(3)
    by (auto simp: cb_frame_left [OF assms(1)] slot_frame_def scheduled_def left_def)
qed

lemma cb_frame_update:
  "i < length (sch_list s) \<Longrightarrow> slot_frame s (sch_list s ! i) e \<Longrightarrow>
    cb_frame s (s\<lparr>sch_list := (sch_list s)[i := e]\<rparr>)"
  by (auto simp: cb_frame_def list_all2_conv_all_nth nth_list_update)

lemma cb_frame_ffts [simp]: "cb_frame s (sh4_sched_ffts s') = cb_frame s s'"
  by (simp add: cb_frame_def)

text \<open>What is registered where, which neither time nor requests change.\<close>

definition slots :: "('cb, 'z) sched_st_scheme \<Rightarrow> ('cb option \<times> u32) list" where
  "slots s = map (\<lambda>e. (cb e, tag e)) (sch_list s)"

lemma cb_frame_slots:
  assumes "cb_frame s s'"
  shows "slots s' = slots s"
proof (rule nth_equalityI)
  show "length (slots s') = length (slots s)" using cb_frame_length [OF assms] by (simp add: slots_def)
  show "slots s' ! i = slots s ! i" if "i < length (slots s')" for i
    using that cb_frame_slot [OF assms, of i] cb_frame_length [OF assms]
    by (simp add: slots_def slot_frame_def)
qed

lemma slots_nth: "i < length (sch_list s) \<Longrightarrow> slots s ! i = (cb (sch_list s ! i), tag (sch_list s ! i))"
  by (simp add: slots_def)

lemma length_slots [simp]: "length (slots s) = length (sch_list s)"
  by (simp add: slots_def)

lemma slots_same [simp]:
  "slots (sh4_sched_ffts s) = slots s" "slots (s\<lparr>sh4_sched_next := v\<rparr>) = slots s"
  by (simp_all add: slots_def)

lemma slots_update:
  "cb e = cb (sch_list s ! i) \<Longrightarrow> tag e = tag (sch_list s ! i) \<Longrightarrow>
     slots (s\<lparr>sch_list := (sch_list s)[i := e]\<rparr>) = slots s"
  by (cases "i < length (sch_list s)")
    (simp_all add: slots_def list_eq_iff_nth_eq nth_list_update)

lemma request_slots: "sh4_sched_request i c s = Inr s' \<Longrightarrow> slots s' = slots s"
  by (erule request_Inr) (simp add: slots_update)

lemma ffts_more: "sched_st.more (sh4_sched_ffts s) = sched_st.more s"
  by (simp add: sh4_sched_ffts_def Let_def split_beta)

lemma request_more: "sh4_sched_request i c s = Inr s' \<Longrightarrow> sched_st.more s' = sched_st.more s"
  by (auto simp: sh4_sched_request_def sh4_sched_ffts_def Let_def split_beta split: if_splits)

lemma request_frame:
  assumes "sh4_sched_request i c s = Inr s'" "cb (sch_list s ! i) \<noteq> None"
  shows "cb_frame s s'"
proof -
  from assms(1) obtain e where e: "i < length (sch_list s)"
    "s' = sh4_sched_ffts (s\<lparr>sch_list := (sch_list s)[i := e]\<rparr>)"
    "cb e = cb (sch_list s ! i)" "tag e = tag (sch_list s ! i)" "c = - 1 \<Longrightarrow> \<not> scheduled e"
    "c \<noteq> - 1 \<Longrightarrow> scheduled e \<and> 0 \<le> sint c \<and> sint c \<le> 200000000
       \<and> (left s e = sint c \<or> left s e = sint c + 1)"
    by (rule request_Inr) blast
  then have "slot_frame s (sch_list s ! i) e"
    using assms(2) by (cases "c = - 1") (auto simp: slot_frame_def)
  with e(1,2) show ?thesis
    by (simp add: cb_frame_update)
qed

subsection \<open>Ticks\<close>

text \<open>A callback that insists on the jitter the header \<open>sh4_sched.h\<close> promises it
  (\<open>[0... 448]\<close>): it fails on any other.\<close>

definition guard_jitter :: "('cb, 's) run_cb \<Rightarrow> ('cb, 's) run_cb" where
  "guard_jitter run_cb c tg rm j s =
     (if 0 \<le> sint j \<and> sint j \<le> 448 then run_cb c tg rm j s else Inl VerifyFailed)"

lemma guard_jitter_Inr: "guard_jitter run_cb c tg rm j s = Inr x \<Longrightarrow> run_cb c tg rm j s = Inr x"
  by (auto simp: guard_jitter_def split: if_splits)

lemma handle_cb_guard:
  "handle_cb (guard_jitter run_cb) i s = Inr s' \<Longrightarrow> handle_cb run_cb i s = Inr s'"
  by (auto simp: handle_cb_def Let_def split_beta dest!: guard_jitter_Inr
      split: option.splits sum.splits prod.splits)

lemma tick_loop_guard:
  "tick_loop (guard_jitter run_cb) fz c is s = Inr s' \<Longrightarrow> tick_loop run_cb fz c is s = Inr s'"
  by (induction "is" arbitrary: s)
    (auto simp: Let_def split: if_splits sum.splits dest: handle_cb_guard)

lemma timeslice_guard:
  "UpdateSystem_sched (guard_jitter run_cb) s = Inr s' \<Longrightarrow> UpdateSystem_sched run_cb s = Inr s'"
  by (auto simp: UpdateSystem_sched_def sh4_sched_tick_def Let_def
      split: if_splits sum.splits dest: tick_loop_guard)

text \<open>
  The contract between the scheduler and the devices whose callbacks it runs. \<open>good\<close> is
  what the devices rely on: it depends on the rest of the program's state and on what is
  registered only, so the scheduler's own bookkeeping cannot break it.
\<close>

locale sched_callbacks =
  fixes run_cb :: "('cb, ('cb, 'z) sched_st_scheme) run_cb"
    and good :: "('cb, 'z) sched_st_scheme \<Rightarrow> bool"
  assumes good_sched: "good s \<Longrightarrow> sched_st.more s' = sched_st.more s
      \<Longrightarrow> slots s' = slots s \<Longrightarrow> good s'"
    and cb_returns: "sched_ok (- 448) s \<Longrightarrow> good s \<Longrightarrow> (Some c, tg) \<in> set (slots s)
      \<Longrightarrow> 0 \<le> sint j \<Longrightarrow> sint j \<le> 448 \<Longrightarrow> \<exists>r s'. run_cb c tg rm j s = Inr (r, s')"
    and cb_keeps: "run_cb c tg rm j s = Inr (r, s') \<Longrightarrow> sched_ok (- 448) s \<Longrightarrow> good s
      \<Longrightarrow> (Some c, tg) \<in> set (slots s) \<Longrightarrow> cb_frame s s' \<and> good s' \<and> sint r \<le> 200000000"
begin

lemma request_good:
  assumes "sh4_sched_request i c s = Inr s'" "good s"
  shows "good s'"
  using assms(2)
proof (rule good_sched)
  show "sched_st.more s' = sched_st.more s" using assms(1) by (rule request_more)
  show "slots s' = slots s" using assms(1) by (rule request_slots)
qed

lemma jitter_eq: "(now - st) - (en - st) = now - (en::u32)"
  by simp

text \<open>A due slot: its callback runs, its old deadline is gone afterwards, and every other
  slot is as the callback leaves it.\<close>

lemma handle_due:
  assumes ok: "sched_ok (- 448) s" and g: "good s" and i: "i < length (sch_list s)"
    and sch: "scheduled (sch_list s ! i)" and due: "left s (sch_list s ! i) \<le> 0"
  shows "\<exists>s'. handle_cb run_cb i s = Inr s' \<and> cb_frame s s' \<and> good s'
    \<and> (scheduled (sch_list s' ! i) \<longrightarrow> 0 \<le> left s' (sch_list s' ! i))"
proof -
  let ?e = "sch_list s ! i"
  let ?now = "sh4_sched_now s"
  let ?s2 = "s\<lparr>sch_list := (sch_list s)[i := ?e\<lparr>start := ?now, sched_end := - 1\<rparr>]\<rparr>"
  obtain c where c: "cb ?e = Some c" and lo: "- 448 \<le> left s ?e"
    using sched_okD [OF ok i sch] by auto
  have jit: "sint (?now - sched_end ?e) = - left s ?e"
  proof -
    have "?now - sched_end ?e = 0 - (sched_end ?e - ?now)" by simp
    also have "sint \<dots> = sint (0::u32) - sint (sched_end ?e - ?now)"
      using lo due by (intro sint_sub32) (simp_all add: left_def)
    finally show ?thesis by (simp add: left_def)
  qed
  have f2: "cb_frame s ?s2"
    using i by (rule cb_frame_update) (simp add: slot_frame_def scheduled_def)
  then have ok2: "sched_ok (- 448) ?s2" using ok by (rule cb_frame_ok) simp
  have sl2: "slots ?s2 = slots s" by (rule slots_update) simp_all
  have g2: "good ?s2" using g by (rule good_sched) (simp, rule sl2)
  have reg: "(Some c, tag ?e) \<in> set (slots ?s2)"
    unfolding sl2 using slots_nth [OF i] c i by (metis length_slots nth_mem)
  obtain r s3 where run: "run_cb c (tag ?e) (sched_end ?e - start ?e) (?now - sched_end ?e) ?s2 = Inr (r, s3)"
    using cb_returns [OF ok2 g2 reg, of "?now - sched_end ?e" "sched_end ?e - start ?e"] jit lo due
    by auto
  from cb_keeps [OF run ok2 g2 reg] have f3: "cb_frame ?s2 s3" and g3: "good s3"
    and r: "sint r \<le> 200000000" by simp_all
  have i2: "i < length (sch_list ?s2)" "sch_list ?s2 ! i = ?e\<lparr>start := ?now, sched_end := - 1\<rparr>"
    using i by simp_all
  have slot3: "slot_frame ?s2 (?e\<lparr>start := ?now, sched_end := - 1\<rparr>) (sch_list s3 ! i)"
    using cb_frame_slot [OF f3 i2(1)] i2(2) by simp
  then have fresh3: "scheduled (sch_list s3 ! i) \<longrightarrow> 0 \<le> left s3 (sch_list s3 ! i)"
    by (auto simp: slot_frame_def scheduled_def cb_frame_left [OF f3])
  have cb3: "cb (sch_list s3 ! i) = Some c"
    using slot3 c by (simp add: slot_frame_def)
  have step: "handle_cb run_cb i s =
      (if 0 < sint r
       then sh4_sched_request i
              (if 0 < sint (r - (?now - sched_end ?e)) then r - (?now - sched_end ?e) else 0) s3
       else Inr s3)"
    using c i sch run
    by (simp add: handle_cb_def sh4_sched_elapsed_def scheduled_def Let_def jitter_eq)
  show ?thesis
  proof (cases "0 < sint r")
    case False
    with step f2 f3 g3 fresh3 show ?thesis by (auto intro: cb_frame_trans)
  next
    case True
    let ?d = "r - (?now - sched_end ?e)"
    have "sint ?d = sint r - sint (?now - sched_end ?e)"
      using True r jit lo due by (intro sint_sub32) simp_all
    then have d: "0 \<le> sint (if 0 < sint ?d then ?d else 0)"
      "sint (if 0 < sint ?d then ?d else 0) \<le> 200000000"
      using r jit lo due by auto
    have i3: "i < length (sch_list s3)" using i f3 by (simp add: cb_frame_length)
    obtain s' where req: "sh4_sched_request i (if 0 < sint ?d then ?d else 0) s3 = Inr s'"
      using request_total [OF d i3] by blast
    have f4: "cb_frame s3 s'" by (rule request_frame [OF req]) (simp add: cb3)
    have "slot_frame s3 (sch_list s3 ! i) (sch_list s' ! i)" using f4 i3 by (rule cb_frame_slot)
    then have "scheduled (sch_list s' ! i) \<longrightarrow> 0 \<le> left s' (sch_list s' ! i)"
      using fresh3 by (auto simp: slot_frame_def scheduled_def left_def cb_frame_left [OF f4])
    then show ?thesis
      using step True req request_good [OF req g3] cb_frame_trans [OF cb_frame_trans [OF f2 f3] f4]
      by simp
  qed
qed

text \<open>The loop of the tick visits each slot once; when it is done no deadline has passed.\<close>

lemma tick_loop_catches_up:
  assumes "sched_ok (- 448) s" "good s" "fztime = sh4_sched_now s - SH4_TIMESLICE"
    and "set is \<subseteq> {0..<length (sch_list s)}" "distinct is"
    and "\<And>i. i < length (sch_list s) \<Longrightarrow> i \<notin> set is \<Longrightarrow> scheduled (sch_list s ! i)
      \<Longrightarrow> 0 \<le> left s (sch_list s ! i)"
  shows "\<exists>s'. tick_loop run_cb fztime SH4_TIMESLICE is s = Inr s' \<and> cb_frame s s' \<and> good s'
    \<and> sched_ok 0 s'"
  using assms
proof (induction "is" arbitrary: s)
  case Nil
  then have "sched_ok 0 s"
    by (intro sched_okI) (auto dest: sched_okD)
  with Nil show ?case by simp
next
  case (Cons i "is")
  let ?e = "sch_list s ! i"
  let ?rem = "sh4_sched_remaining ?e fztime"
  have i: "i < length (sch_list s)" using Cons.prems(4) by simp
  have rem: "sint ?rem = left s ?e + 448" if "scheduled ?e"
  proof -
    have "?rem = (sched_end ?e - sh4_sched_now s) + SH4_TIMESLICE"
      using that Cons.prems(3) by (simp add: remaining_scheduled)
    moreover have "- 448 \<le> left s ?e" "left s ?e \<le> 200000001"
      using sched_okD [OF Cons.prems(1) i that] by simp_all
    ultimately show ?thesis by (simp add: sint_add32 left_def)
  qed
  show ?case
  proof (cases "scheduled ?e \<and> left s ?e \<le> 0")
    case True
    then obtain s1 where h: "handle_cb run_cb i s = Inr s1" "cb_frame s s1" "good s1"
      "scheduled (sch_list s1 ! i) \<longrightarrow> 0 \<le> left s1 (sch_list s1 ! i)"
      using handle_due [OF Cons.prems(1,2) i] by blast
    have len: "length (sch_list s1) = length (sch_list s)" using h(2) by (rule cb_frame_length)
    have "\<exists>s'. tick_loop run_cb fztime SH4_TIMESLICE is s1 = Inr s' \<and> cb_frame s1 s' \<and> good s'
        \<and> sched_ok 0 s'"
    proof (rule Cons.IH)
      show "sched_ok (- 448) s1" using h(2) Cons.prems(1) by (rule cb_frame_ok) simp
      show "fztime = sh4_sched_now s1 - SH4_TIMESLICE"
        using Cons.prems(3) cb_frame_now [OF h(2)] by (simp add: now_ucast)
      show "0 \<le> left s1 (sch_list s1 ! k)"
        if k: "k < length (sch_list s1)" "k \<notin> set is" "scheduled (sch_list s1 ! k)" for k
      proof (cases "k = i")
        case False
        have "slot_frame s (sch_list s ! k) (sch_list s1 ! k)"
          using h(2) k(1) len by (intro cb_frame_slot) simp_all
        then show ?thesis
          using Cons.prems(6) [of k] False k len
          by (auto simp: slot_frame_def scheduled_def left_def cb_frame_left [OF h(2)])
      qed (use k h(4) in simp)
    qed (use Cons.prems h len in auto)
    then obtain s' where s': "tick_loop run_cb fztime SH4_TIMESLICE is s1 = Inr s'" "cb_frame s1 s'"
      "good s'" "sched_ok 0 s'" by blast
    have "tick_loop run_cb fztime SH4_TIMESLICE (i # is) s = Inr s'"
      using i h(1) s'(1) True rem sched_okD [OF Cons.prems(1) i] by simp
    then show ?thesis using s' cb_frame_trans [OF h(2) s'(2)] by blast
  next
    case False
    then have not_due: "\<not> (0 \<le> sint ?rem \<and> sint ?rem \<le> 448)"
    proof (cases "scheduled ?e")
      case True
      with False rem show ?thesis by simp
    next
      case False
      then have "?rem = - 1" by (simp add: sh4_sched_remaining_def scheduled_def)
      then show ?thesis by simp
    qed
    have "\<exists>s'. tick_loop run_cb fztime SH4_TIMESLICE is s = Inr s' \<and> cb_frame s s' \<and> good s'
        \<and> sched_ok 0 s'"
    proof (rule Cons.IH)
      show "0 \<le> left s (sch_list s ! k)"
        if "k < length (sch_list s)" "k \<notin> set is" "scheduled (sch_list s ! k)" for k
        using that False Cons.prems(6) [of k] by (cases "k = i") auto
    qed (use Cons.prems in auto)
    then show ?thesis using i not_due by auto
  qed
qed

text \<open>One time slice of the CPU loop: no error, the clock advances by exactly one slice, the
  invariant holds again, and a deadline that is still the old one lies in the future.\<close>

lemma timeslice:
  assumes inv: "sched_inv s" and g: "good s"
  shows "\<exists>s'. UpdateSystem_sched run_cb s = Inr s' \<and> sched_inv s' \<and> good s'
    \<and> sh4_sched_now64 s' = sh4_sched_now64 s + 448
    \<and> length (sch_list s') = length (sch_list s)
    \<and> (\<forall>i < length (sch_list s). cb (sch_list s' ! i) = cb (sch_list s ! i)
         \<and> (scheduled (sch_list s' ! i) \<longrightarrow>
              sched_end (sch_list s' ! i) = sched_end (sch_list s ! i) \<or> 0 \<le> left s' (sch_list s' ! i)))"
proof -
  let ?s1 = "s\<lparr>sh4_sched_next := sh4_sched_next s - SH4_TIMESLICE\<rparr>"
  have nx: "0 \<le> sint (sh4_sched_next s)" "sint (sh4_sched_next s) \<le> 200000001"
    using inv by (simp_all add: sched_inv_def)
  have nx1: "sint (sh4_sched_next ?s1) = sint (sh4_sched_next s) - 448"
    using nx by (simp add: sint_sub32)
  have now1: "sh4_sched_now64 ?s1 = sh4_sched_now64 s + 448"
  proof -
    have "(scast (sh4_sched_next s - SH4_TIMESLICE) :: u64) = scast (sh4_sched_next s) - 448"
      by (rule word_sint_eqI_64) (use nx nx1 in \<open>simp add: sint_scast64 sint_sub64\<close>)
    then show ?thesis by (simp add: sh4_sched_now64_def)
  qed
  have left1: "left ?s1 e = left s e - 448" if "e \<in> set (sch_list s)" "scheduled e" for e
  proof -
    have "sh4_sched_now ?s1 = sh4_sched_now s + SH4_TIMESLICE"
      by (simp add: now_eq)
    then have "left ?s1 e = sint ((sched_end e - sh4_sched_now s) - SH4_TIMESLICE)"
      by (simp add: left_def diff_diff_eq)
    also have "\<dots> = sint (sched_end e - sh4_sched_now s) - sint SH4_TIMESLICE"
      using inv that by (intro sint_sub32) (auto simp: sched_inv_def sched_ok_def left_def)
    finally show ?thesis by (simp add: left_def)
  qed
  have ok1: "sched_ok (- 448) ?s1"
    using inv left1 by (fastforce simp: sched_inv_def sched_ok_def)
  have g1: "good ?s1" using g by (rule good_sched) simp_all
  have frame: "cb (sch_list s' ! i) = cb (sch_list s ! i)
      \<and> (scheduled (sch_list s' ! i) \<longrightarrow>
           sched_end (sch_list s' ! i) = sched_end (sch_list s ! i) \<or> 0 \<le> left s' (sch_list s' ! i))"
    if "cb_frame ?s1 s'" "i < length (sch_list s)" for s' i
    using cb_frame_slot [OF that(1), of i] that(2) cb_frame_left [OF that(1)]
    by (auto simp: slot_frame_def)
  show ?thesis
  proof (cases "sint (sh4_sched_next ?s1) < 0")
    case False
    then have "UpdateSystem_sched run_cb s = Inr ?s1" by (simp add: UpdateSystem_sched_def)
    moreover have "sched_inv ?s1"
      using inv False nx nx1 left1 by (fastforce simp: sched_inv_def sched_ok_def)
    ultimately show ?thesis using g1 now1 by auto
  next
    case True
    have fz: "sh4_sched_now ?s1 - SH4_TIMESLICE = sh4_sched_now ?s1 - SH4_TIMESLICE" ..
    obtain s2 where s2: "cb_frame ?s1 s2" "good s2" "sched_ok 0 s2"
      "(if sh4_sched_next_id ?s1 \<noteq> - 1
        then tick_loop run_cb (sh4_sched_now ?s1 - SH4_TIMESLICE) SH4_TIMESLICE
               [0..<length (sch_list ?s1)] ?s1
        else Inr ?s1) = Inr s2"
    proof (cases "sh4_sched_next_id s = - 1")
      case True
      then have "sched_ok 0 ?s1" using inv by (auto simp: sched_inv_def sched_ok_def)
      with True g1 show ?thesis by (intro that [of ?s1]) simp_all
    next
      case False
      with tick_loop_catches_up [OF ok1 g1 fz, of "[0..<length (sch_list ?s1)]"] show ?thesis
        using that by auto
    qed
    then have "UpdateSystem_sched run_cb s = Inr (sh4_sched_ffts s2)"
      using True by (simp add: UpdateSystem_sched_def sh4_sched_tick_def Let_def)
    moreover have "sched_inv (sh4_sched_ffts s2)" using s2(3) by (rule ffts_establishes_inv)
    moreover have "good (sh4_sched_ffts s2)"
      using s2(2) by (rule good_sched) (simp_all add: ffts_more)
    moreover have "sh4_sched_now64 s2 = sh4_sched_now64 s + 448"
      using cb_frame_now [OF s2(1)] now1 by simp
    moreover have "length (sch_list s2) = length (sch_list s)"
      using cb_frame_length [OF s2(1)] by simp
    ultimately show ?thesis using frame [OF s2(1)] by simp
  qed
qed

text \<open>The guarded callbacks satisfy the same contract, so no callback of a tick sees a jitter
  outside the promised range: the guarded slice is the slice.\<close>

lemma guarded: "sched_callbacks (guard_jitter run_cb) good"
proof
  show "\<exists>r s'. guard_jitter run_cb c tg rm j s = Inr (r, s')"
    if "sched_ok (- 448) s" "good s" "(Some c, tg) \<in> set (slots s)" "0 \<le> sint j" "sint j \<le> 448"
    for s j c tg rm
    using cb_returns [OF that, of rm] that(4,5) by (simp add: guard_jitter_def)
  show "cb_frame s s' \<and> good s' \<and> sint r \<le> 200000000"
    if "guard_jitter run_cb c tg rm j s = Inr (r, s')" "sched_ok (- 448) s" "good s"
      "(Some c, tg) \<in> set (slots s)" for c tg rm j s r s'
    using cb_keeps [OF guard_jitter_Inr [OF that(1)] that(2,3,4)] .
  show "good s'" if "good s" "sched_st.more s' = sched_st.more s" "slots s' = slots s" for s s'
    using that by (rule good_sched)
qed

lemma timeslice_jitter:
  assumes "sched_inv s" "good s"
  shows "UpdateSystem_sched (guard_jitter run_cb) s = UpdateSystem_sched run_cb s"
  using sched_callbacks.timeslice [OF guarded assms] timeslice_guard by metis

end

section \<open>Properties of the scheduler\<close>

text \<open>A valid request succeeds, keeps the scheduler's invariant and the time, sets the
  slot's deadline the requested number of cycles from now (one more when that is the marker of an
  idle slot), and leaves every other slot as it is.\<close>

theorem request_sets_deadline:
  assumes "sched_ok 0 s" "0 \<le> sint c" "sint c \<le> 200000000"
    and "i < length (sch_list s)" "cb (sch_list s ! i) \<noteq> None"
  shows "\<exists>s'. sh4_sched_request i c s = Inr s' \<and> sched_inv s' \<and> sh4_sched_now64 s' = sh4_sched_now64 s
    \<and> scheduled (sch_list s' ! i) \<and> left s' (sch_list s' ! i) - sint c \<in> {0, 1}
    \<and> start (sch_list s' ! i) = sh4_sched_now s
    \<and> (\<forall>j. j \<noteq> i \<longrightarrow> sch_list s' ! j = sch_list s ! j) \<and> slots s' = slots s"
proof -
  obtain s' where req: "sh4_sched_request i c s = Inr s'" using request_total [OF assms(2-4)] by blast
  from req obtain e where e: "s' = sh4_sched_ffts (s\<lparr>sch_list := (sch_list s)[i := e]\<rparr>)"
    "start e = sh4_sched_now s"
    "c \<noteq> - 1 \<Longrightarrow> scheduled e \<and> 0 \<le> sint c \<and> sint c \<le> 200000000
       \<and> (left s e = sint c \<or> left s e = sint c + 1)"
    by (rule request_Inr) blast
  have "c \<noteq> - 1" using assms(2) by auto
  then have le: "scheduled e" "left s e - sint c \<in> {0, 1}" using e(3) by auto
  have "cb_frame s s'" using req assms(5) by (rule request_frame)
  then have "sched_ok 0 s'" using assms(1) by (rule cb_frame_ok) simp
  then have "sched_ok 0 (s\<lparr>sch_list := (sch_list s)[i := e]\<rparr>)" unfolding e(1) by simp
  then have "sched_inv s'" unfolding e(1) by (rule ffts_establishes_inv)
  moreover have "sch_list s' ! i = e" using e(1) assms(4) by simp
  moreover have "left s' e = left s e" using e(1) by simp
  moreover have "\<forall>j. j \<noteq> i \<longrightarrow> sch_list s' ! j = sch_list s ! j" using e(1) by simp
  ultimately show ?thesis
    using req le e(2) request_now64 [OF req] request_slots [OF req] by auto
qed

definition sched_one :: "nat sched_st" where
  "sched_one = \<lparr>sh4_sched_ffb = 0,
     sch_list = [\<lparr>cb = Some 0, tag = 0, start = - 1, sched_end = - 1\<rparr>,
                 \<lparr>cb = Some 1, tag = 1, start = - 1, sched_end = - 1\<rparr>],
     sh4_sched_next_id = - 1, sh4_sched_next = 0\<rparr>"

theorem request_sets_deadline_witness:
  "\<exists>s'. sh4_sched_request 1 1000 sched_one = Inr s' \<and> sched_inv s'
    \<and> left s' (sch_list s' ! 1) \<in> {1000, 1001}"
  using request_sets_deadline [of sched_one 1000 1]
  by (auto simp: sched_one_def sched_ok_def scheduled_def)

text \<open>\<open>sh4_sched_ffts\<close> finds the earliest event. The countdown is the remaining time of the
  slot it names, no slot has less, and the first of several equal ones is taken; when nothing is
  scheduled the countdown is one second. The current time does not change.\<close>

theorem ffts_finds_earliest:
  "sh4_sched_now64 (sh4_sched_ffts s) = sh4_sched_now64 s \<and>
   ((sh4_sched_next_id (sh4_sched_ffts s) = - 1 \<and> sh4_sched_next (sh4_sched_ffts s) = SH4_MAIN_CLOCK
      \<and> (\<forall>e \<in> set (sch_list s). sh4_sched_remaining e (sh4_sched_now s) = - 1)) \<or>
    (\<exists>j < length (sch_list s). sh4_sched_next_id (sh4_sched_ffts s) = int j
      \<and> sh4_sched_next (sh4_sched_ffts s) = sh4_sched_remaining (sch_list s ! j) (sh4_sched_now s)
      \<and> sh4_sched_next (sh4_sched_ffts s) \<noteq> - 1
      \<and> (\<forall>k < length (sch_list s). sh4_sched_next (sh4_sched_ffts s)
           \<le> sh4_sched_remaining (sch_list s ! k) (sh4_sched_now s))
      \<and> (\<forall>k < j. sh4_sched_next (sh4_sched_ffts s)
           < sh4_sched_remaining (sch_list s ! k) (sh4_sched_now s))))"
  using ffts_choice [of s] by auto

theorem ffts_finds_earliest_witness:
  "sh4_sched_next (sh4_sched_ffts sched_one) = SH4_MAIN_CLOCK"
  using ffts_finds_earliest [of sched_one]
  by (auto simp: sched_one_def sh4_sched_remaining_def less_Suc_eq)

lemma first_free_spec:
  "first_free i xs = Some k \<Longrightarrow> i \<le> k \<and> k < i + length xs \<and> cb (xs ! (k - i)) = None"
  "first_free i xs = None \<Longrightarrow> \<forall>e \<in> set xs. cb e \<noteq> None"
proof (induction xs arbitrary: i)
  case (Cons e es)
  {
    case 1
    then show ?case
      using Cons.IH(1) [of "Suc i"] by (auto simp: nth_Cons' Suc_diff_le split: if_splits)
  next
    case 2
    then show ?case using Cons.IH(2) [of "Suc i"] by (auto split: if_splits)
  }
qed simp_all

text \<open>Registering a callback returns a slot that was free or new, which now holds the
  callback and its tag and is idle; all other slots are as before.\<close>

theorem register_takes_free_slot:
  assumes "sh4_sched_register tg c s = (n, s')"
  shows "(n < length (sch_list s) \<and> cb (sch_list s ! n) = None \<and> length (sch_list s') = length (sch_list s)
     \<or> n = length (sch_list s) \<and> length (sch_list s') = Suc (length (sch_list s))
       \<and> (\<forall>e \<in> set (sch_list s). cb e \<noteq> None))
    \<and> slots s' ! n = (Some c, tg) \<and> \<not> scheduled (sch_list s' ! n)
    \<and> (\<forall>j < length (sch_list s). j \<noteq> n \<longrightarrow> sch_list s' ! j = sch_list s ! j)
    \<and> sh4_sched_now64 s' = sh4_sched_now64 s"
proof (cases "first_free 0 (sch_list s)")
  case None
  then show ?thesis
    using assms first_free_spec(2) [OF None]
    by (auto simp: sh4_sched_register_def Let_def slots_def scheduled_def nth_append sh4_sched_now64_def)
next
  case (Some k)
  then show ?thesis
    using assms first_free_spec(1) [OF Some]
    by (auto simp: sh4_sched_register_def Let_def slots_def scheduled_def sh4_sched_now64_def)
qed

theorem register_takes_free_slot_witness:
  "slots (snd (sh4_sched_register 7 (2::nat) sched_one)) ! fst (sh4_sched_register 7 2 sched_one) = (Some 2, 7)"
  using register_takes_free_slot [of 7 2 sched_one] by (metis prod.collapse)

end
