(* ===== verification/Sh4_Context.thy ===== *)
theory Sh4_Context
  imports Prelude
begin

section \<open>The SH4 register context\<close>

text \<open>
  \<open>core/hw/sh4/sh4_if.h\<close> and \<open>core/hw/sh4/sh4_core_regs.cpp\<close>: the register file
  \<open>Sh4Context\<close>, the status registers with their bit fields, and what has to be done when
  they change. Register arrays are functions on the index; the instructions index them with
  4 bit fields. Floating point registers hold their bit patterns. The host's rounding mode is
  the cached pair \<open>old_rm\<close>, \<open>old_dn\<close> and the control word of the x86-64 build.
\<close>

record sr_t =
  status :: u32
  sr_T :: u32

record sh4_context =
  xf :: "nat \<Rightarrow> u32"
  fr :: "nat \<Rightarrow> u32"
  r :: "nat \<Rightarrow> u32"
  mac_full :: u64
  r_bank :: "nat \<Rightarrow> u32"
  gbr :: u32
  ssr :: u32
  spc :: u32
  sgr :: u32
  dbr :: u32
  vbr :: u32
  pr :: u32
  fpul :: u32
  pc :: u32
  sr :: sr_t
  fpscr :: u32
  old_sr :: u32
  old_fpscr :: u32
  CpuRunning :: bool
  interrupt_pend :: u32
  cycle_counter :: u32
  old_rm :: u32
  old_dn :: u32
  mxcsr :: u32

subsection \<open>Status register fields\<close>

definition sr_S :: "u32 \<Rightarrow> u32" where "sr_S st = get_field 1 1 st"

definition sr_IMASK :: "u32 \<Rightarrow> u32" where "sr_IMASK st = get_field 4 4 st"

definition sr_Q :: "u32 \<Rightarrow> u32" where "sr_Q st = get_field 8 1 st"

definition sr_M :: "u32 \<Rightarrow> u32" where "sr_M st = get_field 9 1 st"

definition sr_FD :: "u32 \<Rightarrow> u32" where "sr_FD st = get_field 15 1 st"

definition sr_BL :: "u32 \<Rightarrow> u32" where "sr_BL st = get_field 28 1 st"

definition sr_RB :: "u32 \<Rightarrow> u32" where "sr_RB st = get_field 29 1 st"

definition sr_MD :: "u32 \<Rightarrow> u32" where "sr_MD st = get_field 30 1 st"

definition set_Q :: "u32 \<Rightarrow> u32 \<Rightarrow> u32" where "set_Q v st = set_field 8 1 v st"

definition set_M :: "u32 \<Rightarrow> u32 \<Rightarrow> u32" where "set_M v st = set_field 9 1 v st"

definition set_S :: "u32 \<Rightarrow> u32 \<Rightarrow> u32" where "set_S v st = set_field 1 1 v st"

definition set_BL :: "u32 \<Rightarrow> u32 \<Rightarrow> u32" where "set_BL v st = set_field 28 1 v st"

definition set_RB :: "u32 \<Rightarrow> u32 \<Rightarrow> u32" where "set_RB v st = set_field 29 1 v st"

definition set_MD :: "u32 \<Rightarrow> u32 \<Rightarrow> u32" where "set_MD v st = set_field 30 1 v st"

lemmas sr_fields [field_defs] =
  sr_S_def sr_IMASK_def sr_Q_def sr_M_def sr_FD_def sr_BL_def sr_RB_def sr_MD_def
  set_S_def set_Q_def set_M_def set_BL_def set_RB_def set_MD_def

definition sr_MASK :: u32 where "sr_MASK = 0x700083F2"

definition sr_getFull :: "sr_t \<Rightarrow> u32" where
  "sr_getFull s = (status s AND sr_MASK) OR sr_T s"

definition sr_setFull :: "u32 \<Rightarrow> sr_t" where
  "sr_setFull v = \<lparr>status = v AND sr_MASK, sr_T = v AND 1\<rparr>"

definition fpscr_RM :: "u32 \<Rightarrow> u32" where "fpscr_RM v = get_field 0 2 v"

definition fpscr_DN :: "u32 \<Rightarrow> u32" where "fpscr_DN v = get_field 18 1 v"

definition fpscr_PR :: "u32 \<Rightarrow> u32" where "fpscr_PR v = get_field 19 1 v"

definition fpscr_SZ :: "u32 \<Rightarrow> u32" where "fpscr_SZ v = get_field 20 1 v"

definition fpscr_FR :: "u32 \<Rightarrow> u32" where "fpscr_FR v = get_field 21 1 v"

lemmas fpscr_fields [field_defs] =
  fpscr_RM_def fpscr_DN_def fpscr_PR_def fpscr_SZ_def fpscr_FR_def

subsection \<open>Register banks and the host's rounding mode\<close>

definition ChangeGPR :: "'z sh4_context_scheme \<Rightarrow> 'z sh4_context_scheme" where
  "ChangeGPR c = c\<lparr>r := (\<lambda>i. if i < 8 then r_bank c i else r c i),
                  r_bank := (\<lambda>i. if i < 8 then r c i else r_bank c i)\<rparr>"

definition setHostRoundingMode ::
  "u32 \<Rightarrow> u32 \<Rightarrow> 'z sh4_context_scheme \<Rightarrow> 'z sh4_context_scheme" where
  "setHostRoundingMode roundingMode denorm2zero c =
     (if old_rm c \<noteq> roundingMode \<or> old_dn c \<noteq> denorm2zero
      then let temp = 0x1f80;
               temp1 = (if roundingMode = 1 then temp OR push_bit 13 3 else temp);
               temp2 = (if denorm2zero = 1 then temp1 OR push_bit 15 1 else temp1)
           in c\<lparr>old_rm := roundingMode, old_dn := denorm2zero, mxcsr := temp2\<rparr>
      else c)"

definition UpdateFPSCR :: "'z sh4_context_scheme \<Rightarrow> 'z sh4_context_scheme" where
  "UpdateFPSCR c =
     (let c1 = (if fpscr_FR (fpscr c) \<noteq> fpscr_FR (old_fpscr c)
                then c\<lparr>xf := fr c, fr := xf c\<rparr> else c);
          c2 = c1\<lparr>old_fpscr := fpscr c1\<rparr>
      in setHostRoundingMode (fpscr_RM (fpscr c2)) (fpscr_DN (fpscr c2)) c2)"

definition restoreHostRoundingMode :: "'z sh4_context_scheme \<Rightarrow> 'z sh4_context_scheme" where
  "restoreHostRoundingMode c =
     (let c1 = c\<lparr>old_rm := 0xFF, old_dn := 0xFF\<rparr>
      in setHostRoundingMode (fpscr_RM (fpscr c1)) (fpscr_DN (fpscr c1)) c1)"

definition setDefaultRoundingMode :: "'z sh4_context_scheme \<Rightarrow> 'z sh4_context_scheme" where
  "setDefaultRoundingMode c = setHostRoundingMode 0 0 c"

subsection \<open>Lemmas\<close>

text \<open>The T bit is kept apart; packing and unpacking agree on the bits the register has.\<close>

definition sr_wf :: "sr_t \<Rightarrow> bool" where
  "sr_wf s \<longleftrightarrow> status s AND sr_MASK = status s \<and> (sr_T s = 0 \<or> sr_T s = 1)"

lemma sr_wf_setFull [simp]: "sr_wf (sr_setFull v)"
  unfolding sr_wf_def sr_setFull_def using and_one_cases [of v]
  by (simp only: sr_t.simps and.assoc and.idem simp_thms)

lemma getFull_setFull: "sr_getFull (sr_setFull v) = v AND 0x700083F3"
proof -
  have "(v AND sr_MASK AND sr_MASK) OR (v AND 1) = v AND (sr_MASK OR 1)"
    by (simp add: and.assoc bit.conj_disj_distrib)
  then show ?thesis by (simp add: sr_getFull_def sr_setFull_def sr_MASK_def and.assoc)
qed

lemma setFull_getFull:
  assumes "sr_wf s"
  shows "sr_setFull (sr_getFull s) = s"
proof -
  obtain st t where s: "s = \<lparr>status = st, sr_T = t\<rparr>" by (cases s)
  have st: "st AND sr_MASK = st" and t: "t = 0 \<or> t = 1"
    using assms by (simp_all add: s sr_wf_def)
  have "st AND 1 = (st AND sr_MASK) AND 1" using st by simp
  also have "\<dots> = 0" by (simp add: sr_MASK_def and.assoc)
  finally have "st AND 1 = 0" .
  moreover have "t AND sr_MASK = 0" "t AND 1 = t" using t by (auto simp: sr_MASK_def)
  ultimately show ?thesis
    using st by (simp add: s sr_setFull_def sr_getFull_def bit.conj_disj_distrib2)
qed

lemma ChangeGPR_involution [simp]: "ChangeGPR (ChangeGPR c) = c"
  by (simp add: ChangeGPR_def fun_eq_iff if_distrib cong: if_cong)

text \<open>The host's control word follows from the cached modes once one has been set; the
  cache starts at \<open>0xFF\<close>, which no field value is.\<close>

definition host_mode :: "u32 \<Rightarrow> u32 \<Rightarrow> u32" where
  "host_mode rm dn = 0x1f80 + (if rm = 1 then 0x6000 else 0) + (if dn = 1 then 0x8000 else 0)"

definition host_wf :: "'z sh4_context_scheme \<Rightarrow> bool" where
  "host_wf c \<longleftrightarrow> old_rm c = 0xFF \<or> mxcsr c = host_mode (old_rm c) (old_dn c)"

lemma setHostRoundingMode_sets:
  assumes "host_wf c" "rm \<noteq> 0xFF"
  shows "mxcsr (setHostRoundingMode rm dn c) = host_mode rm dn"
  using assms by (auto simp: setHostRoundingMode_def host_mode_def host_wf_def Let_def)

lemma host_wf_setHostRoundingMode:
  "host_wf c \<Longrightarrow> host_wf (setHostRoundingMode rm dn c)"
  by (auto simp: setHostRoundingMode_def host_mode_def host_wf_def Let_def)

lemma host_wf_restore: "host_wf (restoreHostRoundingMode c)"
  unfolding restoreHostRoundingMode_def Let_def
  by (rule host_wf_setHostRoundingMode) (simp add: host_wf_def)

lemma fpscr_RM_small: "fpscr_RM v \<noteq> 0xFF"
proof
  assume "fpscr_RM v = 0xFF"
  then have "bit (fpscr_RM v) 2" by simp
  then show False by (simp add: field_defs field_bits)
qed

lemma setHostRoundingMode_frame [simp]:
  "fpscr (setHostRoundingMode rm dn c) = fpscr c"
  "old_fpscr (setHostRoundingMode rm dn c) = old_fpscr c"
  "fr (setHostRoundingMode rm dn c) = fr c" "xf (setHostRoundingMode rm dn c) = xf c"
  by (simp_all add: setHostRoundingMode_def Let_def)

lemma UpdateFPSCR_fr:
  "fr (UpdateFPSCR c) = (if fpscr_FR (fpscr c) = fpscr_FR (old_fpscr c) then fr c else xf c)"
  "xf (UpdateFPSCR c) = (if fpscr_FR (fpscr c) = fpscr_FR (old_fpscr c) then xf c else fr c)"
  by (simp_all add: UpdateFPSCR_def Let_def)

lemma UpdateFPSCR_fpscr [simp]:
  "fpscr (UpdateFPSCR c) = fpscr c" "old_fpscr (UpdateFPSCR c) = fpscr c"
  by (simp_all add: UpdateFPSCR_def Let_def)

text \<open>A context to evaluate on.\<close>

definition ctx_zero :: sh4_context where
  "ctx_zero = \<lparr>xf = (\<lambda>_. 0), fr = (\<lambda>_. 0), r = (\<lambda>_. 0), mac_full = 0, r_bank = (\<lambda>_. 0), gbr = 0, ssr = 0, spc = 0,
     sgr = 0, dbr = 0, vbr = 0, pr = 0, fpul = 0, pc = 0x8c010000, sr = \<lparr>status = 0x40000000, sr_T = 0\<rparr>, fpscr = 0,
     old_sr = 0x40000000, old_fpscr = 0, CpuRunning = False, interrupt_pend = 0, cycle_counter = 0,
     old_rm = 0xFF, old_dn = 0xFF, mxcsr = 0\<rparr>"

text \<open>Packing the status register into a word and unpacking it. A word written and read back
  keeps exactly the bits the register has (\<open>0x700083F3\<close>), whatever the word; and the register comes
  back unchanged from its packed form whenever it is well formed, which every unpacked one is.\<close>

theorem sr_packing:
  assumes "sr_wf s"
  shows "sr_setFull (sr_getFull s) = s \<and> sr_getFull (sr_setFull v) = v AND 0x700083F3 \<and> sr_wf (sr_setFull v)"
  using setFull_getFull [OF assms] getFull_setFull by simp

theorem sr_packing_witness:
  "sr_wf (sr ctx_zero) \<and> sr_setFull (sr_getFull (sr ctx_zero)) = sr ctx_zero
   \<and> sr_getFull (sr_setFull 0xFFFFFFFF) = 0x700083F3"
proof -
  have "sr_wf (sr ctx_zero)" by (simp add: sr_wf_def ctx_zero_def sr_MASK_def)
  then show ?thesis using sr_packing [of "sr ctx_zero" "0xFFFFFFFF"] by simp
qed

end
