(* ===== verification/Sh4_Interrupts.thy ===== *)
theory Sh4_Interrupts
  imports Sh4_Context
begin

section \<open>The SH4 interrupt controller\<close>

text \<open>
  \<open>core/hw/sh4/sh4_interrupts.cpp\<close>, \<open>sh4_interrupts.h\<close> and \<open>modules/intc.cpp\<close>: the
  28 interrupt sources, their priority registers, and the table that sorts them. Each source
  is given one bit of a 32 bit vector in the order of its priority, so that the interrupt
  to accept is the highest bit of the vector of pending, unmasked and allowed ones.

  The hooks \<open>research::sh4Observation...\<close> and \<open>debugger::subroutineCall\<close> only observe and
  are left out. A failing \<open>assert\<close> and a thrown C++ exception are error values.
\<close>

record intc_st = sh4_context +
  InterruptEnvId :: "nat \<Rightarrow> u16"
  InterruptBit :: "nat \<Rightarrow> u32"
  InterruptLevelBit :: "nat \<Rightarrow> u32"
  interrupt_vpend :: u32
  interrupt_vmask :: u32
  decoded_srimask :: u32
  INTC_IPRA :: u16
  INTC_IPRB :: u16
  INTC_IPRC :: u16
  CCN_INTEVT :: u32
  CCN_EXPEVT :: u32
  CCN_TRA :: u32

datatype sh4_exn = SH4ThrownException u32 u16 | FlycastException | AssertFailed | StackOverflow

subsection \<open>The sources\<close>

datatype prio_reg = IRLPriority | IPRA | IPRB | IPRC

definition sh4_INT_ID_COUNT :: nat where "sh4_INT_ID_COUNT = 28"

text \<open>The identifiers of the sources other components use.\<close>

definition sh4_IRL_9 :: nat where "sh4_IRL_9 = 0"

definition sh4_IRL_11 :: nat where "sh4_IRL_11 = 1"

definition sh4_IRL_13 :: nat where "sh4_IRL_13 = 2"

definition sh4_TMU0_TUNI0 :: nat where "sh4_TMU0_TUNI0 = 10"

definition sh4_TMU1_TUNI1 :: nat where "sh4_TMU1_TUNI1 = 11"

definition sh4_TMU2_TUNI2 :: nat where "sh4_TMU2_TUNI2 = 12"

definition InterruptSourceList :: "(prio_reg \<times> nat \<times> u16) list" where
  "InterruptSourceList =
    [(IRLPriority, 0, 0x320), (IRLPriority, 4, 0x360), (IRLPriority, 8, 0x3a0),
     (IPRC, 4 * 0, 0x600),
     (IPRC, 4 * 3, 0x620),
     (IPRC, 4 * 2, 0x640), (IPRC, 4 * 2, 0x680), (IPRC, 4 * 2, 0x680), (IPRC, 4 * 2, 0x6a0),
     (IPRC, 4 * 2, 0x6c0),
     (IPRA, 4 * 3, 0x400), (IPRA, 4 * 2, 0x420), (IPRA, 4 * 1, 0x440), (IPRA, 4 * 1, 0x460),
     (IPRA, 4 * 0, 0x480), (IPRA, 4 * 0, 0x4a0), (IPRA, 4 * 0, 0x4c0),
     (IPRB, 4 * 1, 0x4e0), (IPRB, 4 * 1, 0x500), (IPRB, 4 * 1, 0x520), (IPRB, 4 * 1, 0x540),
     (IPRC, 4 * 1, 0x700), (IPRC, 4 * 1, 0x720), (IPRC, 4 * 1, 0x740), (IPRC, 4 * 1, 0x760),
     (IPRB, 4 * 3, 0x560),
     (IPRB, 4 * 2, 0x580), (IPRA, 4 * 2, 0x5a0)]"

fun prio_reg_value :: "'z intc_st_scheme \<Rightarrow> prio_reg \<Rightarrow> u16" where
  "prio_reg_value s IRLPriority = 0x0246"
| "prio_reg_value s IPRA = INTC_IPRA s"
| "prio_reg_value s IPRB = INTC_IPRB s"
| "prio_reg_value s IPRC = INTC_IPRC s"

definition GetPrLvl :: "'z intc_st_scheme \<Rightarrow> nat \<Rightarrow> nat" where
  "GetPrLvl s isrc = (case InterruptSourceList ! isrc of (reg, shift, _) \<Rightarrow>
     unat (drop_bit shift (prio_reg_value s reg) AND 0xF))"

definition IntEvnCode :: "nat \<Rightarrow> u16" where
  "IntEvnCode isrc = snd (snd (InterruptSourceList ! isrc))"

subsection \<open>Pending, masked and allowed interrupts\<close>

definition recalc_pending_itrs :: "'z intc_st_scheme \<Rightarrow> 'z intc_st_scheme" where
  "recalc_pending_itrs s =
     s\<lparr>interrupt_pend := interrupt_vpend s AND interrupt_vmask s AND decoded_srimask s\<rparr>"

definition SRdecode :: "'z intc_st_scheme \<Rightarrow> bool \<times> 'z intc_st_scheme" where
  "SRdecode s =
     (let s1 = (if sr_BL (status (sr s)) \<noteq> 0
                then s\<lparr>decoded_srimask := NOT 0xFFFFFFFF\<rparr>
                else s\<lparr>decoded_srimask := NOT (InterruptLevelBit s (unat (sr_IMASK (status (sr s)))))\<rparr>);
          s2 = recalc_pending_itrs s1
      in (interrupt_pend s2 \<noteq> 0, s2))"

text \<open>The two loops of \<open>SIIDRebuild\<close>: one source, one level.\<close>

definition siid_source ::
  "u32 \<Rightarrow> u32 \<Rightarrow> nat \<Rightarrow> nat \<Rightarrow> nat \<times> 'z intc_st_scheme \<Rightarrow> nat \<times> 'z intc_st_scheme" where
  "siid_source vpend vmask ilevel isrc cs =
     (case cs of (cnt, s) \<Rightarrow>
      if GetPrLvl s isrc = ilevel
      then let s1 = s\<lparr>InterruptEnvId := (InterruptEnvId s)(cnt := IntEvnCode isrc)\<rparr>;
               p = InterruptBit s1 isrc AND vpend;
               m = InterruptBit s1 isrc AND vmask;
               s2 = s1\<lparr>InterruptBit := (InterruptBit s1)(isrc := push_bit cnt 1)\<rparr>;
               s3 = (if p \<noteq> 0
                     then s2\<lparr>interrupt_vpend := interrupt_vpend s2 OR InterruptBit s2 isrc\<rparr> else s2);
               s4 = (if m \<noteq> 0
                     then s3\<lparr>interrupt_vmask := interrupt_vmask s3 OR InterruptBit s3 isrc\<rparr> else s3)
           in (cnt + 1, s4)
      else (cnt, s))"

definition siid_level ::
  "u32 \<Rightarrow> u32 \<Rightarrow> nat \<Rightarrow> nat \<times> 'z intc_st_scheme \<Rightarrow> nat \<times> 'z intc_st_scheme" where
  "siid_level vpend vmask ilevel cs =
     (let (cnt, s) = fold (siid_source vpend vmask ilevel) [0..<sh4_INT_ID_COUNT] cs
      in (cnt, s\<lparr>InterruptLevelBit := (InterruptLevelBit s)(ilevel := push_bit cnt 1 - 1)\<rparr>))"

definition SIIDRebuild :: "'z intc_st_scheme \<Rightarrow> 'z intc_st_scheme" where
  "SIIDRebuild s =
     (let vpend = interrupt_vpend s;
          vmask = interrupt_vmask s;
          s1 = s\<lparr>interrupt_vpend := 0, interrupt_vmask := 0\<rparr>;
          (_, s2) = fold (siid_level vpend vmask) [0..<16] (0, s1)
      in snd (SRdecode s2))"

definition SetInterruptPend :: "nat \<Rightarrow> 'z intc_st_scheme \<Rightarrow> 'z intc_st_scheme" where
  "SetInterruptPend intr s = recalc_pending_itrs
     (s\<lparr>interrupt_vpend := interrupt_vpend s OR InterruptBit s intr\<rparr>)"

definition ResetInterruptPend :: "nat \<Rightarrow> 'z intc_st_scheme \<Rightarrow> 'z intc_st_scheme" where
  "ResetInterruptPend intr s = recalc_pending_itrs
     (s\<lparr>interrupt_vpend := interrupt_vpend s AND NOT (InterruptBit s intr)\<rparr>)"

definition InterruptPend :: "nat \<Rightarrow> bool \<Rightarrow> 'z intc_st_scheme \<Rightarrow> 'z intc_st_scheme" where
  "InterruptPend intr v s = (if \<not> v then ResetInterruptPend intr s else SetInterruptPend intr s)"

definition SetInterruptMask :: "nat \<Rightarrow> 'z intc_st_scheme \<Rightarrow> 'z intc_st_scheme" where
  "SetInterruptMask intr s = recalc_pending_itrs
     (s\<lparr>interrupt_vmask := interrupt_vmask s OR InterruptBit s intr\<rparr>)"

definition ResetInterruptMask :: "nat \<Rightarrow> 'z intc_st_scheme \<Rightarrow> 'z intc_st_scheme" where
  "ResetInterruptMask intr s = recalc_pending_itrs
     (s\<lparr>interrupt_vmask := interrupt_vmask s AND NOT (InterruptBit s intr)\<rparr>)"

definition InterruptMask :: "nat \<Rightarrow> bool \<Rightarrow> 'z intc_st_scheme \<Rightarrow> 'z intc_st_scheme" where
  "InterruptMask intr v s = (if \<not> v then ResetInterruptMask intr s else SetInterruptMask intr s)"

subsection \<open>Status register changes, interrupts and exceptions\<close>

definition UpdateSR :: "'z intc_st_scheme \<Rightarrow> bool \<times> 'z intc_st_scheme" where
  "UpdateSR s =
     (let s1 = (if sr_MD (status (sr s)) \<noteq> 0
                then if sr_RB (old_sr s) \<noteq> sr_RB (status (sr s)) then ChangeGPR s else s
                else if sr_RB (old_sr s) \<noteq> 0 then ChangeGPR s else s);
          s2 = s1\<lparr>old_sr := status (sr s1)\<rparr>;
          s3 = s2\<lparr>old_sr := set_RB (sr_RB (old_sr s2) AND sr_MD (status (sr s2))) (old_sr s2)\<rparr>
      in SRdecode s3)"

text \<open>\<open>bitscanrev\<close> of \<open>core/oslib/oslib.h\<close>: the position of the highest bit set.\<close>

definition bitscanrev :: "u32 \<Rightarrow> nat" where
  "bitscanrev v = foldl (\<lambda>m k. if bit v k then k else m) 0 [0..<32]"

definition Do_Interrupt :: "u16 \<Rightarrow> 'z intc_st_scheme \<Rightarrow> 'z intc_st_scheme" where
  "Do_Interrupt intEvn s =
     (let s1 = s\<lparr>CCN_INTEVT := ucast intEvn\<rparr>;
          s2 = s1\<lparr>ssr := sr_getFull (sr s1), spc := pc s1, sgr := r s1 15\<rparr>;
          s3 = s2\<lparr>sr := (sr s2)\<lparr>status := set_RB 1 (set_MD 1 (set_BL 1 (status (sr s2))))\<rparr>\<rparr>;
          (_, s4) = UpdateSR s3
      in s4\<lparr>pc := vbr s4 + 0x600\<rparr>)"

definition UpdateINTC :: "'z intc_st_scheme \<Rightarrow> bool \<times> 'z intc_st_scheme" where
  "UpdateINTC s =
     (if interrupt_pend s = 0 then (False, s)
      else (True, Do_Interrupt (InterruptEnvId s (bitscanrev (interrupt_pend s))) s))"

definition Do_Exception :: "u32 \<Rightarrow> u16 \<Rightarrow> 'z intc_st_scheme \<Rightarrow> sh4_exn + 'z intc_st_scheme" where
  "Do_Exception epc expEvn s =
     (if \<not> ((0x40 \<le> expEvn \<and> expEvn \<le> 0x1a0) \<or> expEvn = 0x800 \<or> expEvn = 0x820 \<or> expEvn = 0x1e0)
        then Inl AssertFailed
      else if sr_BL (status (sr s)) \<noteq> 0 then Inl FlycastException
      else
        let s1 = s\<lparr>CCN_EXPEVT := ucast expEvn\<rparr>;
            s2 = s1\<lparr>ssr := sr_getFull (sr s1), spc := epc, sgr := r s1 15\<rparr>;
            s3 = s2\<lparr>sr := (sr s2)\<lparr>status := set_RB 1 (set_MD 1 (set_BL 1 (status (sr s2))))\<rparr>\<rparr>;
            (_, s4) = UpdateSR s3
        in Inr (s4\<lparr>pc := vbr s4 + (if expEvn = 0x40 \<or> expEvn = 0x60 then 0x400 else 0x100)\<rparr>))"

definition interrupts_reset :: "'z intc_st_scheme \<Rightarrow> 'z intc_st_scheme" where
  "interrupts_reset s =
     SIIDRebuild (s\<lparr>interrupt_vpend := 0, interrupt_vmask := 0xFFFFFFFF, decoded_srimask := 0,
       InterruptBit := (\<lambda>i. if i < sh4_INT_ID_COUNT then push_bit i 1 else InterruptBit s i)\<rparr>)"

definition write_INTC_IPRA :: "u16 \<Rightarrow> 'z intc_st_scheme \<Rightarrow> 'z intc_st_scheme" where
  "write_INTC_IPRA dat s =
     (if INTC_IPRA s \<noteq> dat then SIIDRebuild (s\<lparr>INTC_IPRA := dat\<rparr>) else s)"

definition write_INTC_IPRB :: "u16 \<Rightarrow> 'z intc_st_scheme \<Rightarrow> 'z intc_st_scheme" where
  "write_INTC_IPRB dat s =
     (if INTC_IPRB s \<noteq> dat then SIIDRebuild (s\<lparr>INTC_IPRB := dat\<rparr>) else s)"

definition write_INTC_IPRC :: "u16 \<Rightarrow> 'z intc_st_scheme \<Rightarrow> 'z intc_st_scheme" where
  "write_INTC_IPRC dat s =
     (if INTC_IPRC s \<noteq> dat then SIIDRebuild (s\<lparr>INTC_IPRC := dat\<rparr>) else s)"

subsection \<open>The order of the sources\<close>

text \<open>
  The sources below a level, level by level and by identifier within a level: the order in
  which the nested loops of \<open>SIIDRebuild\<close> visit the ones they number.
\<close>

definition levels :: "'z intc_st_scheme \<Rightarrow> nat \<Rightarrow> nat list" where
  "levels s n = concat (map (\<lambda>l. filter (\<lambda>i. GetPrLvl s i = l) [0..<28]) [0..<n])"

abbreviation prio_order :: "'z intc_st_scheme \<Rightarrow> nat list" where
  "prio_order s \<equiv> levels s 16"

text \<open>Source \<open>i\<close> yields to source \<open>j\<close>: lower level, or same level and lower identifier.\<close>

definition yields :: "'z intc_st_scheme \<Rightarrow> nat \<Rightarrow> nat \<Rightarrow> bool" where
  "yields s i j \<longleftrightarrow> GetPrLvl s i < GetPrLvl s j \<or> (GetPrLvl s i = GetPrLvl s j \<and> i < j)"

lemma GetPrLvl_less: "GetPrLvl s i < 16"
proof -
  have "w AND 0xF = take_bit 4 w" for w :: u16
    by (simp add: take_bit_eq_mask mask_eq_exp_minus_1)
  then have "unat (w AND 0xF) < 16" for w :: u16
    using take_bit_nat_less_exp [of 4 "unat w"] by (simp add: unsigned_take_bit_eq)
  then show ?thesis by (simp add: GetPrLvl_def split: prod.split)
qed

lemma levels_Suc: "levels s (Suc n) = levels s n @ filter (\<lambda>i. GetPrLvl s i = n) [0..<28]"
  by (simp add: levels_def)

lemma levels_0 [simp]: "levels s 0 = []"
  by (simp add: levels_def)

lemma set_levels: "set (levels s n) = {i. i < 28 \<and> GetPrLvl s i < n}"
  by (auto simp: levels_def)

lemma set_prio_order: "set (prio_order s) = {0..<28}"
  by (auto simp: set_levels GetPrLvl_less)

lemma distinct_levels: "distinct (levels s n)"
  by (induction n) (auto simp: levels_Suc set_levels)

lemma length_prio_order: "length (prio_order s) = 28"
  using distinct_card [OF distinct_levels, of s 16] by (simp add: set_prio_order)

lemma sorted_levels: "sorted_wrt (yields s) (levels s n)"
proof (induction n)
  case (Suc n)
  have "sorted_wrt (yields s) (filter (\<lambda>i. GetPrLvl s i = n) [0..<28])"
    by (rule sorted_wrt_mono_rel [OF _ sorted_wrt_filter [OF sorted_wrt_upt]])
      (auto simp: yields_def)
  with Suc show ?case
    by (auto simp: levels_Suc sorted_wrt_append set_levels) (auto simp: yields_def)
qed simp

lemma levels_prefix: "n \<le> m \<Longrightarrow> \<exists>ys. levels s m = levels s n @ ys"
proof (induction rule: dec_induct)
  case (step m)
  then show ?case by (auto simp: levels_Suc)
qed simp

lemma levels_nth_less:
  assumes "n \<le> 16" "k < 28"
  shows "k < length (levels s n) \<longleftrightarrow> GetPrLvl s (prio_order s ! k) < n"
proof -
  obtain ys where ys: "prio_order s = levels s n @ ys" using levels_prefix assms(1) by blast
  show ?thesis
  proof (cases "k < length (levels s n)")
    case True
    then have "levels s n ! k \<in> set (levels s n)" by simp
    then show ?thesis using True ys by (simp add: set_levels nth_append)
  next
    case False
    have "prio_order s ! k \<notin> set (levels s n)"
    proof
      assume "prio_order s ! k \<in> set (levels s n)"
      then obtain j where "j < length (levels s n)" "prio_order s ! k = prio_order s ! j"
        by (auto simp: in_set_conv_nth ys nth_append)
      with False show False
        using distinct_levels [of s 16] length_prio_order [of s] assms(2) ys
        by (auto simp: nth_eq_iff_index_eq)
    qed
    moreover have "prio_order s ! k \<in> {0..<28}"
      using set_prio_order [of s] length_prio_order [of s] assms(2) by (metis nth_mem)
    ultimately show ?thesis using False by (simp add: set_levels)
  qed
qed

subsection \<open>Rebuilding the table\<close>

text \<open>What the loops have done once the sources \<open>dn\<close> are numbered, started in \<open>s0\<close>.\<close>

definition raised :: "'z intc_st_scheme \<Rightarrow> nat \<Rightarrow> bool" where
  "raised s i \<longleftrightarrow> InterruptBit s i AND interrupt_vpend s \<noteq> 0"

definition enabled :: "'z intc_st_scheme \<Rightarrow> nat \<Rightarrow> bool" where
  "enabled s i \<longleftrightarrow> InterruptBit s i AND interrupt_vmask s \<noteq> 0"

definition siid_tab ::
  "'z intc_st_scheme \<Rightarrow> nat list \<Rightarrow> (nat \<Rightarrow> u16) \<Rightarrow> (nat \<Rightarrow> u32) \<Rightarrow> u32 \<Rightarrow> u32 \<Rightarrow> bool" where
  "siid_tab s0 dn E B P M \<longleftrightarrow>
     (\<forall>k < length dn. E k = IntEvnCode (dn ! k) \<and> B (dn ! k) = push_bit k 1)
     \<and> (\<forall>i. i \<notin> set dn \<longrightarrow> B i = InterruptBit s0 i)
     \<and> (\<forall>k. bit P k \<longleftrightarrow> k < length dn \<and> raised s0 (dn ! k))
     \<and> (\<forall>k. bit M k \<longleftrightarrow> k < length dn \<and> enabled s0 (dn ! k))"

definition siid_ok ::
  "'z intc_st_scheme \<Rightarrow> nat list \<Rightarrow> (nat \<Rightarrow> u32) \<Rightarrow> nat \<times> 'z intc_st_scheme \<Rightarrow> bool" where
  "siid_ok s0 dn L cs \<longleftrightarrow> (\<exists>E B P M.
     cs = (length dn, s0\<lparr>InterruptEnvId := E, InterruptBit := B, InterruptLevelBit := L,
       interrupt_vpend := P, interrupt_vmask := M\<rparr>) \<and> siid_tab s0 dn E B P M)"

lemma GetPrLvl_cong:
  "INTC_IPRA s' = INTC_IPRA s \<Longrightarrow> INTC_IPRB s' = INTC_IPRB s \<Longrightarrow> INTC_IPRC s' = INTC_IPRC s
     \<Longrightarrow> GetPrLvl s' = GetPrLvl s"
proof
  fix i
  assume ipr: "INTC_IPRA s' = INTC_IPRA s" "INTC_IPRB s' = INTC_IPRB s" "INTC_IPRC s' = INTC_IPRC s"
  have "prio_reg_value s' p = prio_reg_value s p" for p by (cases p) (simp_all add: ipr)
  then show "GetPrLvl s' i = GetPrLvl s i" by (simp add: GetPrLvl_def)
qed

lemma GetPrLvl_update [simp]:
  "GetPrLvl (s\<lparr>InterruptEnvId := E\<rparr>) = GetPrLvl s"
  "GetPrLvl (s\<lparr>InterruptBit := B\<rparr>) = GetPrLvl s"
  "GetPrLvl (s\<lparr>InterruptLevelBit := B\<rparr>) = GetPrLvl s"
  "GetPrLvl (s\<lparr>interrupt_vpend := v\<rparr>) = GetPrLvl s"
  "GetPrLvl (s\<lparr>interrupt_vmask := v\<rparr>) = GetPrLvl s"
  "GetPrLvl (s\<lparr>decoded_srimask := v\<rparr>) = GetPrLvl s"
  "GetPrLvl (s\<lparr>interrupt_pend := v\<rparr>) = GetPrLvl s"
  by (rule GetPrLvl_cong; simp)+

lemma siid_source_skip:
  "siid_ok s0 dn L cs \<Longrightarrow> GetPrLvl s0 i \<noteq> l \<Longrightarrow> siid_source vp vm l i cs = cs"
  by (auto simp: siid_ok_def siid_source_def)

lemma siid_tab_step:
  assumes tab: "siid_tab s0 dn E B P M" and i: "i \<notin> set dn" and len: "length dn < 32"
  shows "siid_tab s0 (dn @ [i]) (E(length dn := IntEvnCode i)) (B(i := push_bit (length dn) 1))
    (if raised s0 i then P OR push_bit (length dn) 1 else P)
    (if enabled s0 i then M OR push_bit (length dn) 1 else M)"
proof -
  have nth: "k < length (dn @ [i]) \<and> Q ((dn @ [i]) ! k) \<longleftrightarrow> (k < length dn \<and> Q (dn ! k)) \<or> (k = length dn \<and> Q i)"
    for k Q by (auto simp: nth_append less_Suc_eq)
  show ?thesis
    unfolding siid_tab_def nth
    using tab i len by (auto simp: siid_tab_def bit_simps nth_append less_Suc_eq)
qed

lemma siid_source_step:
  assumes ok: "siid_ok s0 dn L cs" and i: "i \<notin> set dn" and len: "length dn < 32"
    and l: "GetPrLvl s0 i = l"
  shows "siid_ok s0 (dn @ [i]) L (siid_source (interrupt_vpend s0) (interrupt_vmask s0) l i cs)"
proof -
  obtain E B P M where cs: "cs = (length dn, s0\<lparr>InterruptEnvId := E, InterruptBit := B,
      InterruptLevelBit := L, interrupt_vpend := P, interrupt_vmask := M\<rparr>)"
    and tab: "siid_tab s0 dn E B P M"
    using ok unfolding siid_ok_def by (elim exE conjE) (rule that)
  let ?k = "length dn"
  let ?P = "if raised s0 i then P OR push_bit ?k 1 else P"
  let ?M = "if enabled s0 i then M OR push_bit ?k 1 else M"
  have "B i = InterruptBit s0 i" using tab i by (simp add: siid_tab_def)
  then have "siid_source (interrupt_vpend s0) (interrupt_vmask s0) l i cs =
      (length (dn @ [i]), s0\<lparr>InterruptEnvId := E(?k := IntEvnCode i), InterruptBit := B(i := push_bit ?k 1),
        InterruptLevelBit := L, interrupt_vpend := ?P, interrupt_vmask := ?M\<rparr>)"
    using l by (simp add: cs siid_source_def raised_def enabled_def Let_def)
  moreover have "siid_tab s0 (dn @ [i]) (E(?k := IntEvnCode i)) (B(i := push_bit ?k 1)) ?P ?M"
    using tab i len by (rule siid_tab_step)
  ultimately show ?thesis unfolding siid_ok_def by blast
qed

lemma siid_sources:
  assumes "siid_ok s0 dn L cs" "distinct xs" "\<forall>x \<in> set xs. GetPrLvl s0 x = l \<longrightarrow> x \<notin> set dn"
    and "length dn + length (filter (\<lambda>i. GetPrLvl s0 i = l) xs) \<le> 32"
  shows "siid_ok s0 (dn @ filter (\<lambda>i. GetPrLvl s0 i = l) xs) L
    (fold (siid_source (interrupt_vpend s0) (interrupt_vmask s0) l) xs cs)"
  using assms
proof (induction xs arbitrary: dn cs)
  case (Cons x xs)
  show ?case
  proof (cases "GetPrLvl s0 x = l")
    case True
    have "siid_ok s0 (dn @ [x]) L (siid_source (interrupt_vpend s0) (interrupt_vmask s0) l x cs)"
      using Cons.prems True by (intro siid_source_step) auto
    then have "siid_ok s0 ((dn @ [x]) @ filter (\<lambda>i. GetPrLvl s0 i = l) xs) L
        (fold (siid_source (interrupt_vpend s0) (interrupt_vmask s0) l) xs
          (siid_source (interrupt_vpend s0) (interrupt_vmask s0) l x cs))"
      by (rule Cons.IH) (use Cons.prems True in auto)
    with True show ?thesis by simp
  next
    case False
    then show ?thesis using Cons siid_source_skip [OF Cons.prems(1) False] by auto
  qed
qed simp

lemma levels_le_28: "n \<le> 16 \<Longrightarrow> length (levels s n) \<le> 28"
  using levels_prefix [of n 16 s] length_prio_order [of s] by auto

lemma siid_level_step:
  assumes ok: "siid_ok s0 (levels s0 n) L cs" and n: "n < 16"
  shows "siid_ok s0 (levels s0 (Suc n)) (L(n := push_bit (length (levels s0 (Suc n))) 1 - 1))
    (siid_level (interrupt_vpend s0) (interrupt_vmask s0) n cs)"
proof -
  let ?cs = "fold (siid_source (interrupt_vpend s0) (interrupt_vmask s0) n) [0..<28] cs"
  have "length (levels s0 (Suc n)) \<le> 28" using n by (intro levels_le_28) simp
  then have "siid_ok s0 (levels s0 (Suc n)) L ?cs"
    unfolding levels_Suc by (intro siid_sources [OF ok]) (auto simp: set_levels)
  then obtain E B P M where "?cs = (length (levels s0 (Suc n)), s0\<lparr>InterruptEnvId := E,
      InterruptBit := B, InterruptLevelBit := L, interrupt_vpend := P, interrupt_vmask := M\<rparr>)"
    and tab: "siid_tab s0 (levels s0 (Suc n)) E B P M"
    unfolding siid_ok_def by (elim exE conjE)
  then have "siid_level (interrupt_vpend s0) (interrupt_vmask s0) n cs =
      (length (levels s0 (Suc n)), s0\<lparr>InterruptEnvId := E, InterruptBit := B,
        InterruptLevelBit := L(n := push_bit (length (levels s0 (Suc n))) 1 - 1),
        interrupt_vpend := P, interrupt_vmask := M\<rparr>)"
    by (simp add: siid_level_def sh4_INT_ID_COUNT_def)
  with tab show ?thesis unfolding siid_ok_def by blast
qed

lemma siid_levels:
  "n \<le> 16 \<Longrightarrow> \<exists>L. siid_ok s0 (levels s0 n) L
      (fold (siid_level (interrupt_vpend s0) (interrupt_vmask s0)) [0..<n]
        (0, s0\<lparr>interrupt_vpend := 0, interrupt_vmask := 0\<rparr>))
    \<and> (\<forall>l < n. L l = push_bit (length (levels s0 (Suc l))) 1 - 1)"
proof (induction n)
  case 0
  have "siid_ok s0 [] (InterruptLevelBit s0)
      (0, s0\<lparr>InterruptEnvId := InterruptEnvId s0, InterruptBit := InterruptBit s0,
       InterruptLevelBit := InterruptLevelBit s0, interrupt_vpend := 0, interrupt_vmask := 0\<rparr>)"
    unfolding siid_ok_def
    by (intro exI [of _ "InterruptEnvId s0"] exI [of _ "InterruptBit s0"] exI [of _ "0 :: u32"] conjI)
      (simp_all add: siid_tab_def)
  then show ?case by auto
next
  case (Suc n)
  then obtain L where ok: "siid_ok s0 (levels s0 n) L
      (fold (siid_level (interrupt_vpend s0) (interrupt_vmask s0)) [0..<n]
        (0, s0\<lparr>interrupt_vpend := 0, interrupt_vmask := 0\<rparr>))"
    and L: "\<forall>l < n. L l = push_bit (length (levels s0 (Suc l))) 1 - 1" by auto
  have "siid_ok s0 (levels s0 (Suc n)) (L(n := push_bit (length (levels s0 (Suc n))) 1 - 1))
      (fold (siid_level (interrupt_vpend s0) (interrupt_vmask s0)) [0..<Suc n]
        (0, s0\<lparr>interrupt_vpend := 0, interrupt_vmask := 0\<rparr>))"
    using siid_level_step [OF ok] Suc.prems by simp
  moreover have "\<forall>l < Suc n. (L(n := push_bit (length (levels s0 (Suc n))) 1 - 1)) l
      = push_bit (length (levels s0 (Suc l))) 1 - 1"
    using L by (simp add: less_Suc_eq)
  ultimately show ?case by blast
qed

subsection \<open>The invariant of the controller\<close>

text \<open>
  The table is the one of the current priorities, the vectors have no bit beyond the
  sources, and what the CPU tests (\<open>interrupt_pend\<close>) is up to date. \<open>levels\<close> and with it the
  order depend on the priority registers alone.
\<close>

definition table_ok :: "'z intc_st_scheme \<Rightarrow> bool" where
  "table_ok s \<longleftrightarrow>
     (\<forall>k < 28. InterruptEnvId s k = IntEvnCode (prio_order s ! k)
        \<and> InterruptBit s (prio_order s ! k) = push_bit k 1)
     \<and> (\<forall>l < 16. InterruptLevelBit s l = push_bit (length (levels s (Suc l))) 1 - 1)
     \<and> (\<forall>k. bit (interrupt_vpend s) k \<longrightarrow> k < 28) \<and> (\<forall>k. bit (interrupt_vmask s) k \<longrightarrow> k < 28)"

definition synced :: "'z intc_st_scheme \<Rightarrow> bool" where
  "synced s \<longleftrightarrow>
     decoded_srimask s = (if sr_BL (status (sr s)) \<noteq> 0 then 0
        else NOT (InterruptLevelBit s (unat (sr_IMASK (status (sr s))))))
     \<and> interrupt_pend s = interrupt_vpend s AND interrupt_vmask s AND decoded_srimask s"

definition intc_inv :: "'z intc_st_scheme \<Rightarrow> bool" where
  "intc_inv s \<longleftrightarrow> table_ok s \<and> synced s"

lemma SRdecode_synced: "synced (snd (SRdecode s))"
  by (simp add: synced_def SRdecode_def recalc_pending_itrs_def Let_def)

lemma levels_cong: "GetPrLvl s' = GetPrLvl s \<Longrightarrow> levels s' = levels s"
  by (simp add: levels_def fun_eq_iff)

lemma SRdecode_frame:
  "\<exists>d p. snd (SRdecode s) = s\<lparr>decoded_srimask := d, interrupt_pend := p\<rparr>"
  by (auto simp: SRdecode_def recalc_pending_itrs_def Let_def)

lemma table_ok_update [simp]:
  "table_ok (s\<lparr>decoded_srimask := d\<rparr>) = table_ok s"
  "table_ok (s\<lparr>interrupt_pend := d\<rparr>) = table_ok s"
  using levels_cong [of "s\<lparr>decoded_srimask := d\<rparr>" s] levels_cong [of "s\<lparr>interrupt_pend := d\<rparr>" s]
  by (simp_all add: table_ok_def)

lemma table_ok_SRdecode: "table_ok s \<Longrightarrow> intc_inv (snd (SRdecode s))"
  using SRdecode_frame [of s] by (auto simp: intc_inv_def SRdecode_synced)

lemma prio_order_index:
  assumes "i < 28"
  obtains k where "k < 28" "prio_order s ! k = i"
proof -
  have "i \<in> set (prio_order s)" using assms by (simp add: set_prio_order)
  then show ?thesis using that by (auto simp: in_set_conv_nth length_prio_order)
qed

lemma prio_order_less: "k < 28 \<Longrightarrow> prio_order s ! k < 28"
  using nth_mem [of k "prio_order s"] by (simp add: length_prio_order set_prio_order)

lemma prio_order_inj: "j < 28 \<Longrightarrow> k < 28 \<Longrightarrow> prio_order s ! j = prio_order s ! k \<longleftrightarrow> j = k"
  by (simp add: nth_eq_iff_index_eq distinct_levels length_prio_order)

lemma and_push_bit_1: "(push_bit k 1 AND (v :: u32) \<noteq> 0) \<longleftrightarrow> bit v k"
  by (simp add: bit_iff_and_push_bit_not_eq_0 and.commute)

lemma raised_bit: "table_ok s \<Longrightarrow> k < 28 \<Longrightarrow> raised s (prio_order s ! k) \<longleftrightarrow> bit (interrupt_vpend s) k"
  unfolding raised_def by (simp only: table_ok_def and_push_bit_1)

lemma enabled_bit: "table_ok s \<Longrightarrow> k < 28 \<Longrightarrow> enabled s (prio_order s ! k) \<longleftrightarrow> bit (interrupt_vmask s) k"
  unfolding enabled_def by (simp only: table_ok_def and_push_bit_1)

lemma SIIDRebuild_obtain:
  obtains E B L P M d p where
    "SIIDRebuild s = s\<lparr>InterruptEnvId := E, InterruptBit := B, InterruptLevelBit := L,
       interrupt_vpend := P, interrupt_vmask := M, decoded_srimask := d, interrupt_pend := p\<rparr>"
    "siid_tab s (prio_order s) E B P M"
    "\<forall>l < 16. L l = push_bit (length (levels s (Suc l))) 1 - 1"
    "synced (SIIDRebuild s)"
proof -
  obtain L where ok: "siid_ok s (prio_order s) L
      (fold (siid_level (interrupt_vpend s) (interrupt_vmask s)) [0..<16]
        (0, s\<lparr>interrupt_vpend := 0, interrupt_vmask := 0\<rparr>))"
    and L: "\<forall>l < 16. L l = push_bit (length (levels s (Suc l))) 1 - 1"
    using siid_levels [of 16 s] by auto
  from ok obtain E B P M where
    f: "fold (siid_level (interrupt_vpend s) (interrupt_vmask s)) [0..<16]
        (0, s\<lparr>interrupt_vpend := 0, interrupt_vmask := 0\<rparr>) = (length (prio_order s),
       s\<lparr>InterruptEnvId := E, InterruptBit := B, InterruptLevelBit := L,
         interrupt_vpend := P, interrupt_vmask := M\<rparr>)"
    and tab: "siid_tab s (prio_order s) E B P M"
    unfolding siid_ok_def by (elim exE conjE)
  let ?s2 = "s\<lparr>InterruptEnvId := E, InterruptBit := B, InterruptLevelBit := L,
         interrupt_vpend := P, interrupt_vmask := M\<rparr>"
  have eq: "SIIDRebuild s = snd (SRdecode ?s2)"
    unfolding SIIDRebuild_def Let_def f by simp
  obtain d p where "snd (SRdecode ?s2) = ?s2\<lparr>decoded_srimask := d, interrupt_pend := p\<rparr>"
    using SRdecode_frame by blast
  with eq have "SIIDRebuild s = ?s2\<lparr>decoded_srimask := d, interrupt_pend := p\<rparr>" by simp
  moreover have "synced (SIIDRebuild s)" unfolding eq by (rule SRdecode_synced)
  ultimately show ?thesis by (intro that [OF _ tab L])
qed

text \<open>Rebuilding establishes the invariant from any state and changes neither which sources
  are pending nor which are enabled, although every source may move to another bit.\<close>

lemma SIIDRebuild_spec:
  "intc_inv (SIIDRebuild s)"
  "i < 28 \<Longrightarrow> raised (SIIDRebuild s) i = raised s i"
  "i < 28 \<Longrightarrow> enabled (SIIDRebuild s) i = enabled s i"
  "GetPrLvl (SIIDRebuild s) = GetPrLvl s"
proof -
  obtain E B L P M d p where
    eq: "SIIDRebuild s = s\<lparr>InterruptEnvId := E, InterruptBit := B, InterruptLevelBit := L,
       interrupt_vpend := P, interrupt_vmask := M, decoded_srimask := d, interrupt_pend := p\<rparr>"
    and tab: "siid_tab s (prio_order s) E B P M"
    and L: "\<forall>l < 16. L l = push_bit (length (levels s (Suc l))) 1 - 1"
    and sync: "synced (SIIDRebuild s)"
    by (rule SIIDRebuild_obtain)
  show lvl: "GetPrLvl (SIIDRebuild s) = GetPrLvl s" by (simp add: eq)
  have ord: "levels (SIIDRebuild s) = levels s" using lvl by (rule levels_cong)
  have tab': "table_ok (SIIDRebuild s)"
    using tab L unfolding table_ok_def ord by (simp add: eq siid_tab_def length_prio_order)
  with sync show "intc_inv (SIIDRebuild s)" by (simp add: intc_inv_def)
  show "raised (SIIDRebuild s) i = raised s i" if i: "i < 28"
  proof -
    obtain k where k: "k < 28" "prio_order s ! k = i" using i by (rule prio_order_index)
    have "raised (SIIDRebuild s) i \<longleftrightarrow> bit P k"
      using raised_bit [OF tab' k(1)] k(2) by (simp add: ord) (simp add: eq)
    then show ?thesis using tab k by (simp add: siid_tab_def length_prio_order)
  qed
  show "enabled (SIIDRebuild s) i = enabled s i" if i: "i < 28"
  proof -
    obtain k where k: "k < 28" "prio_order s ! k = i" using i by (rule prio_order_index)
    have "enabled (SIIDRebuild s) i \<longleftrightarrow> bit M k"
      using enabled_bit [OF tab' k(1)] k(2) by (simp add: ord) (simp add: eq)
    then show ?thesis using tab k by (simp add: siid_tab_def length_prio_order)
  qed
qed

subsection \<open>Raising and masking\<close>

lemma recalc_frame:
  "recalc_pending_itrs s = s\<lparr>interrupt_pend := interrupt_vpend s AND interrupt_vmask s AND decoded_srimask s\<rparr>"
  by (simp add: recalc_pending_itrs_def)

lemma bit_pow2: "bit ((2 :: u32) ^ k) j \<longleftrightarrow> j = k \<and> k < 32"
  using bit_exp_iff [of k j, where ?'a = u32] by auto

lemma InterruptBit_bit:
  assumes "table_ok s" "i < 28" "k < 28"
  shows "bit (InterruptBit s i) k \<longleftrightarrow> prio_order s ! k = i"
proof -
  obtain j where j: "j < 28" "prio_order s ! j = i" using assms(2) by (rule prio_order_index)
  then have "InterruptBit s i = push_bit j 1" using assms(1) by (auto simp: table_ok_def)
  then show ?thesis using j assms(3) prio_order_inj [of k j s] by (auto simp: bit_pow2)
qed

lemma InterruptBit_small: "table_ok s \<Longrightarrow> i < 28 \<Longrightarrow> bit (InterruptBit s i) k \<Longrightarrow> k < 28"
proof -
  assume "table_ok s" "i < 28" and b: "bit (InterruptBit s i) k"
  obtain j where j: "j < 28" "prio_order s ! j = i" using \<open>i < 28\<close> by (rule prio_order_index)
  then have "InterruptBit s i = push_bit j 1" using \<open>table_ok s\<close> by (auto simp: table_ok_def)
  with b j show "k < 28" by (auto simp: bit_pow2)
qed

text \<open>Changing the vectors: the table stays, and what is raised and enabled follows the bits.\<close>

lemma levels_update [simp]:
  "levels (s\<lparr>interrupt_vpend := v\<rparr>) = levels s" "levels (s\<lparr>interrupt_vmask := v\<rparr>) = levels s"
  "levels (s\<lparr>interrupt_pend := v\<rparr>) = levels s" "levels (s\<lparr>decoded_srimask := v\<rparr>) = levels s"
  by (rule levels_cong; simp)+

lemma raised_update [simp]:
  "raised (s\<lparr>interrupt_pend := v\<rparr>) = raised s" "enabled (s\<lparr>interrupt_pend := v\<rparr>) = enabled s"
  "raised (s\<lparr>decoded_srimask := v\<rparr>) = raised s" "enabled (s\<lparr>decoded_srimask := v\<rparr>) = enabled s"
  by (simp_all add: fun_eq_iff raised_def enabled_def)

lemma table_ok_vectors:
  "table_ok s \<Longrightarrow> \<forall>k. bit P k \<longrightarrow> k < 28 \<Longrightarrow> \<forall>k. bit M k \<longrightarrow> k < 28
     \<Longrightarrow> table_ok (s\<lparr>interrupt_vpend := P, interrupt_vmask := M\<rparr>)"
  by (simp add: table_ok_def)

lemma order_set:
  assumes "\<And>k. k < 28 \<Longrightarrow> R (prio_order s ! k) \<longleftrightarrow> Q k"
  shows "{i. i < 28 \<and> R i} = {prio_order s ! k | k. k < 28 \<and> Q k}"
proof (intro set_eqI iffI)
  fix i
  assume "i \<in> {i. i < 28 \<and> R i}"
  then have i: "i < 28" "R i" by simp_all
  obtain k where "k < 28" "prio_order s ! k = i" using i(1) by (rule prio_order_index)
  with i(2) assms [of k] show "i \<in> {prio_order s ! k | k. k < 28 \<and> Q k}" by auto
next
  fix i
  assume "i \<in> {prio_order s ! k | k. k < 28 \<and> Q k}"
  with assms show "i \<in> {i. i < 28 \<and> R i}" by (auto simp: prio_order_less)
qed

text \<open>The controller as a device: the set of raised and the set of enabled sources.\<close>

definition intc_abs :: "'z intc_st_scheme \<Rightarrow> nat set \<times> nat set" where
  "intc_abs s = ({i. i < 28 \<and> raised s i}, {i. i < 28 \<and> enabled s i})"

lemma intc_abs_order:
  "table_ok s \<Longrightarrow> intc_abs s = ({prio_order s ! k | k. k < 28 \<and> bit (interrupt_vpend s) k},
    {prio_order s ! k | k. k < 28 \<and> bit (interrupt_vmask s) k})"
  unfolding intc_abs_def prod.inject
  by (intro conjI order_set raised_bit enabled_bit)

lemma intc_abs_recalc [simp]: "intc_abs (recalc_pending_itrs s) = intc_abs s"
  by (simp add: intc_abs_def recalc_pending_itrs_def)

lemma recalc_inv:
  assumes "intc_inv s" "\<forall>k. bit P k \<longrightarrow> k < 28" "\<forall>k. bit M k \<longrightarrow> k < 28"
  shows "intc_inv (recalc_pending_itrs (s\<lparr>interrupt_vpend := P, interrupt_vmask := M\<rparr>))"
proof -
  have "table_ok (s\<lparr>interrupt_vpend := P, interrupt_vmask := M\<rparr>)"
    using assms by (intro table_ok_vectors) (simp_all add: intc_inv_def)
  moreover have "synced (recalc_pending_itrs (s\<lparr>interrupt_vpend := P, interrupt_vmask := M\<rparr>))"
    using assms(1) by (simp add: intc_inv_def synced_def recalc_frame)
  ultimately show ?thesis by (simp add: intc_inv_def recalc_frame)
qed

lemma vectors_abs:
  assumes "intc_inv s" "\<forall>k. bit P k \<longrightarrow> k < 28" "\<forall>k. bit M k \<longrightarrow> k < 28"
  shows "intc_abs (recalc_pending_itrs (s\<lparr>interrupt_vpend := P, interrupt_vmask := M\<rparr>)) =
       ({prio_order s ! k | k. k < 28 \<and> bit P k}, {prio_order s ! k | k. k < 28 \<and> bit M k})"
proof -
  have "table_ok (s\<lparr>interrupt_vpend := P, interrupt_vmask := M\<rparr>)"
    using assms by (intro table_ok_vectors) (simp_all add: intc_inv_def)
  from intc_abs_order [OF this] show ?thesis by simp
qed

lemma table_vectors_small:
  "intc_inv s \<Longrightarrow> bit (interrupt_vpend s) k \<Longrightarrow> k < 28"
  "intc_inv s \<Longrightarrow> bit (interrupt_vmask s) k \<Longrightarrow> k < 28"
  by (simp_all add: intc_inv_def table_ok_def)

text \<open>The four operations, on the device: one source is added or removed.\<close>

lemma intc_ops_vectors:
  "SetInterruptPend i s = recalc_pending_itrs (s\<lparr>interrupt_vpend := interrupt_vpend s OR InterruptBit s i,
     interrupt_vmask := interrupt_vmask s\<rparr>)"
  "ResetInterruptPend i s = recalc_pending_itrs (s\<lparr>interrupt_vpend := interrupt_vpend s AND NOT (InterruptBit s i),
     interrupt_vmask := interrupt_vmask s\<rparr>)"
  "SetInterruptMask i s = recalc_pending_itrs (s\<lparr>interrupt_vpend := interrupt_vpend s,
     interrupt_vmask := interrupt_vmask s OR InterruptBit s i\<rparr>)"
  "ResetInterruptMask i s = recalc_pending_itrs (s\<lparr>interrupt_vpend := interrupt_vpend s,
     interrupt_vmask := interrupt_vmask s AND NOT (InterruptBit s i)\<rparr>)"
  by (simp_all add: SetInterruptPend_def ResetInterruptPend_def SetInterruptMask_def ResetInterruptMask_def)

lemma intc_ops_inv:
  assumes "intc_inv s" "i < 28"
  shows "intc_inv (SetInterruptPend i s)" "intc_inv (ResetInterruptPend i s)"
    "intc_inv (SetInterruptMask i s)" "intc_inv (ResetInterruptMask i s)"
proof -
  note P = table_vectors_small(1) [OF assms(1)] and M = table_vectors_small(2) [OF assms(1)]
  have B: "bit (InterruptBit s i) k \<Longrightarrow> k < 28" for k
    using InterruptBit_small [of s i k] assms by (simp add: intc_inv_def)
  have up: "\<forall>k. bit (v OR InterruptBit s i) k \<longrightarrow> k < 28" if "\<forall>k. bit v k \<longrightarrow> k < 28" for v
    using that B by (auto simp: bit_or_iff)
  have down: "\<forall>k. bit (v AND NOT (InterruptBit s i)) k \<longrightarrow> k < 28" if "\<forall>k. bit v k \<longrightarrow> k < 28" for v
    using that by (auto simp: bit_and_iff)
  have P': "\<forall>k. bit (interrupt_vpend s) k \<longrightarrow> k < 28" and M': "\<forall>k. bit (interrupt_vmask s) k \<longrightarrow> k < 28"
    using P M by blast+
  show "intc_inv (SetInterruptPend i s)" "intc_inv (ResetInterruptPend i s)"
    "intc_inv (SetInterruptMask i s)" "intc_inv (ResetInterruptMask i s)"
    unfolding intc_ops_vectors
    using recalc_inv [OF assms(1) up [OF P'] M'] recalc_inv [OF assms(1) down [OF P'] M']
      recalc_inv [OF assms(1) P' up [OF M']] recalc_inv [OF assms(1) P' down [OF M']]
    by simp_all
qed

lemma order_bits:
  assumes "intc_inv s" "i < 28"
  shows "{prio_order s ! k | k. k < 28 \<and> bit (v OR InterruptBit s i) k} =
      insert i {prio_order s ! k | k. k < 28 \<and> bit v k}"
    "{prio_order s ! k | k. k < 28 \<and> bit (v AND NOT (InterruptBit s i)) k} =
      {prio_order s ! k | k. k < 28 \<and> bit v k} - {i}"
proof -
  have tab: "table_ok s" using assms(1) by (simp add: intc_inv_def)
  obtain j where j: "j < 28" "prio_order s ! j = i" using assms(2) by (rule prio_order_index)
  have b: "bit (InterruptBit s i) k \<longleftrightarrow> k = j" if "k < 28" for k
    using InterruptBit_bit [OF tab assms(2) that] prio_order_inj [OF that j(1), of s] j(2) by simp
  have b': "bit (InterruptBit s (prio_order s ! j)) k \<longleftrightarrow> k = j" if "k < 28" for k
    using b [OF that] j(2) by simp
  show "{prio_order s ! k | k. k < 28 \<and> bit (v OR InterruptBit s i) k} =
      insert i {prio_order s ! k | k. k < 28 \<and> bit v k}"
    unfolding j(2) [symmetric] using j(1) b' by (auto simp: bit_or_iff)
  show "{prio_order s ! k | k. k < 28 \<and> bit (v AND NOT (InterruptBit s i)) k} =
      {prio_order s ! k | k. k < 28 \<and> bit v k} - {i}"
    unfolding j(2) [symmetric] using j(1) b' prio_order_inj [of _ j s]
    by (auto simp: bit_and_iff bit_not_iff)
qed

lemma intc_ops_abs:
  assumes inv: "intc_inv s" and i: "i < 28" and abs: "intc_abs s = (R, E)"
  shows "intc_abs (SetInterruptPend i s) = (insert i R, E)"
    "intc_abs (ResetInterruptPend i s) = (R - {i}, E)"
    "intc_abs (SetInterruptMask i s) = (R, insert i E)"
    "intc_abs (ResetInterruptMask i s) = (R, E - {i})"
proof -
  have tab: "table_ok s" using inv by (simp add: intc_inv_def)
  have ok: "table_ok (s\<lparr>interrupt_vpend := P, interrupt_vmask := M\<rparr>)"
    if "intc_inv (recalc_pending_itrs (s\<lparr>interrupt_vpend := P, interrupt_vmask := M\<rparr>))" for P M
    using that by (simp add: intc_inv_def recalc_frame)
  note ops = intc_ops_inv [OF inv i, unfolded intc_ops_vectors, THEN ok, THEN intc_abs_order]
  have RE: "R = {prio_order s ! k | k. k < 28 \<and> bit (interrupt_vpend s) k}"
    "E = {prio_order s ! k | k. k < 28 \<and> bit (interrupt_vmask s) k}"
    using intc_abs_order [OF tab] abs by simp_all
  show "intc_abs (SetInterruptPend i s) = (insert i R, E)"
    unfolding intc_ops_vectors intc_abs_recalc ops(1) RE order_bits(1) [OF inv i, symmetric] by simp
  show "intc_abs (ResetInterruptPend i s) = (R - {i}, E)"
    unfolding intc_ops_vectors intc_abs_recalc ops(2) RE order_bits(2) [OF inv i, symmetric] by simp
  show "intc_abs (SetInterruptMask i s) = (R, insert i E)"
    unfolding intc_ops_vectors intc_abs_recalc ops(3) RE order_bits(1) [OF inv i, symmetric] by simp
  show "intc_abs (ResetInterruptMask i s) = (R, E - {i})"
    unfolding intc_ops_vectors intc_abs_recalc ops(4) RE order_bits(2) [OF inv i, symmetric] by simp
qed

subsection \<open>Accepting an interrupt\<close>

text \<open>What the SH4 manual asks of the controller: a source is acceptable when it is raised and
  enabled, interrupts are not blocked, and its level is above \<open>SR.IMASK\<close>.\<close>

definition acceptable :: "'z intc_st_scheme \<Rightarrow> nat \<Rightarrow> bool" where
  "acceptable s i \<longleftrightarrow> i < 28 \<and> raised s i \<and> enabled s i \<and> sr_BL (status (sr s)) = 0
     \<and> unat (sr_IMASK (status (sr s))) < GetPrLvl s i"

lemma IMASK_less: "unat (sr_IMASK st) < 16"
proof -
  have "take_bit 4 (unat w) < 2 ^ 4" for w :: u32 by (rule take_bit_nat_less_exp)
  then show ?thesis by (simp add: sr_IMASK_def get_field_def unsigned_take_bit_eq)
qed

lemma pend_bit:
  assumes inv: "intc_inv s" and k: "k < 28"
  shows "bit (interrupt_pend s) k \<longleftrightarrow> acceptable s (prio_order s ! k)"
proof -
  have tab: "table_ok s" and sync: "synced s" using inv by (simp_all add: intc_inv_def)
  let ?m = "unat (sr_IMASK (status (sr s)))"
  have lv: "InterruptLevelBit s ?m = mask (length (levels s (Suc ?m)))"
    using tab IMASK_less by (simp add: table_ok_def mask_eq_exp_minus_1)
  have "bit (decoded_srimask s) k \<longleftrightarrow>
      sr_BL (status (sr s)) = 0 \<and> ?m < GetPrLvl s (prio_order s ! k)"
    using sync lv k IMASK_less [of "status (sr s)"] levels_nth_less [of "Suc ?m" k s]
    by (auto simp: synced_def bit_simps)
  then show ?thesis
    using sync raised_bit [OF tab k] enabled_bit [OF tab k] prio_order_less [OF k]
    by (auto simp: synced_def acceptable_def bit_simps)
qed

lemma bitscanrev_spec:
  assumes "v \<noteq> 0"
  shows "bit v (bitscanrev v)" "bit v k \<Longrightarrow> k \<le> bitscanrev v"
proof -
  have upto: "(\<forall>k < n. \<not> bit v k) \<or>
      (bit v (foldl (\<lambda>m k. if bit v k then k else m) 0 [0..<n])
       \<and> (\<forall>k < n. bit v k \<longrightarrow> k \<le> foldl (\<lambda>m k. if bit v k then k else m) 0 [0..<n]))" for n
    by (induction n) (auto simp: less_Suc_eq)
  have "\<exists>k. bit v k" using assms by (auto simp: bit_eq_iff)
  then have "\<exists>k < 32. bit v k" using bit_imp_le_length by fastforce
  then have all: "bit v (bitscanrev v) \<and> (\<forall>k < 32. bit v k \<longrightarrow> k \<le> bitscanrev v)"
    using upto [of 32] unfolding bitscanrev_def by blast
  then show "bit v (bitscanrev v)" by blast
  show "k \<le> bitscanrev v" if "bit v k"
    using all that bit_imp_le_length [OF that] by simp
qed

text \<open>The interrupt taken is the acceptable source to which all others yield.\<close>

lemma pend_none:
  assumes "intc_inv s"
  shows "interrupt_pend s = 0 \<longleftrightarrow> (\<forall>i. \<not> acceptable s i)"
proof
  assume z: "interrupt_pend s = 0"
  show "\<forall>i. \<not> acceptable s i"
  proof (intro allI notI)
    fix i
    assume acc: "acceptable s i"
    then have "i < 28" by (simp add: acceptable_def)
    then obtain k where "k < 28" "prio_order s ! k = i" by (rule prio_order_index)
    with acc pend_bit [OF assms, of k] z show False by simp
  qed
next
  assume none: "\<forall>i. \<not> acceptable s i"
  have "\<not> bit (interrupt_pend s) k" for k
  proof
    assume b: "bit (interrupt_pend s) k"
    then have "k < 28" using assms by (auto simp: intc_inv_def table_ok_def synced_def bit_and_iff)
    with b none pend_bit [OF assms] show False by blast
  qed
  then show "interrupt_pend s = 0" by (simp add: bit_eq_iff)
qed

lemma pend_best:
  assumes inv: "intc_inv s" and "interrupt_pend s \<noteq> 0"
  shows "\<exists>i. acceptable s i \<and> (\<forall>j. acceptable s j \<longrightarrow> j = i \<or> yields s j i)
    \<and> InterruptEnvId s (bitscanrev (interrupt_pend s)) = IntEvnCode i"
proof -
  let ?k = "bitscanrev (interrupt_pend s)"
  note top = bitscanrev_spec [OF assms(2)]
  have k: "?k < 28" using inv top(1) by (auto simp: intc_inv_def table_ok_def synced_def bit_and_iff)
  have acc: "acceptable s (prio_order s ! ?k)" using pend_bit [OF inv k] top(1) by simp
  have "j = prio_order s ! ?k \<or> yields s j (prio_order s ! ?k)" if j: "acceptable s j" for j
  proof -
    obtain l where l: "l < 28" "prio_order s ! l = j"
      using j prio_order_index by (auto simp: acceptable_def)
    then have "l \<le> ?k" using pend_bit [OF inv l(1)] j top(2) by simp
    then show ?thesis
      using sorted_wrt_nth_less [OF sorted_levels, of l ?k s 16] k l(2)
      by (cases "l = ?k") (auto simp: length_prio_order)
  qed
  moreover have "InterruptEnvId s ?k = IntEvnCode (prio_order s ! ?k)"
    using inv k by (simp add: intc_inv_def table_ok_def)
  ultimately show ?thesis using acc by blast
qed

subsection \<open>Register banks\<close>

text \<open>
  The architecture has two banks of \<open>R0\<close> to \<open>R7\<close>; the context holds the active one in
  \<open>r\<close> and the other in \<open>r_bank\<close>, and \<open>old_sr.RB\<close> remembers which one is active.
\<close>

definition bank :: "'z intc_st_scheme \<Rightarrow> u32 \<Rightarrow> nat \<Rightarrow> u32" where
  "bank s b i = (if sr_RB (old_sr s) = b then r s i else r_bank s i)"

definition active_bank :: "u32 \<Rightarrow> u32" where
  "active_bank st = sr_RB st AND sr_MD st"

text \<open>The status register has not been written since the last \<open>UpdateSR\<close>.\<close>

definition sr_current :: "'z intc_st_scheme \<Rightarrow> bool" where
  "sr_current s \<longleftrightarrow> sr_RB (old_sr s) = active_bank (status (sr s))"

lemma sr_bit_cases: "sr_RB st = 0 \<or> sr_RB st = 1" "sr_MD st = 0 \<or> sr_MD st = 1" "sr_BL st = 0 \<or> sr_BL st = 1"
  by (simp_all add: field_defs get_field1_eq)

lemma SRdecode_simps [simp]:
  "r (snd (SRdecode s)) = r s" "r_bank (snd (SRdecode s)) = r_bank s"
  "old_sr (snd (SRdecode s)) = old_sr s" "sr (snd (SRdecode s)) = sr s"
  "ssr (snd (SRdecode s)) = ssr s" "spc (snd (SRdecode s)) = spc s" "sgr (snd (SRdecode s)) = sgr s"
  "pc (snd (SRdecode s)) = pc s" "vbr (snd (SRdecode s)) = vbr s"
  "interrupt_vpend (snd (SRdecode s)) = interrupt_vpend s"
  "interrupt_vmask (snd (SRdecode s)) = interrupt_vmask s"
  "InterruptBit (snd (SRdecode s)) = InterruptBit s"
  by (simp_all add: SRdecode_def recalc_pending_itrs_def Let_def)

lemma set_RB_get: "v = 0 \<or> v = 1 \<Longrightarrow> sr_RB (set_RB v st) = v"
  using get_set_field_same [of 29 1 v st] by (auto simp: field_defs)

lemma UpdateSR_obtain:
  obtains R Rb o' d p where
    "snd (UpdateSR s) = s\<lparr>r := R, r_bank := Rb, old_sr := o', decoded_srimask := d, interrupt_pend := p\<rparr>"
    "sr_RB o' = active_bank (status (sr s))"
    "(R, Rb) = (if sr_RB (old_sr s) = active_bank (status (sr s)) then (r s, r_bank s)
       else ((\<lambda>i. if i < 8 then r_bank s i else r s i), (\<lambda>i. if i < 8 then r s i else r_bank s i)))"
    "synced (snd (UpdateSR s))"
proof -
  let ?st = "status (sr s)"
  have ab: "active_bank ?st = (if sr_MD ?st \<noteq> 0 then sr_RB ?st else 0)"
    using sr_bit_cases(1) [of ?st] sr_bit_cases(2) [of ?st] by (auto simp: active_bank_def)
  then have ab01: "active_bank ?st = 0 \<or> active_bank ?st = 1"
    using sr_bit_cases(1) [of ?st] by auto
  let ?s1 = "if sr_RB (old_sr s) = active_bank ?st then s else ChangeGPR s"
  have eq: "UpdateSR s = SRdecode (?s1\<lparr>old_sr := set_RB (active_bank ?st) ?st\<rparr>)"
    using ab by (auto simp: UpdateSR_def Let_def ChangeGPR_def simp flip: active_bank_def split: if_splits)
  obtain d p where dp: "snd (UpdateSR s) =
      ?s1\<lparr>old_sr := set_RB (active_bank ?st) ?st, decoded_srimask := d, interrupt_pend := p\<rparr>"
    unfolding eq using SRdecode_frame [of "?s1\<lparr>old_sr := set_RB (active_bank ?st) ?st\<rparr>"] by auto
  have sync: "synced (snd (UpdateSR s))" unfolding eq by (rule SRdecode_synced)
  show ?thesis
  proof (cases "sr_RB (old_sr s) = active_bank ?st")
    case True
    with dp sync show ?thesis
      by (intro that [where R = "r s" and Rb = "r_bank s" and o' = "set_RB (active_bank ?st) ?st" and d = d and p = p])
        (simp_all add: set_RB_get [OF ab01])
  next
    case False
    with dp sync show ?thesis
      by (intro that [where o' = "set_RB (active_bank ?st) ?st" and d = d and p = p
          and R = "\<lambda>i. if i < 8 then r_bank s i else r s i" and Rb = "\<lambda>i. if i < 8 then r s i else r_bank s i"])
        (simp_all add: set_RB_get [OF ab01] ChangeGPR_def)
  qed
qed

lemma UpdateSR_bank:
  assumes "i < 8" "b = 0 \<or> b = 1"
  shows "bank (snd (UpdateSR s)) b i = bank s b i"
proof -
  obtain R Rb o' d p where u: "snd (UpdateSR s) =
      s\<lparr>r := R, r_bank := Rb, old_sr := o', decoded_srimask := d, interrupt_pend := p\<rparr>"
    "sr_RB o' = active_bank (status (sr s))"
    "(R, Rb) = (if sr_RB (old_sr s) = active_bank (status (sr s)) then (r s, r_bank s)
       else ((\<lambda>i. if i < 8 then r_bank s i else r s i), (\<lambda>i. if i < 8 then r s i else r_bank s i)))"
    by (rule UpdateSR_obtain)
  have "active_bank (status (sr s)) = 0 \<or> active_bank (status (sr s)) = 1"
    using sr_bit_cases(1) [of "status (sr s)"] sr_bit_cases(2) [of "status (sr s)"]
    by (auto simp: active_bank_def)
  then show ?thesis
    using u assms sr_bit_cases(1) [of "old_sr s"] by (auto simp: bank_def split: if_splits)
qed

lemma UpdateSR_simps:
  "sr (snd (UpdateSR s)) = sr s" "ssr (snd (UpdateSR s)) = ssr s" "spc (snd (UpdateSR s)) = spc s"
  "sgr (snd (UpdateSR s)) = sgr s" "pc (snd (UpdateSR s)) = pc s" "vbr (snd (UpdateSR s)) = vbr s"
  "sr_RB (old_sr (snd (UpdateSR s))) = active_bank (status (sr s))"
  "intc_inv s \<Longrightarrow> intc_abs (snd (UpdateSR s)) = intc_abs s"
  "table_ok s \<Longrightarrow> intc_inv (snd (UpdateSR s))"
  "synced (snd (UpdateSR s))"
proof -
  obtain R Rb o' d p where u: "snd (UpdateSR s) =
      s\<lparr>r := R, r_bank := Rb, old_sr := o', decoded_srimask := d, interrupt_pend := p\<rparr>"
    "sr_RB o' = active_bank (status (sr s))" "synced (snd (UpdateSR s))"
    by (rule UpdateSR_obtain)
  let ?s = "s\<lparr>r := R, r_bank := Rb, old_sr := o', decoded_srimask := d, interrupt_pend := p\<rparr>"
  show "sr (snd (UpdateSR s)) = sr s" "ssr (snd (UpdateSR s)) = ssr s" "spc (snd (UpdateSR s)) = spc s"
    "sgr (snd (UpdateSR s)) = sgr s" "pc (snd (UpdateSR s)) = pc s" "vbr (snd (UpdateSR s)) = vbr s"
    "sr_RB (old_sr (snd (UpdateSR s))) = active_bank (status (sr s))"
    using u(2) by (simp_all add: u(1))
  show "synced (snd (UpdateSR s))" by (rule u(3))
  show "intc_abs (snd (UpdateSR s)) = intc_abs s"
    unfolding u(1) by (simp add: intc_abs_def raised_def enabled_def)
  have "levels ?s = levels s" by (rule levels_cong, rule GetPrLvl_cong) simp_all
  then show "intc_inv (snd (UpdateSR s))" if "table_ok s"
    using that u(3) unfolding u(1) by (simp add: intc_inv_def table_ok_def)
qed

subsection \<open>Entering a handler\<close>

definition handler_status :: "u32 \<Rightarrow> u32" where
  "handler_status st = set_RB 1 (set_MD 1 (set_BL 1 st))"

lemma handler_status_fields:
  "sr_BL (handler_status st) = 1" "sr_MD (handler_status st) = 1" "sr_RB (handler_status st) = 1"
  "sr_IMASK (handler_status st) = sr_IMASK st"
  by (rule bit_word_eqI; auto simp: handler_status_def field_defs field_bits bit_simps)+

lemma synced_blocked: "synced s \<Longrightarrow> sr_BL (status (sr s)) = 1 \<Longrightarrow> interrupt_pend s = 0"
  by (simp add: synced_def)

lemma intc_inv_frame:
  "intc_inv (s\<lparr>pc := v\<rparr>) = intc_inv s" "intc_abs (s\<lparr>pc := v\<rparr>) = intc_abs s"
  "bank (s\<lparr>pc := v\<rparr>) = bank s"
proof -
  have "levels (s\<lparr>pc := v\<rparr>) = levels s" by (rule levels_cong, rule GetPrLvl_cong) simp_all
  then show "intc_inv (s\<lparr>pc := v\<rparr>) = intc_inv s"
    by (simp add: intc_inv_def table_ok_def synced_def)
qed (simp_all add: intc_abs_def raised_def enabled_def bank_def fun_eq_iff)

text \<open>What both kinds of entry share, from the saved registers to the switched bank. \<open>f\<close>
  stands for the assignment of the event register.\<close>

lemma handler_entry:
  assumes inv: "intc_inv s"
    and f: "\<exists>e x. s1 = s\<lparr>CCN_INTEVT := e, CCN_EXPEVT := x\<rparr>"
    and s4: "s4 = snd (UpdateSR (s1\<lparr>ssr := sr_getFull (sr s1), spc := epc, sgr := r s1 15,
        sr := (sr s1)\<lparr>status := handler_status (status (sr s1))\<rparr>\<rparr>))"
  shows "intc_inv s4" "intc_abs s4 = intc_abs s" "interrupt_pend s4 = 0"
    "ssr s4 = sr_getFull (sr s)" "spc s4 = epc" "sgr s4 = r s 15" "vbr s4 = vbr s"
    "sr s4 = (sr s)\<lparr>status := handler_status (status (sr s))\<rparr>" "sr_RB (old_sr s4) = 1"
    "i < 8 \<Longrightarrow> b = 0 \<or> b = 1 \<Longrightarrow> bank s4 b i = bank s b i"
proof -
  let ?s3 = "s1\<lparr>ssr := sr_getFull (sr s1), spc := epc, sgr := r s1 15,
        sr := (sr s1)\<lparr>status := handler_status (status (sr s1))\<rparr>\<rparr>"
  obtain e x where s1: "s1 = s\<lparr>CCN_INTEVT := e, CCN_EXPEVT := x\<rparr>" using f by blast
  have "levels ?s3 = levels s" unfolding s1 by (rule levels_cong, rule GetPrLvl_cong) simp_all
  then have tab3: "table_ok ?s3" using inv by (simp add: s1 intc_inv_def table_ok_def)
  show "intc_inv s4" unfolding s4 using tab3 by (rule UpdateSR_simps(9))
  have "intc_abs s4 = intc_abs ?s3"
  proof -
    obtain R Rb o' d p where "snd (UpdateSR ?s3) =
        ?s3\<lparr>r := R, r_bank := Rb, old_sr := o', decoded_srimask := d, interrupt_pend := p\<rparr>"
      by (rule UpdateSR_obtain)
    then show ?thesis unfolding s4 by (simp add: intc_abs_def raised_def enabled_def)
  qed
  then show "intc_abs s4 = intc_abs s" by (simp add: s1 intc_abs_def raised_def enabled_def)
  have act: "active_bank (handler_status st) = 1" for st
    by (simp add: active_bank_def handler_status_fields)
  show "ssr s4 = sr_getFull (sr s)" "spc s4 = epc" "sgr s4 = r s 15" "vbr s4 = vbr s"
    "sr s4 = (sr s)\<lparr>status := handler_status (status (sr s))\<rparr>" "sr_RB (old_sr s4) = 1"
    by (simp_all add: s4 UpdateSR_simps(1-7) s1 act)
  show "interrupt_pend s4 = 0"
    unfolding s4 by (rule synced_blocked [OF UpdateSR_simps(10)])
      (simp add: UpdateSR_simps(1) handler_status_fields)
  show "bank s4 b i = bank s b i" if "i < 8" "b = 0 \<or> b = 1"
    using UpdateSR_bank [OF that, of ?s3] by (simp add: s4 s1 bank_def)
qed

lemma write_IPR_cases:
  "write_INTC_IPRA d s = s \<and> INTC_IPRA s = d \<or> write_INTC_IPRA d s = SIIDRebuild (s\<lparr>INTC_IPRA := d\<rparr>)"
  "write_INTC_IPRB d s = s \<and> INTC_IPRB s = d \<or> write_INTC_IPRB d s = SIIDRebuild (s\<lparr>INTC_IPRB := d\<rparr>)"
  "write_INTC_IPRC d s = s \<and> INTC_IPRC s = d \<or> write_INTC_IPRC d s = SIIDRebuild (s\<lparr>INTC_IPRC := d\<rparr>)"
  by (simp_all add: write_INTC_IPRA_def write_INTC_IPRB_def write_INTC_IPRC_def)

lemma SIIDRebuild_abs: "intc_abs (SIIDRebuild s) = intc_abs s"
  using SIIDRebuild_spec(2,3) by (auto simp: intc_abs_def)

lemma SIIDRebuild_simps [simp]:
  "INTC_IPRA (SIIDRebuild s) = INTC_IPRA s" "INTC_IPRB (SIIDRebuild s) = INTC_IPRB s"
  "INTC_IPRC (SIIDRebuild s) = INTC_IPRC s" "sr (SIIDRebuild s) = sr s"
  by (rule SIIDRebuild_obtain [of s], simp)+

lemma intc_abs_IPR [simp]:
  "intc_abs (s\<lparr>INTC_IPRA := d\<rparr>) = intc_abs s" "intc_abs (s\<lparr>INTC_IPRB := d\<rparr>) = intc_abs s"
  "intc_abs (s\<lparr>INTC_IPRC := d\<rparr>) = intc_abs s"
  by (simp_all add: intc_abs_def raised_def enabled_def)

lemma IPRA_write:
  assumes "intc_inv s"
  shows "intc_inv (write_INTC_IPRA d s) \<and> intc_abs (write_INTC_IPRA d s) = intc_abs s
    \<and> INTC_IPRA (write_INTC_IPRA d s) = d"
  using write_IPR_cases(1) [of d s] assms by (auto simp: SIIDRebuild_spec(1) SIIDRebuild_abs)

lemma reset_abs: "intc_inv (interrupts_reset s)" "intc_abs (interrupts_reset s) = ({}, {0..<28})"
proof -
  show "intc_inv (interrupts_reset s)" by (simp add: interrupts_reset_def SIIDRebuild_spec(1))
  have ones: "(0xFFFFFFFF :: u32) = - 1" by simp
  show "intc_abs (interrupts_reset s) = ({}, {0..<28})"
    unfolding interrupts_reset_def SIIDRebuild_abs ones
    by (auto simp: intc_abs_def raised_def enabled_def sh4_INT_ID_COUNT_def)
qed

text \<open>A state to evaluate on: every register zero, the controller reset.\<close>

definition intc_zero :: intc_st where
  "intc_zero = interrupts_reset
     \<lparr>xf = (\<lambda>_. 0), fr = (\<lambda>_. 0), r = (\<lambda>_. 0), mac_full = 0, r_bank = (\<lambda>_. 0), gbr = 0, ssr = 0, spc = 0,
      sgr = 0, dbr = 0, vbr = 0x8c000000, pr = 0, fpul = 0, pc = 0x8c010000,
      sr = \<lparr>status = 0x40000000, sr_T = 0\<rparr>, fpscr = 0,
      old_sr = 0x40000000, old_fpscr = 0, CpuRunning = False, interrupt_pend = 0, cycle_counter = 0,
      old_rm = 0xFF, old_dn = 0xFF, mxcsr = 0,
      InterruptEnvId = (\<lambda>_. 0), InterruptBit = (\<lambda>_. 0), InterruptLevelBit = (\<lambda>_. 0),
      interrupt_vpend = 0, interrupt_vmask = 0, decoded_srimask = 0,
      INTC_IPRA = 0, INTC_IPRB = 0, INTC_IPRC = 0, CCN_INTEVT = 0, CCN_EXPEVT = 0, CCN_TRA = 0\<rparr>"

lemma intc_zero_inv: "intc_inv intc_zero" "intc_abs intc_zero = ({}, {0..<28})"
  unfolding intc_zero_def by (rule reset_abs)+

lemma interrupts_reset_sr [simp]: "sr (interrupts_reset s) = sr s"
  by (simp add: interrupts_reset_def)

lemma intc_zero_sr: "sr intc_zero = \<lparr>status = 0x40000000, sr_T = 0\<rparr>"
  by (simp add: intc_zero_def)

text \<open>The first timer raised at level 15 on top of it.\<close>

definition intc_timer :: intc_st where
  "intc_timer = SetInterruptPend 10 (write_INTC_IPRA 0xF000 intc_zero)"

lemma SetInterruptPend_frame [simp]:
  "sr (SetInterruptPend i s) = sr s" "GetPrLvl (SetInterruptPend i s) = GetPrLvl s"
  by (simp_all add: SetInterruptPend_def recalc_frame)

lemma intc_absD:
  assumes "intc_abs s = (R, E)" "i < 28"
  shows "raised s i \<longleftrightarrow> i \<in> R" "enabled s i \<longleftrightarrow> i \<in> E"
  using assms by (auto simp: intc_abs_def)

lemma intc_timer_facts:
  "intc_inv intc_timer" "intc_abs intc_timer = ({10}, {0..<28})" "acceptable intc_timer 10"
proof -
  note w = IPRA_write [OF intc_zero_inv(1), of "0xF000"]
  then have inv: "intc_inv (write_INTC_IPRA 0xF000 intc_zero)"
    and abs: "intc_abs (write_INTC_IPRA 0xF000 intc_zero) = ({}, {0..<28})"
    by (simp_all add: intc_zero_inv)
  show "intc_inv intc_timer" unfolding intc_timer_def using inv by (intro intc_ops_inv) simp_all
  show abs': "intc_abs intc_timer = ({10}, {0..<28})"
    unfolding intc_timer_def using intc_ops_abs(1) [OF inv _ abs, of 10] by simp
  have "raised intc_timer 10 \<and> enabled intc_timer 10"
    using intc_absD [OF abs', of 10] by simp
  moreover have "GetPrLvl intc_timer 10 = 15"
    using w by (simp add: intc_timer_def GetPrLvl_def InterruptSourceList_def)
  moreover have "sr intc_timer = sr intc_zero"
    by (simp add: intc_timer_def write_INTC_IPRA_def)
  ultimately show "acceptable intc_timer 10"
    by (simp add: acceptable_def intc_zero_sr field_defs get_field_def)
qed

section \<open>Properties of the interrupt controller\<close>

text \<open>C5: \<open>UpdateINTC\<close> accepts the right interrupt. When no source is acceptable (raised,
  enabled, not blocked by \<open>SR.BL\<close>, of a level above \<open>SR.IMASK\<close>) nothing happens; otherwise
  the event of the acceptable source of the highest level is delivered, and among sources of
  the same level the one with the highest identifier.\<close>

theorem UpdateINTC_accepts:
  assumes "intc_inv s"
  shows "(\<forall>i. \<not> acceptable s i) \<and> UpdateINTC s = (False, s) \<or>
    (\<exists>i. acceptable s i \<and> (\<forall>j. acceptable s j \<longrightarrow> j = i \<or> yields s j i)
       \<and> UpdateINTC s = (True, Do_Interrupt (IntEvnCode i) s))"
proof (cases "interrupt_pend s = 0")
  case True
  then show ?thesis using pend_none [OF assms] by (simp add: UpdateINTC_def)
next
  case False
  then show ?thesis using pend_best [OF assms False] by (auto simp: UpdateINTC_def)
qed

theorem UpdateINTC_accepts_witness:
  "UpdateINTC intc_timer = (True, Do_Interrupt 0x400 intc_timer)"
proof -
  have "i = 10" if "acceptable intc_timer i" for i
    using that intc_absD(1) [OF intc_timer_facts(2), of i] by (simp add: acceptable_def)
  then have "UpdateINTC intc_timer = (True, Do_Interrupt (IntEvnCode 10) intc_timer)"
    using UpdateINTC_accepts [OF intc_timer_facts(1)] intc_timer_facts(3) by blast
  then show ?thesis by (simp add: IntEvnCode_def InterruptSourceList_def)
qed

text \<open>C8: Raising, clearing, enabling and disabling a source add or remove exactly that
  source, whatever bit the table has given it, and keep the controller's invariant.\<close>

theorem interrupt_ops_refine:
  assumes "intc_inv s" "i < 28" "intc_abs s = (R, E)"
  shows "intc_inv (InterruptPend i v s) \<and> intc_inv (InterruptMask i v s)
    \<and> intc_abs (InterruptPend i v s) = (if v then insert i R else R - {i}, E)
    \<and> intc_abs (InterruptMask i v s) = (R, if v then insert i E else E - {i})"
  using intc_ops_inv [OF assms(1,2)] intc_ops_abs [OF assms]
  by (simp add: InterruptPend_def InterruptMask_def)

theorem interrupt_ops_refine_witness:
  "intc_abs (InterruptPend 11 True intc_timer) = ({10, 11}, {0..<28})
   \<and> intc_abs (InterruptPend 10 False intc_timer) = ({}, {0..<28})"
  using interrupt_ops_refine [OF intc_timer_facts(1) _ intc_timer_facts(2), of 11 True]
    interrupt_ops_refine [OF intc_timer_facts(1) _ intc_timer_facts(2), of 10 False]
  by (simp add: insert_commute)

text \<open>C7: Writing a priority register renumbers all sources but neither loses nor invents a
  pending interrupt and changes no mask: the sets of raised and enabled sources are the same.\<close>

theorem priority_write_keeps:
  assumes "intc_inv s"
  shows "intc_inv (write_INTC_IPRA d s) \<and> intc_abs (write_INTC_IPRA d s) = intc_abs s
      \<and> INTC_IPRA (write_INTC_IPRA d s) = d
    \<and> intc_inv (write_INTC_IPRB d s) \<and> intc_abs (write_INTC_IPRB d s) = intc_abs s
      \<and> INTC_IPRB (write_INTC_IPRB d s) = d
    \<and> intc_inv (write_INTC_IPRC d s) \<and> intc_abs (write_INTC_IPRC d s) = intc_abs s
      \<and> INTC_IPRC (write_INTC_IPRC d s) = d"
  using IPRA_write [OF assms] write_IPR_cases [of d s] assms
  by (auto simp: SIIDRebuild_spec(1) SIIDRebuild_abs)

theorem priority_write_keeps_witness:
  "intc_abs (write_INTC_IPRC 0x1234 intc_timer) = ({10}, {0..<28})"
  using priority_write_keeps [OF intc_timer_facts(1), of "0x1234"] by (simp add: intc_timer_facts(2))

text \<open>After a reset, from whatever state, the invariant holds, no source is raised and
  every source is enabled.\<close>

theorem interrupts_reset_establishes:
  "intc_inv (interrupts_reset s) \<and> intc_abs (interrupts_reset s) = ({}, {0..<28})"
  using reset_abs by blast

text \<open>Delivering an interrupt saves the status register, the program counter and the stack
  pointer, blocks further interrupts, enters the handler at \<open>VBR + 0x600\<close> in privileged mode with
  register bank 1 active, keeps the contents of both register banks and of the controller.\<close>

theorem Do_Interrupt_entry:
  assumes "intc_inv s" "s' = Do_Interrupt ev s"
  shows "ssr s' = sr_getFull (sr s) \<and> spc s' = pc s \<and> sgr s' = r s 15 \<and> pc s' = vbr s + 0x600
    \<and> sr s' = (sr s)\<lparr>status := handler_status (status (sr s))\<rparr> \<and> sr_RB (old_sr s') = 1
    \<and> interrupt_pend s' = 0 \<and> intc_inv s' \<and> intc_abs s' = intc_abs s
    \<and> (\<forall>b i. i < 8 \<and> (b = 0 \<or> b = 1) \<longrightarrow> bank s' b i = bank s b i)"
proof -
  let ?s1 = "s\<lparr>CCN_INTEVT := ucast ev\<rparr>"
  let ?s4 = "snd (UpdateSR (?s1\<lparr>ssr := sr_getFull (sr ?s1), spc := pc s, sgr := r ?s1 15,
        sr := (sr ?s1)\<lparr>status := handler_status (status (sr ?s1))\<rparr>\<rparr>))"
  have s': "s' = ?s4\<lparr>pc := vbr ?s4 + 0x600\<rparr>"
    by (simp add: assms(2) Do_Interrupt_def Let_def split_beta handler_status_def)
  have "\<exists>e x. ?s1 = s\<lparr>CCN_INTEVT := e, CCN_EXPEVT := x\<rparr>"
    by (intro exI [of _ "ucast ev"] exI [of _ "CCN_EXPEVT s"]) simp
  note entry = handler_entry [OF assms(1) this refl, where epc = "pc s"]
  show ?thesis
    unfolding s' using entry by (auto simp only: intc_inv_frame) simp_all
qed

theorem Do_Interrupt_entry_witness:
  "spc (Do_Interrupt 0x400 intc_timer) = pc intc_timer
   \<and> interrupt_pend (Do_Interrupt 0x400 intc_timer) = 0"
  using Do_Interrupt_entry [OF intc_timer_facts(1) refl, of "0x400"] by blast

text \<open>Raising an exception. An event code that is no exception violates the assertion, an
  exception while \<open>SR.BL\<close> is set is fatal, and otherwise the handler is entered at
  \<open>VBR + 0x400\<close> for a TLB miss and at \<open>VBR + 0x100\<close> for any other exception, with the state
  saved as for an interrupt and the faulting address in \<open>SPC\<close>.\<close>

theorem Do_Exception_entry:
  assumes "intc_inv s"
    and "valid = ((0x40 \<le> ev \<and> ev \<le> 0x1a0) \<or> ev = 0x800 \<or> ev = 0x820 \<or> ev = 0x1e0)"
  shows "(\<not> valid \<and> Do_Exception epc ev s = Inl AssertFailed) \<or>
    (valid \<and> sr_BL (status (sr s)) = 1 \<and> Do_Exception epc ev s = Inl FlycastException) \<or>
    (valid \<and> sr_BL (status (sr s)) = 0 \<and> (\<exists>s'. Do_Exception epc ev s = Inr s'
      \<and> ssr s' = sr_getFull (sr s) \<and> spc s' = epc \<and> sgr s' = r s 15
      \<and> pc s' = vbr s + (if ev \<in> {0x40, 0x60} then 0x400 else 0x100)
      \<and> sr s' = (sr s)\<lparr>status := handler_status (status (sr s))\<rparr> \<and> sr_RB (old_sr s') = 1
      \<and> interrupt_pend s' = 0 \<and> intc_inv s' \<and> intc_abs s' = intc_abs s
      \<and> (\<forall>b i. i < 8 \<and> (b = 0 \<or> b = 1) \<longrightarrow> bank s' b i = bank s b i)))"
proof (cases "valid \<and> sr_BL (status (sr s)) = 0")
  case True
  let ?s1 = "s\<lparr>CCN_EXPEVT := ucast ev\<rparr>"
  let ?s4 = "snd (UpdateSR (?s1\<lparr>ssr := sr_getFull (sr ?s1), spc := epc, sgr := r ?s1 15,
        sr := (sr ?s1)\<lparr>status := handler_status (status (sr ?s1))\<rparr>\<rparr>))"
  let ?s' = "?s4\<lparr>pc := vbr ?s4 + (if ev = 0x40 \<or> ev = 0x60 then 0x400 else 0x100)\<rparr>"
  have s': "Do_Exception epc ev s = Inr ?s'"
    using True unfolding assms(2) Do_Exception_def Let_def split_beta handler_status_def
    by (simp only: simp_thms if_False) simp
  have "\<exists>e x. ?s1 = s\<lparr>CCN_INTEVT := e, CCN_EXPEVT := x\<rparr>"
    by (intro exI [of _ "CCN_INTEVT s"] exI [of _ "ucast ev"]) simp
  note entry = handler_entry [OF assms(1) this refl, where epc = epc]
  show ?thesis
    by (rule disjI2, rule disjI2, intro conjI exI [of _ ?s'])
      (use True s' entry in \<open>auto simp: intc_inv_frame\<close>)
next
  case False
  then show ?thesis
    using sr_bit_cases(3) [of "status (sr s)"] unfolding assms(2) by (auto simp: Do_Exception_def)
qed

lemma intc_zero_regs: "vbr intc_zero = 0x8c000000" "old_sr intc_zero = 0x40000000"
proof -
  have "vbr (SIIDRebuild s) = vbr s" "old_sr (SIIDRebuild s) = old_sr s" for s :: intc_st
    by (rule SIIDRebuild_obtain [of s], simp)+
  then show "vbr intc_zero = 0x8c000000" "old_sr intc_zero = 0x40000000"
    by (simp_all add: intc_zero_def interrupts_reset_def)
qed

theorem Do_Exception_entry_witness:
  "\<exists>s'. Do_Exception 0x8c010000 0x40 intc_zero = Inr s' \<and> pc s' = 0x8c000400 \<and> spc s' = 0x8c010000"
  using Do_Exception_entry [OF intc_zero_inv(1) refl, of "0x40" "0x8c010000"]
  by (auto simp: intc_zero_sr intc_zero_regs field_defs get_field1_eq)

text \<open>C9: After a change of the status register \<open>UpdateSR\<close> makes the bank it selects the
  active one (bank 1 only in privileged mode) and loses no register of either bank, whatever
  combination of \<open>MD\<close> and \<open>RB\<close> was written; the controller's masks are recomputed.\<close>

theorem UpdateSR_banks:
  assumes "table_ok s"
  shows "sr_RB (old_sr (snd (UpdateSR s))) = (if sr_MD (status (sr s)) = 1 then sr_RB (status (sr s)) else 0)
    \<and> (\<forall>b i. i < 8 \<and> (b = 0 \<or> b = 1) \<longrightarrow> bank (snd (UpdateSR s)) b i = bank s b i)
    \<and> (\<forall>i \<ge> 8. r (snd (UpdateSR s)) i = r s i)
    \<and> intc_inv (snd (UpdateSR s)) \<and> (fst (UpdateSR s) \<longleftrightarrow> interrupt_pend (snd (UpdateSR s)) \<noteq> 0)"
proof (intro conjI)
  show "sr_RB (old_sr (snd (UpdateSR s))) = (if sr_MD (status (sr s)) = 1 then sr_RB (status (sr s)) else 0)"
    using sr_bit_cases(1) [of "status (sr s)"] sr_bit_cases(2) [of "status (sr s)"]
    by (auto simp: UpdateSR_simps(7) active_bank_def)
  show "\<forall>b i. i < 8 \<and> (b = 0 \<or> b = 1) \<longrightarrow> bank (snd (UpdateSR s)) b i = bank s b i"
    using UpdateSR_bank by blast
  show "\<forall>i \<ge> 8. r (snd (UpdateSR s)) i = r s i"
    by (rule UpdateSR_obtain [of s]) (auto split: if_splits)
  show "intc_inv (snd (UpdateSR s))" using assms by (rule UpdateSR_simps(9))
  show "fst (UpdateSR s) \<longleftrightarrow> interrupt_pend (snd (UpdateSR s)) \<noteq> 0"
    by (simp add: UpdateSR_def SRdecode_def Let_def)
qed

theorem UpdateSR_banks_witness: "sr_RB (old_sr (snd (UpdateSR intc_zero))) = 0"
  using UpdateSR_banks [of intc_zero] intc_zero_inv(1)
  by (simp add: intc_inv_def intc_zero_sr field_defs get_field1_eq)

end
