(* ===== verification/Sh4_Tmu.thy ===== *)
theory Sh4_Tmu
  imports Sh4_Sched Sh4_Interrupts
begin

section \<open>The SH4 timer unit\<close>

text \<open>
  \<open>core/hw/sh4/modules/tmu.cpp\<close>: three 32 bit down counters. A counter is not stored; it is
  the difference of the channel's base and the scaled clock, and the scheduler calls back
  when it underflows. The state is the scheduler's, extended by the registers and variables
  of the unit and by the CPU with its interrupt controller (\<open>cpu\<close>). Reading a register
  other than \<open>TCNT\<close> and logging are left out, as are the save states.
\<close>

datatype sched_callback = Sched_tmu_cb

record tmu_st = "sched_callback sched_st" +
  cpu :: intc_st
  TMU_TCOR :: "nat \<Rightarrow> u32"
  TMU_TCR :: "nat \<Rightarrow> u16"
  TMU_TSTR :: u8
  tmu_shift :: "nat \<Rightarrow> u32"
  tmu_mask :: "nat \<Rightarrow> u64"
  old_mode :: "nat \<Rightarrow> u32"
  tmu_sched :: "nat \<Rightarrow> int"
  tmu_ch_base :: "nat \<Rightarrow> u64"

definition tmu_underflow :: u16 where "tmu_underflow = 0x0100"

definition tmu_UNIE :: u16 where "tmu_UNIE = 0x0020"

definition tmu_intID :: "nat \<Rightarrow> nat" where
  "tmu_intID ch = [sh4_TMU0_TUNI0, sh4_TMU1_TUNI1, sh4_TMU2_TUNI2] ! ch"

definition tmu_now :: "tmu_st \<Rightarrow> u64" where
  "tmu_now s = sh4_sched_now64 s + 448 - scast (cycle_counter (cpu s))"

definition ticks :: "nat \<Rightarrow> tmu_st \<Rightarrow> u64" where
  "ticks ch s = drop_bit (unat (tmu_shift s ch)) (tmu_now s) AND tmu_mask s ch"

definition read_TMU_TCNTch :: "nat \<Rightarrow> tmu_st \<Rightarrow> u64" where
  "read_TMU_TCNTch ch s = tmu_ch_base s ch - ticks ch s"

text \<open>A request with the \<open>int\<close> identifier a device keeps: a negative one is no slot.\<close>

definition request_id :: "int \<Rightarrow> u32 \<Rightarrow> tmu_st \<Rightarrow> sched_err + tmu_st" where
  "request_id i cycles s =
     (if i < 0 then Inl OutOfRange else sh4_sched_request (nat i) cycles s)"

text \<open>\<open>std::clamp<s64>(v, 0, SH4_MAIN_CLOCK)\<close>, converted to \<open>u32\<close>.\<close>

definition clamp_cycles :: "u64 \<Rightarrow> u32" where
  "clamp_cycles v =
     (if sint v < 0 then 0 else if sint v > 200000000 then SH4_MAIN_CLOCK else ucast v)"

definition sched_chan_tick :: "nat \<Rightarrow> tmu_st \<Rightarrow> sched_err + tmu_st" where
  "sched_chan_tick ch s =
     (if tmu_mask s ch \<noteq> 0
      then let cnt = read_TMU_TCNTch ch s;
               cycles = clamp_cycles (push_bit (unat (tmu_shift s ch)) cnt)
           in request_id (tmu_sched s ch) cycles s
      else request_id (tmu_sched s ch) (- 1) s)"

definition write_TMU_TCNTch :: "nat \<Rightarrow> u64 \<Rightarrow> tmu_st \<Rightarrow> sched_err + tmu_st" where
  "write_TMU_TCNTch ch dat s =
     sched_chan_tick ch (s\<lparr>tmu_ch_base := (tmu_ch_base s)(ch := dat + ticks ch s)\<rparr>)"

definition reloadCounter :: "nat \<Rightarrow> u64 \<Rightarrow> tmu_st \<Rightarrow> sched_err + u32 \<times> tmu_st" where
  "reloadCounter ch curValue s =
     (let s1 = s\<lparr>TMU_TCR := (TMU_TCR s)(ch := TMU_TCR s ch OR tmu_underflow)\<rparr>;
          s2 = s1\<lparr>cpu := InterruptPend (tmu_intID ch) True (cpu s1)\<rparr>;
          tcor = TMU_TCOR s2 ch;
          v = (if sint (ucast tcor + curValue) < 0 then 0 else ucast tcor + curValue)
      in sum_bind (write_TMU_TCNTch ch v s2) (\<lambda>s3. Inr (ucast v, s3)))"

definition read_TMU_TCNT :: "nat \<Rightarrow> tmu_st \<Rightarrow> sched_err + u32 \<times> tmu_st" where
  "read_TMU_TCNT ch s =
     (let v = read_TMU_TCNTch ch s
      in if sint v < 0 then reloadCounter ch v s else Inr (ucast v, s))"

definition write_TMU_TCNT :: "nat \<Rightarrow> u32 \<Rightarrow> tmu_st \<Rightarrow> sched_err + tmu_st" where
  "write_TMU_TCNT ch dat s = write_TMU_TCNTch ch (ucast dat) s"

definition turn_on_off_ch :: "nat \<Rightarrow> bool \<Rightarrow> tmu_st \<Rightarrow> sched_err + tmu_st" where
  "turn_on_off_ch ch on s =
     (let TCNT = read_TMU_TCNTch ch s;
          s1 = s\<lparr>tmu_mask := (tmu_mask s)(ch := (if on then 0xFFFFFFFFFFFFFFFF else 0))\<rparr>
      in write_TMU_TCNTch ch TCNT s1)"

definition mode_shift :: "u32 \<Rightarrow> u32 \<Rightarrow> u32" where
  "mode_shift mode old =
     (if mode = 0 then 2 else if mode = 1 then 4 else if mode = 2 then 6 else if mode = 3 then 8
      else if mode = 4 then 10 else old)"

definition UpdateTMUCounts :: "nat \<Rightarrow> tmu_st \<Rightarrow> sched_err + tmu_st" where
  "UpdateTMUCounts reg s =
     (let c1 = InterruptPend (tmu_intID reg) (TMU_TCR s reg AND tmu_underflow \<noteq> 0) (cpu s);
          c2 = InterruptMask (tmu_intID reg) (TMU_TCR s reg AND tmu_UNIE \<noteq> 0) c1;
          s1 = s\<lparr>cpu := c2\<rparr>;
          mode = ucast (TMU_TCR s reg) AND 7
      in if old_mode s1 reg = mode then Inr s1
         else
           let s2 = s1\<lparr>old_mode := (old_mode s1)(reg := mode)\<rparr>;
               TCNT = read_TMU_TCNTch reg s2;
               s3 = s2\<lparr>tmu_shift := (tmu_shift s2)(reg := mode_shift mode (tmu_shift s2 reg) + 2)\<rparr>
           in write_TMU_TCNTch reg TCNT s3)"

definition TMU_TCR_write :: "nat \<Rightarrow> u16 \<Rightarrow> tmu_st \<Rightarrow> sched_err + tmu_st" where
  "TMU_TCR_write ch dat s =
     UpdateTMUCounts ch
       (s\<lparr>TMU_TCR := (TMU_TCR s)(ch := (if ch = 2 then dat AND 0x03ff else dat AND 0x013f))\<rparr>)"

definition write_TMU_TSTR :: "u8 \<Rightarrow> tmu_st \<Rightarrow> sched_err + tmu_st" where
  "write_TMU_TSTR dat s =
     sum_bind (turn_on_off_ch 0 (dat AND 1 \<noteq> 0) (s\<lparr>TMU_TSTR := dat AND 7\<rparr>))
       (\<lambda>s1. sum_bind (turn_on_off_ch 1 (dat AND 2 \<noteq> 0) s1)
         (\<lambda>s2. turn_on_off_ch 2 (dat AND 4 \<noteq> 0) s2))"

definition sched_tmu_cb :: "nat \<Rightarrow> tmu_st \<Rightarrow> sched_err + u32 \<times> tmu_st" where
  "sched_tmu_cb ch s =
     (if tmu_mask s ch \<noteq> 0
      then let tcnt = read_TMU_TCNTch ch s
           in sum_bind (if sint tcnt < 0
                        then sum_bind (reloadCounter ch tcnt s) (\<lambda>(_, s'). Inr s')
                        else write_TMU_TCNTch ch tcnt s)
                (\<lambda>s'. Inr (0, s'))
      else Inr (0, s))"

text \<open>The call through the function pointer of a scheduler slot; the tag is the channel, which
  indexes arrays of three.\<close>

fun run_callback :: "(sched_callback, tmu_st) run_cb" where
  "run_callback Sched_tmu_cb tg sch_cycl jitter s =
     (if unat tg < 3 then sched_tmu_cb (unat tg) s else Inl OutOfRange)"

definition tmu_init_sched :: "tmu_st \<Rightarrow> tmu_st" where
  "tmu_init_sched s = fold (\<lambda>i s. let (n, s') = sh4_sched_register (of_nat i) Sched_tmu_cb s
     in s'\<lparr>tmu_sched := (tmu_sched s')(i := int n)\<rparr>) [0..<3] s"

definition tmu_reset :: "tmu_st \<Rightarrow> sched_err + tmu_st" where
  "tmu_reset s =
     (let s1 = s\<lparr>TMU_TCR := (\<lambda>_. 0), TMU_TSTR := 0, tmu_shift := (\<lambda>_. 0), tmu_mask := (\<lambda>_. 0),
                old_mode := (\<lambda>_. 0xFFFFFFFF), tmu_ch_base := (\<lambda>_. 0), TMU_TCOR := (\<lambda>_. 0xffffffff)\<rparr>
      in sum_bind (UpdateTMUCounts 0 s1) (\<lambda>s2. sum_bind (UpdateTMUCounts 1 s2)
         (\<lambda>s3. sum_bind (UpdateTMUCounts 2 s3) (\<lambda>s4. sum_bind (write_TMU_TSTR 0 s4)
         (\<lambda>s5. sum_bind (write_TMU_TCNTch 0 0xffffffff s5) (\<lambda>s6. sum_bind (write_TMU_TCNTch 1 0xffffffff s6)
         (\<lambda>s7. write_TMU_TCNTch 2 0xffffffff s7)))))))"

definition tmu_term :: "tmu_st \<Rightarrow> sched_err + tmu_st" where
  "tmu_term s =
     sum_bind (sh4_sched_unregister (tmu_sched s 0) s) (\<lambda>s1.
     let s2 = s1\<lparr>tmu_sched := (tmu_sched s1)(0 := - 1)\<rparr> in
     sum_bind (sh4_sched_unregister (tmu_sched s2 1) s2) (\<lambda>s3.
     let s4 = s3\<lparr>tmu_sched := (tmu_sched s3)(1 := - 1)\<rparr> in
     sum_bind (sh4_sched_unregister (tmu_sched s4 2) s4) (\<lambda>s5.
     Inr (s5\<lparr>tmu_sched := (tmu_sched s5)(2 := - 1)\<rparr>))))"

subsection \<open>Frames\<close>

text \<open>The scheduler changes none of the unit's variables.\<close>

lemma tmu_more_eq:
  assumes "sched_st.more s' = sched_st.more (s :: tmu_st)"
  shows "cpu s' = cpu s" "TMU_TCOR s' = TMU_TCOR s" "TMU_TCR s' = TMU_TCR s" "TMU_TSTR s' = TMU_TSTR s"
    "tmu_shift s' = tmu_shift s" "tmu_mask s' = tmu_mask s" "old_mode s' = old_mode s"
    "tmu_sched s' = tmu_sched s" "tmu_ch_base s' = tmu_ch_base s"
  using assms by (cases s; cases s'; simp)+

definition tmu_regs :: "tmu_st \<Rightarrow> bool" where
  "tmu_regs s \<longleftrightarrow> (\<forall>ch < 3. 0 \<le> tmu_sched s ch \<and> nat (tmu_sched s ch) < length (slots s)
     \<and> slots s ! nat (tmu_sched s ch) = (Some Sched_tmu_cb, of_nat ch))"

text \<open>What the unit relies on: its slots are registered, and a slot with its callback has a
  channel number as its tag.\<close>

definition tmu_good :: "tmu_st \<Rightarrow> bool" where
  "tmu_good s \<longleftrightarrow> intc_inv (cpu s) \<and> tmu_regs s
     \<and> (\<forall>tg. (Some Sched_tmu_cb, tg) \<in> set (slots s) \<longrightarrow> unat tg < 3)"

lemma request_id_Inr:
  assumes "request_id i c s = Inr s'"
  shows "0 \<le> i" "sh4_sched_request (nat i) c s = Inr s'"
  using assms by (auto simp: request_id_def split: if_splits)

lemma clamp_cycles_bounds: "0 \<le> sint (clamp_cycles v) \<and> sint (clamp_cycles v) \<le> 200000000"
proof (cases "sint v < 0 \<or> sint v > 200000000")
  case True
  then show ?thesis by (auto simp: clamp_cycles_def)
next
  case False
  then have v: "sint v = uint v" "uint v \<le> 200000000"
    using uint_lt2p [of v] by (auto simp: sint64_uint split: if_splits)
  then have "uint (ucast v :: u32) = uint v"
    by (simp add: unsigned_ucast_eq take_bit_int_eq_self_iff)
  then have "sint (ucast v :: u32) = uint v" using v(2) by (simp add: sint32_uint)
  with False v show ?thesis by (simp add: clamp_cycles_def)
qed

lemma sched_chan_tick_Inr:
  assumes "sched_chan_tick ch s = Inr s'"
  obtains c where "sh4_sched_request (nat (tmu_sched s ch)) c s = Inr s'" "0 \<le> tmu_sched s ch"
    "c = (if tmu_mask s ch = 0 then - 1
          else clamp_cycles (push_bit (unat (tmu_shift s ch)) (read_TMU_TCNTch ch s)))"
proof -
  have "request_id (tmu_sched s ch) (if tmu_mask s ch = 0 then - 1
      else clamp_cycles (push_bit (unat (tmu_shift s ch)) (read_TMU_TCNTch ch s))) s = Inr s'"
    using assms by (simp add: sched_chan_tick_def Let_def split: if_splits)
  then show ?thesis by (intro that [OF request_id_Inr(2) request_id_Inr(1) refl])
qed

lemma write_TMU_TCNTch_frame:
  assumes "write_TMU_TCNTch ch d s = Inr s'"
  shows "sched_st.more s' = sched_st.more (s\<lparr>tmu_ch_base := (tmu_ch_base s)(ch := d + ticks ch s)\<rparr>)"
    "sh4_sched_now64 s' = sh4_sched_now64 s" "slots s' = slots s"
proof -
  let ?s = "s\<lparr>tmu_ch_base := (tmu_ch_base s)(ch := d + ticks ch s)\<rparr>"
  obtain c where c: "sh4_sched_request (nat (tmu_sched ?s ch)) c ?s = Inr s'"
    using assms unfolding write_TMU_TCNTch_def by (rule sched_chan_tick_Inr)
  show "sched_st.more s' = sched_st.more ?s" using c by (rule request_more)
  show "sh4_sched_now64 s' = sh4_sched_now64 s"
    using request_now64 [OF c] by (simp add: sh4_sched_now64_def)
  show "slots s' = slots s" using request_slots [OF c] by (simp add: slots_def)
qed

lemmas write_TCNT_fields = tmu_more_eq [OF write_TMU_TCNTch_frame(1), simplified]

lemma ticks_cong:
  "cpu s' = cpu s \<Longrightarrow> sh4_sched_now64 s' = sh4_sched_now64 s \<Longrightarrow> tmu_shift s' ch = tmu_shift s ch
     \<Longrightarrow> tmu_mask s' ch = tmu_mask s ch \<Longrightarrow> ticks ch s' = ticks ch s"
  by (simp add: ticks_def tmu_now_def)

lemma write_read:
  assumes "write_TMU_TCNTch ch d s = Inr s'"
  shows "read_TMU_TCNTch ch s' = d" "ch' \<noteq> ch \<Longrightarrow> read_TMU_TCNTch ch' s' = read_TMU_TCNTch ch' s"
proof -
  have t: "ticks c s' = ticks c s" for c
    by (rule ticks_cong) (simp_all add: write_TCNT_fields [OF assms] write_TMU_TCNTch_frame [OF assms])
  show "read_TMU_TCNTch ch s' = d"
    by (simp add: read_TMU_TCNTch_def t write_TCNT_fields [OF assms])
  show "read_TMU_TCNTch ch' s' = read_TMU_TCNTch ch' s" if "ch' \<noteq> ch"
    using that by (simp add: read_TMU_TCNTch_def t write_TCNT_fields [OF assms])
qed

text \<open>A registered channel can always be written.\<close>

lemma sched_chan_tick_total:
  assumes "tmu_regs s" "ch < 3"
  shows "\<exists>s'. sched_chan_tick ch s = Inr s'"
proof -
  have id: "0 \<le> tmu_sched s ch" "nat (tmu_sched s ch) < length (sch_list s)"
    using assms by (simp_all add: tmu_regs_def)
  have "\<exists>s'. sh4_sched_request (nat (tmu_sched s ch)) (- 1) s = Inr s'"
    using id by (simp add: sh4_sched_request_def Let_def)
  moreover have "\<exists>s'. sh4_sched_request (nat (tmu_sched s ch)) (clamp_cycles v) s = Inr s'" for v
    using clamp_cycles_bounds [of v] id by (intro request_total) simp_all
  ultimately show ?thesis using id by (simp add: sched_chan_tick_def request_id_def Let_def)
qed

lemma tmu_regs_cong: "tmu_sched s' = tmu_sched s \<Longrightarrow> slots s' = slots s \<Longrightarrow> tmu_regs s' = tmu_regs s"
  by (simp add: tmu_regs_def)

lemma slots_tmu_update [simp]:
  "slots (s\<lparr>cpu := c\<rparr>) = slots s" "slots (s\<lparr>tmu_ch_base := b\<rparr>) = slots s"
  "slots (s\<lparr>tmu_mask := m\<rparr>) = slots s" "slots (s\<lparr>TMU_TCR := f\<rparr>) = slots s"
  "slots (s\<lparr>tmu_shift := f'\<rparr>) = slots s" "slots (s\<lparr>old_mode := f'\<rparr>) = slots s"
  "slots (s\<lparr>TMU_TSTR := x\<rparr>) = slots s"
  by (simp_all add: slots_def)

lemma write_total:
  assumes "tmu_regs s" "ch < 3"
  shows "\<exists>s'. write_TMU_TCNTch ch d s = Inr s'"
  unfolding write_TMU_TCNTch_def using assms
  by (intro sched_chan_tick_total) (simp_all add: tmu_regs_def)

subsection \<open>The unit keeps the scheduler's contract\<close>

lemma cb_frame_base:
  assumes "sh4_sched_now64 s1 = sh4_sched_now64 s" "sch_list s1 = sch_list s"
  shows "cb_frame s1 s' = cb_frame s s'"
  using assms slot_frame_cong [OF assms(1)] by (simp add: cb_frame_def)

lemma now64_tmu_update [simp]:
  "sh4_sched_now64 (s\<lparr>cpu := c\<rparr>) = sh4_sched_now64 s"
  "sh4_sched_now64 (s\<lparr>tmu_ch_base := b\<rparr>) = sh4_sched_now64 s"
  "sh4_sched_now64 (s\<lparr>tmu_mask := m\<rparr>) = sh4_sched_now64 s"
  "sh4_sched_now64 (s\<lparr>TMU_TCR := f\<rparr>) = sh4_sched_now64 s"
  "sh4_sched_now64 (s\<lparr>tmu_shift := f'\<rparr>) = sh4_sched_now64 s"
  "sh4_sched_now64 (s\<lparr>old_mode := f'\<rparr>) = sh4_sched_now64 s"
  by (simp_all add: sh4_sched_now64_def)

lemma tmu_slot_cb:
  assumes "tmu_regs s" "ch < 3"
  shows "cb (sch_list s ! nat (tmu_sched s ch)) = Some Sched_tmu_cb"
    "nat (tmu_sched s ch) < length (sch_list s)"
proof -
  show "nat (tmu_sched s ch) < length (sch_list s)" using assms by (simp add: tmu_regs_def)
  then show "cb (sch_list s ! nat (tmu_sched s ch)) = Some Sched_tmu_cb"
    using assms slots_nth [of "nat (tmu_sched s ch)" s] by (auto simp: tmu_regs_def)
qed

lemma write_cb_frame:
  assumes w: "write_TMU_TCNTch ch d s = Inr s'" and "tmu_regs s" "ch < 3"
  shows "cb_frame s s'"
proof -
  let ?s = "s\<lparr>tmu_ch_base := (tmu_ch_base s)(ch := d + ticks ch s)\<rparr>"
  obtain c where c: "sh4_sched_request (nat (tmu_sched ?s ch)) c ?s = Inr s'"
    using w unfolding write_TMU_TCNTch_def by (rule sched_chan_tick_Inr)
  have "cb_frame ?s s'" using c by (rule request_frame) (use tmu_slot_cb(1) [OF assms(2,3)] in auto)
  then show ?thesis by (simp add: cb_frame_base [of ?s s])
qed

lemma tmu_good_cong:
  "cpu s' = cpu s \<Longrightarrow> tmu_sched s' = tmu_sched s \<Longrightarrow> slots s' = slots s \<Longrightarrow> tmu_good s' = tmu_good s"
  by (simp add: tmu_good_def tmu_regs_def)

lemma tmu_good_write:
  assumes "write_TMU_TCNTch ch d s = Inr s'"
  shows "tmu_good s' = tmu_good s"
  by (rule tmu_good_cong)
    (simp_all add: write_TCNT_fields [OF assms] write_TMU_TCNTch_frame [OF assms])

text \<open>The state an underflow leaves before the counter is written again.\<close>

definition underflowed :: "nat \<Rightarrow> tmu_st \<Rightarrow> tmu_st" where
  "underflowed ch s = s\<lparr>TMU_TCR := (TMU_TCR s)(ch := TMU_TCR s ch OR tmu_underflow),
     cpu := InterruptPend (tmu_intID ch) True (cpu s)\<rparr>"

definition reload_value :: "nat \<Rightarrow> u64 \<Rightarrow> tmu_st \<Rightarrow> u64" where
  "reload_value ch v s =
     (if sint (ucast (TMU_TCOR s ch) + v) < 0 then 0 else ucast (TMU_TCOR s ch) + v)"

lemma reloadCounter_eq:
  "reloadCounter ch v s = sum_bind (write_TMU_TCNTch ch (reload_value ch v s) (underflowed ch s))
     (\<lambda>s'. Inr (ucast (reload_value ch v s), s'))"
  by (simp add: reloadCounter_def underflowed_def reload_value_def Let_def)

lemma tmu_intID_less: "ch < 3 \<Longrightarrow> tmu_intID ch < 28"
  by (auto simp: tmu_intID_def sh4_TMU0_TUNI0_def sh4_TMU1_TUNI1_def sh4_TMU2_TUNI2_def
      numeral_3_eq_3 less_Suc_eq)

lemma InterruptPend_inv: "intc_inv c \<Longrightarrow> i < 28 \<Longrightarrow> intc_inv (InterruptPend i v c)"
  "intc_inv c \<Longrightarrow> i < 28 \<Longrightarrow> intc_inv (InterruptMask i v c)"
  by (simp_all add: InterruptPend_def InterruptMask_def intc_ops_inv)

lemma underflowed_simps [simp]:
  "slots (underflowed ch s) = slots s" "sch_list (underflowed ch s) = sch_list s"
  "sh4_sched_now64 (underflowed ch s) = sh4_sched_now64 s"
  "tmu_sched (underflowed ch s) = tmu_sched s" "tmu_mask (underflowed ch s) = tmu_mask s"
  "tmu_shift (underflowed ch s) = tmu_shift s"
  by (simp_all add: underflowed_def)

lemma tmu_good_underflowed: "tmu_good s \<Longrightarrow> ch < 3 \<Longrightarrow> tmu_good (underflowed ch s)"
  by (simp add: tmu_good_def tmu_regs_def) (simp add: underflowed_def InterruptPend_inv tmu_intID_less)

lemma tmu_cb_total:
  assumes "tmu_good s" "ch < 3"
  shows "\<exists>s'. sched_tmu_cb ch s = Inr (0, s') \<and> cb_frame s s' \<and> tmu_good s'"
proof (cases "tmu_mask s ch = 0")
  case True
  with assms show ?thesis by (simp add: sched_tmu_cb_def)
next
  case False
  let ?v = "read_TMU_TCNTch ch s"
  let ?s = "if sint ?v < 0 then underflowed ch s else s"
  let ?d = "if sint ?v < 0 then reload_value ch ?v s else ?v"
  have regs: "tmu_good ?s" using assms tmu_good_underflowed by simp
  then obtain s' where w: "write_TMU_TCNTch ch ?d ?s = Inr s'"
    using write_total [of ?s ch ?d] assms(2) by (auto simp: tmu_good_def)
  have "sched_tmu_cb ch s = Inr (0, s')"
    using False w by (simp add: sched_tmu_cb_def reloadCounter_eq Let_def split: if_splits)
  moreover have "cb_frame ?s s'"
    using w regs assms(2) by (intro write_cb_frame) (simp_all add: tmu_good_def)
  then have "cb_frame s s'" by (simp add: cb_frame_base [of ?s s])
  moreover have "tmu_good s'" using tmu_good_write [OF w] regs by simp
  ultimately show ?thesis by blast
qed

interpretation tmu_cb: sched_callbacks run_callback tmu_good
proof
  show "tmu_good s'" if "tmu_good s" "sched_st.more s' = sched_st.more s" "slots s' = slots s" for s s'
    using that tmu_good_cong [OF tmu_more_eq(1) tmu_more_eq(8)] by blast
  fix c tg rm j and s :: tmu_st
  assume good: "tmu_good s" and reg: "(Some c, tg) \<in> set (slots s)"
  then have tg: "unat tg < 3" by (cases c) (simp add: tmu_good_def)
  then obtain s' where s': "run_callback c tg rm j s = Inr (0, s')" "cb_frame s s'" "tmu_good s'"
    using tmu_cb_total [OF good tg] by (cases c) auto
  then show "\<exists>r s'. run_callback c tg rm j s = Inr (r, s')" by blast
  show "cb_frame s s'' \<and> tmu_good s'' \<and> sint r \<le> 200000000" if "run_callback c tg rm j s = Inr (r, s'')" for r s''
    using s' that by simp
qed

subsection \<open>Counting\<close>

definition running :: "nat \<Rightarrow> tmu_st \<Rightarrow> bool" where
  "running ch s \<longleftrightarrow> tmu_mask s ch = - 1"

lemma uint_ticks:
  "running ch s \<Longrightarrow> uint (ticks ch s) = uint (tmu_now s) div 2 ^ unat (tmu_shift s ch)"
proof -
  assume "running ch s"
  then have "ticks ch s = drop_bit (unat (tmu_shift s ch)) (tmu_now s)" by (simp add: running_def ticks_def)
  moreover have "uint (drop_bit k w) = uint w div 2 ^ k" for k and w :: u64
    using uint_lt2p [of w]
    by (subst unsigned_drop_bit_eq) (simp add: drop_bit_eq_div take_bit_int_eq_self)
  ultimately show ?thesis by simp
qed

text \<open>While the channel runs, the counter goes down by one each time the clock passes a
  multiple of the divider; a stopped counter stands still.\<close>

lemma read_later:
  assumes "tmu_ch_base s' ch = tmu_ch_base s ch" "tmu_shift s' ch = tmu_shift s ch"
    and "running ch s" "running ch s'"
    and "uint (tmu_now s') = uint (tmu_now s) + d"
  shows "read_TMU_TCNTch ch s' = read_TMU_TCNTch ch s
    - word_of_int ((uint (tmu_now s) + d) div 2 ^ unat (tmu_shift s ch)
        - uint (tmu_now s) div 2 ^ unat (tmu_shift s ch))"
proof -
  have "ticks ch s' = word_of_int ((uint (tmu_now s) + d) div 2 ^ unat (tmu_shift s ch))"
    using uint_ticks [OF assms(4)] assms(2,5) by (metis word_of_int_uint)
  moreover have "ticks ch s = word_of_int (uint (tmu_now s) div 2 ^ unat (tmu_shift s ch))"
    using uint_ticks [OF assms(3)] by (metis word_of_int_uint)
  ultimately show ?thesis
    using assms(1) by (simp add: read_TMU_TCNTch_def flip: wi_hom_sub)
qed

lemma div_steps_le:
  assumes "0 \<le> d" "d \<le> v * (p::int)" "0 < p" "0 \<le> n"
  shows "(n + d) div p - n div p \<le> v" "0 \<le> (n + d) div p - n div p"
proof -
  have "(n + d) div p \<le> (n + v * p) div p" using assms by (intro zdiv_mono1) simp_all
  also have "\<dots> = n div p + v" using assms(3) by simp
  finally show "(n + d) div p - n div p \<le> v" by simp
  have "n div p \<le> (n + d) div p" using assms by (intro zdiv_mono1) simp_all
  then show "0 \<le> (n + d) div p - n div p" by simp
qed

lemma sint_push_count:
  assumes "k \<le> 12"
  shows "sint (push_bit k (ucast (d :: u32)) :: u64) = uint d * 2 ^ k"
proof -
  have "(2::int) ^ k \<le> 2 ^ 12" using assms by (intro power_increasing) simp_all
  then have p: "(2::int) ^ k \<le> 4096" by simp
  have "uint d * 2 ^ k \<le> uint d * 4096" using p by (intro mult_left_mono) simp_all
  then have b: "uint d * 2 ^ k < 17592186044416" using uint32_bounds(2) [of d] by linarith
  have "uint (push_bit k (ucast d) :: u64) = take_bit 64 (push_bit k (uint d))"
    using uint32_bounds(2) [of d] take_bit_int_eq_self [of "uint d" 64]
    by (simp add: unsigned_push_bit_eq unsigned_ucast_eq)
  also have "\<dots> = uint d * 2 ^ k"
    using b by (simp add: push_bit_eq_mult take_bit_int_eq_self_iff)
  finally show ?thesis using b by (simp add: sint64_uint)
qed

lemma clamp_count:
  assumes "k \<le> 12"
  shows "sint (clamp_cycles (push_bit k (ucast (d :: u32)))) = min (uint d * 2 ^ k) 200000000"
proof -
  let ?v = "push_bit k (ucast d) :: u64"
  have v: "sint ?v = uint d * 2 ^ k" using assms by (rule sint_push_count)
  then have nn: "0 \<le> sint ?v" by simp
  show ?thesis
  proof (cases "sint ?v > 200000000")
    case True
    with nn v show ?thesis by (simp add: clamp_cycles_def)
  next
    case False
    then have u: "uint ?v = sint ?v" using nn uint_lt2p [of ?v] by (auto simp: sint64_uint split: if_splits)
    then have "uint (ucast ?v :: u32) = sint ?v"
      using False nn by (simp add: unsigned_ucast_eq take_bit_int_eq_self_iff)
    then have "sint (ucast ?v :: u32) = sint ?v" using False by (simp add: sint32_uint)
    moreover have "clamp_cycles ?v = ucast ?v" using False nn unfolding clamp_cycles_def by simp
    ultimately show ?thesis using False v by simp
  qed
qed

lemma write_deadline:
  assumes w: "write_TMU_TCNT ch d s = Inr s'" and regs: "tmu_regs s" and ch: "ch < 3"
    and run: "running ch s" and shift: "unat (tmu_shift s ch) \<le> 12"
    and c: "c = min (uint d * 2 ^ unat (tmu_shift s ch)) 200000000"
    and e: "e = sch_list s' ! nat (tmu_sched s ch)"
  shows "scheduled e \<and> (left s' e = c \<or> left s' e = c + 1)"
proof -
  let ?s = "s\<lparr>tmu_ch_base := (tmu_ch_base s)(ch := ucast d + ticks ch s)\<rparr>"
  obtain cyc where cyc: "sh4_sched_request (nat (tmu_sched ?s ch)) cyc ?s = Inr s'"
    "cyc = (if tmu_mask ?s ch = 0 then - 1
      else clamp_cycles (push_bit (unat (tmu_shift ?s ch)) (read_TMU_TCNTch ch ?s)))"
    using w unfolding write_TMU_TCNT_def write_TMU_TCNTch_def by (rule sched_chan_tick_Inr)
  have "ticks ch ?s = ticks ch s" by (rule ticks_cong) simp_all
  then have "read_TMU_TCNTch ch ?s = ucast d" by (simp add: read_TMU_TCNTch_def)
  then have c': "sint cyc = c" "0 \<le> sint cyc"
    using cyc(2) clamp_count [OF shift, of d] clamp_cycles_bounds run c by (simp_all add: running_def)
  then have "cyc \<noteq> - 1" by auto
  obtain e' where e': "s' = sh4_sched_ffts (?s\<lparr>sch_list := (sch_list ?s)[nat (tmu_sched ?s ch) := e']\<rparr>)"
    "cyc \<noteq> - 1 \<Longrightarrow> scheduled e' \<and> 0 \<le> sint cyc \<and> sint cyc \<le> 200000000
       \<and> (left ?s e' = sint cyc \<or> left ?s e' = sint cyc + 1)"
    using cyc(1) by (rule request_Inr) blast
  have "e = e'" using e e'(1) tmu_slot_cb(2) [OF regs ch] by simp
  moreover have "left s' e' = left ?s e'" using e'(1) by simp
  ultimately show ?thesis using e'(2) c' \<open>cyc \<noteq> - 1\<close> by auto
qed

subsection \<open>A state to evaluate on\<close>

text \<open>The unit registered with an empty scheduler, all channels running with divider 16.\<close>

definition tmu_zero :: tmu_st where
  "tmu_zero = tmu_init_sched
     \<lparr>sh4_sched_ffb = 0, sch_list = [], sh4_sched_next_id = - 1, sh4_sched_next = 0,
      cpu = intc_zero, TMU_TCOR = (\<lambda>_. 1000), TMU_TCR = (\<lambda>_. 0), TMU_TSTR = 7, tmu_shift = (\<lambda>_. 4),
      tmu_mask = (\<lambda>_. - 1), old_mode = (\<lambda>_. 0), tmu_sched = (\<lambda>_. - 1), tmu_ch_base = (\<lambda>_. 0)\<rparr>"

lemma tmu_zero_eq:
  "tmu_zero = \<lparr>sh4_sched_ffb = 0,
     sch_list = map (\<lambda>i. \<lparr>cb = Some Sched_tmu_cb, tag = i, start = - 1, sched_end = - 1\<rparr>) [0, 1, 2],
     sh4_sched_next_id = - 1, sh4_sched_next = 0,
     cpu = intc_zero, TMU_TCOR = (\<lambda>_. 1000), TMU_TCR = (\<lambda>_. 0), TMU_TSTR = 7, tmu_shift = (\<lambda>_. 4),
     tmu_mask = (\<lambda>_. - 1), old_mode = (\<lambda>_. 0),
     tmu_sched = (\<lambda>_. - 1)(0 := 0, 1 := 1, 2 := 2), tmu_ch_base = (\<lambda>_. 0)\<rparr>"
  by (simp add: tmu_zero_def tmu_init_sched_def sh4_sched_register_def upt_rec numeral_3_eq_3 numeral_2_eq_2)

lemma tmu_zero_good: "tmu_good tmu_zero" "sched_inv tmu_zero" "tmu_regs tmu_zero"
  "running ch tmu_zero" "tmu_shift tmu_zero ch = 4"
proof -
  show regs: "tmu_regs tmu_zero"
    by (auto simp: tmu_regs_def tmu_zero_eq slots_def numeral_3_eq_3 less_Suc_eq nth_Cons')
  then show "tmu_good tmu_zero"
    using intc_zero_inv(1) by (simp add: tmu_good_def) (auto simp: tmu_zero_eq slots_def)
  show "sched_inv tmu_zero"
    by (auto simp: sched_inv_def sched_ok_def scheduled_def tmu_zero_eq)
  show "running ch tmu_zero" "tmu_shift tmu_zero ch = 4" by (simp_all add: running_def tmu_zero_eq)
qed

section \<open>Properties of the scheduler with the timers\<close>

text \<open>C6: A time slice of the CPU loop with the timers registered. No \<open>verify\<close> fails and no
  index is out of range, the 64 bit clock advances by exactly one slice of 448 cycles, every
  registration is kept, and afterwards no deadline has been missed: each scheduled slot lies in
  the future, and the countdown to the next event is no later than the earliest of them.\<close>

theorem timeslice_no_deadline_missed:
  assumes "sched_inv s" "tmu_good s"
  shows "\<exists>s'. UpdateSystem_sched run_callback s = Inr s' \<and> sched_inv s' \<and> tmu_good s'
    \<and> sh4_sched_now64 s' = sh4_sched_now64 s + 448 \<and> length (sch_list s') = length (sch_list s)
    \<and> (\<forall>i < length (sch_list s). cb (sch_list s' ! i) = cb (sch_list s ! i)
         \<and> (scheduled (sch_list s' ! i) \<longrightarrow> 0 \<le> left s' (sch_list s' ! i)
              \<and> sint (sh4_sched_next s') \<le> left s' (sch_list s' ! i)))"
proof -
  obtain s' where s': "UpdateSystem_sched run_callback s = Inr s'" "sched_inv s'" "tmu_good s'"
    "sh4_sched_now64 s' = sh4_sched_now64 s + 448" "length (sch_list s') = length (sch_list s)"
    "\<forall>i < length (sch_list s). cb (sch_list s' ! i) = cb (sch_list s ! i)"
    using tmu_cb.timeslice [OF assms] by blast
  moreover have "\<forall>i < length (sch_list s). scheduled (sch_list s' ! i) \<longrightarrow>
      0 \<le> left s' (sch_list s' ! i) \<and> sint (sh4_sched_next s') \<le> left s' (sch_list s' ! i)"
    using s'(2,5) by (auto simp: sched_inv_def sched_ok_def)
  ultimately show ?thesis by blast
qed

theorem timeslice_no_deadline_missed_witness:
  "\<exists>s'. UpdateSystem_sched run_callback tmu_zero = Inr s' \<and> sh4_sched_now64 s' = 448"
  using timeslice_no_deadline_missed [OF tmu_zero_good(2,1)]
  by (auto simp: sh4_sched_now64_def tmu_zero_eq)

text \<open>The jitter passed to a callback is always in the range 0 to 448 that \<open>sh4_sched.h\<close>
  promises: a slice in which every callback checks it behaves as one in which none does.\<close>

theorem callback_jitter_bounded:
  assumes "sched_inv s" "tmu_good s"
  shows "UpdateSystem_sched (guard_jitter run_callback) s = UpdateSystem_sched run_callback s"
  using tmu_cb.timeslice_jitter [OF assms] .

theorem callback_jitter_bounded_witness:
  "UpdateSystem_sched (guard_jitter run_callback) tmu_zero = UpdateSystem_sched run_callback tmu_zero"
  using callback_jitter_bounded [OF tmu_zero_good(2,1)] .

text \<open>Writing a counter and reading it back at the same time gives the value written, for
  every 32 bit value, without raising an interrupt; the other channels' counters are not
  disturbed. The write never fails.\<close>

theorem TCNT_roundtrip:
  assumes "tmu_regs s" "ch < 3"
  shows "\<exists>s'. write_TMU_TCNT ch d s = Inr s' \<and> read_TMU_TCNT ch s' = Inr (d, s') \<and> cpu s' = cpu s
    \<and> (\<forall>ch'. ch' \<noteq> ch \<longrightarrow> read_TMU_TCNTch ch' s' = read_TMU_TCNTch ch' s)"
proof -
  obtain s' where w: "write_TMU_TCNTch ch (ucast d) s = Inr s'" using write_total [OF assms] by blast
  have "uint (ucast d :: u64) = uint d"
    using uint32_bounds(2) [of d] by (simp add: unsigned_ucast_eq take_bit_int_eq_self_iff)
  then have "\<not> sint (ucast d :: u64) < 0" using uint32_bounds(2) [of d] by (simp add: sint64_uint)
  moreover have "(ucast (ucast d :: u64) :: u32) = d"
    by (rule bit_word_eqI) (auto simp: bit_simps)
  ultimately have "read_TMU_TCNT ch s' = Inr (d, s')"
    using write_read(1) [OF w] by (simp add: read_TMU_TCNT_def)
  with w show ?thesis
    using write_read(2) [OF w] write_TCNT_fields(1) [OF w] by (auto simp: write_TMU_TCNT_def)
qed

theorem TCNT_roundtrip_witness:
  "\<exists>s'. write_TMU_TCNT 1 500 tmu_zero = Inr s' \<and> read_TMU_TCNT 1 s' = Inr (500, s')"
  using TCNT_roundtrip [OF tmu_zero_good(3), of 1 500] by auto

lemma count_later:
  assumes "read_TMU_TCNTch ch s = ucast (d :: u32)" "running ch s" "running ch s'"
    and "tmu_ch_base s' ch = tmu_ch_base s ch" "tmu_shift s' ch = tmu_shift s ch"
    and "uint (tmu_now s') = uint (tmu_now s) + t" "0 \<le> t" "t \<le> uint d * 2 ^ unat (tmu_shift s ch)"
  shows "sint (read_TMU_TCNTch ch s') = uint d - ((uint (tmu_now s) + t) div 2 ^ unat (tmu_shift s ch)
      - uint (tmu_now s) div 2 ^ unat (tmu_shift s ch))"
    "0 \<le> sint (read_TMU_TCNTch ch s')"
proof -
  define n where "n = (uint (tmu_now s) + t) div 2 ^ unat (tmu_shift s ch)
      - uint (tmu_now s) div 2 ^ unat (tmu_shift s ch)"
  have n: "n \<le> uint d" "0 \<le> n"
    unfolding n_def by (rule div_steps_le [OF assms(7,8)]; simp)+
  have "read_TMU_TCNTch ch s' = ucast d - word_of_int n"
    using read_later [OF assms(4,5,2,3,6)] unfolding assms(1) n_def [symmetric] .
  also have "\<dots> = word_of_int (uint d - n)"
    unfolding ucast_eq by (rule wi_hom_sub)
  finally have r: "read_TMU_TCNTch ch s' = word_of_int (uint d - n)" .
  have "sint (read_TMU_TCNTch ch s') = uint d - n"
    unfolding r using n uint32_bounds [of d] by (intro sint_word_of_int64) linarith+
  then show "sint (read_TMU_TCNTch ch s') = uint d - ((uint (tmu_now s) + t) div 2 ^ unat (tmu_shift s ch)
      - uint (tmu_now s) div 2 ^ unat (tmu_shift s ch))" "0 \<le> sint (read_TMU_TCNTch ch s')"
    unfolding n_def [symmetric] using n(1) by linarith+
qed

text \<open>C10: A running counter and its event. After writing \<open>d\<close> with divider \<open>2^k\<close> the channel's
  event is due after \<open>d * 2^k\<close> cycles, or one second if that is earlier (one cycle more when the
  deadline would be the marker of an idle slot); and at every time up to \<open>d * 2^k\<close> cycles later
  the counter has gone down by the number of divided clock ticks and has not underflowed, so the
  event is never too late.\<close>

theorem TCNT_event_in_time:
  assumes "write_TMU_TCNT ch d s = Inr s'" "tmu_regs s" "ch < 3" "running ch s"
    and "unat (tmu_shift s ch) = k" "k \<le> 12"
    and "e = sch_list s' ! nat (tmu_sched s ch)"
  shows "scheduled e \<and> left s' e - min (uint d * 2 ^ k) 200000000 \<in> {0, 1} \<and>
    (\<forall>s'' t. tmu_ch_base s'' ch = tmu_ch_base s' ch \<and> tmu_shift s'' ch = tmu_shift s' ch
       \<and> tmu_mask s'' ch = tmu_mask s' ch \<and> uint (tmu_now s'') = uint (tmu_now s') + t
       \<and> 0 \<le> t \<and> t \<le> uint d * 2 ^ k \<longrightarrow>
       0 \<le> sint (read_TMU_TCNTch ch s'') \<and> sint (read_TMU_TCNTch ch s'') =
         uint d - ((uint (tmu_now s') + t) div 2 ^ k - uint (tmu_now s') div 2 ^ k))"
proof -
  have w: "write_TMU_TCNTch ch (ucast d) s = Inr s'" using assms(1) by (simp add: write_TMU_TCNT_def)
  note f = write_TCNT_fields [OF w]
  have run: "running ch s'" using assms(4) f(6) by (simp add: running_def)
  have k: "unat (tmu_shift s' ch) = k" using assms(5) f(5) by simp
  have dl: "scheduled e \<and> (left s' e = min (uint d * 2 ^ k) 200000000
      \<or> left s' e = min (uint d * 2 ^ k) 200000000 + 1)"
    using write_deadline [OF assms(1-4) _ refl assms(7)] assms(5,6) by simp
  have later: "0 \<le> sint (read_TMU_TCNTch ch s'') \<and> sint (read_TMU_TCNTch ch s'') =
         uint d - ((uint (tmu_now s') + t) div 2 ^ k - uint (tmu_now s') div 2 ^ k)"
    if "tmu_ch_base s'' ch = tmu_ch_base s' ch" "tmu_shift s'' ch = tmu_shift s' ch"
       "tmu_mask s'' ch = tmu_mask s' ch" "uint (tmu_now s'') = uint (tmu_now s') + t"
       "0 \<le> t" "t \<le> uint d * 2 ^ k" for s'' t
    using count_later [OF write_read(1) [OF w] run _ that(1,2,4,5)] that(3,6) run k
    by (simp add: running_def)
  have "left s' e - min (uint d * 2 ^ k) 200000000 \<in> {0, 1}" using dl by auto
  with dl later show ?thesis by blast
qed

theorem TCNT_event_in_time_witness:
  "\<exists>s'. write_TMU_TCNT 0 100 tmu_zero = Inr s' \<and> scheduled (sch_list s' ! 0)
     \<and> left s' (sch_list s' ! 0) \<in> {1600, 1601}"
proof -
  obtain s' where w: "write_TMU_TCNT 0 100 tmu_zero = Inr s'"
    using write_total [OF tmu_zero_good(3)] by (force simp: write_TMU_TCNT_def)
  have "nat (tmu_sched tmu_zero 0) = 0" by (simp add: tmu_zero_eq)
  then show ?thesis
    using TCNT_event_in_time [OF w tmu_zero_good(3) _ tmu_zero_good(4), of 4, OF _ _ _ refl] w
    by (auto simp: tmu_zero_good(5))
qed

text \<open>Reading a counter that has run below zero. The underflow flag is set, the channel's
  interrupt is raised (and no other), and the counter is reloaded with \<open>TCOR\<close> less the time
  overrun, never below zero; that value is returned. A read of a counter that has not run out
  changes nothing.\<close>

theorem TCNT_read_underflow:
  assumes "tmu_good s" "ch < 3" "v = sint (read_TMU_TCNTch ch s)" "intc_abs (cpu s) = (R, E)"
    and "- 4294967296 \<le> v"
  shows "(0 \<le> v \<longrightarrow> read_TMU_TCNT ch s = Inr (word_of_int v, s)) \<and>
    (v < 0 \<longrightarrow> (\<exists>s'. read_TMU_TCNT ch s = Inr (word_of_int (max (uint (TMU_TCOR s ch) + v) 0), s')
       \<and> sint (read_TMU_TCNTch ch s') = max (uint (TMU_TCOR s ch) + v) 0
       \<and> TMU_TCR s' ch = TMU_TCR s ch OR tmu_underflow
       \<and> intc_abs (cpu s') = (insert (tmu_intID ch) R, E) \<and> tmu_good s'))"
proof (cases "v < 0")
  case False
  then have "word_of_int v = (ucast (read_TMU_TCNTch ch s) :: u32)"
    by (simp add: assms(3) ucast_of_sint64)
  then show ?thesis using False assms(3) by (simp add: read_TMU_TCNT_def)
next
  case True
  let ?r = "reload_value ch (read_TMU_TCNTch ch s) s"
  have "sint (ucast (TMU_TCOR s ch) :: u64) = uint (TMU_TCOR s ch)"
    using uint32_bounds [of "TMU_TCOR s ch"]
    by (simp add: sint64_uint unsigned_ucast_eq take_bit_int_eq_self)
  then have "sint (ucast (TMU_TCOR s ch) + read_TMU_TCNTch ch s) = uint (TMU_TCOR s ch) + v"
    using assms(3,5) True uint32_bounds [of "TMU_TCOR s ch"] by (subst sint_add64) linarith+
  then have r: "sint ?r = max (uint (TMU_TCOR s ch) + v) 0" by (simp add: reload_value_def)
  have good: "tmu_good (underflowed ch s)" using assms(1,2) by (rule tmu_good_underflowed)
  then obtain s' where w: "write_TMU_TCNTch ch ?r (underflowed ch s) = Inr s'"
    using write_total [of "underflowed ch s" ch ?r] assms(2) by (auto simp: tmu_good_def)
  have "read_TMU_TCNT ch s = Inr (ucast ?r, s')"
    using True assms(3) w by (simp add: read_TMU_TCNT_def reloadCounter_eq Let_def)
  moreover have "(ucast ?r :: u32) = word_of_int (max (uint (TMU_TCOR s ch) + v) 0)"
    by (simp add: ucast_of_sint64 r)
  moreover have "TMU_TCR s' ch = TMU_TCR s ch OR tmu_underflow"
    by (simp add: write_TCNT_fields [OF w]) (simp add: underflowed_def)
  moreover have "intc_abs (cpu s') = (insert (tmu_intID ch) R, E)"
    using intc_ops_abs(1) [OF _ tmu_intID_less [OF assms(2)] assms(4)] assms(1)
    by (simp add: write_TCNT_fields [OF w]) (simp add: underflowed_def tmu_good_def InterruptPend_def)
  moreover have "tmu_good s'" using tmu_good_write [OF w] good by simp
  ultimately show ?thesis using True r write_read(1) [OF w] by simp
qed

text \<open>A counter that has run ten below zero, on a channel that reloads from 1000.\<close>

theorem TCNT_read_underflow_witness:
  "\<exists>s'. read_TMU_TCNT 0 (tmu_zero\<lparr>tmu_ch_base := (\<lambda>_. 18)\<rparr>) = Inr (990, s')
     \<and> TMU_TCR s' 0 = 0x0100 \<and> intc_abs (cpu s') = ({10}, {0..<28})"
proof -
  let ?s = "tmu_zero\<lparr>tmu_ch_base := (\<lambda>_. 18)\<rparr>"
  have good: "tmu_good ?s" using tmu_zero_good(1) by (simp add: tmu_good_def tmu_regs_def)
  have "cycle_counter (cpu ?s) = 0"
  proof -
    have "cycle_counter (SIIDRebuild s) = cycle_counter s" for s :: intc_st
      by (rule SIIDRebuild_obtain [of s]) simp
    then show ?thesis by (simp add: tmu_zero_eq intc_zero_def interrupts_reset_def)
  qed
  then have v: "sint (read_TMU_TCNTch 0 ?s) = - 10"
    by (simp add: read_TMU_TCNTch_def ticks_def tmu_now_def sh4_sched_now64_def tmu_zero_eq)
  have "intc_abs (cpu ?s) = ({}, {0..<28})" by (simp add: tmu_zero_eq intc_zero_inv)
  from TCNT_read_underflow [OF good _ refl this, of 0] v show ?thesis
    by (simp add: tmu_zero_eq tmu_intID_def sh4_TMU0_TUNI0_def tmu_underflow_def) blast
qed

lemma turn_on_off_total:
  assumes "tmu_regs s" "ch < 3"
  shows "\<exists>s'. turn_on_off_ch ch on s = Inr s' \<and> tmu_regs s' \<and> cpu s' = cpu s
    \<and> tmu_mask s' = (tmu_mask s)(ch := (if on then - 1 else 0))
    \<and> (\<forall>ch'. read_TMU_TCNTch ch' s' = read_TMU_TCNTch ch' s) \<and> TMU_TSTR s' = TMU_TSTR s"
proof -
  let ?s = "s\<lparr>tmu_mask := (tmu_mask s)(ch := (if on then 0xFFFFFFFFFFFFFFFF else 0))\<rparr>"
  have regs: "tmu_regs ?s" using assms(1) by (simp add: tmu_regs_def)
  obtain s' where w: "write_TMU_TCNTch ch (read_TMU_TCNTch ch s) ?s = Inr s'"
    using write_total [OF regs assms(2)] by blast
  note f = write_TCNT_fields [OF w]
  have "read_TMU_TCNTch ch' ?s = read_TMU_TCNTch ch' s" if "ch' \<noteq> ch" for ch'
    using that by (simp add: read_TMU_TCNTch_def ticks_def tmu_now_def)
  then have "read_TMU_TCNTch ch' s' = read_TMU_TCNTch ch' s" for ch'
    using write_read [OF w] by (cases "ch' = ch") simp_all
  moreover have "tmu_regs s'"
    using regs tmu_regs_cong [of s' ?s] f(8) write_TMU_TCNTch_frame(3) [OF w] by simp
  moreover have "tmu_mask s' = (tmu_mask s)(ch := (if on then - 1 else 0))"
  proof -
    have "(0xFFFFFFFFFFFFFFFF :: u64) = - 1" by simp
    then have "tmu_mask s' = tmu_mask (s\<lparr>tmu_mask := (tmu_mask s)(ch := (if on then - 1 else 0))\<rparr>)"
      using f(6) by (simp only:)
    then show ?thesis by simp
  qed
  ultimately show ?thesis using w f by (simp add: turn_on_off_ch_def)
qed

text \<open>Starting and stopping. After a write to \<open>TSTR\<close> each channel runs exactly when its bit
  is set, and no counter changes its value at that moment, whether it was running or not. The
  write never fails.\<close>

theorem TSTR_write_keeps_counts:
  assumes "tmu_regs s"
  shows "\<exists>s'. write_TMU_TSTR d s = Inr s' \<and> TMU_TSTR s' = d AND 7 \<and> cpu s' = cpu s
    \<and> (\<forall>ch. read_TMU_TCNTch ch s' = read_TMU_TCNTch ch s)
    \<and> (\<forall>ch < 3. tmu_mask s' ch = (if bit d ch then - 1 else 0))"
proof -
  have b: "(d AND 1 \<noteq> 0) = bit d 0" "(d AND 2 \<noteq> 0) = bit d 1" "(d AND 4 \<noteq> 0) = bit d 2"
    by (simp_all add: bit_iff_and_push_bit_not_eq_0)
  let ?s0 = "s\<lparr>TMU_TSTR := d AND 7\<rparr>"
  have r0: "read_TMU_TCNTch ch ?s0 = read_TMU_TCNTch ch s" for ch
    by (simp add: read_TMU_TCNTch_def ticks_def tmu_now_def sh4_sched_now64_def)
  have "tmu_regs ?s0" using assms by (simp add: tmu_regs_def)
  then obtain s1 where s1: "turn_on_off_ch 0 (bit d 0) ?s0 = Inr s1" "tmu_regs s1" "cpu s1 = cpu ?s0"
    "tmu_mask s1 = (tmu_mask ?s0)(0 := (if bit d 0 then - 1 else 0))"
    "\<forall>ch'. read_TMU_TCNTch ch' s1 = read_TMU_TCNTch ch' ?s0" "TMU_TSTR s1 = TMU_TSTR ?s0"
    using turn_on_off_total [of ?s0 0 "bit d 0"] by auto
  then obtain s2 where s2: "turn_on_off_ch 1 (bit d 1) s1 = Inr s2" "tmu_regs s2" "cpu s2 = cpu s1"
    "tmu_mask s2 = (tmu_mask s1)(1 := (if bit d 1 then - 1 else 0))"
    "\<forall>ch'. read_TMU_TCNTch ch' s2 = read_TMU_TCNTch ch' s1" "TMU_TSTR s2 = TMU_TSTR s1"
    using turn_on_off_total [of s1 1 "bit d 1"] by auto
  then obtain s3 where s3: "turn_on_off_ch 2 (bit d 2) s2 = Inr s3" "cpu s3 = cpu s2"
    "tmu_mask s3 = (tmu_mask s2)(2 := (if bit d 2 then - 1 else 0))"
    "\<forall>ch'. read_TMU_TCNTch ch' s3 = read_TMU_TCNTch ch' s2" "TMU_TSTR s3 = TMU_TSTR s2"
    using turn_on_off_total [of s2 2 "bit d 2"] by auto
  have "write_TMU_TSTR d s = Inr s3"
    unfolding write_TMU_TSTR_def b using s1(1) s2(1) s3(1) by simp
  moreover have "tmu_mask s3 ch = (if bit d ch then - 1 else 0)" if "ch < 3" for ch
  proof -
    have "ch = 0 \<or> ch = 1 \<or> ch = 2" using that by linarith
    then show ?thesis using s1(4) s2(4) s3(3) by auto
  qed
  ultimately show ?thesis using s1 s2 s3 r0 by simp
qed

theorem TSTR_write_keeps_counts_witness:
  "\<exists>s'. write_TMU_TSTR 5 tmu_zero = Inr s' \<and> tmu_mask s' 1 = 0 \<and> tmu_mask s' 2 = - 1
    \<and> read_TMU_TCNTch 1 s' = read_TMU_TCNTch 1 tmu_zero"
proof -
  have "\<not> bit (5 :: u8) 1" "bit (5 :: u8) 2" by simp_all
  then show ?thesis using TSTR_write_keeps_counts [OF tmu_zero_good(3), of 5] by fastforce
qed

text \<open>Writing a control register. The channel's interrupt is pending exactly when the
  underflow flag is set and enabled exactly when \<open>UNIE\<close> is, the counter keeps its value, and
  for the five defined clock modes the divider is the one of the mode (the clock of the unit
  being a quarter of the CPU's).\<close>

theorem TCR_write_updates:
  assumes "tmu_good s" "ch < 3" "intc_abs (cpu s) = (R, E)"
    and "tcr = (if ch = 2 then d AND 0x03ff else d AND 0x013f)" "mode = ucast tcr AND 7"
  shows "\<exists>s'. TMU_TCR_write ch d s = Inr s' \<and> TMU_TCR s' ch = tcr \<and> tmu_good s'
    \<and> read_TMU_TCNTch ch s' = read_TMU_TCNTch ch s
    \<and> intc_abs (cpu s') = (if tcr AND tmu_underflow \<noteq> 0 then insert (tmu_intID ch) R else R - {tmu_intID ch},
        if tcr AND tmu_UNIE \<noteq> 0 then insert (tmu_intID ch) E else E - {tmu_intID ch})
    \<and> old_mode s' ch = mode
    \<and> (mode \<noteq> old_mode s ch \<and> mode \<le> 4 \<longrightarrow> tmu_shift s' ch = 2 * mode + 4)"
proof -
  let ?P = "tcr AND tmu_underflow \<noteq> 0" and ?M = "tcr AND tmu_UNIE \<noteq> 0"
  let ?i = "tmu_intID ch"
  have i: "?i < 28" using assms(2) by (rule tmu_intID_less)
  have inv: "intc_inv (cpu s)" using assms(1) by (simp add: tmu_good_def)
  define c where "c = InterruptMask ?i ?M (InterruptPend ?i ?P (cpu s))"
  have abs1: "intc_abs (InterruptPend ?i ?P (cpu s)) = (if ?P then insert ?i R else R - {?i}, E)"
    using intc_ops_abs [OF inv i assms(3)] by (simp add: InterruptPend_def)
  have inv1: "intc_inv (InterruptPend ?i ?P (cpu s))" using inv i by (rule InterruptPend_inv)
  have c: "intc_abs c = (if ?P then insert ?i R else R - {?i}, if ?M then insert ?i E else E - {?i})"
    using intc_ops_abs [OF inv1 i abs1] by (simp add: c_def InterruptMask_def)
  have cinv: "intc_inv c" unfolding c_def using inv1 i by (rule InterruptPend_inv)
  have cyc: "cycle_counter c = cycle_counter (cpu s)"
    by (simp add: c_def InterruptMask_def InterruptPend_def intc_ops_vectors recalc_frame)
  let ?s1 = "s\<lparr>TMU_TCR := (TMU_TCR s)(ch := tcr), cpu := c\<rparr>"
  let ?s3 = "?s1\<lparr>old_mode := (old_mode s)(ch := mode),
    tmu_shift := (tmu_shift s)(ch := mode_shift mode (tmu_shift s ch) + 2)\<rparr>"
  have eq: "TMU_TCR_write ch d s = (if old_mode s ch = mode then Inr ?s1
      else write_TMU_TCNTch ch (read_TMU_TCNTch ch s) ?s3)"
    using cyc by (simp add: TMU_TCR_write_def UpdateTMUCounts_def Let_def assms(4,5) c_def
        read_TMU_TCNTch_def ticks_def tmu_now_def del: word_bw_comms)
  have regs: "tmu_regs ?s1" "tmu_regs ?s3" and good1: "tmu_good ?s1" "tmu_good ?s3"
    using assms(1) cinv by (simp_all add: tmu_good_def tmu_regs_def)
  show ?thesis
  proof (cases "old_mode s ch = mode")
    case True
    moreover have "read_TMU_TCNTch ch ?s1 = read_TMU_TCNTch ch s"
      using cyc by (simp add: read_TMU_TCNTch_def ticks_def tmu_now_def)
    ultimately show ?thesis using eq c good1(1) by auto
  next
    case False
    obtain s' where w: "write_TMU_TCNTch ch (read_TMU_TCNTch ch s) ?s3 = Inr s'"
      using write_total [OF regs(2) assms(2)] by blast
    have "mode_shift mode sh + 2 = 2 * mode + 4" if "mode \<le> 4" for sh
    proof -
      have "mode = 0 \<or> mode = 1 \<or> mode = 2 \<or> mode = 3 \<or> mode = 4"
        using that by (rule word_le_4)
      then show ?thesis by (auto simp: mode_shift_def)
    qed
    then show ?thesis
      using False eq w c good1(2) tmu_good_write [OF w] write_read(1) [OF w] write_TCNT_fields [OF w]
      by auto
  qed
qed

theorem TCR_write_updates_witness:
  "\<exists>s'. TMU_TCR_write 1 0x0124 tmu_zero = Inr s' \<and> tmu_shift s' 1 = 12
     \<and> intc_abs (cpu s') = ({11}, {0..<28})"
proof -
  have abs: "intc_abs (cpu tmu_zero) = ({}, {0..<28})" by (simp add: tmu_zero_eq intc_zero_inv)
  have "old_mode tmu_zero 1 = 0" "(0x0124 AND tmu_underflow) \<noteq> 0" "(0x0124 AND tmu_UNIE) \<noteq> 0"
    by (simp_all add: tmu_zero_eq tmu_underflow_def tmu_UNIE_def)
  with TCR_write_updates [OF tmu_zero_good(1) _ abs, of 1 "0x0124" "0x0124", OF _ _ refl] show ?thesis
    by (auto simp: tmu_intID_def sh4_TMU1_TUNI1_def)
qed



end
