(* ===== verification/Sh4_Bus.thy ===== *)
theory Sh4_Bus
  imports Sh4_Interrupts
begin

section \<open>What an instruction acts on\<close>

text \<open>
  The operand fields of an opcode (\<open>core/hw/sh4/dyna/decoder.h\<close>), the parts of the
  register context the instructions update, and the interface between the instructions and
  the rest of the machine.

  A C++ exception leaves the state as it is when it is thrown, and the handler in
  \<open>Sh4Interpreter::Run\<close> goes on from there: an error value carries the state.

  The memory accessors (\<open>ReadMem8\<close> to \<open>WriteMem32\<close>, \<open>IReadMem16\<close>), the store queue write
  \<open>doSqWrite\<close>, \<open>mmu_enabled\<close>, the TLB load, \<open>UpdateSystem_INTC\<close>, the floating point
  instructions, the BIOS trap and the cycle counter belong to other components: an instruction
  takes them as the record \<open>bus\<close>.
\<close>

type_synonym 's res = "(sh4_exn \<times> 's) + 's"
type_synonym ('a, 's) vres = "(sh4_exn \<times> 's) + 'a \<times> 's"

record 's bus =
  ReadMem8 :: "u32 \<Rightarrow> 's \<Rightarrow> (u8, 's) vres"
  ReadMem16 :: "u32 \<Rightarrow> 's \<Rightarrow> (u16, 's) vres"
  ReadMem32 :: "u32 \<Rightarrow> 's \<Rightarrow> (u32, 's) vres"
  WriteMem8 :: "u32 \<Rightarrow> u8 \<Rightarrow> 's \<Rightarrow> 's res"
  WriteMem16 :: "u32 \<Rightarrow> u16 \<Rightarrow> 's \<Rightarrow> 's res"
  WriteMem32 :: "u32 \<Rightarrow> u32 \<Rightarrow> 's \<Rightarrow> 's res"
  IReadMem16 :: "u32 \<Rightarrow> 's \<Rightarrow> (u16, 's) vres"
  doSqWrite :: "u32 \<Rightarrow> 's \<Rightarrow> 's res"
  mmu_enabled :: "'s \<Rightarrow> bool"
  load_tlb :: "'s \<Rightarrow> 's res"
  update_system :: "'s \<Rightarrow> (bool, 's) vres"
  fpu_op :: "u16 \<Rightarrow> 's \<Rightarrow> 's res"
  reios_trap :: "u16 \<Rightarrow> 's \<Rightarrow> 's res"
  executeCycles :: "u16 \<Rightarrow> 's \<Rightarrow> 's"
  drainCycles :: "'s \<Rightarrow> 's"

subsection \<open>Operand fields\<close>

definition GetN :: "u16 \<Rightarrow> nat" where "GetN op = unat (drop_bit 8 op AND 0xf)"

definition GetM :: "u16 \<Rightarrow> nat" where "GetM op = unat (drop_bit 4 op AND 0xf)"

definition GetImm4 :: "u16 \<Rightarrow> u32" where "GetImm4 op = ucast (op AND 0xf)"

definition GetImm8 :: "u16 \<Rightarrow> u32" where "GetImm8 op = ucast (op AND 0xff)"

definition GetSImm8 :: "u16 \<Rightarrow> u32" where "GetSImm8 op = scast (ucast (op AND 0xff) :: u8)"

definition GetSImm12 :: "u16 \<Rightarrow> u32" where
  "GetSImm12 op = scast (signed_drop_bit 4 (push_bit 4 (op AND 0xfff)))"

lemma GetN_less: "GetN op < 16" and GetM_less: "GetM op < 16"
proof -
  have "w AND 0xF = take_bit 4 w" for w :: u16
    by (simp add: take_bit_eq_mask mask_eq_exp_minus_1)
  then have "unat (w AND 0xF) < 16" for w :: u16
    using take_bit_nat_less_exp [of 4 "unat w"] by (simp add: unsigned_take_bit_eq)
  then show "GetN op < 16" "GetM op < 16" by (simp_all add: GetN_def GetM_def)
qed

subsection \<open>Parts of the context\<close>

definition setR :: "nat \<Rightarrow> u32 \<Rightarrow> 'z sh4_context_scheme \<Rightarrow> 'z sh4_context_scheme" where
  "setR n v s = s\<lparr>r := (r s)(n := v)\<rparr>"

definition setT :: "bool \<Rightarrow> 'z sh4_context_scheme \<Rightarrow> 'z sh4_context_scheme" where
  "setT b s = s\<lparr>sr := (sr s)\<lparr>sr_T := (if b then 1 else 0)\<rparr>\<rparr>"

definition setSt :: "u32 \<Rightarrow> 'z sh4_context_scheme \<Rightarrow> 'z sh4_context_scheme" where
  "setSt v s = s\<lparr>sr := (sr s)\<lparr>status := v\<rparr>\<rparr>"

definition mac_l :: "'z sh4_context_scheme \<Rightarrow> u32" where
  "mac_l s = ucast (mac_full s)"

definition mac_h :: "'z sh4_context_scheme \<Rightarrow> u32" where
  "mac_h s = ucast (drop_bit 32 (mac_full s))"

definition set_mac_l :: "u32 \<Rightarrow> 'z sh4_context_scheme \<Rightarrow> 'z sh4_context_scheme" where
  "set_mac_l v s = s\<lparr>mac_full := set_field 0 32 (ucast v) (mac_full s)\<rparr>"

definition set_mac_h :: "u32 \<Rightarrow> 'z sh4_context_scheme \<Rightarrow> 'z sh4_context_scheme" where
  "set_mac_h v s = s\<lparr>mac_full := set_field 32 32 (ucast v) (mac_full s)\<rparr>"

definition regT :: "'z sh4_context_scheme \<Rightarrow> u32" where "regT s = sr_T (sr s)"

lemmas ctx_defs = setR_def setT_def setSt_def regT_def

lemma setR_simps [simp]:
  "r (setR n v s) = (r s)(n := v)" "sr (setR n v s) = sr s" "pc (setR n v s) = pc s"
  "mac_full (setR n v s) = mac_full s" "pr (setR n v s) = pr s" "gbr (setR n v s) = gbr s"
  "ssr (setR n v s) = ssr s" "spc (setR n v s) = spc s" "regT (setR n v s) = regT s"
  by (simp_all add: ctx_defs)

lemma setT_simps [simp]:
  "r (setT b s) = r s" "status (sr (setT b s)) = status (sr s)" "sr_T (sr (setT b s)) = (if b then 1 else 0)"
  "pc (setT b s) = pc s" "mac_full (setT b s) = mac_full s" "pr (setT b s) = pr s"
  "regT (setT b s) = (if b then 1 else 0)"
  by (simp_all add: ctx_defs)

lemma setSt_simps [simp]:
  "r (setSt v s) = r s" "status (sr (setSt v s)) = v" "sr_T (sr (setSt v s)) = sr_T (sr s)"
  "pc (setSt v s) = pc s" "mac_full (setSt v s) = mac_full s" "regT (setSt v s) = regT s"
  by (simp_all add: ctx_defs)

lemma mac_parts:
  "mac_l (set_mac_l v s) = v" "mac_h (set_mac_l v s) = mac_h s"
  "mac_h (set_mac_h v s) = v" "mac_l (set_mac_h v s) = mac_l s"
  by (rule bit_word_eqI; auto simp: mac_l_def mac_h_def set_mac_l_def set_mac_h_def field_bits bit_simps)+

subsection \<open>Memory accesses of the instructions\<close>

definition ReadMemU32 ::
  "'s bus \<Rightarrow> u32 \<Rightarrow> 's \<Rightarrow> (u32 \<Rightarrow> 's \<Rightarrow> 's) \<Rightarrow> 's res" where
  "ReadMemU32 b addr s to = sum_bind (ReadMem32 b addr s) (\<lambda>(v, s1). Inr (to v s1))"

definition ReadMemS16 ::
  "'s bus \<Rightarrow> u32 \<Rightarrow> 's \<Rightarrow> (u32 \<Rightarrow> 's \<Rightarrow> 's) \<Rightarrow> 's res" where
  "ReadMemS16 b addr s to = sum_bind (ReadMem16 b addr s) (\<lambda>(v, s1). Inr (to (scast v) s1))"

definition ReadMemS8 ::
  "'s bus \<Rightarrow> u32 \<Rightarrow> 's \<Rightarrow> (u32 \<Rightarrow> 's \<Rightarrow> 's) \<Rightarrow> 's res" where
  "ReadMemS8 b addr s to = sum_bind (ReadMem8 b addr s) (\<lambda>(v, s1). Inr (to (scast v) s1))"

definition WriteMemU32 :: "'s bus \<Rightarrow> u32 \<Rightarrow> u32 \<Rightarrow> 's \<Rightarrow> 's res" where
  "WriteMemU32 b addr dat s = WriteMem32 b addr dat s"

definition WriteMemU16 :: "'s bus \<Rightarrow> u32 \<Rightarrow> u32 \<Rightarrow> 's \<Rightarrow> 's res" where
  "WriteMemU16 b addr dat s = WriteMem16 b addr (ucast dat) s"

definition WriteMemU8 :: "'s bus \<Rightarrow> u32 \<Rightarrow> u32 \<Rightarrow> 's \<Rightarrow> 's res" where
  "WriteMemU8 b addr dat s = WriteMem8 b addr (ucast dat) s"

text \<open>The common shape of the pre-decrement stores: the address register is written back only
  when the store has not thrown.\<close>

definition push32 :: "('z sh4_context_scheme) bus \<Rightarrow> nat \<Rightarrow> u32 \<Rightarrow> 'z sh4_context_scheme
    \<Rightarrow> 'z sh4_context_scheme res" where
  "push32 b n v s =
     (let addr = r s n - 4
      in sum_bind (WriteMemU32 b addr v s) (\<lambda>s1. Inr (setR n addr s1)))"

text \<open>The common shape of the post-increment loads into a special register.\<close>

definition pop32 :: "('z sh4_context_scheme) bus \<Rightarrow> nat \<Rightarrow> 'z sh4_context_scheme
    \<Rightarrow> (u32 \<Rightarrow> 'z sh4_context_scheme \<Rightarrow> 'z sh4_context_scheme) \<Rightarrow> 'z sh4_context_scheme res" where
  "pop32 b n s to = ReadMemU32 b (r s n) s (\<lambda>v s1. let s2 = to v s1 in setR n (r s2 n + 4) s2)"

text \<open>A bus to evaluate on: every memory cell reads as zero, every instruction word as a given one.\<close>

definition word_bus :: "u16 \<Rightarrow> 's bus" where
  "word_bus w = \<lparr>ReadMem8 = \<lambda>a s. Inr (0, s), ReadMem16 = \<lambda>a s. Inr (0, s), ReadMem32 = \<lambda>a s. Inr (0, s),
     WriteMem8 = \<lambda>a v s. Inr s, WriteMem16 = \<lambda>a v s. Inr s, WriteMem32 = \<lambda>a v s. Inr s,
     IReadMem16 = \<lambda>a s. Inr (w, s), doSqWrite = \<lambda>a s. Inr s, mmu_enabled = \<lambda>s. False,
     load_tlb = \<lambda>s. Inr s, update_system = \<lambda>s. Inr (False, s), fpu_op = \<lambda>op s. Inr s,
     reios_trap = \<lambda>op s. Inr s, executeCycles = \<lambda>op s. s, drainCycles = \<lambda>s. s\<rparr>"

end
