(* ===== verification/Sh4_Alu.thy ===== *)
theory Sh4_Alu
  imports Sh4_Bus
begin

section \<open>Instructions on the registers\<close>

text \<open>
  \<open>core/hw/sh4/interpr/sh4_opcodes.cpp\<close>: the instructions that neither access memory nor
  have a delay slot, one definition each, with the names of the source. \<open>op\<close> is the opcode,
  the register context is passed and returned. The program counter has already been
  advanced past the instruction. The cache instructions do nothing in the normal build
  (\<open>STRICT_MODE\<close> off).
\<close>

definition branch_target_s8 :: "'z sh4_context_scheme \<Rightarrow> u16 \<Rightarrow> u32" where
  "branch_target_s8 s op = GetSImm8 op * 2 + 2 + pc s"

subsection \<open>Stc/sts to register\<close>

text \<open>\<open>stc GBR,[REG_N]\<close>\<close>

definition i0000_nnnn_0001_0010 ::
  "u16 \<Rightarrow> 'z sh4_context_scheme \<Rightarrow> 'z sh4_context_scheme" where
  "i0000_nnnn_0001_0010 op s =
     (setR (GetN op) (gbr s) s)"

text \<open>\<open>stc VBR,[REG_N]\<close>\<close>

definition i0000_nnnn_0010_0010 ::
  "u16 \<Rightarrow> 'z sh4_context_scheme \<Rightarrow> 'z sh4_context_scheme" where
  "i0000_nnnn_0010_0010 op s =
     (setR (GetN op) (vbr s) s)"

text \<open>\<open>stc SSR,[REG_N]\<close>\<close>

definition i0000_nnnn_0011_0010 ::
  "u16 \<Rightarrow> 'z sh4_context_scheme \<Rightarrow> 'z sh4_context_scheme" where
  "i0000_nnnn_0011_0010 op s =
     (setR (GetN op) (ssr s) s)"

text \<open>\<open>stc SGR,[REG_N]\<close>\<close>

definition i0000_nnnn_0011_1010 ::
  "u16 \<Rightarrow> 'z sh4_context_scheme \<Rightarrow> 'z sh4_context_scheme" where
  "i0000_nnnn_0011_1010 op s =
     (setR (GetN op) (sgr s) s)"

text \<open>\<open>stc SPC,[REG_N]\<close>\<close>

definition i0000_nnnn_0100_0010 ::
  "u16 \<Rightarrow> 'z sh4_context_scheme \<Rightarrow> 'z sh4_context_scheme" where
  "i0000_nnnn_0100_0010 op s =
     (setR (GetN op) (spc s) s)"

text \<open>\<open>stc RM_BANK,[REG_N]\<close>\<close>

definition i0000_nnnn_1mmm_0010 ::
  "u16 \<Rightarrow> 'z sh4_context_scheme \<Rightarrow> 'z sh4_context_scheme" where
  "i0000_nnnn_1mmm_0010 op s =
     (let m = unat (drop_bit 4 op AND 0xf AND 0x7) in setR (GetN op) (r_bank s m) s)"

text \<open>\<open>sts FPUL,[REG_N]\<close>\<close>

definition i0000_nnnn_0101_1010 ::
  "u16 \<Rightarrow> 'z sh4_context_scheme \<Rightarrow> 'z sh4_context_scheme" where
  "i0000_nnnn_0101_1010 op s =
     (setR (GetN op) (fpul s) s)"

text \<open>\<open>stc DBR,[REG_N]\<close>\<close>

definition i0000_nnnn_1111_1010 ::
  "u16 \<Rightarrow> 'z sh4_context_scheme \<Rightarrow> 'z sh4_context_scheme" where
  "i0000_nnnn_1111_1010 op s =
     (setR (GetN op) (dbr s) s)"

text \<open>\<open>sts MACH,[REG_N]\<close>\<close>

definition i0000_nnnn_0000_1010 ::
  "u16 \<Rightarrow> 'z sh4_context_scheme \<Rightarrow> 'z sh4_context_scheme" where
  "i0000_nnnn_0000_1010 op s =
     (setR (GetN op) (mac_h s) s)"

text \<open>\<open>sts MACL,[REG_N]\<close>\<close>

definition i0000_nnnn_0001_1010 ::
  "u16 \<Rightarrow> 'z sh4_context_scheme \<Rightarrow> 'z sh4_context_scheme" where
  "i0000_nnnn_0001_1010 op s =
     (setR (GetN op) (mac_l s) s)"

text \<open>\<open>sts PR,[REG_N]\<close>\<close>

definition i0000_nnnn_0010_1010 ::
  "u16 \<Rightarrow> 'z sh4_context_scheme \<Rightarrow> 'z sh4_context_scheme" where
  "i0000_nnnn_0010_1010 op s =
     (setR (GetN op) (pr s) s)"

subsection \<open>Lds/ldc from register\<close>

text \<open>\<open>lds [REG_N],MACH\<close>\<close>

definition i0100_nnnn_0000_1010 ::
  "u16 \<Rightarrow> 'z sh4_context_scheme \<Rightarrow> 'z sh4_context_scheme" where
  "i0100_nnnn_0000_1010 op s =
     (set_mac_h (r s (GetN op)) s)"

text \<open>\<open>lds [REG_N],MACL\<close>\<close>

definition i0100_nnnn_0001_1010 ::
  "u16 \<Rightarrow> 'z sh4_context_scheme \<Rightarrow> 'z sh4_context_scheme" where
  "i0100_nnnn_0001_1010 op s =
     (set_mac_l (r s (GetN op)) s)"

text \<open>\<open>lds [REG_N],PR\<close>\<close>

definition i0100_nnnn_0010_1010 ::
  "u16 \<Rightarrow> 'z sh4_context_scheme \<Rightarrow> 'z sh4_context_scheme" where
  "i0100_nnnn_0010_1010 op s =
     (s\<lparr>pr := r s (GetN op)\<rparr>)"

text \<open>\<open>lds [REG_N],FPUL\<close>\<close>

definition i0100_nnnn_0101_1010 ::
  "u16 \<Rightarrow> 'z sh4_context_scheme \<Rightarrow> 'z sh4_context_scheme" where
  "i0100_nnnn_0101_1010 op s =
     (s\<lparr>fpul := r s (GetN op)\<rparr>)"

text \<open>\<open>ldc [REG_N],DBR\<close>\<close>

definition i0100_nnnn_1111_1010 ::
  "u16 \<Rightarrow> 'z sh4_context_scheme \<Rightarrow> 'z sh4_context_scheme" where
  "i0100_nnnn_1111_1010 op s =
     (s\<lparr>dbr := r s (GetN op)\<rparr>)"

text \<open>\<open>ldc [REG_N],GBR\<close>\<close>

definition i0100_nnnn_0001_1110 ::
  "u16 \<Rightarrow> 'z sh4_context_scheme \<Rightarrow> 'z sh4_context_scheme" where
  "i0100_nnnn_0001_1110 op s =
     (s\<lparr>gbr := r s (GetN op)\<rparr>)"

text \<open>\<open>ldc [REG_N],VBR\<close>\<close>

definition i0100_nnnn_0010_1110 ::
  "u16 \<Rightarrow> 'z sh4_context_scheme \<Rightarrow> 'z sh4_context_scheme" where
  "i0100_nnnn_0010_1110 op s =
     (s\<lparr>vbr := r s (GetN op)\<rparr>)"

text \<open>\<open>ldc [REG_N],SSR\<close>\<close>

definition i0100_nnnn_0011_1110 ::
  "u16 \<Rightarrow> 'z sh4_context_scheme \<Rightarrow> 'z sh4_context_scheme" where
  "i0100_nnnn_0011_1110 op s =
     (s\<lparr>ssr := r s (GetN op)\<rparr>)"

text \<open>\<open>ldc [REG_N],SGR\<close>\<close>

definition i0100_nnnn_0011_1010 ::
  "u16 \<Rightarrow> 'z sh4_context_scheme \<Rightarrow> 'z sh4_context_scheme" where
  "i0100_nnnn_0011_1010 op s =
     (s\<lparr>sgr := r s (GetN op)\<rparr>)"

text \<open>\<open>ldc [REG_N],SPC\<close>\<close>

definition i0100_nnnn_0100_1110 ::
  "u16 \<Rightarrow> 'z sh4_context_scheme \<Rightarrow> 'z sh4_context_scheme" where
  "i0100_nnnn_0100_1110 op s =
     (s\<lparr>spc := r s (GetN op)\<rparr>)"

text \<open>\<open>ldc [REG_N],RM_BANK\<close>\<close>

definition i0100_nnnn_1mmm_1110 ::
  "u16 \<Rightarrow> 'z sh4_context_scheme \<Rightarrow> 'z sh4_context_scheme" where
  "i0100_nnnn_1mmm_1110 op s =
     (let m = unat (drop_bit 4 op AND 0xf AND 7) in s\<lparr>r_bank := (r_bank s)(m := r s (GetN op))\<rparr>)"

subsection \<open>Moves\<close>

text \<open>\<open>mov [REG_M],[REG_N]\<close>\<close>

definition i0110_nnnn_mmmm_0011 ::
  "u16 \<Rightarrow> 'z sh4_context_scheme \<Rightarrow> 'z sh4_context_scheme" where
  "i0110_nnnn_mmmm_0011 op s =
     (setR (GetN op) (r s (GetM op)) s)"

text \<open>\<open>mova @([disp],PC),R0\<close>\<close>

definition i1100_0111_iiii_iiii ::
  "u16 \<Rightarrow> 'z sh4_context_scheme \<Rightarrow> 'z sh4_context_scheme" where
  "i1100_0111_iiii_iiii op s =
     (setR 0 (((pc s + 2) AND 0xFFFFFFFC) + push_bit 2 (GetImm8 op)) s)"

text \<open>\<open>mov #[imm],[REG_N]\<close>\<close>

definition i1110_nnnn_iiii_iiii ::
  "u16 \<Rightarrow> 'z sh4_context_scheme \<Rightarrow> 'z sh4_context_scheme" where
  "i1110_nnnn_iiii_iiii op s =
     (setR (GetN op) (GetSImm8 op) s)"

text \<open>\<open>clrmac\<close>\<close>

definition i0000_0000_0010_1000 ::
  "u16 \<Rightarrow> 'z sh4_context_scheme \<Rightarrow> 'z sh4_context_scheme" where
  "i0000_0000_0010_1000 op s =
     (s\<lparr>mac_full := 0\<rparr>)"

subsection \<open>Branches without a delay slot\<close>

text \<open>\<open>bf [bdisp8]\<close>\<close>

definition i1000_1011_iiii_iiii ::
  "u16 \<Rightarrow> 'z sh4_context_scheme \<Rightarrow> 'z sh4_context_scheme" where
  "i1000_1011_iiii_iiii op s =
     (if sr_T (sr s) = 0 then s\<lparr>pc := branch_target_s8 s op\<rparr> else s)"

text \<open>\<open>bt [bdisp8]\<close>\<close>

definition i1000_1001_iiii_iiii ::
  "u16 \<Rightarrow> 'z sh4_context_scheme \<Rightarrow> 'z sh4_context_scheme" where
  "i1000_1001_iiii_iiii op s =
     (if sr_T (sr s) \<noteq> 0 then s\<lparr>pc := branch_target_s8 s op\<rparr> else s)"

subsection \<open>Arithmetic and logic\<close>

text \<open>\<open>sub [REG_M],[REG_N]\<close>\<close>

definition i0011_nnnn_mmmm_1000 ::
  "u16 \<Rightarrow> 'z sh4_context_scheme \<Rightarrow> 'z sh4_context_scheme" where
  "i0011_nnnn_mmmm_1000 op s =
     (setR (GetN op) (r s (GetN op) - r s (GetM op)) s)"

text \<open>\<open>add [REG_M],[REG_N]\<close>\<close>

definition i0011_nnnn_mmmm_1100 ::
  "u16 \<Rightarrow> 'z sh4_context_scheme \<Rightarrow> 'z sh4_context_scheme" where
  "i0011_nnnn_mmmm_1100 op s =
     (setR (GetN op) (r s (GetN op) + r s (GetM op)) s)"

text \<open>\<open>add #[imm],[REG_N]\<close>\<close>

definition i0111_nnnn_iiii_iiii ::
  "u16 \<Rightarrow> 'z sh4_context_scheme \<Rightarrow> 'z sh4_context_scheme" where
  "i0111_nnnn_iiii_iiii op s =
     (setR (GetN op) (r s (GetN op) + GetSImm8 op) s)"

text \<open>\<open>and [REG_M],[REG_N]\<close>\<close>

definition i0010_nnnn_mmmm_1001 ::
  "u16 \<Rightarrow> 'z sh4_context_scheme \<Rightarrow> 'z sh4_context_scheme" where
  "i0010_nnnn_mmmm_1001 op s =
     (setR (GetN op) (r s (GetN op) AND r s (GetM op)) s)"

text \<open>\<open>xor [REG_M],[REG_N]\<close>\<close>

definition i0010_nnnn_mmmm_1010 ::
  "u16 \<Rightarrow> 'z sh4_context_scheme \<Rightarrow> 'z sh4_context_scheme" where
  "i0010_nnnn_mmmm_1010 op s =
     (setR (GetN op) (r s (GetN op) XOR r s (GetM op)) s)"

text \<open>\<open>or [REG_M],[REG_N]\<close>\<close>

definition i0010_nnnn_mmmm_1011 ::
  "u16 \<Rightarrow> 'z sh4_context_scheme \<Rightarrow> 'z sh4_context_scheme" where
  "i0010_nnnn_mmmm_1011 op s =
     (setR (GetN op) (r s (GetN op) OR r s (GetM op)) s)"

text \<open>\<open>shll2 [REG_N]\<close>\<close>

definition i0100_nnnn_0000_1000 ::
  "u16 \<Rightarrow> 'z sh4_context_scheme \<Rightarrow> 'z sh4_context_scheme" where
  "i0100_nnnn_0000_1000 op s =
     (setR (GetN op) (push_bit 2 (r s (GetN op))) s)"

text \<open>\<open>shll8 [REG_N]\<close>\<close>

definition i0100_nnnn_0001_1000 ::
  "u16 \<Rightarrow> 'z sh4_context_scheme \<Rightarrow> 'z sh4_context_scheme" where
  "i0100_nnnn_0001_1000 op s =
     (setR (GetN op) (push_bit 8 (r s (GetN op))) s)"

text \<open>\<open>shll16 [REG_N]\<close>\<close>

definition i0100_nnnn_0010_1000 ::
  "u16 \<Rightarrow> 'z sh4_context_scheme \<Rightarrow> 'z sh4_context_scheme" where
  "i0100_nnnn_0010_1000 op s =
     (setR (GetN op) (push_bit 16 (r s (GetN op))) s)"

text \<open>\<open>shlr2 [REG_N]\<close>\<close>

definition i0100_nnnn_0000_1001 ::
  "u16 \<Rightarrow> 'z sh4_context_scheme \<Rightarrow> 'z sh4_context_scheme" where
  "i0100_nnnn_0000_1001 op s =
     (setR (GetN op) (drop_bit 2 (r s (GetN op))) s)"

text \<open>\<open>shlr8 [REG_N]\<close>\<close>

definition i0100_nnnn_0001_1001 ::
  "u16 \<Rightarrow> 'z sh4_context_scheme \<Rightarrow> 'z sh4_context_scheme" where
  "i0100_nnnn_0001_1001 op s =
     (setR (GetN op) (drop_bit 8 (r s (GetN op))) s)"

text \<open>\<open>shlr16 [REG_N]\<close>\<close>

definition i0100_nnnn_0010_1001 ::
  "u16 \<Rightarrow> 'z sh4_context_scheme \<Rightarrow> 'z sh4_context_scheme" where
  "i0100_nnnn_0010_1001 op s =
     (setR (GetN op) (drop_bit 16 (r s (GetN op))) s)"

text \<open>\<open>and #[imm],R0\<close>\<close>

definition i1100_1001_iiii_iiii ::
  "u16 \<Rightarrow> 'z sh4_context_scheme \<Rightarrow> 'z sh4_context_scheme" where
  "i1100_1001_iiii_iiii op s =
     (setR 0 (r s 0 AND GetImm8 op) s)"

text \<open>\<open>xor #[imm],R0\<close>\<close>

definition i1100_1010_iiii_iiii ::
  "u16 \<Rightarrow> 'z sh4_context_scheme \<Rightarrow> 'z sh4_context_scheme" where
  "i1100_1010_iiii_iiii op s =
     (setR 0 (r s 0 XOR GetImm8 op) s)"

text \<open>\<open>or #[imm],R0\<close>\<close>

definition i1100_1011_iiii_iiii ::
  "u16 \<Rightarrow> 'z sh4_context_scheme \<Rightarrow> 'z sh4_context_scheme" where
  "i1100_1011_iiii_iiii op s =
     (setR 0 (r s 0 OR GetImm8 op) s)"

text \<open>\<open>nop\<close>\<close>

definition i0000_0000_0000_1001 ::
  "u16 \<Rightarrow> 'z sh4_context_scheme \<Rightarrow> 'z sh4_context_scheme" where
  "i0000_0000_0000_1001 op s =
     (s)"

text \<open>\<open>ocbi @[REG_N]\<close>\<close>

definition i0000_nnnn_1001_0011 ::
  "u16 \<Rightarrow> 'z sh4_context_scheme \<Rightarrow> 'z sh4_context_scheme" where
  "i0000_nnnn_1001_0011 op s =
     (s)"

text \<open>\<open>ocbp @[REG_N]\<close>\<close>

definition i0000_nnnn_1010_0011 ::
  "u16 \<Rightarrow> 'z sh4_context_scheme \<Rightarrow> 'z sh4_context_scheme" where
  "i0000_nnnn_1010_0011 op s =
     (s)"

text \<open>\<open>ocbwb @[REG_N]\<close>\<close>

definition i0000_nnnn_1011_0011 ::
  "u16 \<Rightarrow> 'z sh4_context_scheme \<Rightarrow> 'z sh4_context_scheme" where
  "i0000_nnnn_1011_0011 op s =
     (s)"

subsection \<open>T and S\<close>

text \<open>\<open>sets\<close>\<close>

definition i0000_0000_0101_1000 ::
  "u16 \<Rightarrow> 'z sh4_context_scheme \<Rightarrow> 'z sh4_context_scheme" where
  "i0000_0000_0101_1000 op s =
     (setSt (set_S 1 (status (sr s))) s)"

text \<open>\<open>clrs\<close>\<close>

definition i0000_0000_0100_1000 ::
  "u16 \<Rightarrow> 'z sh4_context_scheme \<Rightarrow> 'z sh4_context_scheme" where
  "i0000_0000_0100_1000 op s =
     (setSt (set_S 0 (status (sr s))) s)"

text \<open>\<open>sett\<close>\<close>

definition i0000_0000_0001_1000 ::
  "u16 \<Rightarrow> 'z sh4_context_scheme \<Rightarrow> 'z sh4_context_scheme" where
  "i0000_0000_0001_1000 op s =
     (setT True s)"

text \<open>\<open>clrt\<close>\<close>

definition i0000_0000_0000_1000 ::
  "u16 \<Rightarrow> 'z sh4_context_scheme \<Rightarrow> 'z sh4_context_scheme" where
  "i0000_0000_0000_1000 op s =
     (setT False s)"

text \<open>\<open>movt [REG_N]\<close>\<close>

definition i0000_nnnn_0010_1001 ::
  "u16 \<Rightarrow> 'z sh4_context_scheme \<Rightarrow> 'z sh4_context_scheme" where
  "i0000_nnnn_0010_1001 op s =
     (setR (GetN op) (sr_T (sr s)) s)"

subsection \<open>Compares\<close>

text \<open>\<open>cmp/pz [REG_N]\<close>\<close>

definition i0100_nnnn_0001_0001 ::
  "u16 \<Rightarrow> 'z sh4_context_scheme \<Rightarrow> 'z sh4_context_scheme" where
  "i0100_nnnn_0001_0001 op s =
     (setT (0 \<le> sint (r s (GetN op))) s)"

text \<open>\<open>cmp/pl [REG_N]\<close>\<close>

definition i0100_nnnn_0001_0101 ::
  "u16 \<Rightarrow> 'z sh4_context_scheme \<Rightarrow> 'z sh4_context_scheme" where
  "i0100_nnnn_0001_0101 op s =
     (setT (0 < sint (r s (GetN op))) s)"

text \<open>\<open>cmp/eq #[imm],R0\<close>\<close>

definition i1000_1000_iiii_iiii ::
  "u16 \<Rightarrow> 'z sh4_context_scheme \<Rightarrow> 'z sh4_context_scheme" where
  "i1000_1000_iiii_iiii op s =
     (setT (r s 0 = GetSImm8 op) s)"

text \<open>\<open>cmp/eq [REG_M],[REG_N]\<close>\<close>

definition i0011_nnnn_mmmm_0000 ::
  "u16 \<Rightarrow> 'z sh4_context_scheme \<Rightarrow> 'z sh4_context_scheme" where
  "i0011_nnnn_mmmm_0000 op s =
     (setT (r s (GetM op) = r s (GetN op)) s)"

text \<open>\<open>cmp/hs [REG_M],[REG_N]\<close>\<close>

definition i0011_nnnn_mmmm_0010 ::
  "u16 \<Rightarrow> 'z sh4_context_scheme \<Rightarrow> 'z sh4_context_scheme" where
  "i0011_nnnn_mmmm_0010 op s =
     (setT (r s (GetM op) \<le> r s (GetN op)) s)"

text \<open>\<open>cmp/ge [REG_M],[REG_N]\<close>\<close>

definition i0011_nnnn_mmmm_0011 ::
  "u16 \<Rightarrow> 'z sh4_context_scheme \<Rightarrow> 'z sh4_context_scheme" where
  "i0011_nnnn_mmmm_0011 op s =
     (setT (sint (r s (GetM op)) \<le> sint (r s (GetN op))) s)"

text \<open>\<open>cmp/hi [REG_M],[REG_N]\<close>\<close>

definition i0011_nnnn_mmmm_0110 ::
  "u16 \<Rightarrow> 'z sh4_context_scheme \<Rightarrow> 'z sh4_context_scheme" where
  "i0011_nnnn_mmmm_0110 op s =
     (setT (r s (GetM op) < r s (GetN op)) s)"

text \<open>\<open>cmp/gt [REG_M],[REG_N]\<close>\<close>

definition i0011_nnnn_mmmm_0111 ::
  "u16 \<Rightarrow> 'z sh4_context_scheme \<Rightarrow> 'z sh4_context_scheme" where
  "i0011_nnnn_mmmm_0111 op s =
     (setT (sint (r s (GetM op)) < sint (r s (GetN op))) s)"

text \<open>\<open>cmp/str [REG_M],[REG_N]\<close>\<close>

definition i0010_nnnn_mmmm_1100 ::
  "u16 \<Rightarrow> 'z sh4_context_scheme \<Rightarrow> 'z sh4_context_scheme" where
  "i0010_nnnn_mmmm_1100 op s =
     (let temp = r s (GetN op) XOR r s (GetM op); HH = drop_bit 24 (temp AND 0xFF000000); HL = drop_bit 16 (temp AND 0x00FF0000);
            LH = drop_bit 8 (temp AND 0x0000FF00); LL = temp AND 0x000000FF;
            HH' = (HH \<noteq> 0 \<and> HL \<noteq> 0 \<and> LH \<noteq> 0 \<and> LL \<noteq> 0)
      in setT (\<not> HH') s)"

text \<open>\<open>tst #[imm],R0\<close>\<close>

definition i1100_1000_iiii_iiii ::
  "u16 \<Rightarrow> 'z sh4_context_scheme \<Rightarrow> 'z sh4_context_scheme" where
  "i1100_1000_iiii_iiii op s =
     (setT (r s 0 AND GetImm8 op = 0) s)"

text \<open>\<open>tst [REG_M],[REG_N]\<close>\<close>

definition i0010_nnnn_mmmm_1000 ::
  "u16 \<Rightarrow> 'z sh4_context_scheme \<Rightarrow> 'z sh4_context_scheme" where
  "i0010_nnnn_mmmm_1000 op s =
     (setT (\<not> (r s (GetN op) AND r s (GetM op) \<noteq> 0)) s)"

subsection \<open>Multiplication\<close>

text \<open>\<open>mulu.w [REG_M],[REG_N]\<close>\<close>

definition i0010_nnnn_mmmm_1110 ::
  "u16 \<Rightarrow> 'z sh4_context_scheme \<Rightarrow> 'z sh4_context_scheme" where
  "i0010_nnnn_mmmm_1110 op s =
     (set_mac_l (ucast (ucast (r s (GetN op)) :: u16) * ucast (ucast (r s (GetM op)) :: u16)) s)"

text \<open>\<open>muls.w [REG_M],[REG_N]\<close>\<close>

definition i0010_nnnn_mmmm_1111 ::
  "u16 \<Rightarrow> 'z sh4_context_scheme \<Rightarrow> 'z sh4_context_scheme" where
  "i0010_nnnn_mmmm_1111 op s =
     (set_mac_l (scast (ucast (r s (GetN op)) :: u16) * scast (ucast (r s (GetM op)) :: u16)) s)"

text \<open>\<open>dmulu.l [REG_M],[REG_N]\<close>\<close>

definition i0011_nnnn_mmmm_0101 ::
  "u16 \<Rightarrow> 'z sh4_context_scheme \<Rightarrow> 'z sh4_context_scheme" where
  "i0011_nnnn_mmmm_0101 op s =
     (s\<lparr>mac_full := ucast (r s (GetN op)) * ucast (r s (GetM op))\<rparr>)"

text \<open>\<open>dmuls.l [REG_M],[REG_N]\<close>\<close>

definition i0011_nnnn_mmmm_1101 ::
  "u16 \<Rightarrow> 'z sh4_context_scheme \<Rightarrow> 'z sh4_context_scheme" where
  "i0011_nnnn_mmmm_1101 op s =
     (s\<lparr>mac_full := scast (r s (GetN op)) * scast (r s (GetM op))\<rparr>)"

text \<open>\<open>mul.l [REG_M],[REG_N]\<close>\<close>

definition i0000_nnnn_mmmm_0111 ::
  "u16 \<Rightarrow> 'z sh4_context_scheme \<Rightarrow> 'z sh4_context_scheme" where
  "i0000_nnnn_mmmm_0111 op s =
     (set_mac_l (r s (GetN op) * r s (GetM op)) s)"

subsection \<open>Division\<close>

text \<open>\<open>div0u\<close>\<close>

definition i0000_0000_0001_1001 ::
  "u16 \<Rightarrow> 'z sh4_context_scheme \<Rightarrow> 'z sh4_context_scheme" where
  "i0000_0000_0001_1001 op s =
     (setT False (setSt (set_M 0 (set_Q 0 (status (sr s)))) s))"

text \<open>\<open>div0s [REG_M],[REG_N]\<close>\<close>

definition i0010_nnnn_mmmm_0111 ::
  "u16 \<Rightarrow> 'z sh4_context_scheme \<Rightarrow> 'z sh4_context_scheme" where
  "i0010_nnnn_mmmm_0111 op s =
     (let st = set_M (drop_bit 31 (r s (GetM op))) (set_Q (drop_bit 31 (r s (GetN op))) (status (sr s)))
      in setT (sr_M st XOR sr_Q st \<noteq> 0) (setSt st s))"

text \<open>\<open>div1 [REG_M],[REG_N]\<close>\<close>

definition i0011_nnnn_mmmm_0100 ::
  "u16 \<Rightarrow> 'z sh4_context_scheme \<Rightarrow> 'z sh4_context_scheme" where
  "i0011_nnnn_mmmm_0100 op s =
     (let old_q = sr_Q (status (sr s));
            st1 = set_Q (if 0x80000000 AND r s (GetN op) \<noteq> 0 then 1 else 0) (status (sr s));
            old_rm = r s (GetM op);
            old_rn = push_bit 1 (r s (GetN op)) OR sr_T (sr s);
            (rn, q) =
              (if old_q = 0
               then if sr_M st1 = 0
                 then let rn = old_rn - old_rm; tmp1 = old_rn < rn in (rn, (sr_Q st1 \<noteq> 0) \<noteq> tmp1)
                 else let rn = old_rn + old_rm; tmp1 = rn < old_rn in (rn, (\<not> sr_Q st1 \<noteq> 0) \<noteq> tmp1)
               else if sr_M st1 = 0
                 then let rn = old_rn + old_rm; tmp1 = rn < old_rn in (rn, (sr_Q st1 \<noteq> 0) \<noteq> tmp1)
                 else let rn = old_rn - old_rm; tmp1 = old_rn < rn in (rn, (\<not> sr_Q st1 \<noteq> 0) \<noteq> tmp1));
            st2 = set_Q (if q then 1 else 0) st1
      in setT (sr_Q st2 = sr_M st2) (setSt st2 (setR (GetN op) rn s)))"

subsection \<open>Carry and overflow\<close>

text \<open>\<open>addc [REG_M],[REG_N]\<close>\<close>

definition i0011_nnnn_mmmm_1110 ::
  "u16 \<Rightarrow> 'z sh4_context_scheme \<Rightarrow> 'z sh4_context_scheme" where
  "i0011_nnnn_mmmm_1110 op s =
     (let tmp1 = r s (GetN op) + r s (GetM op); tmp0 = r s (GetN op); rn = tmp1 + sr_T (sr s);
            t = (if tmp1 < tmp0 then True else False)
      in setT (if rn < tmp1 then True else t) (setR (GetN op) rn s))"

text \<open>\<open>addv [REG_M],[REG_N]\<close>\<close>

definition i0011_nnnn_mmmm_1111 ::
  "u16 \<Rightarrow> 'z sh4_context_scheme \<Rightarrow> 'z sh4_context_scheme" where
  "i0011_nnnn_mmmm_1111 op s =
     (let br = sint (r s (GetN op)) + sint (r s (GetM op))
      in setR (GetN op) (r s (GetN op) + r s (GetM op)) (setT (0x80000000 \<le> br \<or> br < - 0x80000000) s))"

text \<open>\<open>subc [REG_M],[REG_N]\<close>\<close>

definition i0011_nnnn_mmmm_1010 ::
  "u16 \<Rightarrow> 'z sh4_context_scheme \<Rightarrow> 'z sh4_context_scheme" where
  "i0011_nnnn_mmmm_1010 op s =
     (let tmp1 = r s (GetN op) - r s (GetM op); tmp0 = r s (GetN op); rn = tmp1 - sr_T (sr s);
            t = (if tmp0 < tmp1 then True else False)
      in setT (if tmp1 < rn then True else t) (setR (GetN op) rn s))"

text \<open>\<open>subv [REG_M],[REG_N]\<close>\<close>

definition i0011_nnnn_mmmm_1011 ::
  "u16 \<Rightarrow> 'z sh4_context_scheme \<Rightarrow> 'z sh4_context_scheme" where
  "i0011_nnnn_mmmm_1011 op s =
     (let br = sint (r s (GetN op)) - sint (r s (GetM op))
      in setR (GetN op) (r s (GetN op) - r s (GetM op)) (setT (0x80000000 \<le> br \<or> br < - 0x80000000) s))"

text \<open>\<open>dt [REG_N]\<close>\<close>

definition i0100_nnnn_0001_0000 ::
  "u16 \<Rightarrow> 'z sh4_context_scheme \<Rightarrow> 'z sh4_context_scheme" where
  "i0100_nnnn_0001_0000 op s =
     (let rn = r s (GetN op) - 1 in setT (rn = 0) (setR (GetN op) rn s))"

text \<open>\<open>negc [REG_M],[REG_N]\<close>\<close>

definition i0110_nnnn_mmmm_1010 ::
  "u16 \<Rightarrow> 'z sh4_context_scheme \<Rightarrow> 'z sh4_context_scheme" where
  "i0110_nnnn_mmmm_1010 op s =
     (let tmp = 0 - r s (GetM op); rn = tmp - sr_T (sr s); t = (0 < tmp)
      in setT (if tmp < rn then True else t) (setR (GetN op) rn s))"

text \<open>\<open>neg [REG_M],[REG_N]\<close>\<close>

definition i0110_nnnn_mmmm_1011 ::
  "u16 \<Rightarrow> 'z sh4_context_scheme \<Rightarrow> 'z sh4_context_scheme" where
  "i0110_nnnn_mmmm_1011 op s =
     (setR (GetN op) (- r s (GetM op)) s)"

text \<open>\<open>not [REG_M],[REG_N]\<close>\<close>

definition i0110_nnnn_mmmm_0111 ::
  "u16 \<Rightarrow> 'z sh4_context_scheme \<Rightarrow> 'z sh4_context_scheme" where
  "i0110_nnnn_mmmm_0111 op s =
     (setR (GetN op) (NOT (r s (GetM op))) s)"

subsection \<open>Shifts and rotates\<close>

text \<open>\<open>shll [REG_N]\<close>\<close>

definition i0100_nnnn_0000_0000 ::
  "u16 \<Rightarrow> 'z sh4_context_scheme \<Rightarrow> 'z sh4_context_scheme" where
  "i0100_nnnn_0000_0000 op s =
     (setR (GetN op) (push_bit 1 (r s (GetN op))) (setT (drop_bit 31 (r s (GetN op)) \<noteq> 0) s))"

text \<open>\<open>shal [REG_N]\<close>\<close>

definition i0100_nnnn_0010_0000 ::
  "u16 \<Rightarrow> 'z sh4_context_scheme \<Rightarrow> 'z sh4_context_scheme" where
  "i0100_nnnn_0010_0000 op s =
     (setR (GetN op) (push_bit 1 (r s (GetN op))) (setT (drop_bit 31 (r s (GetN op)) \<noteq> 0) s))"

text \<open>\<open>shlr [REG_N]\<close>\<close>

definition i0100_nnnn_0000_0001 ::
  "u16 \<Rightarrow> 'z sh4_context_scheme \<Rightarrow> 'z sh4_context_scheme" where
  "i0100_nnnn_0000_0001 op s =
     (setR (GetN op) (drop_bit 1 (r s (GetN op))) (setT (r s (GetN op) AND 1 \<noteq> 0) s))"

text \<open>\<open>shar [REG_N]\<close>\<close>

definition i0100_nnnn_0010_0001 ::
  "u16 \<Rightarrow> 'z sh4_context_scheme \<Rightarrow> 'z sh4_context_scheme" where
  "i0100_nnnn_0010_0001 op s =
     (setR (GetN op) (signed_drop_bit 1 (r s (GetN op))) (setT (r s (GetN op) AND 1 \<noteq> 0) s))"

text \<open>\<open>shad [REG_M],[REG_N]\<close>\<close>

definition i0100_nnnn_mmmm_1100 ::
  "u16 \<Rightarrow> 'z sh4_context_scheme \<Rightarrow> 'z sh4_context_scheme" where
  "i0100_nnnn_mmmm_1100 op s =
     (let sgn = r s (GetM op) AND 0x80000000
      in if sgn = 0 then setR (GetN op) (push_bit (unat (r s (GetM op) AND 0x1F)) (r s (GetN op))) s
      else if (r s (GetM op)) AND 0x1F = 0 then setR (GetN op) (signed_drop_bit 31 (r s (GetN op))) s
      else setR (GetN op) (signed_drop_bit (unat ((NOT (r s (GetM op)) AND 0x1F) + 1)) (r s (GetN op))) s)"

text \<open>\<open>shld [REG_M],[REG_N]\<close>\<close>

definition i0100_nnnn_mmmm_1101 ::
  "u16 \<Rightarrow> 'z sh4_context_scheme \<Rightarrow> 'z sh4_context_scheme" where
  "i0100_nnnn_mmmm_1101 op s =
     (let sgn = r s (GetM op) AND 0x80000000
      in if sgn = 0 then setR (GetN op) (push_bit (unat (r s (GetM op) AND 0x1F)) (r s (GetN op))) s
      else if (r s (GetM op)) AND 0x1F = 0 then setR (GetN op) 0 s
      else setR (GetN op) (drop_bit (unat ((NOT (r s (GetM op)) AND 0x1F) + 1)) (r s (GetN op))) s)"

text \<open>\<open>rotcl [REG_N]\<close>\<close>

definition i0100_nnnn_0010_0100 ::
  "u16 \<Rightarrow> 'z sh4_context_scheme \<Rightarrow> 'z sh4_context_scheme" where
  "i0100_nnnn_0010_0100 op s =
     (let t = sr_T (sr s)
      in setR (GetN op) (push_bit 1 (r s (GetN op)) OR t) (setT (drop_bit 31 (r s (GetN op)) \<noteq> 0) s))"

text \<open>\<open>rotl [REG_N]\<close>\<close>

definition i0100_nnnn_0000_0100 ::
  "u16 \<Rightarrow> 'z sh4_context_scheme \<Rightarrow> 'z sh4_context_scheme" where
  "i0100_nnnn_0000_0100 op s =
     (let s1 = setT (drop_bit 31 (r s (GetN op)) \<noteq> 0) s
      in setR (GetN op) (push_bit 1 (r s (GetN op)) OR sr_T (sr s1)) s1)"

text \<open>\<open>rotcr [REG_N]\<close>\<close>

definition i0100_nnnn_0010_0101 ::
  "u16 \<Rightarrow> 'z sh4_context_scheme \<Rightarrow> 'z sh4_context_scheme" where
  "i0100_nnnn_0010_0101 op s =
     (let t = r s (GetN op) AND 1
      in setT (t \<noteq> 0) (setR (GetN op) (drop_bit 1 (r s (GetN op)) OR push_bit 31 (sr_T (sr s))) s))"

text \<open>\<open>rotr [REG_N]\<close>\<close>

definition i0100_nnnn_0000_0101 ::
  "u16 \<Rightarrow> 'z sh4_context_scheme \<Rightarrow> 'z sh4_context_scheme" where
  "i0100_nnnn_0000_0101 op s =
     (let s1 = setT (r s (GetN op) AND 1 \<noteq> 0) s
      in setR (GetN op) (drop_bit 1 (r s (GetN op)) OR push_bit 31 (sr_T (sr s1))) s1)"

subsection \<open>Byte order and sign\<close>

text \<open>\<open>swap.b [REG_M],[REG_N]\<close>\<close>

definition i0110_nnnn_mmmm_1000 ::
  "u16 \<Rightarrow> 'z sh4_context_scheme \<Rightarrow> 'z sh4_context_scheme" where
  "i0110_nnnn_mmmm_1000 op s =
     (let rg = r s (GetM op)
      in setR (GetN op) ((rg AND 0xFFFF0000) OR push_bit 8 (rg AND 0xFF) OR (drop_bit 8 rg AND 0xFF)) s)"

text \<open>\<open>swap.w [REG_M],[REG_N]\<close>\<close>

definition i0110_nnnn_mmmm_1001 ::
  "u16 \<Rightarrow> 'z sh4_context_scheme \<Rightarrow> 'z sh4_context_scheme" where
  "i0110_nnnn_mmmm_1001 op s =
     (let t = (ucast (drop_bit 16 (r s (GetM op))) :: u16) in setR (GetN op) (push_bit 16 (r s (GetM op)) OR ucast t) s)"

text \<open>\<open>extu.b [REG_M],[REG_N]\<close>\<close>

definition i0110_nnnn_mmmm_1100 ::
  "u16 \<Rightarrow> 'z sh4_context_scheme \<Rightarrow> 'z sh4_context_scheme" where
  "i0110_nnnn_mmmm_1100 op s =
     (setR (GetN op) (ucast (ucast (r s (GetM op)) :: u8)) s)"

text \<open>\<open>extu.w [REG_M],[REG_N]\<close>\<close>

definition i0110_nnnn_mmmm_1101 ::
  "u16 \<Rightarrow> 'z sh4_context_scheme \<Rightarrow> 'z sh4_context_scheme" where
  "i0110_nnnn_mmmm_1101 op s =
     (setR (GetN op) (ucast (ucast (r s (GetM op)) :: u16)) s)"

text \<open>\<open>exts.b [REG_M],[REG_N]\<close>\<close>

definition i0110_nnnn_mmmm_1110 ::
  "u16 \<Rightarrow> 'z sh4_context_scheme \<Rightarrow> 'z sh4_context_scheme" where
  "i0110_nnnn_mmmm_1110 op s =
     (setR (GetN op) (scast (ucast (r s (GetM op)) :: u8)) s)"

text \<open>\<open>exts.w [REG_M],[REG_N]\<close>\<close>

definition i0110_nnnn_mmmm_1111 ::
  "u16 \<Rightarrow> 'z sh4_context_scheme \<Rightarrow> 'z sh4_context_scheme" where
  "i0110_nnnn_mmmm_1111 op s =
     (setR (GetN op) (scast (ucast (r s (GetM op)) :: u16)) s)"

text \<open>\<open>xtrct [REG_M],[REG_N]\<close>\<close>

definition i0010_nnnn_mmmm_1101 ::
  "u16 \<Rightarrow> 'z sh4_context_scheme \<Rightarrow> 'z sh4_context_scheme" where
  "i0010_nnnn_mmmm_1101 op s =
     (setR (GetN op) ((drop_bit 16 (r s (GetN op)) AND 0xFFFF) OR (push_bit 16 (r s (GetM op)) AND 0xFFFF0000)) s)"

subsection \<open>Status registers\<close>

text \<open>\<open>stc SR,[REG_N]\<close>\<close>

definition i0000_nnnn_0000_0010 ::
  "u16 \<Rightarrow> 'z sh4_context_scheme \<Rightarrow> 'z sh4_context_scheme" where
  "i0000_nnnn_0000_0010 op s =
     (setR (GetN op) (sr_getFull (sr s)) s)"

text \<open>\<open>sts FPSCR,[REG_N]\<close>\<close>

definition i0000_nnnn_0110_1010 ::
  "u16 \<Rightarrow> 'z sh4_context_scheme \<Rightarrow> 'z sh4_context_scheme" where
  "i0000_nnnn_0110_1010 op s =
     (setR (GetN op) (fpscr s) s)"

text \<open>\<open>lds [REG_N],FPSCR\<close>\<close>

definition i0100_nnnn_0110_1010 ::
  "u16 \<Rightarrow> 'z sh4_context_scheme \<Rightarrow> 'z sh4_context_scheme" where
  "i0100_nnnn_0110_1010 op s =
     (UpdateFPSCR (s\<lparr>fpscr := r s (GetN op)\<rparr>))"

end
