(* ===== verification/Sh4_Alu_Props.thy ===== *)
theory Sh4_Alu_Props
  imports Sh4_Alu
begin

section \<open>What the arithmetic instructions compute\<close>

text \<open>
  The instructions of \<open>Sh4_Alu\<close> against arithmetic on integers: carries and overflows, the
  one-bit division step and the division sequence built from it, dynamic shifts, byte
  comparison, multiplication.
\<close>

subsection \<open>Carry and borrow\<close>

text \<open>The T bit is 0 or 1 in every state the instructions reach.\<close>

definition T_ok :: "'z sh4_context_scheme \<Rightarrow> bool" where
  "T_ok s \<longleftrightarrow> sr_T (sr s) = 0 \<or> sr_T (sr s) = 1"

abbreviation addc where "addc \<equiv> i0011_nnnn_mmmm_1110"
abbreviation subc where "subc \<equiv> i0011_nnnn_mmmm_1010"
abbreviation negc where "negc \<equiv> i0110_nnnn_mmmm_1010"
abbreviation addv where "addv \<equiv> i0011_nnnn_mmmm_1111"
abbreviation subv where "subv \<equiv> i0011_nnnn_mmmm_1011"
abbreviation rotcl where "rotcl \<equiv> i0100_nnnn_0010_0100"
abbreviation div0u where "div0u \<equiv> i0000_0000_0001_1001"
abbreviation div1 where "div1 \<equiv> i0011_nnnn_mmmm_0100"

lemma addc_exact:
  assumes "T_ok s" "s' = addc op s"
  shows "uint (r s' (GetN op)) + 4294967296 * uint (sr_T (sr s'))
    = uint (r s (GetN op)) + uint (r s (GetM op)) + uint (sr_T (sr s))"
proof -
  let ?n = "r s (GetN op)" and ?m = "r s (GetM op)" and ?t = "sr_T (sr s)"
  have t: "uint (?n + ?m + ?t) = uint (?n + ?m) + uint ?t - (if ?n + ?m + ?t < ?n + ?m then 4294967296 else 0)"
    by (rule uint_add_carry)
  have n: "uint (?n + ?m) = uint ?n + uint ?m - (if ?n + ?m < ?n then 4294967296 else 0)"
    by (rule uint_add_carry)
  have "\<not> (?n + ?m < ?n \<and> ?n + ?m + ?t < ?n + ?m)"
  proof
    assume both: "?n + ?m < ?n \<and> ?n + ?m + ?t < ?n + ?m"
    then have "uint (?n + ?m) = uint ?n + uint ?m - 4294967296" using n by simp
    moreover have "uint (?n + ?m) = 4294967295"
      using both t assms(1) uint32_bounds [of "?n + ?m"] uint32_bounds [of "?n + ?m + ?t"]
      by (auto simp: T_ok_def)
    ultimately show False using uint32_bounds [of ?n] uint32_bounds [of ?m] by linarith
  qed
  then show ?thesis
    using t n by (auto simp: assms(2) i0011_nnnn_mmmm_1110_def Let_def split: if_splits)
qed

lemma T_ok_uint: "T_ok s \<Longrightarrow> uint (sr_T (sr s)) \<le> 1"
  by (auto simp: T_ok_def)

lemma subc_exact:
  assumes "T_ok s" "s' = subc op s"
  shows "uint (r s' (GetN op)) - 4294967296 * uint (sr_T (sr s'))
    = uint (r s (GetN op)) - uint (r s (GetM op)) - uint (sr_T (sr s))"
proof -
  let ?n = "r s (GetN op)" and ?m = "r s (GetM op)" and ?t = "sr_T (sr s)"
  have t: "uint (?n - ?m - ?t) = uint (?n - ?m) - uint ?t + (if ?n - ?m < ?n - ?m - ?t then 4294967296 else 0)"
    using assms(1) by (intro T_less_carry) (simp add: T_ok_def)
  have n: "uint (?n - ?m) = uint ?n - uint ?m + (if ?n < ?n - ?m then 4294967296 else 0)"
    using uint_sub_borrow [of ?n ?m] by (simp add: sub_less_iff)
  have "\<not> (?n < ?n - ?m \<and> ?n - ?m < ?n - ?m - ?t)"
  proof
    assume both: "?n < ?n - ?m \<and> ?n - ?m < ?n - ?m - ?t"
    then have "uint (?n - ?m) = uint ?n - uint ?m + 4294967296" using n by simp
    moreover have "uint (?n - ?m - ?t) = uint (?n - ?m) - uint ?t + 4294967296" using both t by simp
    then have "uint (?n - ?m) < 1"
      using T_ok_uint [OF assms(1)] uint32_bounds [of "?n - ?m - ?t"] by linarith
    ultimately show False using uint32_bounds [of ?n] uint32_bounds [of ?m] by linarith
  qed
  then show ?thesis
    using t n by (auto simp: assms(2) i0011_nnnn_mmmm_1010_def Let_def split: if_splits)
qed

lemma negc_exact:
  assumes "T_ok s" "s' = negc op s"
  shows "uint (r s' (GetN op)) - 4294967296 * uint (sr_T (sr s'))
    = - uint (r s (GetM op)) - uint (sr_T (sr s))"
proof -
  let ?m = "r s (GetM op)" and ?t = "sr_T (sr s)"
  have t: "uint (0 - ?m - ?t) = uint (0 - ?m) - uint ?t + (if 0 - ?m < 0 - ?m - ?t then 4294967296 else 0)"
    using assms(1) by (intro T_less_carry) (simp add: T_ok_def)
  have n: "uint (0 - ?m) = - uint ?m + (if 0 < 0 - ?m then 4294967296 else 0)"
    using uint_sub_borrow [of 0 ?m] sub_less_iff [of 0 ?m] by simp
  have "\<not> (0 < 0 - ?m \<and> 0 - ?m < 0 - ?m - ?t)"
  proof
    assume both: "0 < 0 - ?m \<and> 0 - ?m < 0 - ?m - ?t"
    then have "uint (0 - ?m - ?t) = uint (0 - ?m) - uint ?t + 4294967296" using t by simp
    then have "uint (0 - ?m) < 1"
      using T_ok_uint [OF assms(1)] uint32_bounds [of "0 - ?m - ?t"] by linarith
    with both show False by (simp add: word_less_def)
  qed
  then show ?thesis
    using t n by (auto simp: assms(2) i0110_nnnn_mmmm_1010_def Let_def split: if_splits)
qed

lemma addv_exact:
  assumes "s' = addv op s"
  shows "sr_T (sr s') = 1 \<longleftrightarrow> sint (r s' (GetN op)) \<noteq> sint (r s (GetN op)) + sint (r s (GetM op))"
    "r s' (GetN op) = r s (GetN op) + r s (GetM op)"
proof -
  let ?n = "r s (GetN op)" and ?m = "r s (GetM op)"
  have "sint (?n + ?m) = sint ?n + sint ?m \<longleftrightarrow>
      - 2147483648 \<le> sint ?n + sint ?m \<and> sint ?n + sint ?m < 2147483648"
    using sint_add32 [of ?n ?m] sint32_bounds [of "?n + ?m"] by auto
  then show "sr_T (sr s') = 1 \<longleftrightarrow> sint (r s' (GetN op)) \<noteq> sint ?n + sint ?m"
    by (auto simp: assms i0011_nnnn_mmmm_1111_def Let_def)
  show "r s' (GetN op) = ?n + ?m" by (simp add: assms i0011_nnnn_mmmm_1111_def Let_def)
qed

lemma subv_exact:
  assumes "s' = subv op s"
  shows "sr_T (sr s') = 1 \<longleftrightarrow> sint (r s' (GetN op)) \<noteq> sint (r s (GetN op)) - sint (r s (GetM op))"
    "r s' (GetN op) = r s (GetN op) - r s (GetM op)"
proof -
  let ?n = "r s (GetN op)" and ?m = "r s (GetM op)"
  have "sint (?n - ?m) = sint ?n - sint ?m \<longleftrightarrow>
      - 2147483648 \<le> sint ?n - sint ?m \<and> sint ?n - sint ?m < 2147483648"
    using sint_sub32 [of ?n ?m] sint32_bounds [of "?n - ?m"] by auto
  then show "sr_T (sr s') = 1 \<longleftrightarrow> sint (r s' (GetN op)) \<noteq> sint ?n - sint ?m"
    by (auto simp: assms i0011_nnnn_mmmm_1011_def Let_def)
  show "r s' (GetN op) = ?n - ?m" by (simp add: assms i0011_nnnn_mmmm_1011_def Let_def)
qed

subsection \<open>The division step\<close>

text \<open>
  With \<open>M\<close> clear the flag \<open>Q\<close> is the sign of a 33 bit partial remainder whose lower 32 bits are
  the register: \<open>partial\<close> reads it.
\<close>

definition partial :: "nat \<Rightarrow> 'z sh4_context_scheme \<Rightarrow> int" where
  "partial n s = uint (r s n) - (if sr_Q (status (sr s)) = 0 then 0 else 4294967296)"

lemma set_QM_get:
  "sr_Q (set_Q (if b then 1 else 0) st) = (if b then 1 else 0)" "sr_M (set_Q v st) = sr_M st"
  "sr_M (set_M 0 st) = 0" "sr_Q (set_M v st) = sr_Q st" "sr_Q (set_Q 0 st) = 0"
  "sr_Q (set_Q 1 st) = 1"
  by (rule bit_word_eqI; auto simp: field_defs field_bits bit_simps)+

lemma shl_or_bit:
  assumes "t = 0 \<or> t = 1"
  shows "uint (push_bit 1 (x :: u32) OR t) = 2 * uint x + uint t - (if 2147483648 \<le> uint x then 4294967296 else 0)"
proof -
  have "\<not> bit (push_bit 1 x) k \<or> \<not> bit t k" for k
  proof (cases k)
    case 0
    have "\<not> bit (push_bit 1 x) 0" unfolding bit_push_bit_iff by simp
    with 0 show ?thesis by simp
  next
    case (Suc j)
    with assms show ?thesis by (auto simp: bit_1_iff)
  qed
  then have "push_bit 1 x OR t = push_bit 1 x + t" by (simp add: disjunctive_add)
  moreover have p: "uint (push_bit 1 x) = 2 * uint x - (if 2147483648 \<le> uint x then 4294967296 else 0)"
  proof -
    have "uint (push_bit 1 x) = (2 * uint x) mod 4294967296"
      by (simp add: push_bit_eq_mult uint_word_ariths mult.commute)
    also have "\<dots> = 2 * uint x - (if 2147483648 \<le> uint x then 4294967296 else 0)"
      using uint32_bounds [of x] by (auto intro: int_mod_above mod_pos_pos_trivial)
    finally show ?thesis .
  qed
  moreover have "uint (push_bit 1 x + t) = uint (push_bit 1 x) + uint t"
  proof -
    have "uint t \<le> 1" using assms by auto
    then show ?thesis
      unfolding uint32_add p using uint32_bounds [of x] uint32_bounds [of t]
      by (intro mod_pos_pos_trivial) (simp_all split: if_splits)
  qed
  ultimately show ?thesis by simp
qed

text \<open>One step: the partial remainder is doubled, the T bit comes in from the right, and the
  divisor is subtracted or, if the remainder was negative, added.\<close>

lemma div1_M0:
  assumes M: "sr_M (status (sr s)) = 0" and s': "s' = div1 op s"
    and o: "old_rn = push_bit 1 (r s (GetN op)) OR sr_T (sr s)"
    and rn: "rn = (if sr_Q (status (sr s)) = 0 then old_rn - r s (GetM op) else old_rn + r s (GetM op))"
    and q: "q = ((0x80000000 AND r s (GetN op) \<noteq> 0) \<noteq>
      (if sr_Q (status (sr s)) = 0 then old_rn < rn else rn < old_rn))"
  shows "r s' = (r s)(GetN op := rn)" "sr_Q (status (sr s')) = (if q then 1 else 0)"
    "sr_M (status (sr s')) = 0" "sr_T (sr s') = (if q then 0 else 1)"
proof -
  have "s' = (let st2 = set_Q (if q then 1 else 0)
      (set_Q (if 0x80000000 AND r s (GetN op) \<noteq> 0 then 1 else 0) (status (sr s)))
    in setT (sr_Q st2 = sr_M st2) (setSt st2 (setR (GetN op) rn s)))"
    unfolding s' i0011_nnnn_mmmm_0100_def Let_def
    by (cases "sr_Q (status (sr s)) = 0"; cases "0x80000000 AND r s (GetN op) = 0")
      (simp_all add: set_QM_get M q rn o)
  then show "r s' = (r s)(GetN op := rn)" "sr_Q (status (sr s')) = (if q then 1 else 0)"
    "sr_M (status (sr s')) = 0" "sr_T (sr s') = (if q then 0 else 1)"
    by (simp_all add: Let_def set_QM_get M)
qed

lemma div1_step:
  assumes M: "sr_M (status (sr s)) = 0" and T: "T_ok s" and D: "uint (r s (GetM op)) = D"
    and v: "partial (GetN op) s = v" "- D \<le> v" "v < D"
    and s': "s' = div1 op s"
  shows "partial (GetN op) s' = 2 * v + uint (sr_T (sr s)) - (if v < 0 then - D else D)"
    "sr_M (status (sr s')) = 0" "sr_T (sr s') = (if partial (GetN op) s' < 0 then 0 else 1)"
    "\<And>i. i \<noteq> GetN op \<Longrightarrow> r s' i = r s i"
proof -
  let ?x = "r s (GetN op)" and ?d = "r s (GetM op)" and ?t = "sr_T (sr s)"
  let ?Q = "sr_Q (status (sr s)) = 0"
  define old_rn where "old_rn = push_bit 1 ?x OR ?t"
  define rn where "rn = (if ?Q then old_rn - ?d else old_rn + ?d)"
  define msb where "msb = (0x80000000 AND ?x \<noteq> 0)"
  define c where "c = (if ?Q then old_rn < rn else rn < old_rn)"
  have q: "(msb \<noteq> c) = ((0x80000000 AND ?x \<noteq> 0) \<noteq> (if ?Q then old_rn < rn else rn < old_rn))"
    by (simp add: msb_def c_def)
  note step = div1_M0 [OF M s' old_rn_def rn_def q]
  have o: "uint old_rn = 2 * uint ?x + uint ?t - (if msb then 4294967296 else 0)"
    unfolding old_rn_def msb_def msb_and by (rule shl_or_bit) (use T in \<open>simp add: T_ok_def\<close>)
  have t: "0 \<le> uint ?t" "uint ?t \<le> 1" using T_ok_uint [OF T] by simp_all
  have vQ: "v = uint ?x - (if ?Q then 0 else 4294967296)" using v(1) by (simp add: partial_def)
  have u: "uint rn = (if ?Q then uint old_rn - D + (if c then 4294967296 else 0)
      else uint old_rn + D - (if c then 4294967296 else 0))"
    unfolding rn_def c_def using uint_sub_borrow [of old_rn ?d] uint_add_carry [of old_rn ?d] D
    by (simp add: sub_less_iff)
  have main: "uint rn - (if msb \<noteq> c then 4294967296 else 0) = 2 * v + uint ?t - (if v < 0 then - D else D)"
    using o u vQ v(2,3) t uint32_bounds [of rn] uint32_bounds [of ?x]
    by (auto split: if_splits) (use uint32_bounds(1) [of ?x] uint32_bounds(1) [of ?t] in linarith)
  show p: "partial (GetN op) s' = 2 * v + uint ?t - (if v < 0 then - D else D)"
    using main step(1,2) by (auto simp: partial_def)
  have "partial (GetN op) s' < 0 \<longleftrightarrow> msb \<noteq> c"
    using step(1,2) uint32_bounds [of rn] by (auto simp: partial_def)
  then show "sr_T (sr s') = (if partial (GetN op) s' < 0 then 0 else 1)" using step(4) by simp
  show "sr_M (status (sr s')) = 0" by (rule step(3))
  show "\<And>i. i \<noteq> GetN op \<Longrightarrow> r s' i = r s i" using step(1) by simp
qed

subsection \<open>The division sequence\<close>

text \<open>
  The sequence of the SH4 manual for an unsigned division: \<open>div0u\<close>, 32 times \<open>rotcl\<close> of the
  lower half and \<open>div1\<close>, and a last \<open>rotcl\<close>. \<open>op_r\<close> and \<open>op_d\<close> are the opcodes of \<open>rotcl\<close> and
  \<open>div1\<close> with their registers.
\<close>

definition div_round :: "u16 \<Rightarrow> u16 \<Rightarrow> 'z sh4_context_scheme \<Rightarrow> 'z sh4_context_scheme" where
  "div_round op_r op_d s = div1 op_d (rotcl op_r s)"

definition div_sequence :: "u16 \<Rightarrow> u16 \<Rightarrow> 'z sh4_context_scheme \<Rightarrow> 'z sh4_context_scheme" where
  "div_sequence op_r op_d s = rotcl op_r ((div_round op_r op_d ^^ 32) (div0u 0x0019 s))"

lemma rotcl_exact:
  assumes "T_ok s" "s' = rotcl op s"
  shows "uint (r s' (GetN op)) = 2 * uint (r s (GetN op)) + uint (sr_T (sr s))
      - (if 2147483648 \<le> uint (r s (GetN op)) then 4294967296 else 0)"
    "sr_T (sr s') = (if 2147483648 \<le> uint (r s (GetN op)) then 1 else 0)"
    "i \<noteq> GetN op \<Longrightarrow> r s' i = r s i" "status (sr s') = status (sr s)" "T_ok s'"
proof -
  have msb: "drop_bit 31 (x :: u32) \<noteq> 0 \<longleftrightarrow> 2147483648 \<le> uint x" for x
  proof -
    have "uint (drop_bit 31 x) = uint x div 2147483648"
      using uint32_bounds [of x] by (subst unsigned_drop_bit_eq) (simp add: drop_bit_eq_div take_bit_int_eq_self)
    then have "drop_bit 31 x = 0 \<longleftrightarrow> uint x div 2147483648 = 0"
      by (metis uint_0_iff)
    then show ?thesis using uint32_bounds [of x] by (auto simp: zdiv_eq_0_iff)
  qed
  have s': "s' = setR (GetN op) (push_bit 1 (r s (GetN op)) OR sr_T (sr s))
      (setT (2147483648 \<le> uint (r s (GetN op))) s)"
    unfolding assms(2) i0100_nnnn_0010_0100_def Let_def msb ..
  show "uint (r s' (GetN op)) = 2 * uint (r s (GetN op)) + uint (sr_T (sr s))
      - (if 2147483648 \<le> uint (r s (GetN op)) then 4294967296 else 0)"
    unfolding s' setR_simps fun_upd_same by (rule shl_or_bit) (use assms(1) in \<open>simp add: T_ok_def\<close>)
  show "sr_T (sr s') = (if 2147483648 \<le> uint (r s (GetN op)) then 1 else 0)" "T_ok s'"
    "i \<noteq> GetN op \<Longrightarrow> r s' i = r s i" "status (sr s') = status (sr s)"
    by (simp_all add: s' T_ok_def)
qed

text \<open>With \<open>k\<close> bits of the dividend still to come in: \<open>n\<close> is the part already divided, \<open>rest\<close> the
  bits left, \<open>P = 2^(32-k)\<close>.\<close>

definition div_inv :: "nat \<Rightarrow> nat \<Rightarrow> nat \<Rightarrow> int \<Rightarrow> int \<Rightarrow> nat \<Rightarrow> int \<Rightarrow> 'z sh4_context_scheme \<Rightarrow> bool" where
  "div_inv l h d D N k n s \<longleftrightarrow> (\<exists>rest P. P * 2 ^ k = 4294967296 \<and> 0 < P \<and> 0 \<le> n
     \<and> n * 2 ^ k + rest = N \<and> 0 \<le> rest \<and> rest < 2 ^ k \<and> n div D < P
     \<and> uint (r s l) = rest * P + (n div D) div 2 \<and> uint (sr_T (sr s)) = (n div D) mod 2
     \<and> (partial h s = n mod D \<or> partial h s = n mod D - D)
     \<and> sr_M (status (sr s)) = 0 \<and> T_ok s \<and> uint (r s d) = D)"

lemma div_next:
  assumes "0 < D" "0 \<le> n" "b = 0 \<or> b = (1::int)"
  shows "(2 * n + b) div D = 2 * (n div D) + (if D \<le> 2 * (n mod D) + b then 1 else 0)"
    "(2 * n + b) mod D = 2 * (n mod D) + b - (if D \<le> 2 * (n mod D) + b then D else 0)"
proof -
  let ?c = "if D \<le> 2 * (n mod D) + b then 1 else (0::int)"
  have m: "0 \<le> n mod D" "n mod D < D" using assms(1) by simp_all
  have "2 * n = D * (2 * (n div D)) + 2 * (n mod D)"
    using mult_div_mod_eq [of D n] by (simp only: mult.left_commute [of D 2])
  then have eq: "2 * n + b = D * (2 * (n div D) + ?c) + (2 * (n mod D) + b - D * ?c)"
    by (simp add: distrib_left)
  have lo: "0 \<le> 2 * (n mod D) + b - D * ?c" and hi: "2 * (n mod D) + b - D * ?c < D"
    using m assms(3) by auto
  show "(2 * n + b) div D = 2 * (n div D) + ?c" by (rule int_div_pos_eq [OF eq lo hi])
  have "(2 * n + b) mod D = 2 * (n mod D) + b - D * ?c" by (rule int_mod_pos_eq [OF eq lo hi])
  then show "(2 * n + b) mod D = 2 * (n mod D) + b - (if D \<le> 2 * (n mod D) + b then D else 0)"
    by simp
qed

lemma div_msb:
  assumes "P * 2 ^ Suc k = 4294967296" "0 < P" "0 \<le> rest" "rest < 2 ^ Suc k" "0 \<le> x" "x < P"
  shows "(2147483648 \<le> rest * P + x) = (2 ^ k \<le> (rest::int))"
proof -
  have P: "P * 2 ^ k = 2147483648" using assms(1) by simp
  show ?thesis
  proof (cases "2 ^ k \<le> rest")
    case True
    then have "2 ^ k * P \<le> rest * P" using assms(2) by (intro mult_right_mono) simp_all
    with True P assms(5) show ?thesis by (simp add: mult.commute)
  next
    case False
    then have "(rest + 1) * P \<le> 2 ^ k * P" using assms(2) by (intro mult_right_mono) simp_all
    then have "rest * P + P \<le> 2147483648" 
      using P by (simp add: distrib_left mult.commute)
    with False assms(6) show ?thesis by simp
  qed
qed

lemma div_round_inv:
  assumes inv: "div_inv (GetN op_r) (GetN op_d) (GetM op_d) D N (Suc k) n s" and D: "0 < D"
    and dist: "GetN op_r \<noteq> GetN op_d" "GetN op_r \<noteq> GetM op_d" "GetN op_d \<noteq> GetM op_d"
  shows "\<exists>n'. div_inv (GetN op_r) (GetN op_d) (GetM op_d) D N k n' (div_round op_r op_d s)"
proof -
  obtain rest P where P: "P * 2 ^ Suc k = 4294967296" "0 < P" and n: "0 \<le> n" "n * 2 ^ Suc k + rest = N"
    and rest: "0 \<le> rest" "rest < 2 ^ Suc k" and q: "n div D < P"
    and l: "uint (r s (GetN op_r)) = rest * P + (n div D) div 2" and T: "uint (sr_T (sr s)) = (n div D) mod 2"
    and v: "partial (GetN op_d) s = n mod D \<or> partial (GetN op_d) s = n mod D - D"
    and M: "sr_M (status (sr s)) = 0" and Tok: "T_ok s" and d: "uint (r s (GetM op_d)) = D"
    using inv unfolding div_inv_def by blast
  define b where "b = (if 2 ^ k \<le> rest then 1 else (0::int))"
  define s1 where "s1 = rotcl op_r s"
  note rot = rotcl_exact [OF Tok s1_def]
  have half: "y div 2 < P" if "0 \<le> y" "y < P" for y using that by linarith
  have "0 \<le> n div D" using n(1) D by (simp add: pos_imp_zdiv_nonneg_iff)
  then have qd: "0 \<le> n div D" "(n div D) div 2 < P" using half q by simp_all
  have msb: "(2147483648 \<le> uint (r s (GetN op_r))) = (2 ^ k \<le> rest)"
    unfolding l using qd by (intro div_msb [OF P rest]) simp_all
  have l1: "uint (r s1 (GetN op_r)) = (rest - b * 2 ^ k) * (2 * P) + n div D"
  proof -
    have "2 * ((n div D) div 2) + (n div D) mod 2 = n div D" by simp
    moreover have "b * 2 ^ k * (2 * P) = (if 2 ^ k \<le> rest then 4294967296 else 0)"
      using P(1) by (simp add: b_def mult.commute mult.left_commute)
    ultimately show ?thesis using rot(1) l T msb by (simp add: left_diff_distrib)
  qed
  have T1: "uint (sr_T (sr s1)) = b" "T_ok s1" using rot(2,5) msb by (simp_all add: b_def)
  have p1: "partial (GetN op_d) s1 = partial (GetN op_d) s" "uint (r s1 (GetM op_d)) = D"
    using rot(3,4) dist d by (simp_all add: partial_def)
  let ?v = "partial (GetN op_d) s"
  have m: "0 \<le> n mod D" "n mod D < D" using D by simp_all
  have vb: "- D \<le> ?v" "?v < D" using v m by auto
  define s2 where "s2 = div1 op_d s1"
  have M1: "sr_M (status (sr s1)) = 0" using M rot(4) by simp
  note st = div1_step [OF M1 T1(2) p1(2) p1(1) vb s2_def]
  have v2: "partial (GetN op_d) s2 = 2 * (n mod D) + b - D"
    using st(1) T1(1) v m by auto
  let ?n = "2 * n + b"
  have b: "b = 0 \<or> b = 1" by (simp add: b_def)
  note nx = div_next [OF D n(1) b]
  have "div_inv (GetN op_r) (GetN op_d) (GetM op_d) D N k ?n s2"
    unfolding div_inv_def
  proof (intro exI conjI)
    show "2 * P * 2 ^ k = 4294967296" "0 < 2 * P" using P by simp_all
    show "0 \<le> ?n" using n(1) b by auto
    show "?n * 2 ^ k + (rest - b * 2 ^ k) = N" using n(2) by (simp add: distrib_right)
    show "0 \<le> rest - b * 2 ^ k" "rest - b * 2 ^ k < 2 ^ k" using rest by (simp_all add: b_def)
    show "?n div D < 2 * P" using nx(1) q b by simp
    show "uint (r s2 (GetN op_r)) = (rest - b * 2 ^ k) * (2 * P) + ?n div D div 2"
      using st(4) [OF dist(1)] l1 nx(1) by simp
    show "partial (GetN op_d) s2 = ?n mod D \<or> partial (GetN op_d) s2 = ?n mod D - D"
      using v2 nx(2) by auto
    show "uint (sr_T (sr s2)) = ?n div D mod 2" using st(3) v2 nx(1) by simp
    show "T_ok s2" using st(3) by (simp add: T_ok_def)
    show "uint (r s2 (GetM op_d)) = D" using st(4) [of "GetM op_d"] dist(3) p1(2) by simp
    show "sr_M (status (sr s2)) = 0" by (rule st(2))
  qed
  then show ?thesis by (auto simp: div_round_def s1_def s2_def)
qed

lemma div_rounds:
  assumes "0 < D" "GetN op_r \<noteq> GetN op_d" "GetN op_r \<noteq> GetM op_d" "GetN op_d \<noteq> GetM op_d"
    and "div_inv (GetN op_r) (GetN op_d) (GetM op_d) D N k n s"
  shows "\<exists>n'. div_inv (GetN op_r) (GetN op_d) (GetM op_d) D N 0 n' ((div_round op_r op_d ^^ k) s)"
  using assms(5)
proof (induction k arbitrary: n s)
  case 0
  then show ?case by auto
next
  case (Suc k)
  from div_round_inv [OF Suc.prems assms(1-4)] obtain n' where
    "div_inv (GetN op_r) (GetN op_d) (GetM op_d) D N k n' (div_round op_r op_d s)" ..
  from Suc.IH [OF this] show ?case by (simp add: funpow_swap1)
qed

lemma div0u_simps:
  "sr_M (status (sr (div0u op s))) = 0" "sr_Q (status (sr (div0u op s))) = 0"
  "sr_T (sr (div0u op s)) = 0" "r (div0u op s) = r s" "T_ok (div0u op s)"
  by (simp_all add: i0000_0000_0001_1001_def set_QM_get T_ok_def)

lemma div_inv_done:
  assumes "div_inv l h d D N 0 n s"
  shows "uint (r s l) = (N div D) div 2" "uint (sr_T (sr s)) = (N div D) mod 2" "T_ok s"
    "N div D < 4294967296"
proof -
  obtain rest P where P: "P = 4294967296" and n: "n + rest = N" and rest: "0 \<le> rest" "rest < 1"
    and i: "n div D < P" "uint (r s l) = rest * P + (n div D) div 2" "uint (sr_T (sr s)) = (n div D) mod 2"
      "T_ok s"
    using assms unfolding div_inv_def by auto
  have r0: "rest = 0" using rest by linarith
  then have "n = N" using n by simp
  with i r0 P show "uint (r s l) = (N div D) div 2" "uint (sr_T (sr s)) = (N div D) mod 2" "T_ok s"
    "N div D < 4294967296" by simp_all
qed

text \<open>C40: The division sequence of the SH4 divides. \<open>div0u\<close>, then 32 times \<open>rotcl\<close> of the low word
  and \<open>div1\<close>, then a last \<open>rotcl\<close>, with three different registers for the high word, the low word
  and the divisor, leave the quotient of the 64-bit dividend in the low word's register, for every
  dividend and divisor whose quotient fits into 32 bits.\<close>

theorem div_sequence_divides:
  assumes "GetN op_r \<noteq> GetN op_d" "GetN op_r \<noteq> GetM op_d" "GetN op_d \<noteq> GetM op_d"
    and H: "uint (r s (GetN op_d)) = H" and L: "uint (r s (GetN op_r)) = L"
    and D: "uint (r s (GetM op_d)) = D" "H < D"
  shows "uint (r (div_sequence op_r op_d s) (GetN op_r)) = (H * 4294967296 + L) div D"
proof -
  let ?s0 = "div0u 0x0019 s" and ?N = "H * 4294967296 + L"
  have b: "0 \<le> H" "0 \<le> L" "L < 4294967296" using H L uint32_bounds by auto
  then have D0: "0 < D" using D(2) by simp
  have "div_inv (GetN op_r) (GetN op_d) (GetM op_d) D ?N 32 H ?s0"
    unfolding div_inv_def using b D H L
    by (intro exI [of _ L] exI [of _ 1]) (simp add: div0u_simps partial_def)
  from div_rounds [OF D0 assms(1-3) this] obtain n where
    n: "div_inv (GetN op_r) (GetN op_d) (GetM op_d) D ?N 0 n ((div_round op_r op_d ^^ 32) ?s0)" ..
  let ?s = "(div_round op_r op_d ^^ 32) ?s0"
  note q = div_inv_done [OF n]
  have "uint (r (rotcl op_r ?s) (GetN op_r)) = 2 * ((?N div D) div 2) + (?N div D) mod 2"
    using rotcl_exact(1) [OF q(3) refl] q(1,2,4) by simp
  then show ?thesis by (simp add: div_sequence_def)
qed

subsection \<open>Dynamic shifts, comparison of bytes, multiplication\<close>

abbreviation shad where "shad \<equiv> i0100_nnnn_mmmm_1100"
abbreviation shld where "shld \<equiv> i0100_nnnn_mmmm_1101"
abbreviation cmp_str where "cmp_str \<equiv> i0010_nnnn_mmmm_1100"
abbreviation dmulu where "dmulu \<equiv> i0011_nnnn_mmmm_0101"
abbreviation dmuls where "dmuls \<equiv> i0011_nnnn_mmmm_1101"

lemma unat_and_1F: "unat ((m :: u32) AND 0x1F) = nat (uint m mod 32)"
proof -
  have "m AND 0x1F = take_bit 5 m" by (simp add: take_bit_eq_mask mask_eq_exp_minus_1)
  then have "uint (m AND 0x1F) = uint m mod 32" by (simp add: take_bit_eq_mod uint_mod)
  then show ?thesis by (metis nat_uint_eq)
qed

lemma unat_plus_one_small: "unat (x :: u32) < 4294967295 \<Longrightarrow> unat (x + 1) = unat x + 1"
  by (simp add: unat_word_ariths)

lemma not_and_1F: "unat ((NOT (m :: u32) AND 0x1F) + 1) = 32 - nat (uint m mod 32)"
proof -
  have not_m: "uint (NOT m) = 4294967295 - uint m"
  proof -
    have "uint (- 1 :: u32) = 4294967295" by (simp add: uint32_eq_m1)
    moreover have "NOT m = - 1 - m" by (simp add: not_eq_complement)
    moreover have "\<not> (- 1 :: u32) < m" by (simp add: not_less)
    ultimately show ?thesis using uint_sub_borrow [of "- 1" m] by simp
  qed
  define q y where "q = uint m div 32" and "y = uint m mod 32"
  have "uint m = 32 * q + y" unfolding q_def y_def by (rule mult_div_mod_eq [symmetric])
  with not_m have eq: "uint (NOT m) = 32 * (134217727 - q) + (31 - y)"
    by (simp add: algebra_simps)
  have y: "0 \<le> y" "y < 32" by (simp_all add: y_def)
  have "uint (NOT m) mod 32 = 31 - y"
    by (rule int_mod_pos_eq [OF eq]) (use y in linarith)+
  then have u: "unat (NOT m AND 0x1F) = nat (31 - y)"
    unfolding unat_and_1F by simp
  then have "unat (NOT m AND 0x1F) < 32" using y by linarith
  then have "unat ((NOT m AND 0x1F) + 1) = unat (NOT m AND 0x1F) + 1"
    by (intro unat_plus_one_small) simp
  with u y show ?thesis unfolding y_def [symmetric] by linarith
qed

lemma sign_and: "(m :: u32) AND 0x80000000 = 0 \<longleftrightarrow> 0 \<le> sint m"
  using msb_and [of m] uint32_bounds [of m] by (auto simp: and.commute sint32_uint)

lemma shad_exact:
  assumes "s' = shad op s" "m = r s (GetM op)" "n = r s (GetN op)"
  shows "r s' (GetN op) = (if 0 \<le> sint m then push_bit (nat (uint m mod 32)) n
    else signed_drop_bit (32 - nat (uint m mod 32)) n)"
proof -
  have z: "(m AND 0x1F = 0) = (uint m mod 32 = 0)"
    using unat_and_1F [of m] by (metis nat_eq_iff2 pos_mod_sign unat_eq_zero zero_less_numeral nat_0_iff dual_order.antisym)
  have "signed_drop_bit 32 n = signed_drop_bit 31 n"
    by (rule bit_word_eqI) (auto simp: bit_simps not_le)
  then show ?thesis
    unfolding assms(1) i0100_nnnn_mmmm_1100_def Let_def assms(2,3) [symmetric] sign_and z unat_and_1F not_and_1F
    by simp
qed

lemma shld_exact:
  assumes "s' = shld op s" "m = r s (GetM op)" "n = r s (GetN op)"
  shows "r s' (GetN op) = (if 0 \<le> sint m then push_bit (nat (uint m mod 32)) n
    else drop_bit (32 - nat (uint m mod 32)) n)"
proof -
  have z: "(m AND 0x1F = 0) = (uint m mod 32 = 0)"
    using unat_and_1F [of m] by (metis nat_eq_iff2 pos_mod_sign unat_eq_zero zero_less_numeral nat_0_iff dual_order.antisym)
  have "drop_bit 32 n = 0"
    by (rule bit_word_eqI) (auto simp: bit_simps dest: bit_imp_le_length)
  then show ?thesis
    unfolding assms(1) i0100_nnnn_mmmm_1101_def Let_def assms(2,3) [symmetric] sign_and z unat_and_1F not_and_1F
    by simp
qed

lemma byte_xor:
  assumes "k + 8 \<le> 32"
  shows "drop_bit k ((x XOR y) AND push_bit k (mask 8)) = 0 \<longleftrightarrow>
    (ucast (drop_bit k (x :: u32)) :: u8) = ucast (drop_bit k y)"
proof -
  have "drop_bit k ((x XOR y) AND push_bit k (mask 8)) = 0 \<longleftrightarrow> (\<forall>j < 8. bit x (k + j) = bit y (k + j))"
    (is "?l \<longleftrightarrow> ?r")
  proof
    assume l: ?l
    show ?r
    proof (intro allI impI)
      fix j :: nat assume "j < 8"
      moreover have "\<not> bit (drop_bit k ((x XOR y) AND push_bit k (mask 8))) j" using l by simp
      ultimately show "bit x (k + j) = bit y (k + j)" using assms by (simp add: bit_simps)
    qed
  next
    assume ?r then show ?l by (intro bit_word_eqI) (auto simp: bit_simps)
  qed
  moreover have "(ucast (drop_bit k x) :: u8) = ucast (drop_bit k y) \<longleftrightarrow> (\<forall>j < 8. bit x (k + j) = bit y (k + j))"
    by (auto simp: bit_eq_iff bit_simps)
  ultimately show ?thesis by simp
qed

lemma cmp_str_exact:
  assumes "s' = cmp_str op s"
  shows "sr_T (sr s') = 1 \<longleftrightarrow> (\<exists>k \<in> {0, 8, 16, 24}. (ucast (drop_bit k (r s (GetN op))) :: u8)
      = ucast (drop_bit k (r s (GetM op))))"
proof -
  have c: "(0xFF000000 :: u32) = push_bit 24 (mask 8)" "(0x00FF0000 :: u32) = push_bit 16 (mask 8)"
    "(0x0000FF00 :: u32) = push_bit 8 (mask 8)" "(0x000000FF :: u32) = push_bit 0 (mask 8)"
    by (simp_all add: mask_eq_exp_minus_1)
  have d0: "x AND m = drop_bit 0 (x AND m)" for x m :: u32 by simp
  have "sr_T (sr s') = 1 \<longleftrightarrow> \<not> (drop_bit 24 ((r s (GetN op) XOR r s (GetM op)) AND push_bit 24 (mask 8)) \<noteq> 0
      \<and> drop_bit 16 ((r s (GetN op) XOR r s (GetM op)) AND push_bit 16 (mask 8)) \<noteq> 0
      \<and> drop_bit 8 ((r s (GetN op) XOR r s (GetM op)) AND push_bit 8 (mask 8)) \<noteq> 0
      \<and> drop_bit 0 ((r s (GetN op) XOR r s (GetM op)) AND push_bit 0 (mask 8)) \<noteq> 0)"
    unfolding assms i0010_nnnn_mmmm_1100_def Let_def c
    by (simp only: setT_simps drop_bit_0 id_apply split: if_splits) simp
  then show ?thesis by (simp only: byte_xor [of 24] byte_xor [of 16] byte_xor [of 8] byte_xor [of 0]) auto
qed

lemma dmulu_exact: "uint (mac_full (dmulu op s)) = uint (r s (GetN op)) * uint (r s (GetM op))"
proof -
  let ?n = "r s (GetN op)" and ?m = "r s (GetM op)"
  have "uint ?n * uint ?m \<le> 4294967295 * 4294967295"
    using uint32_bounds [of ?n] uint32_bounds [of ?m] by (intro mult_mono) simp_all
  then have "(uint ?n * uint ?m) mod 18446744073709551616 = uint ?n * uint ?m"
    by (intro mod_pos_pos_trivial) simp_all
  moreover have "uint (ucast x :: u64) = uint x" for x :: u32
    using uint32_bounds [of x] by (simp add: unsigned_ucast_eq take_bit_int_eq_self)
  ultimately show ?thesis by (simp add: i0011_nnnn_mmmm_0101_def uint_word_ariths)
qed

lemma dmuls_exact: "sint (mac_full (dmuls op s)) = sint (r s (GetN op)) * sint (r s (GetM op))"
proof -
  let ?n = "r s (GetN op)" and ?m = "r s (GetM op)"
  have "\<bar>sint ?n\<bar> \<le> 2147483648" "\<bar>sint ?m\<bar> \<le> 2147483648"
    using sint32_bounds [of ?n] sint32_bounds [of ?m] by linarith+
  then have "\<bar>sint ?n * sint ?m\<bar> \<le> 2147483648 * 2147483648"
    unfolding abs_mult by (intro mult_mono) simp_all
  then have b: "- 4611686018427387904 \<le> sint ?n * sint ?m" "sint ?n * sint ?m \<le> 4611686018427387904"
    by (simp_all add: abs_le_iff)
  have "sint (scast ?n * scast ?m :: u64) = signed_take_bit 63 (sint ?n * sint ?m)"
    by (simp add: sint_word_ariths sint_scast64)
  also have "\<dots> = sint ?n * sint ?m" using b by (intro signed_take_bit_int_eq_self) simp_all
  finally show ?thesis by (simp add: i0011_nnnn_mmmm_1101_def)
qed

subsection \<open>Properties\<close>

text \<open>Addition and subtraction with carry are exact: the result, with T as the digit above it,
  is the integer sum or difference of the operands and the old T (for \<open>addc\<close>, \<open>subc\<close> and \<open>negc\<close>);
  and \<open>addv\<close> and \<open>subv\<close> set T exactly when the result is not the signed sum or difference.\<close>

theorem add_sub_exact:
  assumes "T_ok s"
  shows "uint (r (addc op s) (GetN op)) + 4294967296 * uint (sr_T (sr (addc op s)))
      = uint (r s (GetN op)) + uint (r s (GetM op)) + uint (sr_T (sr s))
    \<and> uint (r (subc op s) (GetN op)) - 4294967296 * uint (sr_T (sr (subc op s)))
      = uint (r s (GetN op)) - uint (r s (GetM op)) - uint (sr_T (sr s))
    \<and> uint (r (negc op s) (GetN op)) - 4294967296 * uint (sr_T (sr (negc op s)))
      = - uint (r s (GetM op)) - uint (sr_T (sr s))
    \<and> (sr_T (sr (addv op s)) = 1 \<longleftrightarrow> sint (r (addv op s) (GetN op)) \<noteq> sint (r s (GetN op)) + sint (r s (GetM op)))
    \<and> (sr_T (sr (subv op s)) = 1 \<longleftrightarrow> sint (r (subv op s) (GetN op)) \<noteq> sint (r s (GetN op)) - sint (r s (GetM op)))"
  by (intro conjI addc_exact subc_exact negc_exact addv_exact subv_exact assms refl)

theorem add_sub_exact_witness:
  "let s = ctx_zero\<lparr>r := (\<lambda>_. 0)(1 := 0xFFFFFFFF, 2 := 1)\<rparr> in
   T_ok s \<and> uint (r (addc 0x312E s) 1) + 4294967296 * uint (sr_T (sr (addc 0x312E s))) = 4294967296"
proof -
  let ?s = "ctx_zero\<lparr>r := (\<lambda>_. 0)(1 := 0xFFFFFFFF, 2 := 1)\<rparr>"
  have n: "GetN 0x312E = 1" "GetM 0x312E = 2" by (simp_all add: GetN_def GetM_def)
  have z: "sr_T (sr ?s) = 0" by (simp add: ctx_zero_def)
  then have "T_ok ?s" by (simp add: T_ok_def)
  then show ?thesis using add_sub_exact [of ?s "0x312E"] z by (simp add: n Let_def)
qed

theorem div_sequence_divides_witness:
  "let s = ctx_zero\<lparr>r := (\<lambda>_. 0)(0 := 2, 1 := 7, 2 := 10)\<rparr> in
   uint (r (div_sequence 0x4124 0x3024 s) 1) = 858993459"
proof -
  have n: "GetN 0x4124 = 1" "GetN 0x3024 = 0" "GetM 0x3024 = 2" by (simp_all add: GetN_def GetM_def)
  show ?thesis
    unfolding Let_def
    using div_sequence_divides [of "0x4124" "0x3024" "ctx_zero\<lparr>r := (\<lambda>_. 0)(0 := 2, 1 := 7, 2 := 10)\<rparr>" 2 7 10]
    by (simp add: n)
qed

text \<open>The dynamic shifts. With a non-negative count \<open>shad\<close> and \<open>shld\<close> shift left by the low five
  bits of it; with a negative one they shift right by 32 minus these, arithmetically and logically,
  so that a count of \<open>-32\<close> and its multiples fills the register with the sign or with zero.\<close>

theorem dynamic_shifts:
  "r (shad op s) (GetN op) =
     (if 0 \<le> sint (r s (GetM op)) then push_bit (nat (uint (r s (GetM op)) mod 32)) (r s (GetN op))
      else signed_drop_bit (32 - nat (uint (r s (GetM op)) mod 32)) (r s (GetN op)))
   \<and> r (shld op s) (GetN op) =
     (if 0 \<le> sint (r s (GetM op)) then push_bit (nat (uint (r s (GetM op)) mod 32)) (r s (GetN op))
      else drop_bit (32 - nat (uint (r s (GetM op)) mod 32)) (r s (GetN op)))"
  by (intro conjI shad_exact [where op = op and s = s, OF refl refl refl] shld_exact [where op = op and s = s, OF refl refl refl])

text \<open>\<open>cmp/str\<close> sets T exactly when one of the four bytes of the two registers agrees.\<close>

theorem cmp_str_bytes:
  "sr_T (sr (cmp_str op s)) = 1 \<longleftrightarrow> (\<exists>k \<in> {0, 8, 16, 24}.
     (ucast (drop_bit k (r s (GetN op))) :: u8) = ucast (drop_bit k (r s (GetM op))))"
  by (rule cmp_str_exact [OF refl])

text \<open>The 32 by 32 bit multiplications are exact: the accumulator holds the unsigned product
  after \<open>dmulu.l\<close> and the signed one after \<open>dmuls.l\<close>.\<close>

theorem dmul_exact:
  "uint (mac_full (dmulu op s)) = uint (r s (GetN op)) * uint (r s (GetM op))
   \<and> sint (mac_full (dmuls op s)) = sint (r s (GetN op)) * sint (r s (GetM op))"
  by (intro conjI dmulu_exact dmuls_exact)

end
