(* ===== verification/Sh4_Memops.thy ===== *)
theory Sh4_Memops
  imports Sh4_Bus
begin

section \<open>Instructions on memory\<close>

text \<open>
  \<open>core/hw/sh4/interpr/sh4_opcodes.cpp\<close>: the instructions that access memory, over the
  interface \<open>b\<close> of \<open>Sh4_Bus\<close>. An access that throws ends the instruction; what was assigned
  before it stays. \<open>die\<close> and a failing \<open>verify\<close> are error values.
\<close>

subsection \<open>Loads and stores indexed by R0\<close>

text \<open>\<open>mov.b @(R0,[REG_M]),[REG_N]\<close>\<close>

definition i0000_nnnn_mmmm_1100 ::
  "'z sh4_context_scheme bus \<Rightarrow> u16 \<Rightarrow> 'z sh4_context_scheme \<Rightarrow> 'z sh4_context_scheme res" where
  "i0000_nnnn_mmmm_1100 b op s =
     (ReadMemS8 b (r s 0 + r s (GetM op)) s (setR (GetN op)))"

text \<open>\<open>mov.w @(R0,[REG_M]),[REG_N]\<close>\<close>

definition i0000_nnnn_mmmm_1101 ::
  "'z sh4_context_scheme bus \<Rightarrow> u16 \<Rightarrow> 'z sh4_context_scheme \<Rightarrow> 'z sh4_context_scheme res" where
  "i0000_nnnn_mmmm_1101 b op s =
     (ReadMemS16 b (r s 0 + r s (GetM op)) s (setR (GetN op)))"

text \<open>\<open>mov.l @(R0,[REG_M]),[REG_N]\<close>\<close>

definition i0000_nnnn_mmmm_1110 ::
  "'z sh4_context_scheme bus \<Rightarrow> u16 \<Rightarrow> 'z sh4_context_scheme \<Rightarrow> 'z sh4_context_scheme res" where
  "i0000_nnnn_mmmm_1110 b op s =
     (ReadMemU32 b (r s 0 + r s (GetM op)) s (setR (GetN op)))"

text \<open>\<open>mov.b [REG_M],@(R0,[REG_N])\<close>\<close>

definition i0000_nnnn_mmmm_0100 ::
  "'z sh4_context_scheme bus \<Rightarrow> u16 \<Rightarrow> 'z sh4_context_scheme \<Rightarrow> 'z sh4_context_scheme res" where
  "i0000_nnnn_mmmm_0100 b op s =
     (WriteMemU8 b (r s 0 + r s (GetN op)) (r s (GetM op)) s)"

text \<open>\<open>mov.w [REG_M],@(R0,[REG_N])\<close>\<close>

definition i0000_nnnn_mmmm_0101 ::
  "'z sh4_context_scheme bus \<Rightarrow> u16 \<Rightarrow> 'z sh4_context_scheme \<Rightarrow> 'z sh4_context_scheme res" where
  "i0000_nnnn_mmmm_0101 b op s =
     (WriteMemU16 b (r s 0 + r s (GetN op)) (r s (GetM op)) s)"

text \<open>\<open>mov.l [REG_M],@(R0,[REG_N])\<close>\<close>

definition i0000_nnnn_mmmm_0110 ::
  "'z sh4_context_scheme bus \<Rightarrow> u16 \<Rightarrow> 'z sh4_context_scheme \<Rightarrow> 'z sh4_context_scheme res" where
  "i0000_nnnn_mmmm_0110 b op s =
     (WriteMemU32 b (r s 0 + r s (GetN op)) (r s (GetM op)) s)"

subsection \<open>Stores\<close>

text \<open>\<open>mov.l [REG_M],@([disp],[REG_N])\<close>\<close>

definition i0001_nnnn_mmmm_iiii ::
  "'z sh4_context_scheme bus \<Rightarrow> u16 \<Rightarrow> 'z sh4_context_scheme \<Rightarrow> 'z sh4_context_scheme res" where
  "i0001_nnnn_mmmm_iiii b op s =
     (WriteMemU32 b (r s (GetN op) + push_bit 2 (GetImm4 op)) (r s (GetM op)) s)"

text \<open>\<open>mov.b [REG_M],@[REG_N]\<close>\<close>

definition i0010_nnnn_mmmm_0000 ::
  "'z sh4_context_scheme bus \<Rightarrow> u16 \<Rightarrow> 'z sh4_context_scheme \<Rightarrow> 'z sh4_context_scheme res" where
  "i0010_nnnn_mmmm_0000 b op s =
     (WriteMemU8 b (r s (GetN op)) (r s (GetM op)) s)"

text \<open>\<open>mov.w [REG_M],@[REG_N]\<close>\<close>

definition i0010_nnnn_mmmm_0001 ::
  "'z sh4_context_scheme bus \<Rightarrow> u16 \<Rightarrow> 'z sh4_context_scheme \<Rightarrow> 'z sh4_context_scheme res" where
  "i0010_nnnn_mmmm_0001 b op s =
     (WriteMemU16 b (r s (GetN op)) (r s (GetM op)) s)"

text \<open>\<open>mov.l [REG_M],@[REG_N]\<close>\<close>

definition i0010_nnnn_mmmm_0010 ::
  "'z sh4_context_scheme bus \<Rightarrow> u16 \<Rightarrow> 'z sh4_context_scheme \<Rightarrow> 'z sh4_context_scheme res" where
  "i0010_nnnn_mmmm_0010 b op s =
     (WriteMemU32 b (r s (GetN op)) (r s (GetM op)) s)"

text \<open>\<open>mov.b [REG_M],@-[REG_N]\<close>\<close>

definition i0010_nnnn_mmmm_0100 ::
  "'z sh4_context_scheme bus \<Rightarrow> u16 \<Rightarrow> 'z sh4_context_scheme \<Rightarrow> 'z sh4_context_scheme res" where
  "i0010_nnnn_mmmm_0100 b op s =
     (let addr = r s (GetN op) - 1
      in sum_bind (WriteMemU8 b (r s (GetN op) + (- 1)) (r s (GetM op)) s) (\<lambda>s1. Inr (setR (GetN op) addr s1)))"

text \<open>\<open>mov.w [REG_M],@-[REG_N]\<close>\<close>

definition i0010_nnnn_mmmm_0101 ::
  "'z sh4_context_scheme bus \<Rightarrow> u16 \<Rightarrow> 'z sh4_context_scheme \<Rightarrow> 'z sh4_context_scheme res" where
  "i0010_nnnn_mmmm_0101 b op s =
     (let addr = r s (GetN op) - 2
      in sum_bind (WriteMemU16 b addr (r s (GetM op)) s) (\<lambda>s1. Inr (setR (GetN op) addr s1)))"

text \<open>\<open>mov.l [REG_M],@-[REG_N]\<close>\<close>

definition i0010_nnnn_mmmm_0110 ::
  "'z sh4_context_scheme bus \<Rightarrow> u16 \<Rightarrow> 'z sh4_context_scheme \<Rightarrow> 'z sh4_context_scheme res" where
  "i0010_nnnn_mmmm_0110 b op s =
     (let addr = r s (GetN op) - 4
      in sum_bind (WriteMemU32 b addr (r s (GetM op)) s) (\<lambda>s1. Inr (setR (GetN op) addr s1)))"

subsection \<open>Special registers to the stack\<close>

text \<open>\<open>sts.l FPUL,@-[REG_N]\<close>\<close>

definition i0100_nnnn_0101_0010 ::
  "'z sh4_context_scheme bus \<Rightarrow> u16 \<Rightarrow> 'z sh4_context_scheme \<Rightarrow> 'z sh4_context_scheme res" where
  "i0100_nnnn_0101_0010 b op s =
     (push32 b (GetN op) (fpul s) s)"

text \<open>\<open>sts.l MACH,@-[REG_N]\<close>\<close>

definition i0100_nnnn_0000_0010 ::
  "'z sh4_context_scheme bus \<Rightarrow> u16 \<Rightarrow> 'z sh4_context_scheme \<Rightarrow> 'z sh4_context_scheme res" where
  "i0100_nnnn_0000_0010 b op s =
     (push32 b (GetN op) (mac_h s) s)"

text \<open>\<open>sts.l MACL,@-[REG_N]\<close>\<close>

definition i0100_nnnn_0001_0010 ::
  "'z sh4_context_scheme bus \<Rightarrow> u16 \<Rightarrow> 'z sh4_context_scheme \<Rightarrow> 'z sh4_context_scheme res" where
  "i0100_nnnn_0001_0010 b op s =
     (push32 b (GetN op) (mac_l s) s)"

text \<open>\<open>sts.l PR,@-[REG_N]\<close>\<close>

definition i0100_nnnn_0010_0010 ::
  "'z sh4_context_scheme bus \<Rightarrow> u16 \<Rightarrow> 'z sh4_context_scheme \<Rightarrow> 'z sh4_context_scheme res" where
  "i0100_nnnn_0010_0010 b op s =
     (push32 b (GetN op) (pr s) s)"

text \<open>\<open>sts.l DBR,@-[REG_N]\<close>\<close>

definition i0100_nnnn_1111_0010 ::
  "'z sh4_context_scheme bus \<Rightarrow> u16 \<Rightarrow> 'z sh4_context_scheme \<Rightarrow> 'z sh4_context_scheme res" where
  "i0100_nnnn_1111_0010 b op s =
     (push32 b (GetN op) (dbr s) s)"

text \<open>\<open>stc.l GBR,@-[REG_N]\<close>\<close>

definition i0100_nnnn_0001_0011 ::
  "'z sh4_context_scheme bus \<Rightarrow> u16 \<Rightarrow> 'z sh4_context_scheme \<Rightarrow> 'z sh4_context_scheme res" where
  "i0100_nnnn_0001_0011 b op s =
     (push32 b (GetN op) (gbr s) s)"

text \<open>\<open>stc.l VBR,@-[REG_N]\<close>\<close>

definition i0100_nnnn_0010_0011 ::
  "'z sh4_context_scheme bus \<Rightarrow> u16 \<Rightarrow> 'z sh4_context_scheme \<Rightarrow> 'z sh4_context_scheme res" where
  "i0100_nnnn_0010_0011 b op s =
     (push32 b (GetN op) (vbr s) s)"

text \<open>\<open>stc.l SSR,@-[REG_N]\<close>\<close>

definition i0100_nnnn_0011_0011 ::
  "'z sh4_context_scheme bus \<Rightarrow> u16 \<Rightarrow> 'z sh4_context_scheme \<Rightarrow> 'z sh4_context_scheme res" where
  "i0100_nnnn_0011_0011 b op s =
     (push32 b (GetN op) (ssr s) s)"

text \<open>\<open>stc.l SGR,@-[REG_N]\<close>\<close>

definition i0100_nnnn_0011_0010 ::
  "'z sh4_context_scheme bus \<Rightarrow> u16 \<Rightarrow> 'z sh4_context_scheme \<Rightarrow> 'z sh4_context_scheme res" where
  "i0100_nnnn_0011_0010 b op s =
     (push32 b (GetN op) (sgr s) s)"

text \<open>\<open>stc.l SPC,@-[REG_N]\<close>\<close>

definition i0100_nnnn_0100_0011 ::
  "'z sh4_context_scheme bus \<Rightarrow> u16 \<Rightarrow> 'z sh4_context_scheme \<Rightarrow> 'z sh4_context_scheme res" where
  "i0100_nnnn_0100_0011 b op s =
     (push32 b (GetN op) (spc s) s)"

text \<open>\<open>stc RM_BANK,@-[REG_N]\<close>\<close>

definition i0100_nnnn_1mmm_0011 ::
  "'z sh4_context_scheme bus \<Rightarrow> u16 \<Rightarrow> 'z sh4_context_scheme \<Rightarrow> 'z sh4_context_scheme res" where
  "i0100_nnnn_1mmm_0011 b op s =
     (push32 b (GetN op) (r_bank s (unat (drop_bit 4 op AND 0xf AND 0x07))) s)"

text \<open>\<open>sts.l FPSCR,@-[REG_N]\<close>\<close>

definition i0100_nnnn_0110_0010 ::
  "'z sh4_context_scheme bus \<Rightarrow> u16 \<Rightarrow> 'z sh4_context_scheme \<Rightarrow> 'z sh4_context_scheme res" where
  "i0100_nnnn_0110_0010 b op s =
     (sum_bind (WriteMemU32 b (r s (GetN op) - 4) (fpscr s) s) (\<lambda>s1. Inr (setR (GetN op) (r s1 (GetN op) - 4) s1)))"

text \<open>\<open>stc.l SR,@-[REG_N]\<close>\<close>

definition i0100_nnnn_0000_0011 ::
  "'z sh4_context_scheme bus \<Rightarrow> u16 \<Rightarrow> 'z sh4_context_scheme \<Rightarrow> 'z sh4_context_scheme res" where
  "i0100_nnnn_0000_0011 b op s =
     (sum_bind (WriteMemU32 b (r s (GetN op) - 4) (sr_getFull (sr s)) s) (\<lambda>s1. Inr (setR (GetN op) (r s1 (GetN op) - 4) s1)))"

subsection \<open>Special registers from the stack\<close>

text \<open>\<open>lds.l @[REG_N]+,MACH\<close>\<close>

definition i0100_nnnn_0000_0110 ::
  "'z sh4_context_scheme bus \<Rightarrow> u16 \<Rightarrow> 'z sh4_context_scheme \<Rightarrow> 'z sh4_context_scheme res" where
  "i0100_nnnn_0000_0110 b op s =
     (pop32 b (GetN op) s set_mac_h)"

text \<open>\<open>lds.l @[REG_N]+,MACL\<close>\<close>

definition i0100_nnnn_0001_0110 ::
  "'z sh4_context_scheme bus \<Rightarrow> u16 \<Rightarrow> 'z sh4_context_scheme \<Rightarrow> 'z sh4_context_scheme res" where
  "i0100_nnnn_0001_0110 b op s =
     (pop32 b (GetN op) s set_mac_l)"

text \<open>\<open>lds.l @[REG_N]+,PR\<close>\<close>

definition i0100_nnnn_0010_0110 ::
  "'z sh4_context_scheme bus \<Rightarrow> u16 \<Rightarrow> 'z sh4_context_scheme \<Rightarrow> 'z sh4_context_scheme res" where
  "i0100_nnnn_0010_0110 b op s =
     (pop32 b (GetN op) s (\<lambda>v s1. s1\<lparr>pr := v\<rparr>))"

text \<open>\<open>lds.l @[REG_N]+,FPUL\<close>\<close>

definition i0100_nnnn_0101_0110 ::
  "'z sh4_context_scheme bus \<Rightarrow> u16 \<Rightarrow> 'z sh4_context_scheme \<Rightarrow> 'z sh4_context_scheme res" where
  "i0100_nnnn_0101_0110 b op s =
     (pop32 b (GetN op) s (\<lambda>v s1. s1\<lparr>fpul := v\<rparr>))"

text \<open>\<open>lds.l @[REG_N]+,DBR\<close>\<close>

definition i0100_nnnn_1111_0110 ::
  "'z sh4_context_scheme bus \<Rightarrow> u16 \<Rightarrow> 'z sh4_context_scheme \<Rightarrow> 'z sh4_context_scheme res" where
  "i0100_nnnn_1111_0110 b op s =
     (pop32 b (GetN op) s (\<lambda>v s1. s1\<lparr>dbr := v\<rparr>))"

text \<open>\<open>ldc.l @[REG_N]+,GBR\<close>\<close>

definition i0100_nnnn_0001_0111 ::
  "'z sh4_context_scheme bus \<Rightarrow> u16 \<Rightarrow> 'z sh4_context_scheme \<Rightarrow> 'z sh4_context_scheme res" where
  "i0100_nnnn_0001_0111 b op s =
     (pop32 b (GetN op) s (\<lambda>v s1. s1\<lparr>gbr := v\<rparr>))"

text \<open>\<open>ldc.l @[REG_N]+,VBR\<close>\<close>

definition i0100_nnnn_0010_0111 ::
  "'z sh4_context_scheme bus \<Rightarrow> u16 \<Rightarrow> 'z sh4_context_scheme \<Rightarrow> 'z sh4_context_scheme res" where
  "i0100_nnnn_0010_0111 b op s =
     (pop32 b (GetN op) s (\<lambda>v s1. s1\<lparr>vbr := v\<rparr>))"

text \<open>\<open>ldc.l @[REG_N]+,SSR\<close>\<close>

definition i0100_nnnn_0011_0111 ::
  "'z sh4_context_scheme bus \<Rightarrow> u16 \<Rightarrow> 'z sh4_context_scheme \<Rightarrow> 'z sh4_context_scheme res" where
  "i0100_nnnn_0011_0111 b op s =
     (pop32 b (GetN op) s (\<lambda>v s1. s1\<lparr>ssr := v\<rparr>))"

text \<open>\<open>ldc.l @[REG_N]+,SGR\<close>\<close>

definition i0100_nnnn_0011_0110 ::
  "'z sh4_context_scheme bus \<Rightarrow> u16 \<Rightarrow> 'z sh4_context_scheme \<Rightarrow> 'z sh4_context_scheme res" where
  "i0100_nnnn_0011_0110 b op s =
     (pop32 b (GetN op) s (\<lambda>v s1. s1\<lparr>sgr := v\<rparr>))"

text \<open>\<open>ldc.l @[REG_N]+,SPC\<close>\<close>

definition i0100_nnnn_0100_0111 ::
  "'z sh4_context_scheme bus \<Rightarrow> u16 \<Rightarrow> 'z sh4_context_scheme \<Rightarrow> 'z sh4_context_scheme res" where
  "i0100_nnnn_0100_0111 b op s =
     (pop32 b (GetN op) s (\<lambda>v s1. s1\<lparr>spc := v\<rparr>))"

text \<open>\<open>ldc.l @[REG_N]+,RM_BANK\<close>\<close>

definition i0100_nnnn_1mmm_0111 ::
  "'z sh4_context_scheme bus \<Rightarrow> u16 \<Rightarrow> 'z sh4_context_scheme \<Rightarrow> 'z sh4_context_scheme res" where
  "i0100_nnnn_1mmm_0111 b op s =
     (pop32 b (GetN op) s
            (\<lambda>v s1. s1\<lparr>r_bank := (r_bank s1)(unat (drop_bit 4 op AND 0xf AND 7) := v)\<rparr>))"

text \<open>\<open>lds.l @[REG_N]+,FPSCR\<close>\<close>

definition i0100_nnnn_0110_0110 ::
  "'z sh4_context_scheme bus \<Rightarrow> u16 \<Rightarrow> 'z sh4_context_scheme \<Rightarrow> 'z sh4_context_scheme res" where
  "i0100_nnnn_0110_0110 b op s =
     (pop32 b (GetN op) s (\<lambda>v s1. UpdateFPSCR (s1\<lparr>fpscr := v\<rparr>)))"

subsection \<open>Loads\<close>

text \<open>\<open>mov.l @([disp],[REG_M]),[REG_N]\<close>\<close>

definition i0101_nnnn_mmmm_iiii ::
  "'z sh4_context_scheme bus \<Rightarrow> u16 \<Rightarrow> 'z sh4_context_scheme \<Rightarrow> 'z sh4_context_scheme res" where
  "i0101_nnnn_mmmm_iiii b op s =
     (let disp = push_bit 2 (GetImm4 op) in ReadMemU32 b (r s (GetM op) + disp) s (setR (GetN op)))"

text \<open>\<open>mov.b @[REG_M],[REG_N]\<close>\<close>

definition i0110_nnnn_mmmm_0000 ::
  "'z sh4_context_scheme bus \<Rightarrow> u16 \<Rightarrow> 'z sh4_context_scheme \<Rightarrow> 'z sh4_context_scheme res" where
  "i0110_nnnn_mmmm_0000 b op s =
     (ReadMemS8 b (r s (GetM op)) s (setR (GetN op)))"

text \<open>\<open>mov.w @[REG_M],[REG_N]\<close>\<close>

definition i0110_nnnn_mmmm_0001 ::
  "'z sh4_context_scheme bus \<Rightarrow> u16 \<Rightarrow> 'z sh4_context_scheme \<Rightarrow> 'z sh4_context_scheme res" where
  "i0110_nnnn_mmmm_0001 b op s =
     (ReadMemS16 b (r s (GetM op)) s (setR (GetN op)))"

text \<open>\<open>mov.l @[REG_M],[REG_N]\<close>\<close>

definition i0110_nnnn_mmmm_0010 ::
  "'z sh4_context_scheme bus \<Rightarrow> u16 \<Rightarrow> 'z sh4_context_scheme \<Rightarrow> 'z sh4_context_scheme res" where
  "i0110_nnnn_mmmm_0010 b op s =
     (ReadMemU32 b (r s (GetM op)) s (setR (GetN op)))"

text \<open>\<open>mov.b @[REG_M]+,[REG_N]\<close>\<close>

definition i0110_nnnn_mmmm_0100 ::
  "'z sh4_context_scheme bus \<Rightarrow> u16 \<Rightarrow> 'z sh4_context_scheme \<Rightarrow> 'z sh4_context_scheme res" where
  "i0110_nnnn_mmmm_0100 b op s =
     (ReadMemS8 b (r s (GetM op)) s (\<lambda>v s1. let s2 = setR (GetN op) v s1
      in if GetN op \<noteq> GetM op then setR (GetM op) (r s2 (GetM op) + 1) s2 else s2))"

text \<open>\<open>mov.w @[REG_M]+,[REG_N]\<close>\<close>

definition i0110_nnnn_mmmm_0101 ::
  "'z sh4_context_scheme bus \<Rightarrow> u16 \<Rightarrow> 'z sh4_context_scheme \<Rightarrow> 'z sh4_context_scheme res" where
  "i0110_nnnn_mmmm_0101 b op s =
     (ReadMemS16 b (r s (GetM op)) s (\<lambda>v s1. let s2 = setR (GetN op) v s1
      in if GetN op \<noteq> GetM op then setR (GetM op) (r s2 (GetM op) + 2) s2 else s2))"

text \<open>\<open>mov.l @[REG_M]+,[REG_N]\<close>\<close>

definition i0110_nnnn_mmmm_0110 ::
  "'z sh4_context_scheme bus \<Rightarrow> u16 \<Rightarrow> 'z sh4_context_scheme \<Rightarrow> 'z sh4_context_scheme res" where
  "i0110_nnnn_mmmm_0110 b op s =
     (ReadMemU32 b (r s (GetM op)) s (\<lambda>v s1. let s2 = setR (GetN op) v s1
      in if GetN op \<noteq> GetM op then setR (GetM op) (r s2 (GetM op) + 4) s2 else s2))"

subsection \<open>Loads and stores with a displacement\<close>

text \<open>\<open>mov.b R0,@([disp],[REG_M])\<close>\<close>

definition i1000_0000_mmmm_iiii ::
  "'z sh4_context_scheme bus \<Rightarrow> u16 \<Rightarrow> 'z sh4_context_scheme \<Rightarrow> 'z sh4_context_scheme res" where
  "i1000_0000_mmmm_iiii b op s =
     (WriteMemU8 b (r s (GetM op) + GetImm4 op) (r s 0) s)"

text \<open>\<open>mov.w R0,@([disp],[REG_M])\<close>\<close>

definition i1000_0001_mmmm_iiii ::
  "'z sh4_context_scheme bus \<Rightarrow> u16 \<Rightarrow> 'z sh4_context_scheme \<Rightarrow> 'z sh4_context_scheme res" where
  "i1000_0001_mmmm_iiii b op s =
     (WriteMemU16 b (r s (GetM op) + push_bit 1 (GetImm4 op)) (r s 0) s)"

text \<open>\<open>mov.b @([disp],[REG_M]),R0\<close>\<close>

definition i1000_0100_mmmm_iiii ::
  "'z sh4_context_scheme bus \<Rightarrow> u16 \<Rightarrow> 'z sh4_context_scheme \<Rightarrow> 'z sh4_context_scheme res" where
  "i1000_0100_mmmm_iiii b op s =
     (ReadMemS8 b (r s (GetM op) + GetImm4 op) s (setR 0))"

text \<open>\<open>mov.w @([disp],[REG_M]),R0\<close>\<close>

definition i1000_0101_mmmm_iiii ::
  "'z sh4_context_scheme bus \<Rightarrow> u16 \<Rightarrow> 'z sh4_context_scheme \<Rightarrow> 'z sh4_context_scheme res" where
  "i1000_0101_mmmm_iiii b op s =
     (ReadMemS16 b (r s (GetM op) + push_bit 1 (GetImm4 op)) s (setR 0))"

text \<open>\<open>mov.w @([disp],PC),[REG_N]\<close>\<close>

definition i1001_nnnn_iiii_iiii ::
  "'z sh4_context_scheme bus \<Rightarrow> u16 \<Rightarrow> 'z sh4_context_scheme \<Rightarrow> 'z sh4_context_scheme res" where
  "i1001_nnnn_iiii_iiii b op s =
     (ReadMemS16 b (push_bit 1 (GetImm8 op) + pc s + 2) s (setR (GetN op)))"

text \<open>\<open>mov.b R0,@([disp],GBR)\<close>\<close>

definition i1100_0000_iiii_iiii ::
  "'z sh4_context_scheme bus \<Rightarrow> u16 \<Rightarrow> 'z sh4_context_scheme \<Rightarrow> 'z sh4_context_scheme res" where
  "i1100_0000_iiii_iiii b op s =
     (WriteMemU8 b (gbr s + GetImm8 op) (r s 0) s)"

text \<open>\<open>mov.w R0,@([disp],GBR)\<close>\<close>

definition i1100_0001_iiii_iiii ::
  "'z sh4_context_scheme bus \<Rightarrow> u16 \<Rightarrow> 'z sh4_context_scheme \<Rightarrow> 'z sh4_context_scheme res" where
  "i1100_0001_iiii_iiii b op s =
     (WriteMemU16 b (gbr s + push_bit 1 (GetImm8 op)) (r s 0) s)"

text \<open>\<open>mov.l R0,@([disp],GBR)\<close>\<close>

definition i1100_0010_iiii_iiii ::
  "'z sh4_context_scheme bus \<Rightarrow> u16 \<Rightarrow> 'z sh4_context_scheme \<Rightarrow> 'z sh4_context_scheme res" where
  "i1100_0010_iiii_iiii b op s =
     (WriteMemU32 b (gbr s + push_bit 2 (GetImm8 op)) (r s 0) s)"

text \<open>\<open>mov.b @([disp],GBR),R0\<close>\<close>

definition i1100_0100_iiii_iiii ::
  "'z sh4_context_scheme bus \<Rightarrow> u16 \<Rightarrow> 'z sh4_context_scheme \<Rightarrow> 'z sh4_context_scheme res" where
  "i1100_0100_iiii_iiii b op s =
     (ReadMemS8 b (gbr s + GetImm8 op) s (setR 0))"

text \<open>\<open>mov.w @([disp],GBR),R0\<close>\<close>

definition i1100_0101_iiii_iiii ::
  "'z sh4_context_scheme bus \<Rightarrow> u16 \<Rightarrow> 'z sh4_context_scheme \<Rightarrow> 'z sh4_context_scheme res" where
  "i1100_0101_iiii_iiii b op s =
     (ReadMemS16 b (gbr s + push_bit 1 (GetImm8 op)) s (setR 0))"

text \<open>\<open>mov.l @([disp],GBR),R0\<close>\<close>

definition i1100_0110_iiii_iiii ::
  "'z sh4_context_scheme bus \<Rightarrow> u16 \<Rightarrow> 'z sh4_context_scheme \<Rightarrow> 'z sh4_context_scheme res" where
  "i1100_0110_iiii_iiii b op s =
     (ReadMemU32 b (gbr s + push_bit 2 (GetImm8 op)) s (setR 0))"

text \<open>\<open>mov.l @([disp],PC),[REG_N]\<close>\<close>

definition i1101_nnnn_iiii_iiii ::
  "'z sh4_context_scheme bus \<Rightarrow> u16 \<Rightarrow> 'z sh4_context_scheme \<Rightarrow> 'z sh4_context_scheme res" where
  "i1101_nnnn_iiii_iiii b op s =
     (ReadMemU32 b (push_bit 2 (GetImm8 op) + ((pc s + 2) AND 0xFFFFFFFC)) s (setR (GetN op)))"

text \<open>\<open>movca.l R0, @[REG_N]\<close>\<close>

definition i0000_nnnn_1100_0011 ::
  "'z sh4_context_scheme bus \<Rightarrow> u16 \<Rightarrow> 'z sh4_context_scheme \<Rightarrow> 'z sh4_context_scheme res" where
  "i0000_nnnn_1100_0011 b op s =
     (WriteMemU32 b (r s (GetN op)) (r s 0) s)"

subsection \<open>TLB and store queues\<close>

text \<open>\<open>ldtlb\<close>\<close>

definition i0000_0000_0011_1000 ::
  "'z sh4_context_scheme bus \<Rightarrow> u16 \<Rightarrow> 'z sh4_context_scheme \<Rightarrow> 'z sh4_context_scheme res" where
  "i0000_0000_0011_1000 b op s =
     (load_tlb b s)"

text \<open>\<open>pref @[REG_N]\<close>\<close>

definition i0000_nnnn_1000_0011 ::
  "'z sh4_context_scheme bus \<Rightarrow> u16 \<Rightarrow> 'z sh4_context_scheme \<Rightarrow> 'z sh4_context_scheme res" where
  "i0000_nnnn_1000_0011 b op s =
     (let Dest = r s (GetN op) in if drop_bit 26 Dest = 0x38 then doSqWrite b Dest s else Inr s)"

subsection \<open>Multiply and accumulate\<close>

text \<open>\<open>mac.w @[REG_M]+,@[REG_N]+\<close>\<close>

definition i0100_nnnn_mmmm_1111 ::
  "'z sh4_context_scheme bus \<Rightarrow> u16 \<Rightarrow> 'z sh4_context_scheme \<Rightarrow> 'z sh4_context_scheme res" where
  "i0100_nnnn_mmmm_1111 b op s =
     (if sr_S (status (sr s)) \<noteq> 0 then Inl (FlycastException, s)
      else sum_bind (ReadMem16 b (r s (GetN op)) s) (\<lambda>(vn, s1).
            sum_bind (ReadMem16 b (r s1 (GetM op) + (if GetN op = GetM op then 2 else 0)) s1) (\<lambda>(vm, s2).
            let rn = scast vn; rm = scast vm;
                s3 = setR (GetN op) (r s2 (GetN op) + 2) s2;
                s4 = setR (GetM op) (r s3 (GetM op) + 2) s3;
                mul = (rm * rn :: u32)
      in Inr (s4\<lparr>mac_full := mac_full s4 + scast mul\<rparr>))))"

text \<open>\<open>mac.l @[REG_M]+,@[REG_N]+\<close>\<close>

definition i0000_nnnn_mmmm_1111 ::
  "'z sh4_context_scheme bus \<Rightarrow> u16 \<Rightarrow> 'z sh4_context_scheme \<Rightarrow> 'z sh4_context_scheme res" where
  "i0000_nnnn_mmmm_1111 b op s =
     (if \<not> sr_S (status (sr s)) = 0 then Inl (AssertFailed, s)
      else sum_bind (ReadMem32 b (r s (GetM op)) s) (\<lambda>(rm, s1).
            sum_bind (ReadMem32 b (r s1 (GetN op) + (if GetN op = GetM op then 4 else 0)) s1) (\<lambda>(rn, s2).
            let s3 = setR (GetM op) (r s2 (GetM op) + 4) s2;
                s4 = setR (GetN op) (r s3 (GetN op) + 4) s3
      in Inr (s4\<lparr>mac_full := mac_full s4 + scast rm * scast rn\<rparr>))))"

subsection \<open>Read and modify bytes\<close>

text \<open>\<open>tst.b #[imm],@(R0,GBR)\<close>\<close>

definition i1100_1100_iiii_iiii ::
  "'z sh4_context_scheme bus \<Rightarrow> u16 \<Rightarrow> 'z sh4_context_scheme \<Rightarrow> 'z sh4_context_scheme res" where
  "i1100_1100_iiii_iiii b op s =
     (sum_bind (ReadMem8 b (gbr s + r s 0) s) (\<lambda>(v, s1).
            let temp = ucast v AND GetImm8 op in Inr (setT (temp = 0) s1)))"

text \<open>\<open>and.b #[imm],@(R0,GBR)\<close>\<close>

definition i1100_1101_iiii_iiii ::
  "'z sh4_context_scheme bus \<Rightarrow> u16 \<Rightarrow> 'z sh4_context_scheme \<Rightarrow> 'z sh4_context_scheme res" where
  "i1100_1101_iiii_iiii b op s =
     (sum_bind (ReadMem8 b (gbr s + r s 0) s) (\<lambda>(temp, s1).
            WriteMem8 b (gbr s1 + r s1 0) (temp AND ucast (GetImm8 op)) s1))"

text \<open>\<open>xor.b #[imm],@(R0,GBR)\<close>\<close>

definition i1100_1110_iiii_iiii ::
  "'z sh4_context_scheme bus \<Rightarrow> u16 \<Rightarrow> 'z sh4_context_scheme \<Rightarrow> 'z sh4_context_scheme res" where
  "i1100_1110_iiii_iiii b op s =
     (sum_bind (ReadMem8 b (gbr s + r s 0) s) (\<lambda>(temp, s1).
            WriteMem8 b (gbr s1 + r s1 0) (temp XOR ucast (GetImm8 op)) s1))"

text \<open>\<open>or.b #[imm],@(R0,GBR)\<close>\<close>

definition i1100_1111_iiii_iiii ::
  "'z sh4_context_scheme bus \<Rightarrow> u16 \<Rightarrow> 'z sh4_context_scheme \<Rightarrow> 'z sh4_context_scheme res" where
  "i1100_1111_iiii_iiii b op s =
     (sum_bind (ReadMem8 b (gbr s + r s 0) s) (\<lambda>(temp, s1).
            WriteMem8 b (gbr s1 + r s1 0) (temp OR ucast (GetImm8 op)) s1))"

text \<open>\<open>tas.b @[REG_N]\<close>\<close>

definition i0100_nnnn_0001_1011 ::
  "'z sh4_context_scheme bus \<Rightarrow> u16 \<Rightarrow> 'z sh4_context_scheme \<Rightarrow> 'z sh4_context_scheme res" where
  "i0100_nnnn_0001_1011 b op s =
     (sum_bind (ReadMem8 b (r s (GetN op)) s) (\<lambda>(val, s1).
            sum_bind (WriteMem8 b (r s1 (GetN op)) (val OR 0x80) s1) (\<lambda>s2. Inr (setT (val = 0) s2))))"

end
