(* ===== verification/Sh4_Control.thy ===== *)
theory Sh4_Control
  imports Sh4_Alu Sh4_Memops
begin

section \<open>Instructions on the flow of control\<close>

text \<open>
  \<open>core/hw/sh4/interpr/sh4_opcodes.cpp\<close>: the branches with a delay slot, the return from an
  exception, the trap, \<open>sleep\<close> and the loads of the status register. The execution of the delay
  slot (\<open>executeDelaySlot\<close>, \<open>ExecuteDelayslot_RTE\<close>) is the parameter \<open>slot\<close>; \<open>Sh4_Interpreter\<close>
  ties the knot. The debugger's callbacks only observe and are left out.
\<close>

definition branch_target_s12 :: "'z sh4_context_scheme \<Rightarrow> u16 \<Rightarrow> u32" where
  "branch_target_s12 s op = GetSImm12 op * 2 + 2 + pc s"

subsection \<open>Branches with a delay slot\<close>

text \<open>\<open>braf [REG_N]\<close>\<close>

definition i0000_nnnn_0010_0011 ::
  "('z intc_st_scheme \<Rightarrow> 'z intc_st_scheme res) \<Rightarrow> u16 \<Rightarrow> 'z intc_st_scheme \<Rightarrow> 'z intc_st_scheme res" where
  "i0000_nnnn_0010_0011 slot op s =
     (let newpc = r s (GetN op) + pc s + 2 in sum_bind (slot s) (\<lambda>s1. Inr (s1\<lparr>pc := newpc\<rparr>)))"

text \<open>\<open>bsrf [REG_N]\<close>\<close>

definition i0000_nnnn_0000_0011 ::
  "('z intc_st_scheme \<Rightarrow> 'z intc_st_scheme res) \<Rightarrow> u16 \<Rightarrow> 'z intc_st_scheme \<Rightarrow> 'z intc_st_scheme res" where
  "i0000_nnnn_0000_0011 slot op s =
     (let newpc = r s (GetN op) + pc s + 2; newpr = pc s + 2
      in sum_bind (slot s) (\<lambda>s1. Inr (s1\<lparr>pr := newpr, pc := newpc\<rparr>)))"

text \<open>\<open>rts\<close>\<close>

definition i0000_0000_0000_1011 ::
  "('z intc_st_scheme \<Rightarrow> 'z intc_st_scheme res) \<Rightarrow> u16 \<Rightarrow> 'z intc_st_scheme \<Rightarrow> 'z intc_st_scheme res" where
  "i0000_0000_0000_1011 slot op s =
     (let newpc = pr s in sum_bind (slot s) (\<lambda>s1. Inr (s1\<lparr>pc := newpc\<rparr>)))"

text \<open>\<open>bf.s [bdisp8]\<close>\<close>

definition i1000_1111_iiii_iiii ::
  "('z intc_st_scheme \<Rightarrow> 'z intc_st_scheme res) \<Rightarrow> u16 \<Rightarrow> 'z intc_st_scheme \<Rightarrow> 'z intc_st_scheme res" where
  "i1000_1111_iiii_iiii slot op s =
     (if sr_T (sr s) = 0
            then let newpc = branch_target_s8 s op in sum_bind (slot s) (\<lambda>s1. Inr (s1\<lparr>pc := newpc\<rparr>))
      else Inr s)"

text \<open>\<open>bt.s [bdisp8]\<close>\<close>

definition i1000_1101_iiii_iiii ::
  "('z intc_st_scheme \<Rightarrow> 'z intc_st_scheme res) \<Rightarrow> u16 \<Rightarrow> 'z intc_st_scheme \<Rightarrow> 'z intc_st_scheme res" where
  "i1000_1101_iiii_iiii slot op s =
     (if sr_T (sr s) \<noteq> 0
            then let newpc = branch_target_s8 s op in sum_bind (slot s) (\<lambda>s1. Inr (s1\<lparr>pc := newpc\<rparr>))
      else Inr s)"

text \<open>\<open>bra [bdisp12]\<close>\<close>

definition i1010_iiii_iiii_iiii ::
  "('z intc_st_scheme \<Rightarrow> 'z intc_st_scheme res) \<Rightarrow> u16 \<Rightarrow> 'z intc_st_scheme \<Rightarrow> 'z intc_st_scheme res" where
  "i1010_iiii_iiii_iiii slot op s =
     (let newpc = branch_target_s12 s op in sum_bind (slot s) (\<lambda>s1. Inr (s1\<lparr>pc := newpc\<rparr>)))"

text \<open>\<open>bsr [bdisp12]\<close>\<close>

definition i1011_iiii_iiii_iiii ::
  "('z intc_st_scheme \<Rightarrow> 'z intc_st_scheme res) \<Rightarrow> u16 \<Rightarrow> 'z intc_st_scheme \<Rightarrow> 'z intc_st_scheme res" where
  "i1011_iiii_iiii_iiii slot op s =
     (let newpr = pc s + 2; newpc = branch_target_s12 s op
      in sum_bind (slot s) (\<lambda>s1. Inr (s1\<lparr>pr := newpr, pc := newpc\<rparr>)))"

text \<open>\<open>jmp @[REG_N]\<close>\<close>

definition i0100_nnnn_0010_1011 ::
  "('z intc_st_scheme \<Rightarrow> 'z intc_st_scheme res) \<Rightarrow> u16 \<Rightarrow> 'z intc_st_scheme \<Rightarrow> 'z intc_st_scheme res" where
  "i0100_nnnn_0010_1011 slot op s =
     (let newpc = r s (GetN op) in sum_bind (slot s) (\<lambda>s1. Inr (s1\<lparr>pc := newpc\<rparr>)))"

text \<open>\<open>jsr @[REG_N]\<close>\<close>

definition i0100_nnnn_0000_1011 ::
  "('z intc_st_scheme \<Rightarrow> 'z intc_st_scheme res) \<Rightarrow> u16 \<Rightarrow> 'z intc_st_scheme \<Rightarrow> 'z intc_st_scheme res" where
  "i0100_nnnn_0000_1011 slot op s =
     (let newpr = pc s + 2; newpc = r s (GetN op)
      in sum_bind (slot s) (\<lambda>s1. Inr (s1\<lparr>pr := newpr, pc := newpc\<rparr>)))"

subsection \<open>Exceptions and the status register\<close>

text \<open>\<open>if (UpdateSR()) UpdateINTC();\<close>\<close>

definition UpdateSR_INTC :: "'z intc_st_scheme \<Rightarrow> 'z intc_st_scheme" where
  "UpdateSR_INTC s = (let (p, s1) = UpdateSR s in if p then snd (UpdateINTC s1) else s1)"

text \<open>\<open>rte\<close>\<close>

definition i0000_0000_0010_1011 ::
  "('z intc_st_scheme \<Rightarrow> 'z intc_st_scheme res) \<Rightarrow> u16 \<Rightarrow> 'z intc_st_scheme \<Rightarrow> 'z intc_st_scheme res" where
  "i0000_0000_0010_1011 slot_rte op s =
     (let newpc = spc s
      in sum_bind (slot_rte s) (\<lambda>s1. Inr (UpdateSR_INTC (s1\<lparr>pc := newpc\<rparr>))))"

text \<open>\<open>trapa #[imm]\<close>\<close>

definition i1100_0011_iiii_iiii :: "u16 \<Rightarrow> 'z intc_st_scheme \<Rightarrow> 'z intc_st_scheme res" where
  "i1100_0011_iiii_iiii op s =
     (let s1 = s\<lparr>CCN_TRA := push_bit 2 (GetImm8 op)\<rparr>
      in case Do_Exception (pc s1) 0x160 s1 of Inl e \<Rightarrow> Inl (e, s1) | Inr s2 \<Rightarrow> Inr s2)"

text \<open>\<open>sleep\<close>: at most 1002 time slices without an interrupt.\<close>

function sleep_loop :: "'s bus \<Rightarrow> nat \<Rightarrow> 's \<Rightarrow> (bool, 's) vres" where
  "sleep_loop b i s =
     sum_bind (update_system b s) (\<lambda>(intr, s1).
       if intr then Inr (True, s1)
       else if 1000 < i then Inr (False, s1)
       else sleep_loop b (i + 1) s1)"
  by pat_completeness auto

termination sleep_loop
  by (relation "measure (\<lambda>(b, i, s). 1002 - i)") auto

definition i0000_0000_0001_1011 ::
  "'z intc_st_scheme bus \<Rightarrow> u16 \<Rightarrow> 'z intc_st_scheme \<Rightarrow> 'z intc_st_scheme res" where
  "i0000_0000_0001_1011 b op s =
     sum_bind (sleep_loop b 0 s) (\<lambda>(intr, s1). Inr (if intr then s1 else s1\<lparr>pc := pc s1 - 2\<rparr>))"

text \<open>\<open>ldc.l @[REG_N]+,SR\<close>\<close>

definition i0100_nnnn_0000_0111 ::
  "'z intc_st_scheme bus \<Rightarrow> u16 \<Rightarrow> 'z intc_st_scheme \<Rightarrow> 'z intc_st_scheme res" where
  "i0100_nnnn_0000_0111 b op s =
     ReadMemU32 b (r s (GetN op)) s (\<lambda>v s1.
       let s2 = s1\<lparr>sr := sr_setFull v\<rparr>;
           s3 = setR (GetN op) (r s2 (GetN op) + 4) s2
       in UpdateSR_INTC s3)"

text \<open>\<open>ldc [REG_N],SR\<close>\<close>

definition i0100_nnnn_0000_1110 :: "u16 \<Rightarrow> 'z intc_st_scheme \<Rightarrow> 'z intc_st_scheme" where
  "i0100_nnnn_0000_1110 op s = UpdateSR_INTC (s\<lparr>sr := sr_setFull (r s (GetN op))\<rparr>)"

text \<open>The handler of every opcode without an instruction.\<close>

definition iNotImplemented :: "u16 \<Rightarrow> 'z intc_st_scheme \<Rightarrow> 'z intc_st_scheme res" where
  "iNotImplemented op s = Inl (SH4ThrownException (pc s - 2) 0x180, s)"

end
