(* ===== verification/Sh4_Interpreter.thy ===== *)
theory Sh4_Interpreter
  imports Sh4_Control
begin

section \<open>The opcode table and the interpreter\<close>

text \<open>
  \<open>core/hw/sh4/sh4_opcode_list.cpp\<close> and \<open>core/hw/sh4/interpr/sh4_interpreter.cpp\<close>: the list
  of instructions with their bit patterns, the tables built from it, and the loop that
  fetches and executes. The columns of the list that only the recompiler, the disassembler and
  the cycle counter read are left out.

  A delay slot is executed by a recursive call, which a branch in a delay slot can repeat; the
  recursion depth is bounded by the parameter \<open>depth\<close>, and running out of it is the error
  \<open>StackOverflow\<close>. The debugger's stop exception is not modelled.
\<close>

type_synonym 's handler = "'s bus \<Rightarrow> ('s \<Rightarrow> 's res) \<Rightarrow> ('s \<Rightarrow> 's res) \<Rightarrow> u16 \<Rightarrow> 's \<Rightarrow> 's res"

text \<open>How the handlers of the different kinds are called.\<close>

definition pure_fn :: "(u16 \<Rightarrow> 's \<Rightarrow> 's) \<Rightarrow> 's handler" where
  "pure_fn f b slot rte op s = Inr (f op s)"

definition ctl_fn :: "(u16 \<Rightarrow> 's \<Rightarrow> 's res) \<Rightarrow> 's handler" where
  "ctl_fn f b slot rte op s = f op s"

definition mem_fn :: "('s bus \<Rightarrow> u16 \<Rightarrow> 's \<Rightarrow> 's res) \<Rightarrow> 's handler" where
  "mem_fn f b slot rte op s = f b op s"

definition slot_fn :: "(('s \<Rightarrow> 's res) \<Rightarrow> u16 \<Rightarrow> 's \<Rightarrow> 's res) \<Rightarrow> 's handler" where
  "slot_fn f b slot rte op s = f slot op s"

definition rte_fn :: "(('s \<Rightarrow> 's res) \<Rightarrow> u16 \<Rightarrow> 's \<Rightarrow> 's res) \<Rightarrow> 's handler" where
  "rte_fn f b slot rte op s = f rte op s"

definition fpu_fn :: "'s handler" where
  "fpu_fn b slot rte op s = fpu_op b op s"

definition reios_fn :: "'s handler" where
  "reios_fn b slot rte op s = reios_trap b op s"

lemmas handler_kinds = pure_fn_def ctl_fn_def mem_fn_def slot_fn_def rte_fn_def fpu_fn_def reios_fn_def

subsection \<open>Masks and types\<close>

abbreviation (input) Mask_n_m :: u16 where "Mask_n_m \<equiv> 0xF00F"

abbreviation (input) Mask_n_m_imm4 :: u16 where "Mask_n_m_imm4 \<equiv> 0xF000"

abbreviation (input) Mask_n :: u16 where "Mask_n \<equiv> 0xF0FF"

abbreviation (input) Mask_none :: u16 where "Mask_none \<equiv> 0xFFFF"

abbreviation (input) Mask_imm8 :: u16 where "Mask_imm8 \<equiv> 0xFF00"

abbreviation (input) Mask_n_imm8 :: u16 where "Mask_n_imm8 \<equiv> 0xF000"

abbreviation (input) Mask_n_ml3bit :: u16 where "Mask_n_ml3bit \<equiv> 0xF08F"

abbreviation (input) Mask_nh3bit :: u16 where "Mask_nh3bit \<equiv> 0xF1FF"

abbreviation (input) Mask_nh2bit :: u16 where "Mask_nh2bit \<equiv> 0xF3FF"

definition Normal :: u32 where "Normal = 0"

definition ReadsPC :: u32 where "ReadsPC = 1"

definition WritesPC :: u32 where "WritesPC = 2"

definition Delayslot :: u32 where "Delayslot = 4"

definition WritesSR :: u32 where "WritesSR = 8"

definition WritesFPSCR :: u32 where "WritesFPSCR = 16"

definition UsesFPU :: u32 where "UsesFPU = 2048"

definition FWritesFPSCR :: u32 where "FWritesFPSCR = UsesFPU OR WritesFPSCR"

definition ReadWritePC :: u32 where "ReadWritePC = ReadsPC OR WritesPC"

definition WritesSRRWPC :: u32 where "WritesSRRWPC = WritesSR OR ReadsPC OR WritesPC"

definition Branch_dir :: u32 where "Branch_dir = ReadWritePC"

definition Branch_rel :: u32 where "Branch_rel = ReadWritePC"

definition Branch_dir_d :: u32 where "Branch_dir_d = Delayslot OR Branch_dir"

definition Branch_rel_d :: u32 where "Branch_rel_d = Delayslot OR Branch_rel"

lemmas optype_defs = Normal_def ReadsPC_def WritesPC_def Delayslot_def WritesSR_def WritesFPSCR_def UsesFPU_def FWritesFPSCR_def ReadWritePC_def WritesSRRWPC_def Branch_dir_def Branch_rel_def Branch_dir_d_def Branch_rel_d_def

record 's sh4_opcodelistentry =
  oph :: "'s handler"
  opmask :: u16
  rez :: u16
  optype :: u32

definition IsFloatingPoint :: "'s sh4_opcodelistentry \<Rightarrow> bool" where
  "IsFloatingPoint e \<longleftrightarrow> optype e AND UsesFPU \<noteq> 0"

definition entry :: "'s handler \<Rightarrow> u16 \<Rightarrow> u16 \<Rightarrow> u32 \<Rightarrow> 's sh4_opcodelistentry" where
  "entry f m rz t = \<lparr>oph = f, opmask = m, rez = rz, optype = t\<rparr>"

definition missing_opcode :: "'z intc_st_scheme sh4_opcodelistentry" where
  "missing_opcode = entry (ctl_fn iNotImplemented) 0 0 ReadWritePC"

subsection \<open>The list\<close>

definition opcodes_1 :: "'z intc_st_scheme sh4_opcodelistentry list" where
  "opcodes_1 =
    [entry reios_fn Mask_none 0x085B Branch_dir,
     entry (slot_fn i0000_nnnn_0010_0011) Mask_n 0x0023 Branch_rel_d,
     entry (slot_fn i0000_nnnn_0000_0011) Mask_n 0x0003 Branch_rel_d,
     entry (mem_fn i0000_nnnn_1100_0011) Mask_n 0x00C3 Normal,
     entry (pure_fn i0000_nnnn_1001_0011) Mask_n 0x0093 Normal,
     entry (pure_fn i0000_nnnn_1010_0011) Mask_n 0x00A3 Normal,
     entry (pure_fn i0000_nnnn_1011_0011) Mask_n 0x00B3 Normal,
     entry (mem_fn i0000_nnnn_1000_0011) Mask_n 0x0083 Normal,
     entry (pure_fn i0000_nnnn_mmmm_0111) Mask_n_m 0x0007 Normal,
     entry (pure_fn i0000_0000_0010_1000) Mask_none 0x0028 Normal,
     entry (pure_fn i0000_0000_0100_1000) Mask_none 0x0048 Normal,
     entry (pure_fn i0000_0000_0000_1000) Mask_none 0x0008 Normal,
     entry (mem_fn i0000_0000_0011_1000) Mask_none 0x0038 Normal,
     entry (pure_fn i0000_0000_0101_1000) Mask_none 0x0058 Normal,
     entry (pure_fn i0000_0000_0001_1000) Mask_none 0x0018 Normal,
     entry (pure_fn i0000_0000_0001_1001) Mask_none 0x0019 Normal,
     entry (pure_fn i0000_nnnn_0010_1001) Mask_n 0x0029 Normal,
     entry (pure_fn i0000_0000_0000_1001) Mask_none 0x0009 Normal,
     entry (pure_fn i0000_0000_0000_1001) Mask_none 0x0000 Normal,
     entry (rte_fn i0000_0000_0010_1011) Mask_none 0x002B Branch_dir_d,
     entry (slot_fn i0000_0000_0000_1011) Mask_none 0x000B Branch_dir_d,
     entry (mem_fn i0000_0000_0001_1011) Mask_none 0x001B ReadWritePC,
     entry (mem_fn i0000_nnnn_mmmm_1111) Mask_n_m 0x000F Normal,
     entry (pure_fn i0010_nnnn_mmmm_0111) Mask_n_m 0x2007 Normal,
     entry (pure_fn i0010_nnnn_mmmm_1000) Mask_n_m 0x2008 Normal,
     entry (pure_fn i0010_nnnn_mmmm_1001) Mask_n_m 0x2009 Normal,
     entry (pure_fn i0010_nnnn_mmmm_1010) Mask_n_m 0x200A Normal,
     entry (pure_fn i0010_nnnn_mmmm_1011) Mask_n_m 0x200B Normal,
     entry (pure_fn i0010_nnnn_mmmm_1100) Mask_n_m 0x200C Normal,
     entry (pure_fn i0010_nnnn_mmmm_1101) Mask_n_m 0x200D Normal,
     entry (pure_fn i0010_nnnn_mmmm_1110) Mask_n_m 0x200E Normal,
     entry (pure_fn i0010_nnnn_mmmm_1111) Mask_n_m 0x200F Normal,
     entry (pure_fn i0011_nnnn_mmmm_0000) Mask_n_m 0x3000 Normal,
     entry (pure_fn i0011_nnnn_mmmm_0010) Mask_n_m 0x3002 Normal,
     entry (pure_fn i0011_nnnn_mmmm_0011) Mask_n_m 0x3003 Normal,
     entry (pure_fn i0011_nnnn_mmmm_0100) Mask_n_m 0x3004 Normal]"

definition opcodes_2 :: "'z intc_st_scheme sh4_opcodelistentry list" where
  "opcodes_2 =
    [entry (pure_fn i0011_nnnn_mmmm_0101) Mask_n_m 0x3005 Normal,
     entry (pure_fn i0011_nnnn_mmmm_0110) Mask_n_m 0x3006 Normal,
     entry (pure_fn i0011_nnnn_mmmm_0111) Mask_n_m 0x3007 Normal,
     entry (pure_fn i0011_nnnn_mmmm_1000) Mask_n_m 0x3008 Normal,
     entry (pure_fn i0011_nnnn_mmmm_1010) Mask_n_m 0x300A Normal,
     entry (pure_fn i0011_nnnn_mmmm_1011) Mask_n_m 0x300B Normal,
     entry (pure_fn i0011_nnnn_mmmm_1100) Mask_n_m 0x300C Normal,
     entry (pure_fn i0011_nnnn_mmmm_1101) Mask_n_m 0x300D Normal,
     entry (pure_fn i0011_nnnn_mmmm_1110) Mask_n_m 0x300E Normal,
     entry (pure_fn i0011_nnnn_mmmm_1111) Mask_n_m 0x300F Normal,
     entry (mem_fn i0000_nnnn_mmmm_0100) Mask_n_m 0x0004 Normal,
     entry (mem_fn i0000_nnnn_mmmm_0101) Mask_n_m 0x0005 Normal,
     entry (mem_fn i0000_nnnn_mmmm_0110) Mask_n_m 0x0006 Normal,
     entry (mem_fn i0000_nnnn_mmmm_1100) Mask_n_m 0x000C Normal,
     entry (mem_fn i0000_nnnn_mmmm_1101) Mask_n_m 0x000D Normal,
     entry (mem_fn i0000_nnnn_mmmm_1110) Mask_n_m 0x000E Normal,
     entry (mem_fn i0001_nnnn_mmmm_iiii) Mask_n_imm8 0x1000 Normal,
     entry (mem_fn i0101_nnnn_mmmm_iiii) Mask_n_m_imm4 0x5000 Normal,
     entry (mem_fn i0010_nnnn_mmmm_0000) Mask_n_m 0x2000 Normal,
     entry (mem_fn i0010_nnnn_mmmm_0001) Mask_n_m 0x2001 Normal,
     entry (mem_fn i0010_nnnn_mmmm_0010) Mask_n_m 0x2002 Normal,
     entry (mem_fn i0110_nnnn_mmmm_0000) Mask_n_m 0x6000 Normal,
     entry (mem_fn i0110_nnnn_mmmm_0001) Mask_n_m 0x6001 Normal,
     entry (mem_fn i0110_nnnn_mmmm_0010) Mask_n_m 0x6002 Normal,
     entry (mem_fn i0010_nnnn_mmmm_0100) Mask_n_m 0x2004 Normal,
     entry (mem_fn i0010_nnnn_mmmm_0101) Mask_n_m 0x2005 Normal,
     entry (mem_fn i0010_nnnn_mmmm_0110) Mask_n_m 0x2006 Normal,
     entry (mem_fn i0110_nnnn_mmmm_0100) Mask_n_m 0x6004 Normal,
     entry (mem_fn i0110_nnnn_mmmm_0101) Mask_n_m 0x6005 Normal,
     entry (mem_fn i0110_nnnn_mmmm_0110) Mask_n_m 0x6006 Normal,
     entry (mem_fn i1000_0000_mmmm_iiii) Mask_imm8 0x8000 Normal,
     entry (mem_fn i1000_0001_mmmm_iiii) Mask_imm8 0x8100 Normal,
     entry (mem_fn i1000_0100_mmmm_iiii) Mask_imm8 0x8400 Normal,
     entry (mem_fn i1000_0101_mmmm_iiii) Mask_imm8 0x8500 Normal,
     entry (mem_fn i1001_nnnn_iiii_iiii) Mask_n_imm8 0x9000 ReadsPC,
     entry (mem_fn i1100_0000_iiii_iiii) Mask_imm8 0xC000 Normal]"

definition opcodes_3 :: "'z intc_st_scheme sh4_opcodelistentry list" where
  "opcodes_3 =
    [entry (mem_fn i1100_0001_iiii_iiii) Mask_imm8 0xC100 Normal,
     entry (mem_fn i1100_0010_iiii_iiii) Mask_imm8 0xC200 Normal,
     entry (mem_fn i1100_0100_iiii_iiii) Mask_imm8 0xC400 Normal,
     entry (mem_fn i1100_0101_iiii_iiii) Mask_imm8 0xC500 Normal,
     entry (mem_fn i1100_0110_iiii_iiii) Mask_imm8 0xC600 Normal,
     entry (mem_fn i1101_nnnn_iiii_iiii) Mask_n_imm8 0xD000 ReadsPC,
     entry (pure_fn i0110_nnnn_mmmm_0011) Mask_n_m 0x6003 Normal,
     entry (pure_fn i1100_0111_iiii_iiii) Mask_imm8 0xC700 ReadsPC,
     entry (pure_fn i1110_nnnn_iiii_iiii) Mask_n_imm8 0xE000 Normal,
     entry (mem_fn i0100_nnnn_0101_0010) Mask_n 0x4052 UsesFPU,
     entry (mem_fn i0100_nnnn_0110_0010) Mask_n 0x4062 UsesFPU,
     entry (mem_fn i0100_nnnn_0000_0010) Mask_n 0x4002 Normal,
     entry (mem_fn i0100_nnnn_0001_0010) Mask_n 0x4012 Normal,
     entry (mem_fn i0100_nnnn_0010_0010) Mask_n 0x4022 Normal,
     entry (mem_fn i0100_nnnn_1111_0010) Mask_n 0x40F2 Normal,
     entry (mem_fn i0100_nnnn_0011_0010) Mask_n 0x4032 Normal,
     entry (mem_fn i0100_nnnn_0000_0011) Mask_n 0x4003 Normal,
     entry (mem_fn i0100_nnnn_0001_0011) Mask_n 0x4013 Normal,
     entry (mem_fn i0100_nnnn_0010_0011) Mask_n 0x4023 Normal,
     entry (mem_fn i0100_nnnn_0011_0011) Mask_n 0x4033 Normal,
     entry (mem_fn i0100_nnnn_0100_0011) Mask_n 0x4043 Normal,
     entry (mem_fn i0100_nnnn_1mmm_0011) Mask_n_ml3bit 0x4083 Normal,
     entry (mem_fn i0100_nnnn_0000_0110) Mask_n 0x4006 Normal,
     entry (mem_fn i0100_nnnn_0001_0110) Mask_n 0x4016 Normal,
     entry (mem_fn i0100_nnnn_0010_0110) Mask_n 0x4026 Normal,
     entry (mem_fn i0100_nnnn_0011_0110) Mask_n 0x4036 Normal,
     entry (mem_fn i0100_nnnn_0101_0110) Mask_n 0x4056 UsesFPU,
     entry (mem_fn i0100_nnnn_0110_0110) Mask_n 0x4066 FWritesFPSCR,
     entry (mem_fn i0100_nnnn_1111_0110) Mask_n 0x40F6 Normal,
     entry (mem_fn i0100_nnnn_0000_0111) Mask_n 0x4007 WritesSRRWPC,
     entry (mem_fn i0100_nnnn_0001_0111) Mask_n 0x4017 Normal,
     entry (mem_fn i0100_nnnn_0010_0111) Mask_n 0x4027 Normal,
     entry (mem_fn i0100_nnnn_0011_0111) Mask_n 0x4037 Normal,
     entry (mem_fn i0100_nnnn_0100_0111) Mask_n 0x4047 Normal,
     entry (mem_fn i0100_nnnn_1mmm_0111) Mask_n_ml3bit 0x4087 Normal,
     entry (pure_fn i0000_nnnn_0000_0010) Mask_n 0x0002 Normal]"

definition opcodes_4 :: "'z intc_st_scheme sh4_opcodelistentry list" where
  "opcodes_4 =
    [entry (pure_fn i0000_nnnn_0001_0010) Mask_n 0x0012 Normal,
     entry (pure_fn i0000_nnnn_0010_0010) Mask_n 0x0022 Normal,
     entry (pure_fn i0000_nnnn_0011_0010) Mask_n 0x0032 Normal,
     entry (pure_fn i0000_nnnn_0100_0010) Mask_n 0x0042 Normal,
     entry (pure_fn i0000_nnnn_1mmm_0010) Mask_n_ml3bit 0x0082 Normal,
     entry (pure_fn i0000_nnnn_0000_1010) Mask_n 0x000A Normal,
     entry (pure_fn i0000_nnnn_0001_1010) Mask_n 0x001A Normal,
     entry (pure_fn i0000_nnnn_0010_1010) Mask_n 0x002A Normal,
     entry (pure_fn i0000_nnnn_0011_1010) Mask_n 0x003A Normal,
     entry (pure_fn i0000_nnnn_0101_1010) Mask_n 0x005A UsesFPU,
     entry (pure_fn i0000_nnnn_0110_1010) Mask_n 0x006A UsesFPU,
     entry (pure_fn i0000_nnnn_1111_1010) Mask_n 0x00FA Normal,
     entry (pure_fn i0100_nnnn_0000_1010) Mask_n 0x400A Normal,
     entry (pure_fn i0100_nnnn_0001_1010) Mask_n 0x401A Normal,
     entry (pure_fn i0100_nnnn_0010_1010) Mask_n 0x402A Normal,
     entry (pure_fn i0100_nnnn_0011_1010) Mask_n 0x403A Normal,
     entry (pure_fn i0100_nnnn_0101_1010) Mask_n 0x405A UsesFPU,
     entry (pure_fn i0100_nnnn_0110_1010) Mask_n 0x406A FWritesFPSCR,
     entry (pure_fn i0100_nnnn_1111_1010) Mask_n 0x40FA Normal,
     entry (pure_fn i0100_nnnn_0000_1110) Mask_n 0x400E WritesSRRWPC,
     entry (pure_fn i0100_nnnn_0001_1110) Mask_n 0x401E Normal,
     entry (pure_fn i0100_nnnn_0010_1110) Mask_n 0x402E Normal,
     entry (pure_fn i0100_nnnn_0011_1110) Mask_n 0x403E Normal,
     entry (pure_fn i0100_nnnn_0100_1110) Mask_n 0x404E Normal,
     entry (pure_fn i0100_nnnn_1mmm_1110) Mask_n_ml3bit 0x408E Normal,
     entry (pure_fn i0100_nnnn_0000_0000) Mask_n 0x4000 Normal,
     entry (pure_fn i0100_nnnn_0001_0000) Mask_n 0x4010 Normal,
     entry (pure_fn i0100_nnnn_0010_0000) Mask_n 0x4020 Normal,
     entry (pure_fn i0100_nnnn_0000_0001) Mask_n 0x4001 Normal,
     entry (pure_fn i0100_nnnn_0001_0001) Mask_n 0x4011 Normal,
     entry (pure_fn i0100_nnnn_0010_0001) Mask_n 0x4021 Normal,
     entry (pure_fn i0100_nnnn_0010_0100) Mask_n 0x4024 Normal,
     entry (pure_fn i0100_nnnn_0000_0100) Mask_n 0x4004 Normal,
     entry (pure_fn i0100_nnnn_0001_0101) Mask_n 0x4015 Normal,
     entry (pure_fn i0100_nnnn_0010_0101) Mask_n 0x4025 Normal,
     entry (pure_fn i0100_nnnn_0000_0101) Mask_n 0x4005 Normal]"

definition opcodes_5 :: "'z intc_st_scheme sh4_opcodelistentry list" where
  "opcodes_5 =
    [entry (pure_fn i0100_nnnn_0000_1000) Mask_n 0x4008 Normal,
     entry (pure_fn i0100_nnnn_0001_1000) Mask_n 0x4018 Normal,
     entry (pure_fn i0100_nnnn_0010_1000) Mask_n 0x4028 Normal,
     entry (pure_fn i0100_nnnn_0000_1001) Mask_n 0x4009 Normal,
     entry (pure_fn i0100_nnnn_0001_1001) Mask_n 0x4019 Normal,
     entry (pure_fn i0100_nnnn_0010_1001) Mask_n 0x4029 Normal,
     entry (slot_fn i0100_nnnn_0010_1011) Mask_n 0x402B Branch_dir_d,
     entry (slot_fn i0100_nnnn_0000_1011) Mask_n 0x400B Branch_dir_d,
     entry (mem_fn i0100_nnnn_0001_1011) Mask_n 0x401B Normal,
     entry (pure_fn i0100_nnnn_mmmm_1100) Mask_n_m 0x400C Normal,
     entry (pure_fn i0100_nnnn_mmmm_1101) Mask_n_m 0x400D Normal,
     entry (mem_fn i0100_nnnn_mmmm_1111) Mask_n_m 0x400F Normal,
     entry (pure_fn i0110_nnnn_mmmm_0111) Mask_n_m 0x6007 Normal,
     entry (pure_fn i0110_nnnn_mmmm_1000) Mask_n_m 0x6008 Normal,
     entry (pure_fn i0110_nnnn_mmmm_1001) Mask_n_m 0x6009 Normal,
     entry (pure_fn i0110_nnnn_mmmm_1010) Mask_n_m 0x600A Normal,
     entry (pure_fn i0110_nnnn_mmmm_1011) Mask_n_m 0x600B Normal,
     entry (pure_fn i0110_nnnn_mmmm_1100) Mask_n_m 0x600C Normal,
     entry (pure_fn i0110_nnnn_mmmm_1101) Mask_n_m 0x600D Normal,
     entry (pure_fn i0110_nnnn_mmmm_1110) Mask_n_m 0x600E Normal,
     entry (pure_fn i0110_nnnn_mmmm_1111) Mask_n_m 0x600F Normal,
     entry (pure_fn i0111_nnnn_iiii_iiii) Mask_n_imm8 0x7000 Normal,
     entry (pure_fn i1000_1011_iiii_iiii) Mask_imm8 0x8B00 Branch_rel,
     entry (slot_fn i1000_1111_iiii_iiii) Mask_imm8 0x8F00 Branch_rel_d,
     entry (pure_fn i1000_1001_iiii_iiii) Mask_imm8 0x8900 Branch_rel,
     entry (slot_fn i1000_1101_iiii_iiii) Mask_imm8 0x8D00 Branch_rel_d,
     entry (pure_fn i1000_1000_iiii_iiii) Mask_imm8 0x8800 Normal,
     entry (slot_fn i1010_iiii_iiii_iiii) Mask_n_imm8 0xA000 Branch_rel_d,
     entry (slot_fn i1011_iiii_iiii_iiii) Mask_n_imm8 0xB000 Branch_rel_d,
     entry (ctl_fn i1100_0011_iiii_iiii) Mask_imm8 0xC300 ReadWritePC,
     entry (pure_fn i1100_1000_iiii_iiii) Mask_imm8 0xC800 Normal,
     entry (pure_fn i1100_1001_iiii_iiii) Mask_imm8 0xC900 Normal,
     entry (pure_fn i1100_1010_iiii_iiii) Mask_imm8 0xCA00 Normal,
     entry (pure_fn i1100_1011_iiii_iiii) Mask_imm8 0xCB00 Normal,
     entry (mem_fn i1100_1100_iiii_iiii) Mask_imm8 0xCC00 Normal,
     entry (mem_fn i1100_1101_iiii_iiii) Mask_imm8 0xCD00 Normal]"

definition opcodes_6 :: "'z intc_st_scheme sh4_opcodelistentry list" where
  "opcodes_6 =
    [entry (mem_fn i1100_1110_iiii_iiii) Mask_imm8 0xCE00 Normal,
     entry (mem_fn i1100_1111_iiii_iiii) Mask_imm8 0xCF00 Normal,
     entry fpu_fn Mask_n_m 0xF000 UsesFPU,
     entry fpu_fn Mask_n_m 0xF001 UsesFPU,
     entry fpu_fn Mask_n_m 0xF002 UsesFPU,
     entry fpu_fn Mask_n_m 0xF003 UsesFPU,
     entry fpu_fn Mask_n_m 0xF004 UsesFPU,
     entry fpu_fn Mask_n_m 0xF005 UsesFPU,
     entry fpu_fn Mask_n_m 0xF006 UsesFPU,
     entry fpu_fn Mask_n_m 0xF007 UsesFPU,
     entry fpu_fn Mask_n_m 0xF008 UsesFPU,
     entry fpu_fn Mask_n_m 0xF009 UsesFPU,
     entry fpu_fn Mask_n_m 0xF00A UsesFPU,
     entry fpu_fn Mask_n_m 0xF00B UsesFPU,
     entry fpu_fn Mask_n_m 0xF00C UsesFPU,
     entry fpu_fn Mask_n 0xF05D UsesFPU,
     entry fpu_fn Mask_nh3bit 0xF0FD UsesFPU,
     entry fpu_fn Mask_n 0xF0BD UsesFPU,
     entry fpu_fn Mask_n 0xF0AD UsesFPU,
     entry fpu_fn Mask_n 0xF0ED UsesFPU,
     entry fpu_fn Mask_n 0xF08D UsesFPU,
     entry fpu_fn Mask_n 0xF09D UsesFPU,
     entry fpu_fn Mask_n 0xF01D UsesFPU,
     entry fpu_fn Mask_n 0xF02D UsesFPU,
     entry fpu_fn Mask_n 0xF04D UsesFPU,
     entry fpu_fn Mask_none 0xFBFD FWritesFPSCR,
     entry fpu_fn Mask_none 0xF3FD FWritesFPSCR,
     entry fpu_fn Mask_n 0xF06D UsesFPU,
     entry fpu_fn Mask_n 0xF03D UsesFPU,
     entry fpu_fn Mask_n 0xF00D UsesFPU,
     entry fpu_fn Mask_nh2bit 0xF1FD UsesFPU,
     entry fpu_fn Mask_n_m 0xF00E UsesFPU,
     entry fpu_fn Mask_n 0xF07D UsesFPU]"

definition opcodes :: "'z intc_st_scheme sh4_opcodelistentry list" where
  "opcodes = opcodes_1 @ opcodes_2 @ opcodes_3 @ opcodes_4 @ opcodes_5 @ opcodes_6"

subsection \<open>The tables\<close>

definition mask_count_shift :: "u16 \<Rightarrow> (nat \<times> nat) option" where
  "mask_count_shift m =
     (if m = Mask_none then Some (1, 0)
      else if m = Mask_n then Some (16, 8)
      else if m = Mask_n_m then Some (256, 4)
      else if m = Mask_n_m_imm4 then Some (256 * 16, 0)
      else if m = Mask_imm8 then Some (256, 0)
      else if m = Mask_n_ml3bit then Some (256, 4)
      else if m = Mask_nh3bit then Some (8, 9)
      else if m = Mask_nh2bit then Some (4, 10)
      else None)"

definition fill_entry ::
  "'s sh4_opcodelistentry \<Rightarrow> (u16 \<Rightarrow> 's sh4_opcodelistentry)
     \<Rightarrow> (u16 \<Rightarrow> 's sh4_opcodelistentry) option" where
  "fill_entry e tab =
     (case mask_count_shift (opmask e) of
        None \<Rightarrow> None
      | Some (cnt, shft) \<Rightarrow>
          Some (fold (\<lambda>i tab. tab ((push_bit shft (word_of_nat i) AND NOT (opmask e)) + rez e := e))
            [0..<cnt] tab))"

primrec fill_table :: "'s sh4_opcodelistentry list \<Rightarrow> (u16 \<Rightarrow> 's sh4_opcodelistentry)
    \<Rightarrow> (u16 \<Rightarrow> 's sh4_opcodelistentry) option" where
  "fill_table [] tab = Some tab"
| "fill_table (e # es) tab = (case fill_entry e tab of None \<Rightarrow> None | Some tab1 \<Rightarrow> fill_table es tab1)"

text \<open>The whole table; \<^const>\<open>None\<close> is the abort on an unknown mask.\<close>

definition BuildOpcodeTables :: "(u16 \<Rightarrow> 'z intc_st_scheme sh4_opcodelistentry) option" where
  "BuildOpcodeTables = fill_table opcodes (\<lambda>_. missing_opcode)"

text \<open>The table the interpreter indexes with the opcode.\<close>

definition OpDesc :: "u16 \<Rightarrow> 'z intc_st_scheme sh4_opcodelistentry" where
  "OpDesc op = (case BuildOpcodeTables of None \<Rightarrow> missing_opcode | Some tab \<Rightarrow> tab op)"

subsection \<open>Fetching and executing\<close>

definition ReadNexOp :: "'z intc_st_scheme bus \<Rightarrow> 'z intc_st_scheme \<Rightarrow> (u16, 'z intc_st_scheme) vres" where
  "ReadNexOp b s =
     (let addr = pc s
      in if \<not> mmu_enabled b s \<and> addr AND 1 \<noteq> 0 then Inl (SH4ThrownException addr 0xe0, s)
         else IReadMem16 b addr (s\<lparr>pc := addr + 2\<rparr>))"

fun AdjustDelaySlotException :: "sh4_exn \<Rightarrow> sh4_exn" where
  "AdjustDelaySlotException (SH4ThrownException epc ev) =
     SH4ThrownException (epc - 2) (if ev = 0x800 then 0x820 else if ev = 0x180 then 0x1a0 else ev)"
| "AdjustDelaySlotException e = e"

definition ExecuteDelayslot ::
  "(u16 \<Rightarrow> 'z intc_st_scheme \<Rightarrow> 'z intc_st_scheme res) \<Rightarrow> 'z intc_st_scheme bus
     \<Rightarrow> 'z intc_st_scheme \<Rightarrow> 'z intc_st_scheme res" where
  "ExecuteDelayslot exec b s =
     (case sum_bind (ReadNexOp b s) (\<lambda>(op, s1). exec op s1) of
        Inl (e, s') \<Rightarrow> Inl (AdjustDelaySlotException e, s')
      | Inr s' \<Rightarrow> Inr s')"

definition ExecuteDelayslot_RTE ::
  "(u16 \<Rightarrow> 'z intc_st_scheme \<Rightarrow> 'z intc_st_scheme res) \<Rightarrow> 'z intc_st_scheme bus
     \<Rightarrow> 'z intc_st_scheme \<Rightarrow> 'z intc_st_scheme res" where
  "ExecuteDelayslot_RTE exec b s =
     (case sum_bind (ReadNexOp b s) (\<lambda>(op, s1). exec op (s1\<lparr>sr := sr_setFull (ssr s1)\<rparr>)) of
        Inl (SH4ThrownException _ _, s') \<Rightarrow> Inl (FlycastException, s')
      | x \<Rightarrow> x)"

primrec ExecuteOpcode ::
  "nat \<Rightarrow> 'z intc_st_scheme bus \<Rightarrow> u16 \<Rightarrow> 'z intc_st_scheme \<Rightarrow> 'z intc_st_scheme res" where
  "ExecuteOpcode 0 b op s = Inl (StackOverflow, s)"
| "ExecuteOpcode (Suc depth) b op s =
     (let executedPc = pc s - 2; desc = OpDesc op
      in if sr_FD (status (sr s)) = 1 \<and> IsFloatingPoint desc
         then Inl (SH4ThrownException executedPc 0x800, s)
         else sum_bind (oph desc b (ExecuteDelayslot (ExecuteOpcode depth b) b)
                          (ExecuteDelayslot_RTE (ExecuteOpcode depth b) b) op s)
                (\<lambda>s1. Inr (executeCycles b op s1)))"

text \<open>The exception handler of \<open>Run\<close> and \<open>Step\<close>.\<close>

definition catch_exception ::
  "'z intc_st_scheme bus \<Rightarrow> sh4_exn \<times> 'z intc_st_scheme \<Rightarrow> 'z intc_st_scheme res" where
  "catch_exception b es =
     (case es of
        (SH4ThrownException epc ev, s) \<Rightarrow>
          (case Do_Exception epc ev s of Inl e \<Rightarrow> Inl (e, s) | Inr s1 \<Rightarrow> Inr (drainCycles b s1))
      | (e, s) \<Rightarrow> Inl (e, s))"

definition Step :: "nat \<Rightarrow> 'z intc_st_scheme bus \<Rightarrow> 'z intc_st_scheme \<Rightarrow> 'z intc_st_scheme res" where
  "Step depth b s =
     (case sum_bind (ReadNexOp b (restoreHostRoundingMode s)) (\<lambda>(op, s1). ExecuteOpcode depth b op s1) of
        Inl es \<Rightarrow> catch_exception b es
      | Inr s' \<Rightarrow> Inr s')"

text \<open>One pass of the inner loop of \<open>Run\<close>: an instruction, and at the end of a time slice the
  update of the system.\<close>

definition run_pass :: "nat \<Rightarrow> 'z intc_st_scheme bus \<Rightarrow> 'z intc_st_scheme
    \<Rightarrow> (bool, 'z intc_st_scheme) vres" where
  "run_pass depth b s =
     (case sum_bind (ReadNexOp b s) (\<lambda>(op, s1). ExecuteOpcode depth b op s1) of
        Inr s2 \<Rightarrow>
          if 0 < sint (cycle_counter s2) then Inr (True, s2)
          else (case update_system b (s2\<lparr>cycle_counter := cycle_counter s2 + 448\<rparr>) of
                  Inr (_, s3) \<Rightarrow> Inr (CpuRunning s3, s3)
                | Inl es \<Rightarrow> sum_bind (catch_exception b es) (\<lambda>s3. Inr (CpuRunning s3, s3)))
      | Inl es \<Rightarrow> sum_bind (catch_exception b es) (\<lambda>s3. Inr (CpuRunning s3, s3)))"

partial_function (option) Run_loop ::
  "nat \<Rightarrow> 'z intc_st_scheme bus \<Rightarrow> 'z intc_st_scheme \<Rightarrow> 'z intc_st_scheme res option" where
  "Run_loop depth b s =
     (case run_pass depth b s of
        Inl es \<Rightarrow> Some (Inl es)
      | Inr (again, s1) \<Rightarrow> if again then Run_loop depth b s1 else Some (Inr (s1\<lparr>CpuRunning := False\<rparr>)))"

definition Run :: "nat \<Rightarrow> 'z intc_st_scheme bus \<Rightarrow> 'z intc_st_scheme \<Rightarrow> 'z intc_st_scheme res option" where
  "Run depth b s = Run_loop depth b (restoreHostRoundingMode s)"

definition Start :: "'z intc_st_scheme \<Rightarrow> 'z intc_st_scheme" where
  "Start s = s\<lparr>CpuRunning := True\<rparr>"

definition Stop :: "'z intc_st_scheme \<Rightarrow> 'z intc_st_scheme" where
  "Stop s = s\<lparr>CpuRunning := False, cycle_counter := 0\<rparr>"

definition Reset :: "bool \<Rightarrow> 'z intc_st_scheme \<Rightarrow> 'z intc_st_scheme res" where
  "Reset hard s =
     (if CpuRunning s then Inl (AssertFailed, s)
      else
        let s1 = (if hard
                  then s\<lparr>xf := (\<lambda>_. 0), fr := (\<lambda>_. 0), r := (\<lambda>_. 0), mac_full := 0, r_bank := (\<lambda>_. 0),
                         gbr := 0, ssr := 0, spc := 0, sgr := 0, dbr := 0, vbr := 0, pr := 0, fpul := 0,
                         pc := 0, sr := \<lparr>status = 0, sr_T = 0\<rparr>, fpscr := 0, old_sr := 0, old_fpscr := 0,
                         CpuRunning := False, interrupt_pend := 0, cycle_counter := 0\<rparr>
                  else s);
            s2 = s1\<lparr>pc := 0xA0000000, r := (\<lambda>i. if i < 16 then 0 else r s1 i),
                    r_bank := (\<lambda>i. if i < 8 then 0 else r_bank s1 i),
                    gbr := 0, ssr := 0, spc := 0, sgr := 0, dbr := 0, vbr := 0,
                    mac_full := 0, pr := 0, fpul := 0, sr := sr_setFull 0x700000F0\<rparr>;
            s3 = s2\<lparr>old_sr := status (sr s2)\<rparr>;
            (_, s4) = UpdateSR s3;
            s5 = s4\<lparr>fpscr := 0x00040001\<rparr>
        in Inr (s5\<lparr>old_fpscr := fpscr s5, cycle_counter := 448\<rparr>))"

end
