(* ===== verification/Sh4_Decode.thy ===== *)
theory Sh4_Decode
  imports Sh4_Interpreter
begin

section \<open>Decoding\<close>

text \<open>
  The table built by \<^const>\<open>BuildOpcodeTables\<close> is the declarative reading of the opcode list:
  an opcode belongs to the last entry of the list whose pattern it matches.
\<close>

definition matches :: "u16 \<Rightarrow> 's sh4_opcodelistentry \<Rightarrow> bool" where
  "matches op e \<longleftrightarrow> op AND opmask e = rez e"

subsection \<open>One entry\<close>

lemma fold_upd: "fold (\<lambda>i tab. tab(g i := e)) xs tab = (\<lambda>x. if x \<in> g ` set xs then e else tab x)"
  by (induction xs arbitrary: tab) (auto simp: fun_eq_iff)

text \<open>The loop writes exactly the opcodes that match: the free bits of the mask lie in the
  window of \<open>k\<close> bits that the counter runs through.\<close>

lemma mask_window:
  fixes m rz :: u16
  assumes free: "NOT m AND push_bit shft (mask k) = NOT m" and rz: "rz AND m = rz"
  shows "((\<lambda>i. (push_bit shft (word_of_nat i) AND NOT m) + rz) ` {0..<2 ^ k}) = {op. op AND m = rz}"
proof (intro equalityI subsetI; (elim imageE)?)
  have plus_or: "(x AND NOT m) + rz = (x AND NOT m) OR rz" for x
  proof (rule disjunctive_add)
    fix n show "\<not> bit (x AND NOT m) n \<or> \<not> bit rz n"
      using arg_cong [OF rz, of "\<lambda>w. bit w n"] by (auto simp: bit_simps)
  qed
  fix op
  { fix i assume "op = (push_bit shft (word_of_nat i) AND NOT m) + rz"
    then show "op \<in> {op. op AND m = rz}"
      using rz by (simp add: plus_or bit.conj_disj_distrib2 and.assoc) }
  assume "op \<in> {op. op AND m = rz}"
  then have op: "op AND m = rz" by simp
  define i where "i = unat (take_bit k (drop_bit shft op))"
  have "push_bit shft (word_of_nat i) = op AND push_bit shft (mask k)"
    unfolding i_def by (auto simp: bit_eq_iff bit_simps)
  then have "push_bit shft (word_of_nat i) AND NOT m = op AND NOT m"
    using free by (simp only: and.assoc and.commute and.left_commute)
  moreover have "(op AND NOT m) OR rz = op"
    unfolding op [symmetric] by (simp add: bit.conj_disj_distrib [symmetric])
  moreover have "i < 2 ^ k"
    unfolding i_def by (simp add: unsigned_take_bit_eq)
  ultimately show "op \<in> (\<lambda>i. (push_bit shft (word_of_nat i) AND NOT m) + rz) ` {0..<2 ^ k}"
    by (intro image_eqI [where x = i]) (simp_all add: plus_or)
qed

definition wf_entry :: "'s sh4_opcodelistentry \<Rightarrow> bool" where
  "wf_entry e \<longleftrightarrow> mask_count_shift (opmask e) \<noteq> None \<and> rez e AND opmask e = rez e"

lemma mask_window_known:
  assumes "mask_count_shift m = Some (cnt, shft)"
  shows "\<exists>k. cnt = 2 ^ k \<and> NOT m AND push_bit shft (mask k) = NOT m"
proof -
  have "(\<exists>k \<in> {0, 2, 3, 4, 8, 12}. cnt = 2 ^ k \<and> NOT m AND push_bit shft (mask k) = NOT m)"
    using assms unfolding mask_count_shift_def
    by (simp add: mask_eq_exp_minus_1 split: if_splits) auto
  then show ?thesis by blast
qed

lemma fill_entry_matches:
  assumes "wf_entry e"
  shows "fill_entry e tab = Some (\<lambda>op. if matches op e then e else tab op)"
proof -
  obtain cnt shft where cs: "mask_count_shift (opmask e) = Some (cnt, shft)"
    using assms by (auto simp: wf_entry_def)
  then obtain k where k: "cnt = 2 ^ k" "NOT (opmask e) AND push_bit shft (mask k) = NOT (opmask e)"
    using mask_window_known by blast
  have "rez e AND opmask e = rez e" using assms by (simp add: wf_entry_def)
  from mask_window [OF k(2) this] show ?thesis
    by (simp add: fill_entry_def cs fold_upd k(1) fun_eq_iff matches_def set_upt)
qed

subsection \<open>The whole list\<close>

text \<open>The patterns of the list, as pairs of mask and value.\<close>

definition signature_of :: "'s sh4_opcodelistentry \<Rightarrow> u16 \<times> u16" where
  "signature_of e = (opmask e, rez e)"

lemmas opcodes_defs = opcodes_1_def opcodes_2_def opcodes_3_def opcodes_4_def opcodes_5_def opcodes_6_def

lemma signature_entry: "signature_of (entry f m rz t) = (m, rz)"
  by (simp add: signature_of_def entry_def)

definition wf_signature :: "u16 \<times> u16 \<Rightarrow> bool" where
  "wf_signature p \<longleftrightarrow> mask_count_shift (fst p) \<noteq> None \<and> snd p AND fst p = snd p"

lemma wf_signature_of: "wf_entry e \<longleftrightarrow> wf_signature (signature_of e)"
  by (simp add: wf_entry_def wf_signature_def signature_of_def)

lemma wf_opcodes: "\<forall>e \<in> set opcodes. wf_entry e"
proof -
  have "list_all wf_signature (map signature_of opcodes)"
    unfolding opcodes_def opcodes_defs map_append list_all_append list.map signature_entry
    by (simp add: wf_signature_def mask_count_shift_def)
  then show ?thesis by (simp add: list_all_iff wf_signature_of)
qed

text \<open>The reference reading of the list.\<close>

definition decode :: "u16 \<Rightarrow> 'z intc_st_scheme sh4_opcodelistentry" where
  "decode op = (case filter (matches op) opcodes of [] \<Rightarrow> missing_opcode | xs \<Rightarrow> last xs)"

lemma fill_table_last:
  "\<forall>e \<in> set es. wf_entry e \<Longrightarrow> fill_table es tab
     = Some (\<lambda>op. case filter (matches op) es of [] \<Rightarrow> tab op | xs \<Rightarrow> last xs)"
proof (induction es arbitrary: tab)
  case (Cons e es)
  then show ?case
    by (simp add: fill_entry_matches fun_eq_iff split: list.split)
qed simp

text \<open>C32: The opcode table is built without hitting the abort for an unknown mask, and for
  every one of the 65536 opcodes the interpreter's table holds exactly the entry that a
  direct search of the instruction list for the last matching pattern finds (the entry of the
  missing instruction when no pattern matches).\<close>

theorem OpDesc_decodes:
  "BuildOpcodeTables \<noteq> None \<and> OpDesc op = decode op"
  unfolding OpDesc_def BuildOpcodeTables_def decode_def fill_table_last [OF wf_opcodes] by simp

lemma OpDesc_decode: "OpDesc = decode"
  unfolding fun_eq_iff OpDesc_def BuildOpcodeTables_def decode_def fill_table_last [OF wf_opcodes] by simp

end
