(* ===== verification/Sh4_Exceptions.thy ===== *)
theory Sh4_Exceptions
  imports Sh4_Decode
begin

section \<open>Exceptions through the interpreter\<close>

text \<open>
  An exception and the return from it across the components: the interrupt controller's
  \<open>Do_Exception\<close> and \<open>UpdateSR\<close>, the instruction \<open>rte\<close> and the interpreter's delay slots.
\<close>

subsection \<open>Return from an exception\<close>

lemma UpdateSR_INTC_quiet:
  assumes "interrupt_vpend s AND interrupt_vmask s = 0"
  shows "UpdateSR_INTC s = snd (UpdateSR s)"
proof -
  obtain R Rb o' d p where u: "snd (UpdateSR s) =
      s\<lparr>r := R, r_bank := Rb, old_sr := o', decoded_srimask := d, interrupt_pend := p\<rparr>" "synced (snd (UpdateSR s))"
    by (rule UpdateSR_obtain)
  have "interrupt_vpend (snd (UpdateSR s)) = interrupt_vpend s" "interrupt_vmask (snd (UpdateSR s)) = interrupt_vmask s"
    unfolding u(1) by simp_all
  then have "interrupt_pend (snd (UpdateSR s)) = 0"
    using u(2) assms unfolding synced_def by (simp add: and.assoc [symmetric])
  moreover have "fst (UpdateSR s) \<longleftrightarrow> interrupt_pend (snd (UpdateSR s)) \<noteq> 0"
    by (simp add: UpdateSR_def SRdecode_def Let_def)
  ultimately show ?thesis by (simp add: UpdateSR_INTC_def split_beta)
qed

lemma rte_returns:
  assumes "ssr h = sr_getFull st" "sr_wf st" "interrupt_vpend h AND interrupt_vmask h = 0"
    and "\<not> mmu_enabled b h" "pc h AND 1 = 0"
    and "IReadMem16 b (pc h) (h\<lparr>pc := pc h + 2\<rparr>) = Inr (slot, h\<lparr>pc := pc h + 2\<rparr>)"
    and "x = h\<lparr>sr := st, pc := spc h\<rparr>"
  shows "i0000_0000_0010_1011 (ExecuteDelayslot_RTE (\<lambda>_ s. Inr s) b) op h = Inr (snd (UpdateSR x))"
proof -
  have "sr_setFull (ssr h) = st" using assms(1,2) by (simp add: setFull_getFull)
  then have "ExecuteDelayslot_RTE (\<lambda>_ s. Inr s) b h = Inr (h\<lparr>pc := pc h + 2, sr := st\<rparr>)"
    using assms(4-6) by (simp add: ExecuteDelayslot_RTE_def ReadNexOp_def)
  then show ?thesis
    using assms(3) UpdateSR_INTC_quiet [of x] by (simp add: i0000_0000_0010_1011_def assms(7))
qed

text \<open>C39: An exception is transparent for the interrupted program. Let an exception be raised with
  the return address \<open>epc\<close> in a state with a well formed status register, and let a handler run in
  any way as long as, when it comes to its \<open>rte\<close>, the saved status and return address are those
  of the entry, the handler is in its own register bank, and the register bank the program was
  using and r8 to r15 hold the values they had. Then \<open>rte\<close>, with an instruction without effect in
  its delay slot and no interrupt waiting, gives the program its status register with T, its sixteen
  registers, in whichever bank it used, and resumes at \<open>epc\<close>.\<close>

theorem exception_transparent:
  assumes "intc_inv s" "sr_wf (sr s)" "sr_current s" "Do_Exception epc ev s = Inr e"
    and "ssr h = ssr e" "spc h = spc e" "sr_RB (old_sr h) = 1"
    and "\<forall>i < 8. bank h (active_bank (status (sr s))) i = bank e (active_bank (status (sr s))) i"
    and "\<forall>i \<ge> 8. r h i = r s i"
    and "interrupt_vpend h AND interrupt_vmask h = 0" "\<not> mmu_enabled b h" "pc h AND 1 = 0"
    and "IReadMem16 b (pc h) (h\<lparr>pc := pc h + 2\<rparr>) = Inr (slot, h\<lparr>pc := pc h + 2\<rparr>)"
  shows "\<exists>s'. i0000_0000_0010_1011 (ExecuteDelayslot_RTE (\<lambda>_ s. Inr s) b) op h = Inr s'
    \<and> sr s' = sr s \<and> pc s' = epc \<and> (\<forall>i. r s' i = r s i)"
proof -
  let ?B = "active_bank (status (sr s))" and ?x = "h\<lparr>sr := sr s, pc := spc h\<rparr>"
  have B: "?B = 0 \<or> ?B = 1"
    using sr_bit_cases(1) [of "status (sr s)"] sr_bit_cases(2) [of "status (sr s)"] by (auto simp: active_bank_def)
  have e: "ssr e = sr_getFull (sr s)" "spc e = epc" "\<forall>b i. i < 8 \<and> (b = 0 \<or> b = 1) \<longrightarrow> bank e b i = bank s b i"
    using Do_Exception_entry [OF assms(1) refl, of ev epc] assms(4) by auto
  have "i0000_0000_0010_1011 (ExecuteDelayslot_RTE (\<lambda>_ s. Inr s) b) op h = Inr (snd (UpdateSR ?x))"
    using assms(2,5,10-13) e(1) by (intro rte_returns) simp_all
  moreover have "sr (snd (UpdateSR ?x)) = sr s" "pc (snd (UpdateSR ?x)) = epc"
    using assms(6) e(2) by (simp_all add: UpdateSR_simps)
  moreover have "r (snd (UpdateSR ?x)) i = r s i" for i
  proof (cases "i < 8")
    case True
    have "r (snd (UpdateSR ?x)) i = bank (snd (UpdateSR ?x)) ?B i" by (simp add: bank_def UpdateSR_simps)
    also have "\<dots> = bank ?x ?B i" using True B by (rule UpdateSR_bank)
    also have "\<dots> = bank s ?B i" using True B assms(8) e(3) by (auto simp: bank_def)
    also have "\<dots> = r s i" using assms(3) by (simp add: bank_def sr_current_def)
    finally show ?thesis .
  next
    case False
    have "r (snd (UpdateSR ?x)) i = r h i" using False by (rule_tac UpdateSR_obtain [of ?x]) (auto split: if_splits)
    then show ?thesis using False assms(9) by simp
  qed
  ultimately show ?thesis by blast
qed

lemma Do_Exception_keeps:
  assumes "Do_Exception epc ev s = Inr e"
  shows "interrupt_vpend e = interrupt_vpend s" "interrupt_vmask e = interrupt_vmask s" "8 \<le> i \<Longrightarrow> r e i = r s i"
proof -
  have k: "interrupt_vpend (snd (UpdateSR x)) = interrupt_vpend x \<and> interrupt_vmask (snd (UpdateSR x)) = interrupt_vmask x
      \<and> (8 \<le> i \<longrightarrow> r (snd (UpdateSR x)) i = r x i)" for x :: "'a intc_st_scheme"
    by (rule UpdateSR_obtain [of x]) (auto split: if_splits)
  show "interrupt_vpend e = interrupt_vpend s" "interrupt_vmask e = interrupt_vmask s" "8 \<le> i \<Longrightarrow> r e i = r s i"
    using assms k unfolding Do_Exception_def Let_def split_beta by (auto split: if_splits)
qed

theorem exception_transparent_witness:
  "\<exists>e s'. Do_Exception 0x8c010000 0x40 intc_zero = Inr e
    \<and> i0000_0000_0010_1011 (ExecuteDelayslot_RTE (\<lambda>_ s. Inr s) (word_bus 9)) 0x002B e = Inr s'
    \<and> sr s' = sr intc_zero \<and> pc s' = 0x8c010000 \<and> (\<forall>i. r s' i = r intc_zero i)"
proof -
  obtain e where e: "Do_Exception 0x8c010000 0x40 intc_zero = Inr e" "sr_RB (old_sr e) = 1" "pc e = 0x8c000400"
    using Do_Exception_entry [OF intc_zero_inv(1) refl, of "0x40" "0x8c010000"]
    by (auto simp: intc_zero_sr intc_zero_regs field_defs get_field1_eq)
  have "sr_wf (sr intc_zero)" "sr_current intc_zero"
    by (simp_all add: intc_zero_sr intc_zero_regs sr_wf_def sr_MASK_def sr_current_def active_bank_def field_defs get_field1_eq)
  moreover have "interrupt_vpend intc_zero = 0"
    using intc_zero_inv intc_abs_order [of intc_zero]
    by (intro bit_word_eqI) (auto simp: intc_inv_def table_ok_def)
  ultimately show ?thesis
    using exception_transparent [OF intc_zero_inv(1) _ _ e(1) refl refl e(2), of "word_bus 9" 9 "0x002B"] e
    by (simp add: Do_Exception_keeps [OF e(1)] word_bus_def)
qed

subsection \<open>Faults in a delay slot\<close>

lemma OpDesc_rts: "OpDesc 0x000B = entry (slot_fn i0000_0000_0000_1011) 0xFFFF 0x000B Branch_dir_d"
  unfolding OpDesc_decode decode_def opcodes_def opcodes_defs by (simp add: matches_def entry_def)

lemma rounding_frame: "restoreHostRoundingMode s =
    s\<lparr>old_rm := old_rm (restoreHostRoundingMode s), old_dn := old_dn (restoreHostRoundingMode s),
      mxcsr := mxcsr (restoreHostRoundingMode s)\<rparr>"
  by (simp add: restoreHostRoundingMode_def setHostRoundingMode_def Let_def)

lemma rts_slot_fault:
  fixes s :: "'z intc_st_scheme" and ev slot :: u16
  defines "desc \<equiv> OpDesc slot :: 'z intc_st_scheme sh4_opcodelistentry"
  assumes "sr_FD (status (sr s)) = 1 \<and> IsFloatingPoint desc \<and> ev = 0x820 \<or>
      desc = missing_opcode \<and> ev = 0x1a0"
    and "pc s = p + 2" "p AND 1 = 0" "\<forall>x. \<not> mmu_enabled b x" "\<forall>x. IReadMem16 b (p + 2) x = Inr (slot, x)"
  shows "ExecuteOpcode (Suc (Suc depth)) b 0x000B s = Inl (SH4ThrownException p ev, s\<lparr>pc := p + 4\<rparr>)"
proof -
  have odd: "(p + 2) AND 1 = 0"
  proof -
    have "uint ((p + 2) mod 2) = uint (p mod 2)" by (simp add: uint_mod_distrib uint32_add mod_mod_cancel)
    then show ?thesis using assms(4) by (simp only: and_one_eq word_uint_eq_iff)
  qed
  have nf: "\<not> IsFloatingPoint (OpDesc 0x000B :: 'z intc_st_scheme sh4_opcodelistentry)"
    by (simp add: OpDesc_rts IsFloatingPoint_def entry_def optype_defs)
  have ex: "ExecuteOpcode (Suc depth) b slot (s\<lparr>pc := p + 4\<rparr>) =
      Inl (SH4ThrownException (p + 2) (if ev = 0x820 then 0x800 else 0x180), s\<lparr>pc := p + 4\<rparr>)"
    using assms(2) unfolding desc_def by (auto simp: missing_opcode_def entry_def ctl_fn_def iNotImplemented_def IsFloatingPoint_def
        optype_defs Let_def add.commute)
  have "ReadNexOp b s = Inr (slot, s\<lparr>pc := p + 4\<rparr>)"
    using assms(3-6) odd by (simp add: ReadNexOp_def add.commute)
  then have "ExecuteDelayslot (ExecuteOpcode (Suc depth) b) b s =
      Inl (AdjustDelaySlotException (SH4ThrownException (p + 2) (if ev = 0x820 then 0x800 else 0x180)), s\<lparr>pc := p + 4\<rparr>)"
    by (simp only: ExecuteDelayslot_def ex sum_bind.simps prod.case sum.case)
  also have "\<dots> = Inl (SH4ThrownException p ev, s\<lparr>pc := p + 4\<rparr>)" using assms(2) by auto
  finally have "ExecuteDelayslot (ExecuteOpcode (Suc depth) b) b s = Inl (SH4ThrownException p ev, s\<lparr>pc := p + 4\<rparr>)" .
  then show ?thesis
    using nf by (simp add: OpDesc_rts entry_def slot_fn_def i0000_0000_0000_1011_def IsFloatingPoint_def)
qed

text \<open>C38: A fault in a delay slot is reported at the branch. Let \<open>rts\<close> be at an even address \<open>p\<close>, and
  in its delay slot a floating point instruction while the unit is disabled, or a word that is no
  instruction. Then the interpreter's step, with exceptions not blocked, enters the handler at
  \<open>VBR + 0x100\<close> with the code of a fault in a delay slot (\<open>0x820\<close> or \<open>0x1a0\<close>, not
  \<open>0x800\<close> or \<open>0x180\<close>), the return address \<open>p\<close> of the branch, and the status register of the
  program saved; the branch has not been taken.\<close>

theorem delay_slot_fault:
  fixes s :: "'z intc_st_scheme" and ev slot :: u16
  defines "desc \<equiv> OpDesc slot :: 'z intc_st_scheme sh4_opcodelistentry"
  assumes "sr_BL (status (sr s)) = 0"
    and "sr_FD (status (sr s)) = 1 \<and> IsFloatingPoint desc \<and> ev = 0x820 \<or>
      desc = missing_opcode \<and> ev = 0x1a0"
    and "pc s = p" "p AND 1 = 0" "\<forall>x. \<not> mmu_enabled b x"
    and "\<forall>x. IReadMem16 b p x = Inr (0x000B, x)" "\<forall>x. IReadMem16 b (p + 2) x = Inr (slot, x)"
  shows "\<exists>s'. Step (Suc (Suc depth)) b s = Inr (drainCycles b s') \<and> CCN_EXPEVT s' = ucast ev \<and> spc s' = p
    \<and> ssr s' = sr_getFull (sr s) \<and> pc s' = vbr s + 0x100"
proof -
  obtain x y z where m: "restoreHostRoundingMode s = s\<lparr>old_rm := x, old_dn := y, mxcsr := z\<rparr>"
    using rounding_frame by blast
  let ?t = "s\<lparr>old_rm := x, old_dn := y, mxcsr := z, pc := p + 2\<rparr>" and ?u = "s\<lparr>old_rm := x, old_dn := y, mxcsr := z, pc := p + 4\<rparr>"
  have "ExecuteOpcode (Suc (Suc depth)) b 0x000B ?t = Inl (SH4ThrownException p ev, ?u)"
    using rts_slot_fault [of ?t slot ev p b depth] assms(3,5,6,8) unfolding desc_def by simp
  moreover have "ReadNexOp b (restoreHostRoundingMode s) = Inr (0x000B, ?t)"
    using assms(4-7) by (simp add: ReadNexOp_def m)
  ultimately have st: "Step (Suc (Suc depth)) b s = catch_exception b (SH4ThrownException p ev, ?u)"
    by (simp only: Step_def sum_bind.simps prod.case sum.case)
  have ev: "ev = 0x820 \<or> ev = 0x1a0" using assms(3) by blast
  have expevt: "CCN_EXPEVT (snd (UpdateSR w)) = CCN_EXPEVT w" for w :: "'z intc_st_scheme"
    by (rule UpdateSR_obtain [of w]) simp
  have "\<exists>s'. Do_Exception p ev ?u = Inr s' \<and> CCN_EXPEVT s' = ucast ev \<and> spc s' = p
    \<and> ssr s' = sr_getFull (sr s) \<and> pc s' = vbr s + 0x100"
    using ev assms(2) unfolding Do_Exception_def Let_def split_beta by (auto simp: UpdateSR_simps expevt)
  then show ?thesis unfolding st catch_exception_def by auto
qed

lemma OpDesc_undefined: "OpDesc 0xFFFD = missing_opcode"
  unfolding OpDesc_decode decode_def opcodes_def opcodes_defs by (simp add: matches_def entry_def)

theorem delay_slot_fault_witness:
  "let b = (word_bus 0)\<lparr>IReadMem16 := \<lambda>a x. Inr (if a = 0x8c010000 then 0x000B else 0xFFFD, x)\<rparr> in
   \<exists>s'. Step (Suc (Suc 0)) b (intc_zero\<lparr>pc := 0x8c010000\<rparr>) = Inr s' \<and> CCN_EXPEVT s' = 0x1a0 \<and> spc s' = 0x8c010000
     \<and> pc s' = 0x8c000100"
proof -
  let ?b = "(word_bus 0)\<lparr>IReadMem16 := \<lambda>a x. Inr (if a = 0x8c010000 then 0x000B else 0xFFFD, x)\<rparr> :: intc_st bus"
  let ?s = "intc_zero\<lparr>pc := 0x8c010000\<rparr>"
  have bl: "sr_BL (status (sr ?s)) = 0" by (simp add: intc_zero_sr field_defs get_field1_eq)
  have "\<exists>s'. Step (Suc (Suc 0)) ?b ?s = Inr (drainCycles ?b s') \<and> CCN_EXPEVT s' = ucast (0x1a0 :: u16) \<and> spc s' = 0x8c010000
    \<and> ssr s' = sr_getFull (sr ?s) \<and> pc s' = vbr ?s + 0x100"
    by (rule delay_slot_fault [OF bl disjI2 [OF conjI [OF OpDesc_undefined refl]]]) (simp_all add: word_bus_def)
  moreover have "vbr ?s = 0x8c000000" "drainCycles ?b = (\<lambda>s. s)" by (simp_all add: intc_zero_regs word_bus_def)
  ultimately show ?thesis unfolding Let_def by auto
qed

end
