(* ===== verification/Sh4_Mmu.thy ===== *)
theory Sh4_Mmu
  imports Sh4_Bus
begin

section \<open>The SH4 memory management unit\<close>

text \<open>
  \<open>core/hw/sh4/modules/mmu.cpp\<close> and \<open>mmu.h\<close>, in the build with the accurate unit
  (\<open>STRICT_MODE\<close>; the default build replaces its lookups by those of \<open>fastmmu.cpp\<close>), with the
  instruction \<open>ldtlb\<close> and the memory-mapped views of the two translation buffers: 64 entries
  loaded by the program (\<open>UTLB\<close>), and 4 of them cached for instruction fetches (\<open>ITLB\<close>), replaced
  by the six bits \<open>LRUI\<close> of \<open>MMUCR\<close>.

  The bit fields are read and written on the whole registers (\<open>CCN_PTEH_type\<close> and so on of
  \<open>core/hw/sh4/sh4_mmr.h\<close>). An index into \<open>UTLB\<close> is a six bit field or a loop counter below 64.
  A translation returns the error, the entry found, the translated address and the new state; the
  address is an output parameter of the C++ function that some branches do not assign, so the model
  passes in what it holds before. A failing \<open>verify\<close> is \<open>AssertFailed\<close>. Logging is left out, and so
  is the choice of memory handlers in \<open>mmu_set_state\<close> (which only selects between this translation
  and none).
\<close>

datatype mmu_error = NONE | TLB_MISS | TLB_MHIT | PROTECTED | FIRSTWRITE | BADADDR

datatype access_type = MMU_TT_IREAD | MMU_TT_DWRITE | MMU_TT_DREAD

record tlb_entry =
  Address :: u32
  Data :: u32
  Assistance :: u32

record mmu_st = intc_st +
  UTLB :: "nat \<Rightarrow> tlb_entry"
  ITLB :: "nat \<Rightarrow> tlb_entry"
  sq_remap :: "nat \<Rightarrow> u32"
  mmuOn :: bool
  CCN_PTEH :: u32
  CCN_PTEL :: u32
  CCN_PTEA :: u32
  CCN_TEA :: u32
  CCN_MMUCR :: u32
  CCN_QACR0 :: u32
  CCN_QACR1 :: u32

subsection \<open>Register fields\<close>

definition PTEH_ASID :: "u32 \<Rightarrow> u32" where "PTEH_ASID v = get_field 0 8 v"

definition PTEH_VPN :: "u32 \<Rightarrow> u32" where "PTEH_VPN v = get_field 10 22 v"

definition set_PTEH_VPN :: "u32 \<Rightarrow> u32 \<Rightarrow> u32" where "set_PTEH_VPN x v = set_field 10 22 x v"

definition PTEL_SH :: "u32 \<Rightarrow> u32" where "PTEL_SH v = get_field 1 1 v"

definition PTEL_D :: "u32 \<Rightarrow> u32" where "PTEL_D v = get_field 2 1 v"

definition PTEL_PR :: "u32 \<Rightarrow> u32" where "PTEL_PR v = get_field 5 2 v"

definition PTEL_V :: "u32 \<Rightarrow> u32" where "PTEL_V v = get_field 8 1 v"

definition PTEL_PPN :: "u32 \<Rightarrow> u32" where "PTEL_PPN v = get_field 10 19 v"

definition set_PTEL_D :: "u32 \<Rightarrow> u32 \<Rightarrow> u32" where "set_PTEL_D x v = set_field 2 1 x v"

definition set_PTEL_V :: "u32 \<Rightarrow> u32 \<Rightarrow> u32" where "set_PTEL_V x v = set_field 8 1 x v"

text \<open>\<open>SZ1 * 2 + SZ0\<close>.\<close>

definition PTEL_SZ :: "u32 \<Rightarrow> u32" where "PTEL_SZ v = get_field 7 1 v * 2 + get_field 4 1 v"

definition MMUCR_AT :: "u32 \<Rightarrow> u32" where "MMUCR_AT v = get_field 0 1 v"

definition MMUCR_TI :: "u32 \<Rightarrow> u32" where "MMUCR_TI v = get_field 2 1 v"

definition MMUCR_SV :: "u32 \<Rightarrow> u32" where "MMUCR_SV v = get_field 8 1 v"

definition MMUCR_SQMD :: "u32 \<Rightarrow> u32" where "MMUCR_SQMD v = get_field 9 1 v"

definition MMUCR_URC :: "u32 \<Rightarrow> u32" where "MMUCR_URC v = get_field 10 6 v"

definition MMUCR_URB :: "u32 \<Rightarrow> u32" where "MMUCR_URB v = get_field 18 6 v"

definition MMUCR_LRUI :: "u32 \<Rightarrow> u32" where "MMUCR_LRUI v = get_field 26 6 v"

definition set_MMUCR_TI :: "u32 \<Rightarrow> u32 \<Rightarrow> u32" where "set_MMUCR_TI x v = set_field 2 1 x v"

definition set_MMUCR_URC :: "u32 \<Rightarrow> u32 \<Rightarrow> u32" where "set_MMUCR_URC x v = set_field 10 6 x v"

definition set_MMUCR_LRUI :: "u32 \<Rightarrow> u32 \<Rightarrow> u32" where "set_MMUCR_LRUI x v = set_field 26 6 x v"

definition QACR_Area :: "u32 \<Rightarrow> u32" where "QACR_Area v = get_field 2 3 v"

lemmas mmu_fields [field_defs] = PTEH_ASID_def PTEH_VPN_def set_PTEH_VPN_def PTEL_SH_def PTEL_D_def
  PTEL_PR_def PTEL_V_def PTEL_PPN_def set_PTEL_D_def set_PTEL_V_def PTEL_SZ_def MMUCR_AT_def MMUCR_TI_def
  MMUCR_SV_def MMUCR_SQMD_def MMUCR_URC_def MMUCR_URB_def MMUCR_LRUI_def set_MMUCR_TI_def
  set_MMUCR_URC_def set_MMUCR_LRUI_def QACR_Area_def

definition mmu_mask :: "u32 \<Rightarrow> u32" where
  "mmu_mask sz = [push_bit 10 (drop_bit 10 0xFFFFFFFF), push_bit 12 (drop_bit 12 0xFFFFFFFF),
     push_bit 16 (drop_bit 16 0xFFFFFFFF), push_bit 20 (drop_bit 20 0xFFFFFFFF)] ! unat sz"

definition fast_reg_lut :: "u32 \<Rightarrow> u32" where
  "fast_reg_lut i = [0, 0, 0, 0, 1, 1, 0, 1] ! unat i"

definition ITLB_LRU_OR :: "nat \<Rightarrow> u32" where "ITLB_LRU_OR e = [0x00, 0x20, 0x14, 0x0B] ! e"

definition ITLB_LRU_AND :: "nat \<Rightarrow> u32" where "ITLB_LRU_AND e = [0x07, 0x39, 0x3E, 0x3F] ! e"

subsection \<open>The replacement table\<close>

text \<open>\<open>MMU_init\<close> computes which entry is to be replaced for each value of \<open>LRUI\<close>; \<open>None\<close> in the
  table is \<open>0xFFFFFFFF\<close>. The \<open>verify\<close> in the inner loop is the error.\<close>

definition lru_row :: "nat \<Rightarrow> nat \<Rightarrow> (nat \<Rightarrow> nat option) option \<Rightarrow> (nat \<Rightarrow> nat option) option" where
  "lru_row e i tab =
     (case tab of
        None \<Rightarrow> None
      | Some t \<Rightarrow>
          let match_key = NOT (ITLB_LRU_AND e) AND 0x3F;
              match_mask = match_key OR ITLB_LRU_OR e
          in if word_of_nat i AND match_mask = match_key
             then if t i = None then Some (t(i := Some e)) else None
             else Some t)"

definition ITLB_LRU_INIT :: "(nat \<Rightarrow> nat option) option" where
  "ITLB_LRU_INIT = fold (\<lambda>e. fold (lru_row e) [0..<64]) [0..<4] (Some (\<lambda>_. None))"

definition ITLB_LRU_USE :: "u32 \<Rightarrow> nat option" where
  "ITLB_LRU_USE i = (case ITLB_LRU_INIT of None \<Rightarrow> None | Some t \<Rightarrow> t (unat i))"

subsection \<open>Lookups\<close>

definition mmu_match :: "u32 \<Rightarrow> tlb_entry \<Rightarrow> 'z mmu_st_scheme \<Rightarrow> bool" where
  "mmu_match va e s =
     (if PTEL_V (Data e) = 0 then False
      else
        let msk = mmu_mask (PTEL_SZ (Data e));
            needAsidMatch = PTEL_SH (Data e) = 0
              \<and> (sr_MD (status (sr s)) = 0 \<or> MMUCR_SV (CCN_MMUCR s) = 0)
        in push_bit 10 (PTEH_VPN (Address e)) AND msk = va AND msk
           \<and> (\<not> needAsidMatch \<or> PTEH_ASID (Address e) = PTEH_ASID (CCN_PTEH s)))"

text \<open>The translated address: the page number of the entry, the offset of the address.\<close>

definition tlb_translate :: "tlb_entry \<Rightarrow> u32 \<Rightarrow> u32" where
  "tlb_translate e va =
     (let msk = mmu_mask (PTEL_SZ (Data e))
      in (push_bit 10 (PTEL_PPN (Data e)) AND msk) OR (va AND NOT msk))"

text \<open>The loop both lookups share, over the entries with the given indices: a second match ends it.\<close>

fun tlb_loop :: "(nat \<Rightarrow> tlb_entry) \<Rightarrow> (tlb_entry \<Rightarrow> bool) \<Rightarrow> u32 \<Rightarrow> nat list \<Rightarrow> nat option \<Rightarrow> u32
    \<Rightarrow> mmu_error \<times> nat option \<times> u32" where
  "tlb_loop tlb match va [] found rv = (NONE, found, rv)"
| "tlb_loop tlb match va (i # is) found rv =
     (if match (tlb i)
      then (case found of
              Some j \<Rightarrow> (TLB_MHIT, Some j, rv)
            | None \<Rightarrow> tlb_loop tlb match va is (Some i) (tlb_translate (tlb i) va))
      else tlb_loop tlb match va is found rv)"

definition advance_URC :: "'z mmu_st_scheme \<Rightarrow> 'z mmu_st_scheme" where
  "advance_URC s =
     (let m = set_MMUCR_URC (MMUCR_URC (CCN_MMUCR s) + 1) (CCN_MMUCR s);
          m = (if MMUCR_URB m = MMUCR_URC m then set_MMUCR_URC 0 m else m)
      in s\<lparr>CCN_MMUCR := m\<rparr>)"

definition mmu_full_lookup ::
  "u32 \<Rightarrow> u32 \<Rightarrow> 'z mmu_st_scheme \<Rightarrow> (mmu_error \<times> nat option \<times> u32) \<times> 'z mmu_st_scheme" where
  "mmu_full_lookup va rv s =
     (let s = advance_URC s;
          (err, found, rv) = tlb_loop (UTLB s) (\<lambda>e. mmu_match va e s) va [0..<64] None rv
      in if err \<noteq> NONE then ((err, found, rv), s)
         else if found = None then ((TLB_MISS, None, rv), s)
         else ((NONE, found, rv), s))"

text \<open>The condition written out in the loop of \<open>mmu_instruction_lookup\<close>.\<close>

definition itlb_match :: "u32 \<Rightarrow> tlb_entry \<Rightarrow> 'z mmu_st_scheme \<Rightarrow> bool" where
  "itlb_match va e s =
     (if PTEL_V (Data e) = 0 then False
      else
        let msk = mmu_mask (PTEL_SZ (Data e)) in
        if push_bit 10 (PTEH_VPN (Address e)) AND msk = va AND msk
        then let needAsidMatch = PTEL_SH (Data e) = 0
                   \<and> (sr_MD (status (sr s)) = 0 \<or> MMUCR_SV (CCN_MMUCR s) = 0)
             in \<not> needAsidMatch \<or> PTEH_ASID (Address e) = PTEH_ASID (CCN_PTEH s)
        else False)"

definition lru_used :: "nat \<Rightarrow> u32 \<Rightarrow> u32" where
  "lru_used e lrui = (lrui AND ITLB_LRU_AND e) OR ITLB_LRU_OR e"

definition use_itlb :: "nat \<Rightarrow> 'z mmu_st_scheme \<Rightarrow> 'z mmu_st_scheme" where
  "use_itlb e s =
     (let m = set_MMUCR_LRUI (MMUCR_LRUI (CCN_MMUCR s) AND ITLB_LRU_AND e) (CCN_MMUCR s)
      in s\<lparr>CCN_MMUCR := set_MMUCR_LRUI (MMUCR_LRUI m OR ITLB_LRU_OR e) m\<rparr>)"

text \<open>The jump back to the label is the recursive call, with \<open>mmach\<close> set.\<close>

function instruction_lookup ::
  "bool \<Rightarrow> u32 \<Rightarrow> u32 \<Rightarrow> 'z mmu_st_scheme
     \<Rightarrow> sh4_exn + (mmu_error \<times> nat option \<times> u32) \<times> 'z mmu_st_scheme" where
  "instruction_lookup mmach va rv s =
     (case tlb_loop (ITLB s) (\<lambda>e. itlb_match va e s) va [0..<4] None rv of (err, found, rv1) \<Rightarrow>
      if err \<noteq> NONE then Inr ((err, found, rv1), s)
      else case found of
        Some e \<Rightarrow> Inr ((NONE, Some e, rv1), use_itlb e s)
      | None \<Rightarrow>
          if mmach then Inl AssertFailed
          else case mmu_full_lookup va rv1 s of ((err2, entry, rv2), s2) \<Rightarrow>
            if err2 \<noteq> NONE then Inr ((err2, None, rv2), s2)
            else case ITLB_LRU_USE (MMUCR_LRUI (CCN_MMUCR s2)) of
              None \<Rightarrow> Inl AssertFailed
            | Some replace_index \<Rightarrow>
                instruction_lookup True va rv2
                  (s2\<lparr>ITLB := (ITLB s2)(replace_index := UTLB s2 (the entry))\<rparr>))"
  by pat_completeness auto
termination by (relation "measure (\<lambda>(mmach, _). if mmach then 0 else 1)") auto

declare instruction_lookup.simps [simp del]

definition mmu_instruction_lookup ::
  "u32 \<Rightarrow> u32 \<Rightarrow> 'z mmu_st_scheme
     \<Rightarrow> sh4_exn + (mmu_error \<times> nat option \<times> u32) \<times> 'z mmu_st_scheme" where
  "mmu_instruction_lookup va rv s = instruction_lookup False va rv s"

subsection \<open>Translation\<close>

definition mmu_QACR_SQ :: "u32 \<Rightarrow> 'z mmu_st_scheme \<Rightarrow> u32" where
  "mmu_QACR_SQ va s =
     (let sqi = drop_bit 5 va AND 1;
          addr = push_bit 26 (if sqi \<noteq> 0 then QACR_Area (CCN_QACR1 s) else QACR_Area (CCN_QACR0 s))
      in addr OR (va AND 0x03ffffe0))"

definition mmu_full_SQ :: "access_type \<Rightarrow> u32 \<Rightarrow> u32 \<Rightarrow> 'z mmu_st_scheme \<Rightarrow> (mmu_error \<times> u32) \<times> 'z mmu_st_scheme" where
  "mmu_full_SQ translation_type va rv s =
     (if va AND 3 \<noteq> 0 \<or> MMUCR_SQMD (CCN_MMUCR s) = 1 \<and> sr_MD (status (sr s)) = 0
      then ((BADADDR, rv), s)
      else if MMUCR_AT (CCN_MMUCR s) \<noteq> 0
      then case mmu_full_lookup va rv s of ((lookup, entry, rv), s) \<Rightarrow>
        let rv = rv AND NOT 31 in
        if lookup \<noteq> NONE then ((lookup, rv), s)
        else let pr = PTEL_PR (Data (UTLB s (the entry)));
                 md = drop_bit 1 pr
             in if md = 0 \<and> sr_MD (status (sr s)) = 0 then ((PROTECTED, rv), s)
                else if translation_type = MMU_TT_DWRITE \<and> pr AND 1 = 0 then ((PROTECTED, rv), s)
                else if translation_type = MMU_TT_DWRITE \<and> PTEL_D (Data (UTLB s (the entry))) = 0
                then ((FIRSTWRITE, rv), s)
                else ((NONE, rv), s)
      else ((NONE, mmu_QACR_SQ va s), s))"

text \<open>The part behind the tests of the address range.\<close>

definition data_lookup :: "access_type \<Rightarrow> u32 \<Rightarrow> u32 \<Rightarrow> 'z mmu_st_scheme \<Rightarrow> (mmu_error \<times> u32) \<times> 'z mmu_st_scheme" where
  "data_lookup translation_type va rv s =
     (case mmu_full_lookup va rv s of ((lookup, entry, rv), s) \<Rightarrow>
        if lookup \<noteq> NONE then ((lookup, rv), s)
        else let pr = PTEL_PR (Data (UTLB s (the entry)));
                 md = drop_bit 1 pr
             in if md = 0 \<and> sr_MD (status (sr s)) = 0 then ((PROTECTED, rv), s)
                else if translation_type = MMU_TT_DWRITE \<and> pr AND 1 = 0 then ((PROTECTED, rv), s)
                else if translation_type = MMU_TT_DWRITE \<and> PTEL_D (Data (UTLB s (the entry))) = 0
                then ((FIRSTWRITE, rv), s)
                else ((NONE, if rv AND 0x1C000000 = 0x1C000000 then rv OR 0xF0000000 else rv), s))"

definition mmu_data_translation ::
  "access_type \<Rightarrow> u32 \<Rightarrow> u32 \<Rightarrow> 'z mmu_st_scheme \<Rightarrow> (mmu_error \<times> u32) \<times> 'z mmu_st_scheme" where
  "mmu_data_translation translation_type va rv s =
     (if translation_type = MMU_TT_DWRITE \<and> va AND 0xFC000000 = 0xE0000000
      then case mmu_full_SQ MMU_TT_DWRITE va rv s of ((lookup, rv), s) \<Rightarrow>
        if lookup \<noteq> NONE then ((lookup, rv), s) else ((NONE, va), s)
      else if sr_MD (status (sr s)) = 0 \<and> va AND 0x80000000 \<noteq> 0 then ((BADADDR, rv), s)
      else if va AND 0xFC000000 = 0x7C000000 then ((NONE, va), s)
      else if fast_reg_lut (drop_bit 29 va) \<noteq> 0 then ((NONE, va), s)
      else data_lookup translation_type va rv s)"

definition mmu_instruction_translation ::
  "u32 \<Rightarrow> u32 \<Rightarrow> 'z mmu_st_scheme \<Rightarrow> sh4_exn + (mmu_error \<times> u32) \<times> 'z mmu_st_scheme" where
  "mmu_instruction_translation va rv s =
     (if sr_MD (status (sr s)) = 0 \<and> va AND 0x80000000 \<noteq> 0 then Inr ((BADADDR, rv), s)
      else if drop_bit 29 va = 7 then Inr ((BADADDR, rv), s)
      else if fast_reg_lut (drop_bit 29 va) \<noteq> 0 then Inr ((NONE, va), s)
      else sum_bind (mmu_instruction_lookup va rv s) (\<lambda>((lookup, entry, rv), s).
        if lookup \<noteq> NONE then Inr ((lookup, rv), s)
        else let md = drop_bit 1 (PTEL_PR (Data (ITLB s (the entry))))
             in if md = 0 \<and> sr_MD (status (sr s)) = 0 then Inr ((PROTECTED, rv), s)
                else Inr ((NONE, rv), s)))"

subsection \<open>Exceptions\<close>

text \<open>The event an error stands for; \<open>die\<close> and \<open>verify\<close> are the error value. The function first
  leaves the address in the registers the handler reads.\<close>

definition mmu_event :: "mmu_error \<Rightarrow> access_type \<Rightarrow> sh4_exn + u16" where
  "mmu_event err am =
     (case err of
        NONE \<Rightarrow> Inl AssertFailed
      | TLB_MISS \<Rightarrow> Inr (if am = MMU_TT_DWRITE then 0x60 else 0x40)
      | TLB_MHIT \<Rightarrow> Inr 0x140
      | PROTECTED \<Rightarrow> Inr (if am = MMU_TT_DWRITE then 0xc0 else 0xa0)
      | FIRSTWRITE \<Rightarrow> if am = MMU_TT_DWRITE then Inr 0x80 else Inl AssertFailed
      | BADADDR \<Rightarrow> Inr (if am = MMU_TT_DWRITE then 0x100 else 0xe0))"

definition mmuException :: "mmu_error \<Rightarrow> u32 \<Rightarrow> access_type \<Rightarrow> 'z mmu_st_scheme \<Rightarrow> (sh4_exn + u16) \<times> 'z mmu_st_scheme" where
  "mmuException err addr am s =
     (mmu_event err am,
      s\<lparr>CCN_TEA := addr, CCN_PTEH := set_PTEH_VPN (drop_bit 10 addr) (CCN_PTEH s)\<rparr>)"

definition mmu_raise_exception :: "mmu_error \<Rightarrow> u32 \<Rightarrow> access_type \<Rightarrow> 'z mmu_st_scheme \<Rightarrow> sh4_exn \<times> 'z mmu_st_scheme" where
  "mmu_raise_exception err addr am s =
     (case mmuException err addr am s of
        (Inl e, s) \<Rightarrow> (e, s)
      | (Inr event, s) \<Rightarrow> (SH4ThrownException (pc s - 2) event, s))"

definition DoMMUException :: "u32 \<Rightarrow> mmu_error \<Rightarrow> access_type \<Rightarrow> 'z mmu_st_scheme \<Rightarrow> sh4_exn + 'z mmu_st_scheme" where
  "DoMMUException addr err am s =
     (case mmuException err addr am s of
        (Inl e, s) \<Rightarrow> Inl e
      | (Inr event, s) \<Rightarrow> Do_Exception (pc s) event s)"

subsection \<open>Memory accesses\<close>

text \<open>\<open>sz\<close> is the size of the access in bytes, \<open>rd\<close> and \<open>wr\<close> the access of the physical address
  space; the local variable the translation fills starts undetermined, here \<open>0\<close>.\<close>

definition mmu_ReadMem :: "nat \<Rightarrow> (u32 \<Rightarrow> 'z mmu_st_scheme \<Rightarrow> ('v, 'z mmu_st_scheme) vres) \<Rightarrow> u32
    \<Rightarrow> 'z mmu_st_scheme \<Rightarrow> ('v, 'z mmu_st_scheme) vres" where
  "mmu_ReadMem sz rd adr s =
     (if adr AND (word_of_nat (min sz 4) - 1) \<noteq> 0
      then Inl (mmu_raise_exception BADADDR adr MMU_TT_DREAD s)
      else case mmu_data_translation MMU_TT_DREAD adr 0 s of ((err, addr), s) \<Rightarrow>
        if err \<noteq> NONE then Inl (mmu_raise_exception err adr MMU_TT_DREAD s) else rd addr s)"

definition mmu_IReadMem16 :: "(u32 \<Rightarrow> 'z mmu_st_scheme \<Rightarrow> (u16, 'z mmu_st_scheme) vres) \<Rightarrow> u32
    \<Rightarrow> 'z mmu_st_scheme \<Rightarrow> (u16, 'z mmu_st_scheme) vres" where
  "mmu_IReadMem16 rd vaddr s =
     (if vaddr AND 1 \<noteq> 0 then Inl (mmu_raise_exception BADADDR vaddr MMU_TT_IREAD s)
      else case mmu_instruction_translation vaddr 0 s of
        Inl e \<Rightarrow> Inl (e, s)
      | Inr ((err, addr), s) \<Rightarrow>
          if err \<noteq> NONE then Inl (mmu_raise_exception err vaddr MMU_TT_IREAD s) else rd addr s)"

definition mmu_WriteMem :: "nat \<Rightarrow> (u32 \<Rightarrow> 'v \<Rightarrow> 'z mmu_st_scheme \<Rightarrow> 'z mmu_st_scheme res) \<Rightarrow> u32 \<Rightarrow> 'v
    \<Rightarrow> 'z mmu_st_scheme \<Rightarrow> 'z mmu_st_scheme res" where
  "mmu_WriteMem sz wr adr data s =
     (if adr AND (word_of_nat (min sz 4) - 1) \<noteq> 0
      then Inl (mmu_raise_exception BADADDR adr MMU_TT_DWRITE s)
      else case mmu_data_translation MMU_TT_DWRITE adr 0 s of ((err, addr), s) \<Rightarrow>
        if err \<noteq> NONE then Inl (mmu_raise_exception err adr MMU_TT_DWRITE s) else wr addr data s)"

definition mmu_TranslateSQW :: "u32 \<Rightarrow> 'z mmu_st_scheme \<Rightarrow> (u32, 'z mmu_st_scheme) vres" where
  "mmu_TranslateSQW adr s =
     (if \<not> mmuOn s
      then Inr (sq_remap s (unat (drop_bit 20 adr AND 0x3F)) OR (adr AND 0xFFFE0), s)
      else case mmu_full_SQ MMU_TT_DREAD adr 0 s of ((tv, addr), s) \<Rightarrow>
        if tv \<noteq> NONE then Inl (mmu_raise_exception tv adr MMU_TT_DREAD s) else Inr (addr, s))"

subsection \<open>Loading the buffers\<close>

definition UTLB_Sync :: "nat \<Rightarrow> 'z mmu_st_scheme \<Rightarrow> 'z mmu_st_scheme" where
  "UTLB_Sync entry s =
     (let e = UTLB s entry; vpn = PTEH_VPN (Address e) in
      if PTEL_V (Data e) = 0 then s
      else if vpn AND drop_bit 10 0xFC000000 = drop_bit 10 0xE0000000
      then s\<lparr>sq_remap := (sq_remap s)(unat (drop_bit 10 (vpn AND 0x7FFFF) AND 0x3F) := push_bit 10 (PTEL_PPN (Data e)))\<rparr>
      else s)"

text \<open>\<open>ITLB_Sync\<close> only logs. The instruction \<open>ldtlb\<close>:\<close>

definition ldtlb :: "'z mmu_st_scheme \<Rightarrow> 'z mmu_st_scheme" where
  "ldtlb s =
     (let i = unat (MMUCR_URC (CCN_MMUCR s));
          s = s\<lparr>UTLB := (UTLB s)(i := \<lparr>Address = CCN_PTEH s, Data = CCN_PTEL s, Assistance = CCN_PTEA s\<rparr>)\<rparr>
      in UTLB_Sync i s)"

definition mmu_flush_table :: "'z mmu_st_scheme \<Rightarrow> 'z mmu_st_scheme" where
  "mmu_flush_table s =
     (let s = s\<lparr>ITLB := (\<lambda>i. if i < 4 then (ITLB s i)\<lparr>Data := set_PTEL_V 0 (Data (ITLB s i))\<rparr> else ITLB s i)\<rparr>
      in s\<lparr>UTLB := (\<lambda>i. if i < 64 then (UTLB s i)\<lparr>Data := set_PTEL_V 0 (Data (UTLB s i))\<rparr> else UTLB s i)\<rparr>)"

text \<open>\<open>wince\<close> says whether the kernel's signature is found in memory.\<close>

definition mmu_set_state :: "bool \<Rightarrow> 'z mmu_st_scheme \<Rightarrow> 'z mmu_st_scheme" where
  "mmu_set_state wince s =
     (if MMUCR_AT (CCN_MMUCR s) = 1 then (if wince then s\<lparr>mmuOn := True\<rparr> else s)
      else s\<lparr>mmuOn := False\<rparr>)"

definition MMU_reset :: "bool \<Rightarrow> 'z mmu_st_scheme \<Rightarrow> 'z mmu_st_scheme" where
  "MMU_reset wince s =
     (let s = s\<lparr>UTLB := (\<lambda>_. \<lparr>Address = 0, Data = 0, Assistance = 0\<rparr>),
                ITLB := (\<lambda>_. \<lparr>Address = 0, Data = 0, Assistance = 0\<rparr>)\<rparr>;
          s = mmu_flush_table (mmu_set_state wince s)
      in s\<lparr>sq_remap := (\<lambda>_. 0)\<rparr>)"

subsection \<open>Registers\<close>

definition CCN_QACR_write :: "nat \<Rightarrow> u32 \<Rightarrow> 'z mmu_st_scheme \<Rightarrow> 'z mmu_st_scheme" where
  "CCN_QACR_write idx v s =
     (if idx = 0 then s\<lparr>CCN_QACR0 := v AND 0x1c\<rparr> else s\<lparr>CCN_QACR1 := v AND 0x1c\<rparr>)"

definition CCN_PTEH_write :: "u32 \<Rightarrow> 'z mmu_st_scheme \<Rightarrow> 'z mmu_st_scheme" where
  "CCN_PTEH_write v s = s\<lparr>CCN_PTEH := v AND 0xfffffcff\<rparr>"

definition CCN_MMUCR_write :: "bool \<Rightarrow> u32 \<Rightarrow> 'z mmu_st_scheme \<Rightarrow> 'z mmu_st_scheme" where
  "CCN_MMUCR_write wince v s =
     (let temp = v AND 0xfcfcff05;
          mmu_changed_state = MMUCR_AT temp \<noteq> MMUCR_AT (CCN_MMUCR s);
          s = (if MMUCR_TI temp \<noteq> 0 then mmu_flush_table s else s);
          temp = (if MMUCR_TI temp \<noteq> 0 then set_MMUCR_TI 0 temp else temp);
          s = s\<lparr>CCN_MMUCR := temp\<rparr>
      in if mmu_changed_state then mmu_set_state wince s else s)"

subsection \<open>The buffers in the address space\<close>

text \<open>The cases \<open>0xF2\<close>, \<open>0xF3\<close>, \<open>0xF6\<close> and \<open>0xF7\<close> of \<open>ReadMem_P4\<close> and \<open>WriteMem_P4\<close> in
  \<open>core/hw/sh4/sh4_mmr.cpp\<close>, for 32 bit accesses; \<open>None\<close> is any other case.\<close>

definition ReadMem_P4 :: "u32 \<Rightarrow> 'z mmu_st_scheme \<Rightarrow> u32 option" where
  "ReadMem_P4 addr s =
     (let area = drop_bit 24 addr AND 0xFF; i4 = unat (drop_bit 8 addr AND 3); i64 = unat (drop_bit 8 addr AND 63)
      in if area = 0xF2 then Some (Address (ITLB s i4) OR push_bit 8 (PTEL_V (Data (ITLB s i4))))
         else if area = 0xF3 then Some (Data (ITLB s i4))
         else if area = 0xF6
         then Some (Address (UTLB s i64) OR push_bit 9 (PTEL_D (Data (UTLB s i64)))
                OR push_bit 8 (PTEL_V (Data (UTLB s i64))))
         else if area = 0xF7 then Some (Data (UTLB s i64))
         else None)"

definition set_VD :: "u32 \<Rightarrow> tlb_entry \<Rightarrow> tlb_entry" where
  "set_VD data e =
     e\<lparr>Data := set_PTEL_D (drop_bit 9 data AND 1) (set_PTEL_V (drop_bit 8 data AND 1) (Data e))\<rparr>"

text \<open>An associative write updates every matching entry of both buffers.\<close>

definition assoc_utlb :: "u32 \<Rightarrow> nat \<Rightarrow> 'z mmu_st_scheme \<Rightarrow> 'z mmu_st_scheme" where
  "assoc_utlb data i s =
     (if mmu_match (push_bit 10 (PTEH_VPN data)) (UTLB s i) s
      then UTLB_Sync i (s\<lparr>UTLB := (UTLB s)(i := set_VD data (UTLB s i))\<rparr>) else s)"

definition assoc_itlb :: "u32 \<Rightarrow> nat \<Rightarrow> 'z mmu_st_scheme \<Rightarrow> 'z mmu_st_scheme" where
  "assoc_itlb data i s =
     (if mmu_match (push_bit 10 (PTEH_VPN data)) (ITLB s i) s
      then s\<lparr>ITLB := (ITLB s)(i := set_VD data (ITLB s i))\<rparr> else s)"

definition WriteMem_P4 :: "u32 \<Rightarrow> u32 \<Rightarrow> 'z mmu_st_scheme \<Rightarrow> 'z mmu_st_scheme option" where
  "WriteMem_P4 addr data s =
     (let area = drop_bit 24 addr AND 0xFF; i4 = unat (drop_bit 8 addr AND 3); i64 = unat (drop_bit 8 addr AND 63)
      in if area = 0xF2
         then Some (s\<lparr>ITLB := (ITLB s)(i4 := (ITLB s i4)\<lparr>Address := data AND 0xFFFFFCFF,
                Data := set_PTEL_V (drop_bit 8 data AND 1) (Data (ITLB s i4))\<rparr>)\<rparr>)
         else if area = 0xF3
         then Some (s\<lparr>ITLB := (ITLB s)(i4 := if addr AND 0x800000 \<noteq> 0
                then (ITLB s i4)\<lparr>Assistance := data AND 0xf\<rparr> else (ITLB s i4)\<lparr>Data := data\<rparr>)\<rparr>)
         else if area = 0xF6
         then Some (if addr AND 0x80 \<noteq> 0
                then fold (assoc_itlb data) [0..<4] (fold (assoc_utlb data) [0..<64] s)
                else UTLB_Sync i64 (s\<lparr>UTLB := (UTLB s)(i64 := set_VD data ((UTLB s i64)\<lparr>Address := data AND 0xFFFFFCFF\<rparr>))\<rparr>))
         else if area = 0xF7
         then Some (UTLB_Sync i64 (s\<lparr>UTLB := (UTLB s)(i64 := if addr AND 0x800000 \<noteq> 0
                then (UTLB s i64)\<lparr>Assistance := data AND 0xf\<rparr> else (UTLB s i64)\<lparr>Data := data\<rparr>)\<rparr>))
         else None)"

section \<open>Proofs\<close>

subsection \<open>The loops are searches\<close>

lemma tlb_loop_found:
  "tlb_loop tlb m va is (Some j) rv =
     (if filter (\<lambda>i. m (tlb i)) is = [] then (NONE, Some j, rv) else (TLB_MHIT, Some j, rv))"
  by (induction "is") auto

lemma tlb_loop_search:
  "tlb_loop tlb m va is None rv =
     (case filter (\<lambda>i. m (tlb i)) is of
        [] \<Rightarrow> (NONE, None, rv)
      | [i] \<Rightarrow> (NONE, Some i, tlb_translate (tlb i) va)
      | i # _ \<Rightarrow> (TLB_MHIT, Some i, tlb_translate (tlb i) va))"
  by (induction "is") (auto simp: tlb_loop_found split: list.splits)

lemma itlb_match_eq: "itlb_match va e s = mmu_match va e s"
  by (simp add: itlb_match_def mmu_match_def Let_def)

lemma advance_URC_frame:
  obtains m where "advance_URC s = s\<lparr>CCN_MMUCR := m\<rparr>"
    "MMUCR_SV m = MMUCR_SV (CCN_MMUCR s)" "MMUCR_LRUI m = MMUCR_LRUI (CCN_MMUCR s)"
proof
  let ?m = "set_MMUCR_URC (MMUCR_URC (CCN_MMUCR s) + 1) (CCN_MMUCR s)"
  let ?m' = "if MMUCR_URB ?m = MMUCR_URC ?m then set_MMUCR_URC 0 ?m else ?m"
  show "advance_URC s = s\<lparr>CCN_MMUCR := ?m'\<rparr>" by (simp add: advance_URC_def Let_def)
  show "MMUCR_SV ?m' = MMUCR_SV (CCN_MMUCR s)" "MMUCR_LRUI ?m' = MMUCR_LRUI (CCN_MMUCR s)"
    by (simp_all add: mmu_fields get_set_field_other)
qed

lemma mmu_match_cong:
  "sr s' = sr s \<Longrightarrow> CCN_PTEH s' = CCN_PTEH s \<Longrightarrow> MMUCR_SV (CCN_MMUCR s') = MMUCR_SV (CCN_MMUCR s)
     \<Longrightarrow> mmu_match va e s' = mmu_match va e s"
  by (simp add: mmu_match_def)

definition hits :: "u32 \<Rightarrow> (nat \<Rightarrow> tlb_entry) \<Rightarrow> nat \<Rightarrow> 'z mmu_st_scheme \<Rightarrow> nat list" where
  "hits va tlb n s = [i \<leftarrow> [0..<n]. mmu_match va (tlb i) s]"

lemma hits_single: "hits va tlb n s = [i] \<Longrightarrow> i < n \<and> mmu_match va (tlb i) s \<and> (\<forall>j < n. mmu_match va (tlb j) s \<longrightarrow> j = i)"
proof -
  assume "hits va tlb n s = [i]"
  then have "set (hits va tlb n s) = {i}" by simp
  then have "{j. j < n \<and> mmu_match va (tlb j) s} = {i}" by (auto simp: hits_def)
  then show ?thesis by blast
qed

lemma hits_empty: "hits va tlb n s = [] \<longleftrightarrow> (\<forall>j < n. \<not> mmu_match va (tlb j) s)"
  by (auto simp: hits_def filter_empty_conv)

lemma hits_unique:
  assumes "k < n" "\<forall>j < n. mmu_match va (tlb j) s \<longleftrightarrow> j = k"
  shows "hits va tlb n s = [k]"
proof -
  have "hits va tlb n s = filter (\<lambda>j. j = k) [0..<n]"
    unfolding hits_def by (rule filter_cong) (use assms in auto)
  also have "\<dots> = [k]" using assms(1) by (induction n) (auto simp: less_Suc_eq)
  finally show ?thesis .
qed

text \<open>The lookup in the big buffer: one match translates, none or several are errors.\<close>

lemma full_lookup_search:
  obtains s' where "mmu_full_lookup va rv s =
     ((case hits va (UTLB s) 64 s of
        [] \<Rightarrow> (TLB_MISS, None, rv)
      | [i] \<Rightarrow> (NONE, Some i, tlb_translate (UTLB s i) va)
      | i # _ \<Rightarrow> (TLB_MHIT, Some i, tlb_translate (UTLB s i) va)), s')"
    "\<exists>m. s' = s\<lparr>CCN_MMUCR := m\<rparr> \<and> MMUCR_SV m = MMUCR_SV (CCN_MMUCR s)
       \<and> MMUCR_LRUI m = MMUCR_LRUI (CCN_MMUCR s)"
proof -
  obtain m where m: "advance_URC s = s\<lparr>CCN_MMUCR := m\<rparr>"
    "MMUCR_SV m = MMUCR_SV (CCN_MMUCR s)" "MMUCR_LRUI m = MMUCR_LRUI (CCN_MMUCR s)"
    by (rule advance_URC_frame)
  have eq: "mmu_match va e (s\<lparr>CCN_MMUCR := m\<rparr>) = mmu_match va e s" for e
    by (rule mmu_match_cong) (simp_all add: m(2))
  show ?thesis
    by (rule that [of "s\<lparr>CCN_MMUCR := m\<rparr>"])
      (use m(2,3) in \<open>auto simp: mmu_full_lookup_def m(1) Let_def tlb_loop_search eq hits_def split: list.splits\<close>)
qed

subsection \<open>The replacement order\<close>

text \<open>Filling one row of the table.\<close>

lemma lru_row_fold:
  assumes "\<And>i. i < n \<Longrightarrow> word_of_nat i AND (key OR ITLB_LRU_OR e) = key \<Longrightarrow> t i = None"
    and key: "key = NOT (ITLB_LRU_AND e) AND 0x3F"
  shows "fold (lru_row e) [0..<n] (Some t) =
    Some (\<lambda>i. if i < n \<and> word_of_nat i AND (key OR ITLB_LRU_OR e) = key then Some e else t i)"
  using assms(1)
proof (induction n)
  case (Suc n)
  then show ?case
    by (auto simp: lru_row_def key Let_def fun_eq_iff less_Suc_eq)
qed simp

lemma and_eq_bit: "(x :: u32) AND m = k \<Longrightarrow> bit m b \<Longrightarrow> bit x b \<longleftrightarrow> bit k b"
  by (auto simp: bit_and_iff)

text \<open>No value of \<open>LRUI\<close> names two entries: the sets of bits they look at disagree.\<close>

lemma lru_rows_disjoint:
  "(x :: u32) AND 0x26 = 0x06 \<Longrightarrow> x AND 0x38 \<noteq> 0x38"
  "x AND 0x15 = 0x01 \<Longrightarrow> x AND 0x38 \<noteq> 0x38" "x AND 0x15 = 0x01 \<Longrightarrow> x AND 0x26 \<noteq> 0x06"
  "x AND 0x0B = 0 \<Longrightarrow> x AND 0x38 \<noteq> 0x38" "x AND 0x0B = 0 \<Longrightarrow> x AND 0x26 \<noteq> 0x06"
  "x AND 0x0B = 0 \<Longrightarrow> x AND 0x15 \<noteq> 0x01"
  using and_eq_bit [of x "0x38" "0x38" 5] and_eq_bit [of x "0x26" "0x06" 5]
    and_eq_bit [of x "0x38" "0x38" 4] and_eq_bit [of x "0x15" "0x01" 4]
    and_eq_bit [of x "0x26" "0x06" 2] and_eq_bit [of x "0x15" "0x01" 2]
    and_eq_bit [of x "0x38" "0x38" 3] and_eq_bit [of x "0x0B" 0 3]
    and_eq_bit [of x "0x26" "0x06" 1] and_eq_bit [of x "0x0B" 0 1]
    and_eq_bit [of x "0x15" "0x01" 0] and_eq_bit [of x "0x0B" 0 0]
  by auto

definition lru_choice :: "u32 \<Rightarrow> nat option" where
  "lru_choice x = (if x AND 0x38 = 0x38 then Some 0 else if x AND 0x26 = 0x06 then Some 1
     else if x AND 0x15 = 0x01 then Some 2 else if x AND 0x0B = 0 then Some 3 else None)"

text \<open>The abstraction: the entries in the order of their last use, most recent first. Each bit of
  \<open>LRUI\<close> compares two entries.\<close>

definition newer :: "nat list \<Rightarrow> nat \<Rightarrow> nat \<Rightarrow> bool" where
  "newer xs j i \<longleftrightarrow> j \<in> set (takeWhile (\<lambda>x. x \<noteq> i) xs)"

definition lru_word :: "nat list \<Rightarrow> u32" where
  "lru_word xs = (if newer xs 1 0 then 0x20 else 0) OR (if newer xs 2 0 then 0x10 else 0)
     OR (if newer xs 3 0 then 0x08 else 0) OR (if newer xs 2 1 then 0x04 else 0)
     OR (if newer xs 3 1 then 0x02 else 0) OR (if newer xs 3 2 then 0x01 else 0)"

definition lru_order :: "nat list \<Rightarrow> bool" where
  "lru_order xs \<longleftrightarrow> distinct xs \<and> set xs = {0, 1, 2, 3}"

text \<open>Using an entry moves it to the front.\<close>

lemma newer_use:
  "newer (e # remove1 e xs) j i \<longleftrightarrow> i \<noteq> e \<and> (j = e \<or> newer xs j i)"
proof -
  have "set (takeWhile (\<lambda>x. x \<noteq> i) (remove1 e xs)) \<subseteq> set (takeWhile (\<lambda>x. x \<noteq> i) xs)"
    "set (takeWhile (\<lambda>x. x \<noteq> i) xs) \<subseteq> insert e (set (takeWhile (\<lambda>x. x \<noteq> i) (remove1 e xs)))" if "i \<noteq> e"
    using that by (induction xs) auto
  then show ?thesis by (auto simp: newer_def)
qed

lemma newer_last:
  assumes "distinct xs" "i \<in> set xs" "i \<noteq> last xs"
  shows "newer xs i (last xs)" "\<not> newer xs (last xs) i"
proof -
  obtain ys l where xs: "xs = ys @ [l]" using assms(2) by (cases xs rule: rev_cases) auto
  have l: "l \<notin> set ys" "i \<in> set ys" using assms by (auto simp: xs)
  then have "takeWhile (\<lambda>x. x \<noteq> l) xs = ys" unfolding xs by (subst takeWhile_append2) auto
  then show "newer xs i (last xs)" using l by (simp add: newer_def xs)
  have "takeWhile (\<lambda>x. x \<noteq> i) xs = takeWhile (\<lambda>x. x \<noteq> i) ys"
    unfolding xs using l(2) by (simp add: takeWhile_append1)
  then show "\<not> newer xs (last xs) i" using l(1) set_takeWhileD [of l _ ys] by (auto simp: newer_def xs)
qed

lemma bit_numerals6:
  "bit (0x20 :: u32) b \<longleftrightarrow> b = 5" "bit (0x10 :: u32) b \<longleftrightarrow> b = 4" "bit (0x08 :: u32) b \<longleftrightarrow> b = 3"
  "bit (0x04 :: u32) b \<longleftrightarrow> b = 2" "bit (0x02 :: u32) b \<longleftrightarrow> b = 1" "bit (0x01 :: u32) b \<longleftrightarrow> b = 0"
  using bit_pow2 [of 5 b] bit_pow2 [of 4 b] bit_pow2 [of 3 b] bit_pow2 [of 2 b] bit_pow2 [of 1 b] bit_pow2 [of 0 b]
  by auto

lemma bit_lru_word:
  "bit (lru_word xs) b \<longleftrightarrow> b = 5 \<and> newer xs 1 0 \<or> b = 4 \<and> newer xs 2 0 \<or> b = 3 \<and> newer xs 3 0
     \<or> b = 2 \<and> newer xs 2 1 \<or> b = 1 \<and> newer xs 3 1 \<or> b = 0 \<and> newer xs 3 2"
  unfolding lru_word_def bit_or_iff
  by (cases "newer xs 1 0"; cases "newer xs 2 0"; cases "newer xs 3 0"; cases "newer xs 2 1";
      cases "newer xs 3 1"; cases "newer xs 3 2"; simp only: if_True if_False bit_numerals6 bit_0_eq bot_apply
      simp_thms; auto)

lemma lru_word_small: "unat (lru_word xs) < 64"
proof -
  have eq: "lru_word xs = take_bit 6 (lru_word xs)"
    by (rule bit_word_eqI) (auto simp: bit_take_bit_iff bit_lru_word)
  have "unat (take_bit 6 w) < 64" for w :: u32
    using take_bit_nat_less_exp [of 6 "unat w"] by (simp add: unsigned_take_bit_eq)
  then show ?thesis by (subst eq)
qed

lemma lru_masks:
  "ITLB_LRU_AND 0 = 0x04 OR 0x02 OR 0x01" "ITLB_LRU_AND 1 = 0x20 OR 0x10 OR 0x08 OR 0x01"
  "ITLB_LRU_AND 2 = 0x20 OR 0x10 OR 0x08 OR 0x04 OR 0x02"
  "ITLB_LRU_AND 3 = 0x20 OR 0x10 OR 0x08 OR 0x04 OR 0x02 OR 0x01"
  "ITLB_LRU_OR 0 = 0" "ITLB_LRU_OR 1 = 0x20" "ITLB_LRU_OR 2 = 0x10 OR 0x04" "ITLB_LRU_OR 3 = 0x08 OR 0x02 OR 0x01"
  by (simp_all add: ITLB_LRU_AND_def ITLB_LRU_OR_def)

lemma lru_used_word:
  assumes "e < 4"
  shows "lru_used e (lru_word xs) = lru_word (e # remove1 e xs)"
proof (rule bit_word_eqI)
  fix b assume "b < LENGTH(32)"
  consider "e = 0" | "e = 1" | "e = 2" | "e = 3" using assms by fastforce
  then show "bit (lru_used e (lru_word xs)) b \<longleftrightarrow> bit (lru_word (e # remove1 e xs)) b"
    unfolding lru_used_def bit_lru_word newer_use bit_or_iff bit_and_iff
    by cases (simp_all only: lru_masks bit_or_iff bit_and_iff bit_numerals6 bit_0_eq bot_apply; force)+
qed

text \<open>Which entry a value of \<open>LRUI\<close> names, by its bits.\<close>

lemma and_mask_bits:
  "(w :: u32) AND 0x38 = 0x38 \<longleftrightarrow> bit w 5 \<and> bit w 4 \<and> bit w 3"
  "w AND 0x26 = 0x06 \<longleftrightarrow> \<not> bit w 5 \<and> bit w 2 \<and> bit w 1"
  "w AND 0x15 = 0x01 \<longleftrightarrow> \<not> bit w 4 \<and> \<not> bit w 2 \<and> bit w 0"
  "w AND 0x0B = 0 \<longleftrightarrow> \<not> bit w 3 \<and> \<not> bit w 1 \<and> \<not> bit w 0"
proof -
  have n: "(0x38 :: u32) = 0x20 OR 0x10 OR 0x08" "(0x26 :: u32) = 0x20 OR 0x04 OR 0x02"
    "(0x06 :: u32) = 0x04 OR 0x02" "(0x15 :: u32) = 0x10 OR 0x04 OR 0x01"
    "(0x0B :: u32) = 0x08 OR 0x02 OR 0x01" by simp_all
  have E: "x = y \<longleftrightarrow> (\<forall>n. bit x n \<longleftrightarrow> bit y n)" for x y :: u32 by (auto intro!: bit_word_eqI)
  note bits = bit_or_iff bit_and_iff bit_numerals6 bit_0_eq bot_apply
  show "w AND 0x38 = 0x38 \<longleftrightarrow> bit w 5 \<and> bit w 4 \<and> bit w 3"
    unfolding n E by (simp only: bits) auto
  show "w AND 0x26 = 0x06 \<longleftrightarrow> \<not> bit w 5 \<and> bit w 2 \<and> bit w 1" (is "?l = ?r")
  proof
    assume l: ?l
    have "bit (w AND 0x26) m \<longleftrightarrow> bit (0x06 :: u32) m" for m using l by simp
    from this [of 5] this [of 2] this [of 1] show ?r unfolding n by (simp_all only: bits) simp
  qed (unfold n E, simp only: bits, auto)
  show "w AND 0x15 = 0x01 \<longleftrightarrow> \<not> bit w 4 \<and> \<not> bit w 2 \<and> bit w 0" (is "?l = ?r")
  proof
    assume l: ?l
    have "bit (w AND 0x15) m \<longleftrightarrow> bit (0x01 :: u32) m" for m using l by simp
    from this [of 4] this [of 2] this [of 0] show ?r unfolding n by (simp_all only: bits) simp
  qed (unfold n E, simp only: bits, auto)
  show "w AND 0x0B = 0 \<longleftrightarrow> \<not> bit w 3 \<and> \<not> bit w 1 \<and> \<not> bit w 0"
    unfolding n E by (simp only: bits) (auto intro: gr0I)
qed

lemma lru_choice_word:
  assumes "lru_order xs"
  shows "lru_choice (lru_word xs) = Some (last xs)"
proof -
  have d: "distinct xs" and s: "set xs = {0, 1, 2, 3}" using assms by (simp_all add: lru_order_def)
  have "last xs \<in> set xs" using s by (intro last_in_set) auto
  then consider "last xs = 0" | "last xs = 1" | "last xs = 2" | "last xs = 3" unfolding s by auto
  then show ?thesis
    using newer_last [OF d, of 0] newer_last [OF d, of 1] newer_last [OF d, of 2] newer_last [OF d, of 3]
    unfolding s lru_choice_def and_mask_bits bit_lru_word
    by cases simp_all
qed

lemma LRU_INIT_choice: "\<exists>t. ITLB_LRU_INIT = Some t \<and> (\<forall>i < 64. t i = lru_choice (word_of_nat i))"
proof -
  have row: "fold (lru_row e) [0..<64] (Some t) =
      Some (\<lambda>i. if i < 64 \<and> word_of_nat i AND msk = key then Some e else t i)"
    if "NOT (ITLB_LRU_AND e) AND 0x3F = key" "key OR ITLB_LRU_OR e = msk"
      "\<And>i. word_of_nat i AND msk = key \<Longrightarrow> t i = None" for e t key msk
    by (rule lru_row_fold [of 64 key e t, unfolded that(2)]) (auto intro: that(3) simp: that(1))
  define t0 :: "nat \<Rightarrow> nat option" where "t0 = (\<lambda>_. None)"
  define t1 where "t1 = (\<lambda>i. if i < 64 \<and> (word_of_nat i :: u32) AND 0x38 = 0x38 then Some 0 else t0 i)"
  define t2 where "t2 = (\<lambda>i. if i < 64 \<and> (word_of_nat i :: u32) AND 0x26 = 0x06 then Some 1 else t1 i)"
  define t3 where "t3 = (\<lambda>i. if i < 64 \<and> (word_of_nat i :: u32) AND 0x15 = 0x01 then Some 2 else t2 i)"
  define t4 where "t4 = (\<lambda>i. if i < 64 \<and> (word_of_nat i :: u32) AND 0x0B = 0 then Some 3 else t3 i)"
  have k0: "NOT (ITLB_LRU_AND 0) AND 0x3F = 0x38" "0x38 OR ITLB_LRU_OR 0 = 0x38"
    by (simp_all add: ITLB_LRU_AND_def ITLB_LRU_OR_def)
  have k1: "NOT (ITLB_LRU_AND 1) AND 0x3F = 0x06" "0x06 OR ITLB_LRU_OR 1 = 0x26"
    by (simp_all add: ITLB_LRU_AND_def ITLB_LRU_OR_def)
  have k2: "NOT (ITLB_LRU_AND 2) AND 0x3F = 0x01" "0x01 OR ITLB_LRU_OR 2 = 0x15"
    by (simp_all add: ITLB_LRU_AND_def ITLB_LRU_OR_def)
  have k3: "NOT (ITLB_LRU_AND 3) AND 0x3F = 0" "0 OR ITLB_LRU_OR 3 = 0x0B"
    by (simp_all add: ITLB_LRU_AND_def ITLB_LRU_OR_def)
  have r0: "fold (lru_row 0) [0..<64] (Some t0) = Some t1"
    unfolding t1_def by (rule row [OF k0]) (simp add: t0_def lru_rows_disjoint)
  have r1: "fold (lru_row 1) [0..<64] (Some t1) = Some t2"
    unfolding t2_def by (rule row [OF k1]) (simp add: t0_def t1_def lru_rows_disjoint)
  have r2: "fold (lru_row 2) [0..<64] (Some t2) = Some t3"
    unfolding t3_def by (rule row [OF k2]) (simp add: t0_def t1_def t2_def lru_rows_disjoint)
  have r3: "fold (lru_row 3) [0..<64] (Some t3) = Some t4"
    unfolding t4_def by (rule row [OF k3]) (simp add: t0_def t1_def t2_def t3_def lru_rows_disjoint)
  have four: "[0..<4] = [0, 1, 2, 3::nat]" by (simp add: upt_rec)
  have "ITLB_LRU_INIT = Some t4"
    unfolding ITLB_LRU_INIT_def four t0_def [symmetric] by (simp only: fold_simps id_apply r0 r1 r2 r3)
  moreover have "t4 i = lru_choice (word_of_nat i)" if "i < 64" for i
    using that by (auto simp: t4_def t3_def t2_def t1_def t0_def lru_choice_def lru_rows_disjoint)
  ultimately show ?thesis by blast
qed

lemma ITLB_LRU_USE_choice: "unat x < 64 \<Longrightarrow> ITLB_LRU_USE x = lru_choice x"
proof -
  assume x: "unat x < 64"
  obtain t where t: "ITLB_LRU_INIT = Some t" "\<forall>i < 64. t i = lru_choice (word_of_nat i)"
    using LRU_INIT_choice by blast
  show ?thesis unfolding ITLB_LRU_USE_def t(1) using x t(2) by simp
qed

lemma lru_word_take: "take_bit 6 (lru_word xs) = lru_word xs"
  by (rule bit_word_eqI) (auto simp: bit_take_bit_iff bit_lru_word)

lemma LRUI_set: "MMUCR_LRUI (set_MMUCR_LRUI x m) = take_bit 6 x"
  by (simp add: mmu_fields get_set_field_same)

text \<open>The bits of \<open>MMUCR\<close> represent an order of the entries.\<close>

definition lru_rel :: "nat list \<Rightarrow> 'z mmu_st_scheme \<Rightarrow> bool" where
  "lru_rel xs s \<longleftrightarrow> lru_order xs \<and> MMUCR_LRUI (CCN_MMUCR s) = lru_word xs"

lemma lru_rel_use:
  assumes "lru_rel xs s" "e < 4"
  shows "lru_rel (e # remove1 e xs) (use_itlb e s)"
proof -
  have "e = 0 \<or> e = 1 \<or> e = 2 \<or> e = 3" using assms(2) by auto
  then have "lru_order (e # remove1 e xs)"
    using assms(1) by (auto simp: lru_rel_def lru_order_def)
  moreover have "MMUCR_LRUI (CCN_MMUCR (use_itlb e s)) =
      take_bit 6 (lru_used e (MMUCR_LRUI (CCN_MMUCR s)))"
    by (simp add: use_itlb_def Let_def LRUI_set lru_used_def take_bit_or)
  ultimately show ?thesis
    using assms by (simp add: lru_rel_def lru_used_word lru_word_take)
qed

lemma lru_rel_victim: "lru_rel xs s \<Longrightarrow> ITLB_LRU_USE (MMUCR_LRUI (CCN_MMUCR s)) = Some (last xs)"
  by (simp add: lru_rel_def ITLB_LRU_USE_choice lru_word_small lru_choice_word)

lemma lru_order_last: "lru_order xs \<Longrightarrow> last xs < 4"
proof -
  assume "lru_order xs"
  then have "xs \<noteq> []" "set xs = {0, 1, 2, 3}" by (auto simp: lru_order_def)
  from last_in_set [OF this(1)] this(2) show ?thesis by auto
qed

subsection \<open>Instruction fetches\<close>

text \<open>A hit, and the second pass after a refill.\<close>

lemma instruction_lookup_hit:
  assumes "hits va (ITLB s) 4 s = [e]"
  shows "instruction_lookup mmach va rv s = Inr ((NONE, Some e, tlb_translate (ITLB s e) va), use_itlb e s)"
  using assms by (subst instruction_lookup.simps) (simp add: tlb_loop_search itlb_match_eq hits_def)

lemma instruction_lookup_multi:
  assumes "hits va (ITLB s) 4 s = e # e' # es"
  shows "instruction_lookup mmach va rv s = Inr ((TLB_MHIT, Some e, tlb_translate (ITLB s e) va), s)"
  using assms by (subst instruction_lookup.simps) (simp add: tlb_loop_search itlb_match_eq hits_def)

lemma instruction_lookup_refill:
  assumes "hits va (ITLB s) 4 s = []" "lru_rel xs s"
  obtains m where "MMUCR_SV m = MMUCR_SV (CCN_MMUCR s)" "lru_rel xs (s\<lparr>CCN_MMUCR := m\<rparr>)"
    "instruction_lookup False va rv s =
       (case hits va (UTLB s) 64 s of
          [] \<Rightarrow> Inr ((TLB_MISS, None, rv), s\<lparr>CCN_MMUCR := m\<rparr>)
        | [i] \<Rightarrow> Inr ((NONE, Some (last xs), tlb_translate (UTLB s i) va),
            use_itlb (last xs) (s\<lparr>CCN_MMUCR := m, ITLB := (ITLB s)(last xs := UTLB s i)\<rparr>))
        | i # _ \<Rightarrow> Inr ((TLB_MHIT, None, tlb_translate (UTLB s i) va), s\<lparr>CCN_MMUCR := m\<rparr>))"
proof -
  obtain s2 where look: "mmu_full_lookup va rv s =
     ((case hits va (UTLB s) 64 s of
        [] \<Rightarrow> (TLB_MISS, None, rv)
      | [i] \<Rightarrow> (NONE, Some i, tlb_translate (UTLB s i) va)
      | i # _ \<Rightarrow> (TLB_MHIT, Some i, tlb_translate (UTLB s i) va)), s2)"
    and s2: "\<exists>m. s2 = s\<lparr>CCN_MMUCR := m\<rparr> \<and> MMUCR_SV m = MMUCR_SV (CCN_MMUCR s)
       \<and> MMUCR_LRUI m = MMUCR_LRUI (CCN_MMUCR s)"
    by (rule full_lookup_search)
  then obtain m where m: "s2 = s\<lparr>CCN_MMUCR := m\<rparr>" "MMUCR_SV m = MMUCR_SV (CCN_MMUCR s)"
    "MMUCR_LRUI m = MMUCR_LRUI (CCN_MMUCR s)" by blast
  have rel: "lru_rel xs s2" using assms(2) m by (simp add: lru_rel_def)
  have k: "last xs < 4" using assms(2) by (simp add: lru_rel_def lru_order_last)
  have second: "instruction_lookup True va rv2 (s2\<lparr>ITLB := (ITLB s2)(last xs := UTLB s i)\<rparr>) =
      Inr ((NONE, Some (last xs), tlb_translate (UTLB s i) va),
        use_itlb (last xs) (s2\<lparr>ITLB := (ITLB s2)(last xs := UTLB s i)\<rparr>))"
    if i: "hits va (UTLB s) 64 s = [i]" for i rv2
  proof -
    let ?s3 = "s2\<lparr>ITLB := (ITLB s2)(last xs := UTLB s i)\<rparr>"
    have eq: "mmu_match va e ?s3 = mmu_match va e s" for e
      by (rule mmu_match_cong) (simp_all add: m)
    have "hits va (ITLB ?s3) 4 ?s3 = [last xs]"
      using assms(1) hits_single [OF i] by (intro hits_unique k, unfold eq) (simp add: hits_empty m(1))
    from instruction_lookup_hit [OF this] show ?thesis by simp
  qed
  have first: "tlb_loop (ITLB s) (\<lambda>e. itlb_match va e s) va [0..<4] None rv = (NONE, None, rv)"
    using assms(1) by (simp add: tlb_loop_search itlb_match_eq hits_def)
  show ?thesis
  proof (rule that [of m])
    show "MMUCR_SV m = MMUCR_SV (CCN_MMUCR s)" by (rule m(2))
    show "lru_rel xs (s\<lparr>CCN_MMUCR := m\<rparr>)" using rel by (simp add: m(1))
    show "instruction_lookup False va rv s =
       (case hits va (UTLB s) 64 s of
          [] \<Rightarrow> Inr ((TLB_MISS, None, rv), s\<lparr>CCN_MMUCR := m\<rparr>)
        | [i] \<Rightarrow> Inr ((NONE, Some (last xs), tlb_translate (UTLB s i) va),
            use_itlb (last xs) (s\<lparr>CCN_MMUCR := m, ITLB := (ITLB s)(last xs := UTLB s i)\<rparr>))
        | i # _ \<Rightarrow> Inr ((TLB_MHIT, None, tlb_translate (UTLB s i) va), s\<lparr>CCN_MMUCR := m\<rparr>))"
      using second lru_rel_victim [OF rel] look
      by (subst instruction_lookup.simps) (simp add: first m(1) split: list.splits)
  qed
qed

subsection \<open>A machine to evaluate on\<close>

text \<open>One valid page of 4 KB at \<open>0x00401000\<close>, of address space 5, writable by the user.\<close>

definition mmu_one :: mmu_st where
  "mmu_one = intc_st.extend intc_zero (mmu_st.fields
     (\<lambda>i. if i = 0 then \<lparr>Address = 0x00401005, Data = 0x0C001174, Assistance = 0\<rparr>
          else \<lparr>Address = 0, Data = 0, Assistance = 0\<rparr>)
     (\<lambda>i. \<lparr>Address = 0, Data = 0, Assistance = 0\<rparr>) (\<lambda>i. 0) True 5 0 0 0 1 0 0)"

lemma mmu_one_simps:
  "UTLB mmu_one = (\<lambda>i. if i = 0 then \<lparr>Address = 0x00401005, Data = 0x0C001174, Assistance = 0\<rparr>
          else \<lparr>Address = 0, Data = 0, Assistance = 0\<rparr>)"
  "ITLB mmu_one = (\<lambda>i. \<lparr>Address = 0, Data = 0, Assistance = 0\<rparr>)"
  "CCN_PTEH mmu_one = 5" "CCN_MMUCR mmu_one = 1" "sr mmu_one = \<lparr>status = 0x40000000, sr_T = 0\<rparr>"
  by (simp_all add: mmu_one_def intc_st.defs mmu_st.defs intc_zero_sr)

lemma mmu_match_invalid: "Data e = 0 \<Longrightarrow> \<not> mmu_match va e s"
  by (simp add: mmu_match_def mmu_fields get_field_def)

lemma mmu_one_match: "mmu_match 0x00401234 (UTLB mmu_one j) mmu_one \<longleftrightarrow> j = 0"
  by (simp add: mmu_match_invalid mmu_one_simps)
    (simp add: mmu_match_def mmu_fields get_field_def Let_def mmu_mask_def mmu_one_simps)

lemma mmu_one_hits: "hits 0x00401234 (UTLB mmu_one) 64 mmu_one = [0]" "hits va (ITLB mmu_one) 4 mmu_one = []"
  by (rule hits_unique) (simp_all add: mmu_one_match, simp add: hits_empty mmu_one_simps mmu_match_invalid)

lemma mmu_one_lru: "lru_rel [0, 1, 2, 3] mmu_one"
  by (simp add: lru_rel_def lru_order_def mmu_one_simps mmu_fields get_field_def lru_word_def newer_def)

section \<open>Properties of the memory management unit\<close>

text \<open>C14: Instruction translation never trips its assertions, ends after at most one refill, and
  replaces the least recently used of the four entries. While the six bits of \<open>MMUCR\<close> encode the
  order of last use, a lookup either finds the only matching entry, or copies the only matching
  entry of the big buffer over the entry used longest ago; in both cases the bits then encode the
  order with that entry in front. An error changes neither buffer nor order.\<close>

theorem instruction_lookup_LRU:
  assumes "lru_rel xs s"
  shows "\<exists>err found pa s'. mmu_instruction_lookup va rv s = Inr ((err, found, pa), s')
    \<and> (err = NONE \<longrightarrow> (\<exists>e < 4. found = Some e \<and> lru_rel (e # remove1 e xs) s'
        \<and> mmu_match va (ITLB s' e) s \<and> pa = tlb_translate (ITLB s' e) va
        \<and> (ITLB s' = ITLB s \<or> e = last xs \<and> (\<exists>i < 64. ITLB s' = (ITLB s)(e := UTLB s i)))))
    \<and> (err \<noteq> NONE \<longrightarrow> lru_rel xs s' \<and> ITLB s' = ITLB s)"
proof (cases "hits va (ITLB s) 4 s")
  case Nil
  have k: "last xs < 4" using assms by (simp add: lru_rel_def lru_order_last)
  obtain m where m: "MMUCR_SV m = MMUCR_SV (CCN_MMUCR s)" "lru_rel xs (s\<lparr>CCN_MMUCR := m\<rparr>)"
    "instruction_lookup False va rv s =
       (case hits va (UTLB s) 64 s of
          [] \<Rightarrow> Inr ((TLB_MISS, None, rv), s\<lparr>CCN_MMUCR := m\<rparr>)
        | [i] \<Rightarrow> Inr ((NONE, Some (last xs), tlb_translate (UTLB s i) va),
            use_itlb (last xs) (s\<lparr>CCN_MMUCR := m, ITLB := (ITLB s)(last xs := UTLB s i)\<rparr>))
        | i # _ \<Rightarrow> Inr ((TLB_MHIT, None, tlb_translate (UTLB s i) va), s\<lparr>CCN_MMUCR := m\<rparr>))"
    by (rule instruction_lookup_refill [OF Nil assms])
  have rel: "lru_rel xs (s\<lparr>CCN_MMUCR := m, ITLB := t\<rparr>)" for t using m(2) by (simp add: lru_rel_def)
  consider "hits va (UTLB s) 64 s = []" | i where "hits va (UTLB s) 64 s = [i]"
    | i j js where "hits va (UTLB s) 64 s = i # j # js" by (metis list.exhaust)
  then show ?thesis
  proof cases
    case 1
    then show ?thesis using m(2,3) by (simp add: mmu_instruction_lookup_def)
  next
    case (2 i)
    let ?s' = "use_itlb (last xs) (s\<lparr>CCN_MMUCR := m, ITLB := (ITLB s)(last xs := UTLB s i)\<rparr>)"
    have i: "ITLB ?s' = (ITLB s)(last xs := UTLB s i)" by (simp add: use_itlb_def Let_def)
    from hits_single [OF 2] lru_rel_use [OF rel k] k m(3) show ?thesis
      by (simp add: mmu_instruction_lookup_def 2 i) blast
  next
    case (3 i j js)
    then show ?thesis using m(2,3) by (simp add: mmu_instruction_lookup_def)
  qed
next
  case (Cons e es)
  show ?thesis
  proof (cases es)
    case Nil
    with Cons have h: "hits va (ITLB s) 4 s = [e]" by simp
    show ?thesis
      unfolding mmu_instruction_lookup_def instruction_lookup_hit [OF h]
      using hits_single [OF h] lru_rel_use [OF assms] by (simp add: use_itlb_def Let_def)
  next
    case (Cons e' es')
    with \<open>hits va (ITLB s) 4 s = e # es\<close> have h: "hits va (ITLB s) 4 s = e # e' # es'" by simp
    show ?thesis
      unfolding mmu_instruction_lookup_def instruction_lookup_multi [OF h] using assms by simp
  qed
qed

theorem instruction_lookup_LRU_witness:
  "\<exists>found s'. mmu_instruction_lookup 0x00401234 0 mmu_one = Inr ((NONE, found, 0x0C001234), s')"
proof -
  obtain err found pa s' where r: "mmu_instruction_lookup 0x00401234 0 mmu_one = Inr ((err, found, pa), s')"
    "err = NONE \<longrightarrow> (\<exists>e < 4. found = Some e \<and> lru_rel (e # remove1 e [0, 1, 2, 3]) s'
        \<and> mmu_match 0x00401234 (ITLB s' e) mmu_one \<and> pa = tlb_translate (ITLB s' e) 0x00401234
        \<and> (ITLB s' = ITLB mmu_one \<or> e = last [0, 1, 2, 3] \<and> (\<exists>i < 64. ITLB s' = (ITLB mmu_one)(e := UTLB mmu_one i))))"
    using instruction_lookup_LRU [OF mmu_one_lru, of "0x00401234" 0] by blast
  obtain m where m: "instruction_lookup False 0x00401234 0 mmu_one =
      Inr ((NONE, Some 3, tlb_translate (UTLB mmu_one 0) 0x00401234), m)"
    using instruction_lookup_refill [OF mmu_one_hits(2) mmu_one_lru, of "0x00401234" 0]
    by (fastforce simp: mmu_one_hits(1))
  then have "pa = tlb_translate (UTLB mmu_one 0) 0x00401234" "err = NONE"
    using r(1) by (simp_all add: mmu_instruction_lookup_def)
  with r show ?thesis by (simp add: tlb_translate_def Let_def mmu_fields get_field_def mmu_mask_def mmu_one_simps)
qed

lemma user_lut:
  assumes "va AND 0x80000000 = 0"
  shows "fast_reg_lut (drop_bit 29 va) = 0"
proof -
  have "\<not> bit va 31" using assms and_eq_bit [of va "0x80000000" 0 31] by simp
  then have "drop_bit 29 va = take_bit 2 (drop_bit 29 va)"
    by (intro bit_word_eqI) (auto simp: bit_simps less_Suc_eq numeral_2_eq_2 dest: bit_imp_le_length)
  moreover have "unat (take_bit 2 w) < 4" for w :: u32
    using take_bit_nat_less_exp [of 2 "unat w"] by (simp add: unsigned_take_bit_eq)
  ultimately have "unat (drop_bit 29 va) < 4" by metis
  then have "unat (drop_bit 29 va) = 0 \<or> unat (drop_bit 29 va) = 1 \<or> unat (drop_bit 29 va) = 2
      \<or> unat (drop_bit 29 va) = 3" by linarith
  then show ?thesis unfolding fast_reg_lut_def by (elim disjE) simp_all
qed

text \<open>C15: User mode cannot reach memory it has no right to. A data access that translates in user
  mode, outside of the store queues and the on-chip memory, is below \<open>0x80000000\<close> and goes through the one
  valid entry that maps its page; the entry belongs to the current address space or is shared, is
  open to the user, and for a write is writable and already marked dirty. The address keeps its
  offset in the page.\<close>

theorem user_isolation:
  assumes "mmu_data_translation am va rv s = ((NONE, pa), s')" "sr_MD (status (sr s)) = 0"
    and "va AND 0xFC000000 \<noteq> 0xE0000000" "va AND 0xFC000000 \<noteq> 0x7C000000"
  shows "va AND 0x80000000 = 0 \<and> (\<exists>i < 64. let e = UTLB s i; msk = mmu_mask (PTEL_SZ (Data e)) in
      (\<forall>j < 64. mmu_match va (UTLB s j) s \<longleftrightarrow> j = i)
    \<and> PTEL_V (Data e) \<noteq> 0 \<and> push_bit 10 (PTEH_VPN (Address e)) AND msk = va AND msk
    \<and> (PTEL_SH (Data e) \<noteq> 0 \<or> PTEH_ASID (Address e) = PTEH_ASID (CCN_PTEH s))
    \<and> drop_bit 1 (PTEL_PR (Data e)) \<noteq> 0
    \<and> (am = MMU_TT_DWRITE \<longrightarrow> PTEL_PR (Data e) AND 1 \<noteq> 0 \<and> PTEL_D (Data e) \<noteq> 0)
    \<and> (pa = tlb_translate e va \<or> pa = tlb_translate e va OR 0xF0000000))"
proof -
  have user: "va AND 0x80000000 = 0"
    using assms by (auto simp: mmu_data_translation_def split: if_splits)
  note lut = user_lut [OF user]
  have dl: "data_lookup am va rv s = ((NONE, pa), s')"
    using assms user lut by (simp add: mmu_data_translation_def split: if_splits)
  obtain s2 where look: "mmu_full_lookup va rv s =
     ((case hits va (UTLB s) 64 s of
        [] \<Rightarrow> (TLB_MISS, None, rv)
      | [i] \<Rightarrow> (NONE, Some i, tlb_translate (UTLB s i) va)
      | i # _ \<Rightarrow> (TLB_MHIT, Some i, tlb_translate (UTLB s i) va)), s2)"
    and s2: "\<exists>m. s2 = s\<lparr>CCN_MMUCR := m\<rparr> \<and> MMUCR_SV m = MMUCR_SV (CCN_MMUCR s)
       \<and> MMUCR_LRUI m = MMUCR_LRUI (CCN_MMUCR s)"
    by (rule full_lookup_search)
  then obtain i where h: "hits va (UTLB s) 64 s = [i]"
    using dl by (auto simp: data_lookup_def split: list.splits)
  have u: "UTLB s2 = UTLB s" "sr s2 = sr s" using s2 by auto
  have one: "i < 64" "\<forall>j < 64. mmu_match va (UTLB s j) s \<longleftrightarrow> j = i" "mmu_match va (UTLB s i) s"
    using hits_single [OF h] by auto
  from one(3) have m: "PTEL_V (Data (UTLB s i)) \<noteq> 0"
    "push_bit 10 (PTEH_VPN (Address (UTLB s i))) AND mmu_mask (PTEL_SZ (Data (UTLB s i)))
       = va AND mmu_mask (PTEL_SZ (Data (UTLB s i)))"
    "PTEL_SH (Data (UTLB s i)) \<noteq> 0 \<or> PTEH_ASID (Address (UTLB s i)) = PTEH_ASID (CCN_PTEH s)"
    using assms(2) by (auto simp: mmu_match_def Let_def split: if_splits)
  from dl have p: "drop_bit 1 (PTEL_PR (Data (UTLB s i))) \<noteq> 0"
    "am = MMU_TT_DWRITE \<longrightarrow> PTEL_PR (Data (UTLB s i)) AND 1 \<noteq> 0 \<and> PTEL_D (Data (UTLB s i)) \<noteq> 0"
    "pa = tlb_translate (UTLB s i) va \<or> pa = tlb_translate (UTLB s i) va OR 0xF0000000"
    using assms(2) by (auto simp: data_lookup_def look h u Let_def split: if_splits)
  show ?thesis
    using user one(1,2) m p by (intro conjI exI [of _ i]) (simp_all add: Let_def)
qed

definition mmu_user :: mmu_st where
  "mmu_user = mmu_one\<lparr>sr := \<lparr>status = 0, sr_T = 0\<rparr>\<rparr>"

lemma mmu_user_simps:
  "UTLB mmu_user = UTLB mmu_one" "sr mmu_user = \<lparr>status = 0, sr_T = 0\<rparr>" "CCN_PTEH mmu_user = 5" "CCN_MMUCR mmu_user = 1"
  by (simp_all add: mmu_user_def mmu_one_simps)

lemma mmu_user_match: "mmu_match 0x00401234 (UTLB mmu_one j) mmu_user \<longleftrightarrow> j = 0"
  by (simp add: mmu_match_invalid mmu_one_simps)
    (simp add: mmu_match_def mmu_fields get_field_def Let_def mmu_mask_def mmu_user_simps)

lemma mmu_user_hits: "hits 0x00401234 (UTLB mmu_user) 64 mmu_user = [0]"
  by (rule hits_unique) (simp_all add: mmu_user_match mmu_user_simps)

theorem user_isolation_witness:
  "\<exists>i < 64. drop_bit 1 (PTEL_PR (Data (UTLB mmu_user i))) \<noteq> 0 \<and> mmu_match 0x00401234 (UTLB mmu_user i) mmu_user"
proof -
  have sr: "sr_MD (status (sr mmu_user)) = 0" by (simp add: mmu_user_simps field_defs get_field_def)
  obtain s2 where look: "mmu_full_lookup 0x00401234 0 mmu_user =
      ((NONE, Some 0, tlb_translate (UTLB mmu_user 0) 0x00401234), s2)"
    and s2: "\<exists>m. s2 = mmu_user\<lparr>CCN_MMUCR := m\<rparr> \<and> MMUCR_SV m = MMUCR_SV (CCN_MMUCR mmu_user)
       \<and> MMUCR_LRUI m = MMUCR_LRUI (CCN_MMUCR mmu_user)"
    using full_lookup_search [of "0x00401234" 0 mmu_user, unfolded mmu_user_hits list.case] by metis
  then have u: "UTLB s2 = UTLB mmu_user" "sr s2 = sr mmu_user" by auto
  have u0: "UTLB mmu_user 0 = \<lparr>Address = 0x00401005, Data = 0x0C001174, Assistance = 0\<rparr>"
    by (simp add: mmu_user_simps mmu_one_simps)
  have pa: "tlb_translate (UTLB mmu_user 0) 0x00401234 = 0x0C001234"
    by (simp add: u0 mmu_fields get_field_def tlb_translate_def mmu_mask_def)
  have pr: "PTEL_PR (Data (UTLB mmu_user 0)) = 3" "PTEL_D (Data (UTLB mmu_user 0)) = 1"
    by (simp_all add: u0 mmu_fields get_field_def)
  have "mmu_data_translation MMU_TT_DWRITE 0x00401234 0 mmu_user = ((NONE, 0x0C001234), s2)"
    by (simp add: mmu_data_translation_def data_lookup_def look u pa pr fast_reg_lut_def)
  from user_isolation [OF this sr] show ?thesis by (auto simp: Let_def)
qed

lemma PTEL_SZ_cases: "PTEL_SZ v = 0 \<or> PTEL_SZ v = 1 \<or> PTEL_SZ v = 2 \<or> PTEL_SZ v = 3"
  by (cases "bit v 7"; cases "bit v 4") (simp_all add: PTEL_SZ_def get_field1_eq)

text \<open>The page masks keep the upper 22 bits at most.\<close>

lemma mmu_mask_page: "(va AND - 1024) AND mmu_mask (PTEL_SZ v) = va AND mmu_mask (PTEL_SZ v)"
  using PTEL_SZ_cases [of v]
  by (elim disjE; simp add: mmu_mask_def and.assoc)

lemma page_of_address: "push_bit 10 (PTEH_VPN (set_PTEH_VPN (drop_bit 10 va) x)) = va AND - 1024"
proof -
  have "PTEH_VPN (set_PTEH_VPN (drop_bit 10 va) x) = drop_bit 10 va"
    by (rule bit_word_eqI) (auto simp: PTEH_VPN_def set_PTEH_VPN_def field_bits bit_simps dest: bit_imp_le_length)
  moreover have "push_bit 10 (drop_bit 10 va) = va AND NOT (mask 10)"
    by (rule bit_word_eqI) (auto simp: bit_simps)
  ultimately show ?thesis by (simp add: mask_eq_exp_minus_1)
qed

lemma ASID_of_VPN: "PTEH_ASID (set_PTEH_VPN x v) = PTEH_ASID v"
  by (simp add: PTEH_ASID_def set_PTEH_VPN_def get_set_field_other)

lemma URC_less: "unat (MMUCR_URC m) < 64"
  using take_bit_nat_less_exp [of 6 "unat (drop_bit 10 m)"]
  by (simp add: MMUCR_URC_def get_field_def unsigned_take_bit_eq)

text \<open>C16: A page miss can be repaired. After the exception of a miss, which leaves the page in
  \<open>PTEH\<close>, loading a valid page entry with \<open>ldtlb\<close> makes the address translate, to the page and offset
  the entry says, whatever the size of the page; the entry replaced is the one \<open>URC\<close> points to.\<close>

theorem TLB_refill:
  assumes "\<forall>i < 64. \<not> mmu_match va (UTLB s i) s" "PTEL_V d \<noteq> 0"
    and "s1 = snd (mmuException TLB_MISS va am s)"
  shows "\<exists>s3. mmu_full_lookup va rv (ldtlb (s1\<lparr>CCN_PTEL := d\<rparr>)) =
    ((NONE, Some (unat (MMUCR_URC (CCN_MMUCR s))),
      (push_bit 10 (PTEL_PPN d) AND mmu_mask (PTEL_SZ d)) OR (va AND NOT (mmu_mask (PTEL_SZ d)))), s3)"
proof -
  let ?i = "unat (MMUCR_URC (CCN_MMUCR s))" and ?p = "set_PTEH_VPN (drop_bit 10 va) (CCN_PTEH s)"
  let ?e = "\<lparr>Address = ?p, Data = d, Assistance = CCN_PTEA s\<rparr>"
  define s2 where "s2 = ldtlb (s1\<lparr>CCN_PTEL := d\<rparr>)"
  have s2: "UTLB s2 = (UTLB s)(?i := ?e)" "sr s2 = sr s" "CCN_PTEH s2 = ?p" "CCN_MMUCR s2 = CCN_MMUCR s"
    by (simp_all add: s2_def assms(3) mmuException_def ldtlb_def UTLB_Sync_def Let_def)
  have eq: "mmu_match va e s2 = mmu_match va e s" for e
    by (simp add: mmu_match_def s2 ASID_of_VPN)
  have "mmu_match va ?e s"
    using assms(2) by (simp add: mmu_match_def Let_def page_of_address mmu_mask_page ASID_of_VPN)
  then have h: "hits va (UTLB s2) 64 s2 = [?i]"
    using assms(1) by (intro hits_unique URC_less, unfold eq) (simp add: s2)
  show ?thesis
    using full_lookup_search [of va rv s2, unfolded h list.case]
    by (simp only: s2_def [symmetric] s2 fun_upd_same tlb_translate_def Let_def tlb_entry.simps) metis
qed

theorem TLB_refill_witness:
  "\<exists>s3. mmu_full_lookup 0x12345678 0
    (ldtlb ((snd (mmuException TLB_MISS 0x12345678 MMU_TT_DREAD mmu_one))\<lparr>CCN_PTEL := 0x0C200174\<rparr>))
      = ((NONE, Some 0, 0x0C200678), s3)"
proof -
  have "\<not> mmu_match 0x12345678 (UTLB mmu_one i) mmu_one" for i
    by (cases "i = 0") (simp_all add: mmu_one_simps mmu_match_invalid,
      simp add: mmu_match_def mmu_fields get_field_def Let_def mmu_mask_def mmu_one_simps)
  then show ?thesis
    using TLB_refill [of "0x12345678" mmu_one "0x0C200174" _ MMU_TT_DREAD 0, OF _ _ refl]
    by (simp add: mmu_fields get_field_def mmu_mask_def mmu_one_simps)
qed

text \<open>C17: Only 24 of the 64 values of \<open>LRUI\<close> encode an order. A program that writes the value 17
  into \<open>MMUCR\<close> makes the assertion on the replacement table fail at the next instruction fetch that
  misses the small buffer and hits the big one.\<close>

theorem forbidden_LRUI_aborts:
  assumes "\<forall>i < 4. \<not> mmu_match va (ITLB s i) s" "k < 64" "\<forall>i < 64. mmu_match va (UTLB s i) s \<longleftrightarrow> i = k"
    and "v AND 0xfcfcff05 = v" "MMUCR_LRUI v = 17" "MMUCR_TI v = 0"
    and "MMUCR_SV v = MMUCR_SV (CCN_MMUCR s)" "MMUCR_AT v = MMUCR_AT (CCN_MMUCR s)"
  shows "mmu_instruction_lookup va rv (CCN_MMUCR_write wince v s) = Inl AssertFailed"
proof -
  let ?s = "s\<lparr>CCN_MMUCR := v\<rparr>"
  have w: "CCN_MMUCR_write wince v s = ?s" using assms by (simp add: CCN_MMUCR_write_def Let_def)
  have eq: "mmu_match va e ?s = mmu_match va e s" for e by (rule mmu_match_cong) (simp_all add: assms)
  have h4: "hits va (ITLB ?s) 4 ?s = []" using assms(1) by (simp add: hits_empty eq)
  have h64: "hits va (UTLB ?s) 64 ?s = [k]" using assms(2,3) by (intro hits_unique) (simp_all add: eq)
  obtain s2 where look: "mmu_full_lookup va rv ?s = ((NONE, Some k, tlb_translate (UTLB ?s k) va), s2)"
    and ex: "\<exists>m. s2 = ?s\<lparr>CCN_MMUCR := m\<rparr> \<and> MMUCR_SV m = MMUCR_SV (CCN_MMUCR ?s)
       \<and> MMUCR_LRUI m = MMUCR_LRUI (CCN_MMUCR ?s)"
    by (rule full_lookup_search [of va rv ?s, unfolded h64 list.case])
  have s2: "MMUCR_LRUI (CCN_MMUCR s2) = 17" using ex assms(5) by auto
  have none: "ITLB_LRU_USE 17 = None" by (simp add: ITLB_LRU_USE_choice lru_choice_def)
  have first: "tlb_loop (ITLB ?s) (\<lambda>e. itlb_match va e ?s) va [0..<4] None rv = (NONE, None, rv)"
    using h4 unfolding tlb_loop_search itlb_match_eq hits_def by simp
  show ?thesis
    unfolding w mmu_instruction_lookup_def
    by (subst instruction_lookup.simps, simp only: first look s2 none prod.case option.case simp_thms if_False
        mmu_error.simps)
qed

theorem forbidden_LRUI_aborts_witness:
  "mmu_instruction_lookup 0x00401234 0 (CCN_MMUCR_write False 0x44000001 mmu_one) = Inl AssertFailed"
  by (rule forbidden_LRUI_aborts [of _ _ 0])
    (simp_all add: mmu_one_match, simp_all add: mmu_one_simps mmu_match_invalid mmu_fields get_field_def)

end
