(* ===== verification/Sh4_Irq_Lines.thy ===== *)
theory Sh4_Irq_Lines
  imports Sh4_Interrupts
begin

section \<open>Interrupt lines\<close>

text \<open>
  What a device relies on when it drives interrupt lines of the SH4 with \<open>InterruptPend\<close> of
  \<open>core/hw/sh4/sh4_interrupts.cpp\<close>: a line keeps the level it was last driven to, driving one line
  leaves the others alone, and the controller stays well formed. The interface is interpreted on
  the model of the controller; the system bus and the DMA controller are its clients.
\<close>

locale irq_lines =
  fixes drive :: "nat \<Rightarrow> bool \<Rightarrow> 's \<Rightarrow> 's" and level :: "'s \<Rightarrow> nat \<Rightarrow> bool"
    and ok :: "'s \<Rightarrow> bool" and lines :: "nat set"
  assumes ok_drive: "ok s \<Longrightarrow> i \<in> lines \<Longrightarrow> ok (drive i v s)"
    and level_same: "ok s \<Longrightarrow> i \<in> lines \<Longrightarrow> level (drive i v s) i = v"
    and level_other: "ok s \<Longrightarrow> i \<in> lines \<Longrightarrow> j \<in> lines \<Longrightarrow> j \<noteq> i \<Longrightarrow> level (drive i v s) j = level s j"
begin

lemma level_drive:
  "ok s \<Longrightarrow> i \<in> lines \<Longrightarrow> j \<in> lines \<Longrightarrow> level (drive i v s) j = (if j = i then v else level s j)"
  by (simp add: level_same level_other)

text \<open>Several lines driven one after the other.\<close>

primrec drive_all :: "(nat \<times> bool) list \<Rightarrow> 's \<Rightarrow> 's" where
  "drive_all [] s = s"
| "drive_all (iv # ivs) s = drive_all ivs (drive (fst iv) (snd iv) s)"

lemma ok_drive_all: "ok s \<Longrightarrow> fst ` set ivs \<subseteq> lines \<Longrightarrow> ok (drive_all ivs s)"
  by (induction ivs arbitrary: s) (simp_all add: ok_drive)

lemma level_drive_all:
  "ok s \<Longrightarrow> fst ` set ivs \<subseteq> lines \<Longrightarrow> distinct (map fst ivs) \<Longrightarrow> j \<in> lines
     \<Longrightarrow> level (drive_all ivs s) j = (case map_of ivs j of Some v \<Rightarrow> v | None \<Rightarrow> level s j)"
proof (induction ivs arbitrary: s)
  case (Cons iv ivs)
  have "j = fst iv \<Longrightarrow> map_of ivs j = None" using Cons.prems(3) by (simp add: map_of_eq_None_iff)
  then show ?case
    using Cons by (auto simp: ok_drive level_drive split: option.splits)
qed simp

end

interpretation intc: irq_lines InterruptPend raised intc_inv "{0..<sh4_INT_ID_COUNT}"
proof unfold_locales
  fix s :: "'z intc_st_scheme" and i j :: nat and v
  assume s: "intc_inv s" and "i \<in> {0..<sh4_INT_ID_COUNT}"
  then have i: "i < 28" by (simp add: sh4_INT_ID_COUNT_def)
  show inv: "intc_inv (InterruptPend i v s)"
    using intc_ops_inv [OF s i] by (simp add: InterruptPend_def)
  obtain R E where RE: "intc_abs s = (R, E)" by fastforce
  then have "intc_abs (InterruptPend i v s) = (if v then insert i R else R - {i}, E)"
    using intc_ops_abs [OF s i RE] by (simp add: InterruptPend_def)
  note lv = intc_absD(1) [OF this] intc_absD(1) [OF RE]
  show "raised (InterruptPend i v s) i = v" using lv i by simp
  show "raised (InterruptPend i v s) j = raised s j" if "j \<in> {0..<sh4_INT_ID_COUNT}" "j \<noteq> i"
    using lv that by (simp add: sh4_INT_ID_COUNT_def)
qed

text \<open>Masking a source moves no line.\<close>

lemma InterruptMask_lines:
  assumes "intc_inv s" "i < 28"
  shows "intc_inv (InterruptMask i v s)" "j < 28 \<Longrightarrow> raised (InterruptMask i v s) j = raised s j"
    "j < 28 \<Longrightarrow> enabled (InterruptMask i v s) j = (if j = i then v else enabled s j)"
proof -
  obtain R E where RE: "intc_abs s = (R, E)" by fastforce
  then have abs: "intc_abs (InterruptMask i v s) = (R, if v then insert i E else E - {i})"
    using intc_ops_abs [OF assms RE] by (simp add: InterruptMask_def)
  show "intc_inv (InterruptMask i v s)"
    using intc_ops_inv [OF assms] by (simp add: InterruptMask_def)
  note * = intc_absD [OF abs] intc_absD [OF RE]
  show "j < 28 \<Longrightarrow> raised (InterruptMask i v s) j = raised s j" using * by simp
  show "j < 28 \<Longrightarrow> enabled (InterruptMask i v s) j = (if j = i then v else enabled s j)" using * by simp
qed

text \<open>Driving a line changes the pending vectors alone.\<close>

lemma InterruptPend_frame:
  obtains P Q where "InterruptPend i v s = s\<lparr>interrupt_vpend := P, interrupt_pend := Q\<rparr>"
  by (cases v) (auto simp: InterruptPend_def SetInterruptPend_def ResetInterruptPend_def recalc_pending_itrs_def)

lemma InterruptPend_simps [simp]:
  "sr (InterruptPend i v s) = sr s" "GetPrLvl (InterruptPend i v s) = GetPrLvl s"
  "enabled (InterruptPend i v s) = enabled s"
  by (rule InterruptPend_frame [of i v s]; simp add: enabled_def fun_eq_iff)+

end
