(* ===== verification/Holly_Intc.thy ===== *)
theory Holly_Intc
  imports Sh4_Irq_Lines
begin

section \<open>The system bus's interrupt controller\<close>

text \<open>
  \<open>core/hw/holly/holly_intc.cpp\<close>: the Holly chip collects the interrupts of the machine's devices
  in three status registers (normal, external, error) and passes them on to the SH4 on three lines,
  one for each of the levels 6, 4 and 2; nine mask registers say which status bit drives which line.
  The state is the SH4's, extended by the registers. On Naomi 2 boards the second graphics chip has
  a normal status register of its own, selected by bit 25 of the address; \<open>Naomi2\<close> is the template
  argument of the handlers. The register bank itself (\<open>core/hw/hwreg.h\<close>) is \<open>asic_reg_read\<close> and
  \<open>asic_reg_write\<close>, for the addresses \<open>asic_reg_Reset\<close> installs handlers at.
\<close>

record holly_st = intc_st +
  SB_ISTNRM :: u32
  SB_ISTNRM1 :: u32
  SB_ISTEXT :: u32
  SB_ISTERR :: u32
  SB_IML2NRM :: u32
  SB_IML2EXT :: u32
  SB_IML2ERR :: u32
  SB_IML4NRM :: u32
  SB_IML4EXT :: u32
  SB_IML4ERR :: u32
  SB_IML6NRM :: u32
  SB_IML6EXT :: u32
  SB_IML6ERR :: u32

subsection \<open>The lines\<close>

definition asic_RL6 :: "'z holly_st_scheme \<Rightarrow> bool" where
  "asic_RL6 s \<longleftrightarrow>
     (let t1 = SB_ISTNRM s AND SB_IML6NRM s \<noteq> 0;
          t2 = SB_ISTERR s AND SB_IML6ERR s \<noteq> 0;
          t3 = SB_ISTEXT s AND SB_IML6EXT s \<noteq> 0;
          t4 = SB_ISTNRM1 s AND SB_IML6NRM s \<noteq> 0
      in t1 \<or> t2 \<or> t3 \<or> t4)"

definition asic_RL6Pending :: "'z holly_st_scheme \<Rightarrow> 'z holly_st_scheme" where
  "asic_RL6Pending s = InterruptPend sh4_IRL_9 (asic_RL6 s) s"

definition asic_RL4 :: "'z holly_st_scheme \<Rightarrow> bool" where
  "asic_RL4 s \<longleftrightarrow>
     (let t1 = SB_ISTNRM s AND SB_IML4NRM s \<noteq> 0;
          t2 = SB_ISTERR s AND SB_IML4ERR s \<noteq> 0;
          t3 = SB_ISTEXT s AND SB_IML4EXT s \<noteq> 0;
          t4 = SB_ISTNRM1 s AND SB_IML4NRM s \<noteq> 0
      in t1 \<or> t2 \<or> t3 \<or> t4)"

definition asic_RL4Pending :: "'z holly_st_scheme \<Rightarrow> 'z holly_st_scheme" where
  "asic_RL4Pending s = InterruptPend sh4_IRL_11 (asic_RL4 s) s"

definition asic_RL2 :: "'z holly_st_scheme \<Rightarrow> bool" where
  "asic_RL2 s \<longleftrightarrow>
     (let t1 = SB_ISTNRM s AND SB_IML2NRM s \<noteq> 0;
          t2 = SB_ISTERR s AND SB_IML2ERR s \<noteq> 0;
          t3 = SB_ISTEXT s AND SB_IML2EXT s \<noteq> 0;
          t4 = SB_ISTNRM1 s AND SB_IML2NRM s \<noteq> 0
      in t1 \<or> t2 \<or> t3 \<or> t4)"

definition asic_RL2Pending :: "'z holly_st_scheme \<Rightarrow> 'z holly_st_scheme" where
  "asic_RL2Pending s = InterruptPend sh4_IRL_13 (asic_RL2 s) s"

text \<open>The three calls at the end of most operations.\<close>

definition asic_Pending :: "'z holly_st_scheme \<Rightarrow> 'z holly_st_scheme" where
  "asic_Pending s = asic_RL6Pending (asic_RL4Pending (asic_RL2Pending s))"

subsection \<open>Interrupts of the devices\<close>

text \<open>An identifier is the number of its bit, plus the register in bits 8 and up.\<close>

definition holly_CH2_DMA :: u32 where "holly_CH2_DMA = 0x0000 OR 19"

definition holly_SPU_IRQ :: u32 where "holly_SPU_IRQ = 0x0100 OR 0x01"

definition holly_type :: "u32 \<Rightarrow> u8" where "holly_type intr = ucast (drop_bit 8 intr)"

definition holly_mask :: "u32 \<Rightarrow> u32" where
  "holly_mask intr = push_bit (unat (ucast intr :: u8)) 1"

definition asic_RaiseInterrupt :: "u32 \<Rightarrow> 'z holly_st_scheme \<Rightarrow> 'z holly_st_scheme" where
  "asic_RaiseInterrupt intr s =
     (let msk = holly_mask intr;
          s1 = (if holly_type intr = 0 then s\<lparr>SB_ISTNRM := SB_ISTNRM s OR msk\<rparr>
                else if holly_type intr = 1 then s\<lparr>SB_ISTEXT := SB_ISTEXT s OR msk\<rparr>
                else if holly_type intr = 2 then s\<lparr>SB_ISTERR := SB_ISTERR s OR msk\<rparr>
                else s)
      in asic_Pending s1)"

definition asic_RaiseInterruptBothCLX :: "u32 \<Rightarrow> 'z holly_st_scheme \<Rightarrow> 'z holly_st_scheme" where
  "asic_RaiseInterruptBothCLX intr s =
     (let msk = holly_mask intr;
          s1 = (if holly_type intr = 0
                then s\<lparr>SB_ISTNRM1 := SB_ISTNRM1 s OR msk, SB_ISTNRM := SB_ISTNRM s OR msk\<rparr>
                else if holly_type intr = 1 then s\<lparr>SB_ISTEXT := SB_ISTEXT s OR msk\<rparr>
                else if holly_type intr = 2 then s\<lparr>SB_ISTERR := SB_ISTERR s OR msk\<rparr>
                else s)
      in asic_Pending s1)"

definition asic_CancelInterrupt :: "u32 \<Rightarrow> 'z holly_st_scheme \<Rightarrow> 'z holly_st_scheme" where
  "asic_CancelInterrupt intr s =
     (let msk = NOT (holly_mask intr);
          s1 = (if holly_type intr = 0 then s\<lparr>SB_ISTNRM := SB_ISTNRM s AND msk\<rparr>
                else if holly_type intr = 1 then s\<lparr>SB_ISTEXT := SB_ISTEXT s AND msk\<rparr>
                else if holly_type intr = 2 then s\<lparr>SB_ISTERR := SB_ISTERR s AND msk\<rparr>
                else s)
      in asic_Pending s1)"

subsection \<open>Register handlers\<close>

definition CLXB :: "bool \<Rightarrow> u32 \<Rightarrow> bool" where
  "CLXB Naomi2 addr \<longleftrightarrow> Naomi2 \<and> addr AND 0x02000000 \<noteq> 0"

definition Read_SB_ISTNRM :: "bool \<Rightarrow> u32 \<Rightarrow> 'z holly_st_scheme \<Rightarrow> u32" where
  "Read_SB_ISTNRM Naomi2 addr s =
     (let tmp = (if CLXB Naomi2 addr then SB_ISTNRM1 s else SB_ISTNRM s) AND 0x3FFFFFFF;
          tmp = (if SB_ISTEXT s \<noteq> 0 then tmp OR 0x40000000 else tmp)
      in if SB_ISTERR s \<noteq> 0 then tmp OR 0x80000000 else tmp)"

definition Write_SB_ISTNRM :: "bool \<Rightarrow> u32 \<Rightarrow> u32 \<Rightarrow> 'z holly_st_scheme \<Rightarrow> 'z holly_st_scheme" where
  "Write_SB_ISTNRM Naomi2 addr data s =
     asic_Pending (if CLXB Naomi2 addr then s\<lparr>SB_ISTNRM1 := SB_ISTNRM1 s AND NOT data\<rparr>
       else s\<lparr>SB_ISTNRM := SB_ISTNRM s AND NOT data\<rparr>)"

definition Write_SB_ISTEXT :: "u32 \<Rightarrow> u32 \<Rightarrow> 'z holly_st_scheme \<Rightarrow> 'z holly_st_scheme" where
  "Write_SB_ISTEXT addr data s = s"

definition Write_SB_ISTERR :: "u32 \<Rightarrow> u32 \<Rightarrow> 'z holly_st_scheme \<Rightarrow> 'z holly_st_scheme" where
  "Write_SB_ISTERR addr data s = asic_Pending (s\<lparr>SB_ISTERR := SB_ISTERR s AND NOT data\<rparr>)"

definition Write_SB_IML6NRM :: "bool \<Rightarrow> u32 \<Rightarrow> u32 \<Rightarrow> 'z holly_st_scheme \<Rightarrow> 'z holly_st_scheme" where
  "Write_SB_IML6NRM Naomi2 addr data s =
     (if CLXB Naomi2 addr then s else asic_RL6Pending (s\<lparr>SB_IML6NRM := data\<rparr>))"

definition Write_SB_IML4NRM :: "bool \<Rightarrow> u32 \<Rightarrow> u32 \<Rightarrow> 'z holly_st_scheme \<Rightarrow> 'z holly_st_scheme" where
  "Write_SB_IML4NRM Naomi2 addr data s =
     (if CLXB Naomi2 addr then s else asic_RL4Pending (s\<lparr>SB_IML4NRM := data\<rparr>))"

definition Write_SB_IML2NRM :: "bool \<Rightarrow> u32 \<Rightarrow> u32 \<Rightarrow> 'z holly_st_scheme \<Rightarrow> 'z holly_st_scheme" where
  "Write_SB_IML2NRM Naomi2 addr data s =
     (if CLXB Naomi2 addr then s else asic_RL2Pending (s\<lparr>SB_IML2NRM := data\<rparr>))"

definition Write_SB_IML6EXT :: "bool \<Rightarrow> u32 \<Rightarrow> u32 \<Rightarrow> 'z holly_st_scheme \<Rightarrow> 'z holly_st_scheme" where
  "Write_SB_IML6EXT Naomi2 addr data s =
     (if CLXB Naomi2 addr then s else asic_RL6Pending (s\<lparr>SB_IML6EXT := data\<rparr>))"

definition Write_SB_IML4EXT :: "bool \<Rightarrow> u32 \<Rightarrow> u32 \<Rightarrow> 'z holly_st_scheme \<Rightarrow> 'z holly_st_scheme" where
  "Write_SB_IML4EXT Naomi2 addr data s =
     (if CLXB Naomi2 addr then s else asic_RL4Pending (s\<lparr>SB_IML4EXT := data\<rparr>))"

definition Write_SB_IML2EXT :: "bool \<Rightarrow> u32 \<Rightarrow> u32 \<Rightarrow> 'z holly_st_scheme \<Rightarrow> 'z holly_st_scheme" where
  "Write_SB_IML2EXT Naomi2 addr data s =
     (if CLXB Naomi2 addr then s else asic_RL2Pending (s\<lparr>SB_IML2EXT := data\<rparr>))"

definition Write_SB_IML6ERR :: "bool \<Rightarrow> u32 \<Rightarrow> u32 \<Rightarrow> 'z holly_st_scheme \<Rightarrow> 'z holly_st_scheme" where
  "Write_SB_IML6ERR Naomi2 addr data s =
     (if CLXB Naomi2 addr then s else asic_RL6Pending (s\<lparr>SB_IML6ERR := data\<rparr>))"

definition Write_SB_IML4ERR :: "bool \<Rightarrow> u32 \<Rightarrow> u32 \<Rightarrow> 'z holly_st_scheme \<Rightarrow> 'z holly_st_scheme" where
  "Write_SB_IML4ERR Naomi2 addr data s =
     (if CLXB Naomi2 addr then s else asic_RL4Pending (s\<lparr>SB_IML4ERR := data\<rparr>))"

definition Write_SB_IML2ERR :: "bool \<Rightarrow> u32 \<Rightarrow> u32 \<Rightarrow> 'z holly_st_scheme \<Rightarrow> 'z holly_st_scheme" where
  "Write_SB_IML2ERR Naomi2 addr data s =
     (if CLXB Naomi2 addr then s else asic_RL2Pending (s\<lparr>SB_IML2ERR := data\<rparr>))"

lemmas Write_IML_defs = Write_SB_IML6NRM_def Write_SB_IML4NRM_def Write_SB_IML2NRM_def
  Write_SB_IML6EXT_def Write_SB_IML4EXT_def Write_SB_IML2EXT_def
  Write_SB_IML6ERR_def Write_SB_IML4ERR_def Write_SB_IML2ERR_def

text \<open>The bank: the register an address selects, and its handlers. \<open>None\<close> is a register that
  another component has installed.\<close>

definition asic_reg_index :: "u32 \<Rightarrow> u32" where
  "asic_reg_index addr = (addr - 0x005F6800) AND 0xffff"

definition asic_reg_write :: "bool \<Rightarrow> u32 \<Rightarrow> u32 \<Rightarrow> 'z holly_st_scheme \<Rightarrow> 'z holly_st_scheme option" where
  "asic_reg_write Naomi2 addr data s =
     (let i = asic_reg_index addr in
      if i = 0x100 then Some (Write_SB_ISTNRM Naomi2 addr data s)
      else if i = 0x104 then Some (Write_SB_ISTEXT addr data s)
      else if i = 0x108 then Some (Write_SB_ISTERR addr data s)
      else if i = 0x110 then Some (Write_SB_IML2NRM Naomi2 addr data s)
      else if i = 0x114 then Some (Write_SB_IML2EXT Naomi2 addr data s)
      else if i = 0x118 then Some (Write_SB_IML2ERR Naomi2 addr data s)
      else if i = 0x120 then Some (Write_SB_IML4NRM Naomi2 addr data s)
      else if i = 0x124 then Some (Write_SB_IML4EXT Naomi2 addr data s)
      else if i = 0x128 then Some (Write_SB_IML4ERR Naomi2 addr data s)
      else if i = 0x130 then Some (Write_SB_IML6NRM Naomi2 addr data s)
      else if i = 0x134 then Some (Write_SB_IML6EXT Naomi2 addr data s)
      else if i = 0x138 then Some (Write_SB_IML6ERR Naomi2 addr data s)
      else None)"

definition asic_reg_read :: "bool \<Rightarrow> u32 \<Rightarrow> 'z holly_st_scheme \<Rightarrow> u32 option" where
  "asic_reg_read Naomi2 addr s =
     (let i = asic_reg_index addr in
      if i = 0x100 then Some (Read_SB_ISTNRM Naomi2 addr s)
      else if i = 0x104 then Some (SB_ISTEXT s)
      else if i = 0x108 then Some (SB_ISTERR s)
      else if i = 0x110 then Some (SB_IML2NRM s)
      else if i = 0x114 then Some (SB_IML2EXT s)
      else if i = 0x118 then Some (SB_IML2ERR s)
      else if i = 0x120 then Some (SB_IML4NRM s)
      else if i = 0x124 then Some (SB_IML4EXT s)
      else if i = 0x128 then Some (SB_IML4ERR s)
      else if i = 0x130 then Some (SB_IML6NRM s)
      else if i = 0x134 then Some (SB_IML6EXT s)
      else if i = 0x138 then Some (SB_IML6ERR s)
      else None)"

section \<open>Proofs\<close>

subsection \<open>What the operations leave alone\<close>

lemma holly_intc_frame [simp]:
  "GetPrLvl (s\<lparr>SB_ISTNRM := v\<rparr>) = GetPrLvl s" "GetPrLvl (s\<lparr>SB_ISTNRM1 := v\<rparr>) = GetPrLvl s"
  "GetPrLvl (s\<lparr>SB_ISTEXT := v\<rparr>) = GetPrLvl s" "GetPrLvl (s\<lparr>SB_ISTERR := v\<rparr>) = GetPrLvl s"
  "GetPrLvl (s\<lparr>SB_IML2NRM := v\<rparr>) = GetPrLvl s" "GetPrLvl (s\<lparr>SB_IML2EXT := v\<rparr>) = GetPrLvl s"
  "GetPrLvl (s\<lparr>SB_IML2ERR := v\<rparr>) = GetPrLvl s" "GetPrLvl (s\<lparr>SB_IML4NRM := v\<rparr>) = GetPrLvl s"
  "GetPrLvl (s\<lparr>SB_IML4EXT := v\<rparr>) = GetPrLvl s" "GetPrLvl (s\<lparr>SB_IML4ERR := v\<rparr>) = GetPrLvl s"
  "GetPrLvl (s\<lparr>SB_IML6NRM := v\<rparr>) = GetPrLvl s" "GetPrLvl (s\<lparr>SB_IML6EXT := v\<rparr>) = GetPrLvl s"
  "GetPrLvl (s\<lparr>SB_IML6ERR := v\<rparr>) = GetPrLvl s"
  by (rule GetPrLvl_cong; simp)+

lemmas holly_levels_frame [simp] = holly_intc_frame [THEN levels_cong]

lemma holly_inv_frame [simp]:
  "intc_inv (s\<lparr>SB_ISTNRM := v\<rparr>) = intc_inv s" "intc_inv (s\<lparr>SB_ISTNRM1 := v\<rparr>) = intc_inv s"
  "intc_inv (s\<lparr>SB_ISTEXT := v\<rparr>) = intc_inv s" "intc_inv (s\<lparr>SB_ISTERR := v\<rparr>) = intc_inv s"
  "intc_inv (s\<lparr>SB_IML2NRM := v\<rparr>) = intc_inv s" "intc_inv (s\<lparr>SB_IML2EXT := v\<rparr>) = intc_inv s"
  "intc_inv (s\<lparr>SB_IML2ERR := v\<rparr>) = intc_inv s" "intc_inv (s\<lparr>SB_IML4NRM := v\<rparr>) = intc_inv s"
  "intc_inv (s\<lparr>SB_IML4EXT := v\<rparr>) = intc_inv s" "intc_inv (s\<lparr>SB_IML4ERR := v\<rparr>) = intc_inv s"
  "intc_inv (s\<lparr>SB_IML6NRM := v\<rparr>) = intc_inv s" "intc_inv (s\<lparr>SB_IML6EXT := v\<rparr>) = intc_inv s"
  "intc_inv (s\<lparr>SB_IML6ERR := v\<rparr>) = intc_inv s"
  by (simp_all add: intc_inv_def table_ok_def synced_def)

lemma holly_raised_frame [simp]:
  "raised (s\<lparr>SB_ISTNRM := v\<rparr>) = raised s" "raised (s\<lparr>SB_ISTNRM1 := v\<rparr>) = raised s"
  "raised (s\<lparr>SB_ISTEXT := v\<rparr>) = raised s" "raised (s\<lparr>SB_ISTERR := v\<rparr>) = raised s"
  "raised (s\<lparr>SB_IML2NRM := v\<rparr>) = raised s" "raised (s\<lparr>SB_IML2EXT := v\<rparr>) = raised s"
  "raised (s\<lparr>SB_IML2ERR := v\<rparr>) = raised s" "raised (s\<lparr>SB_IML4NRM := v\<rparr>) = raised s"
  "raised (s\<lparr>SB_IML4EXT := v\<rparr>) = raised s" "raised (s\<lparr>SB_IML4ERR := v\<rparr>) = raised s"
  "raised (s\<lparr>SB_IML6NRM := v\<rparr>) = raised s" "raised (s\<lparr>SB_IML6EXT := v\<rparr>) = raised s"
  "raised (s\<lparr>SB_IML6ERR := v\<rparr>) = raised s"
  by (simp_all add: raised_def fun_eq_iff)

text \<open>The nine registers the lines are computed from.\<close>

lemmas asic_RL_defs = asic_RL6_def asic_RL4_def asic_RL2_def

lemma asic_RL_update [simp]:
  "asic_RL6 (s\<lparr>interrupt_vpend := P\<rparr>) = asic_RL6 s" "asic_RL6 (s\<lparr>interrupt_pend := Q\<rparr>) = asic_RL6 s"
  "asic_RL4 (s\<lparr>interrupt_vpend := P\<rparr>) = asic_RL4 s" "asic_RL4 (s\<lparr>interrupt_pend := Q\<rparr>) = asic_RL4 s"
  "asic_RL2 (s\<lparr>interrupt_vpend := P\<rparr>) = asic_RL2 s" "asic_RL2 (s\<lparr>interrupt_pend := Q\<rparr>) = asic_RL2 s"
  by (simp_all add: asic_RL_defs)

lemma InterruptPend_RL [simp]:
  "asic_RL6 (InterruptPend i v s) = asic_RL6 s" "asic_RL4 (InterruptPend i v s) = asic_RL4 s"
  "asic_RL2 (InterruptPend i v s) = asic_RL2 s"
  by (rule InterruptPend_frame [of i v s]; simp)+

subsection \<open>The lines follow the registers\<close>

definition holly_inv :: "'z holly_st_scheme \<Rightarrow> bool" where
  "holly_inv s \<longleftrightarrow> intc_inv s \<and> raised s sh4_IRL_9 = asic_RL6 s
     \<and> raised s sh4_IRL_11 = asic_RL4 s \<and> raised s sh4_IRL_13 = asic_RL2 s"

lemmas IRL_defs = sh4_IRL_9_def sh4_IRL_11_def sh4_IRL_13_def

lemma asic_Pending_drives:
  "asic_Pending s = intc.drive_all [(sh4_IRL_13, asic_RL2 s), (sh4_IRL_11, asic_RL4 s), (sh4_IRL_9, asic_RL6 s)] s"
  by (simp add: asic_Pending_def asic_RL6Pending_def asic_RL4Pending_def asic_RL2Pending_def)

lemma asic_Pending_RL [simp]:
  "asic_RL6 (asic_Pending s) = asic_RL6 s" "asic_RL4 (asic_Pending s) = asic_RL4 s"
  "asic_RL2 (asic_Pending s) = asic_RL2 s"
  by (simp_all add: asic_Pending_drives)

lemma asic_Pending_inv: "intc_inv s \<Longrightarrow> holly_inv (asic_Pending s)"
  using intc.ok_drive_all [of s "[(sh4_IRL_13, asic_RL2 s), (sh4_IRL_11, asic_RL4 s), (sh4_IRL_9, asic_RL6 s)]"]
    intc.level_drive_all [of s "[(sh4_IRL_13, asic_RL2 s), (sh4_IRL_11, asic_RL4 s), (sh4_IRL_9, asic_RL6 s)]"]
  by (simp add: holly_inv_def asic_Pending_drives [symmetric] del: intc.drive_all.simps)
    (simp add: IRL_defs sh4_INT_ID_COUNT_def)

lemma asic_ops_inv:
  assumes "intc_inv s"
  shows "holly_inv (asic_RaiseInterrupt intr s)" "holly_inv (asic_RaiseInterruptBothCLX intr s)"
    "holly_inv (asic_CancelInterrupt intr s)" "holly_inv (Write_SB_ISTNRM n2 addr data s)"
    "holly_inv (Write_SB_ISTERR addr data s)"
  using assms
  by (simp_all add: asic_RaiseInterrupt_def asic_RaiseInterruptBothCLX_def asic_CancelInterrupt_def
      Write_SB_ISTNRM_def Write_SB_ISTERR_def asic_Pending_inv Let_def)

text \<open>A mask register concerns one line only.\<close>

lemma one_line:
  "holly_inv s \<Longrightarrow> intc_inv t \<Longrightarrow> raised t = raised s \<Longrightarrow> asic_RL4 t = asic_RL4 s \<Longrightarrow> asic_RL2 t = asic_RL2 s
     \<Longrightarrow> holly_inv (asic_RL6Pending t)"
  "holly_inv s \<Longrightarrow> intc_inv t \<Longrightarrow> raised t = raised s \<Longrightarrow> asic_RL6 t = asic_RL6 s \<Longrightarrow> asic_RL2 t = asic_RL2 s
     \<Longrightarrow> holly_inv (asic_RL4Pending t)"
  "holly_inv s \<Longrightarrow> intc_inv t \<Longrightarrow> raised t = raised s \<Longrightarrow> asic_RL6 t = asic_RL6 s \<Longrightarrow> asic_RL4 t = asic_RL4 s
     \<Longrightarrow> holly_inv (asic_RL2Pending t)"
  by (simp_all add: holly_inv_def asic_RL6Pending_def asic_RL4Pending_def asic_RL2Pending_def
      intc.ok_drive intc.level_drive IRL_defs sh4_INT_ID_COUNT_def)

lemma IML_RL_frame:
  "asic_RL4 (s\<lparr>SB_IML6NRM := v\<rparr>) = asic_RL4 s" "asic_RL2 (s\<lparr>SB_IML6NRM := v\<rparr>) = asic_RL2 s"
  "asic_RL4 (s\<lparr>SB_IML6EXT := v\<rparr>) = asic_RL4 s" "asic_RL2 (s\<lparr>SB_IML6EXT := v\<rparr>) = asic_RL2 s"
  "asic_RL4 (s\<lparr>SB_IML6ERR := v\<rparr>) = asic_RL4 s" "asic_RL2 (s\<lparr>SB_IML6ERR := v\<rparr>) = asic_RL2 s"
  "asic_RL6 (s\<lparr>SB_IML4NRM := v\<rparr>) = asic_RL6 s" "asic_RL2 (s\<lparr>SB_IML4NRM := v\<rparr>) = asic_RL2 s"
  "asic_RL6 (s\<lparr>SB_IML4EXT := v\<rparr>) = asic_RL6 s" "asic_RL2 (s\<lparr>SB_IML4EXT := v\<rparr>) = asic_RL2 s"
  "asic_RL6 (s\<lparr>SB_IML4ERR := v\<rparr>) = asic_RL6 s" "asic_RL2 (s\<lparr>SB_IML4ERR := v\<rparr>) = asic_RL2 s"
  "asic_RL6 (s\<lparr>SB_IML2NRM := v\<rparr>) = asic_RL6 s" "asic_RL4 (s\<lparr>SB_IML2NRM := v\<rparr>) = asic_RL4 s"
  "asic_RL6 (s\<lparr>SB_IML2EXT := v\<rparr>) = asic_RL6 s" "asic_RL4 (s\<lparr>SB_IML2EXT := v\<rparr>) = asic_RL4 s"
  "asic_RL6 (s\<lparr>SB_IML2ERR := v\<rparr>) = asic_RL6 s" "asic_RL4 (s\<lparr>SB_IML2ERR := v\<rparr>) = asic_RL4 s"
  by (simp_all add: asic_RL_defs)

lemma Write_IML_inv:
  assumes "holly_inv s"
  shows "holly_inv (Write_SB_IML6NRM n2 addr data s)" "holly_inv (Write_SB_IML6EXT n2 addr data s)"
    "holly_inv (Write_SB_IML6ERR n2 addr data s)" "holly_inv (Write_SB_IML4NRM n2 addr data s)"
    "holly_inv (Write_SB_IML4EXT n2 addr data s)" "holly_inv (Write_SB_IML4ERR n2 addr data s)"
    "holly_inv (Write_SB_IML2NRM n2 addr data s)" "holly_inv (Write_SB_IML2EXT n2 addr data s)"
    "holly_inv (Write_SB_IML2ERR n2 addr data s)"
proof -
  have "intc_inv s" using assms by (simp add: holly_inv_def)
  with assms show "holly_inv (Write_SB_IML6NRM n2 addr data s)" "holly_inv (Write_SB_IML6EXT n2 addr data s)"
    "holly_inv (Write_SB_IML6ERR n2 addr data s)" "holly_inv (Write_SB_IML4NRM n2 addr data s)"
    "holly_inv (Write_SB_IML4EXT n2 addr data s)" "holly_inv (Write_SB_IML4ERR n2 addr data s)"
    "holly_inv (Write_SB_IML2NRM n2 addr data s)" "holly_inv (Write_SB_IML2EXT n2 addr data s)"
    "holly_inv (Write_SB_IML2ERR n2 addr data s)"
    unfolding Write_IML_defs by (simp_all add: one_line [OF assms] IML_RL_frame)
qed

lemma asic_reg_write_inv:
  assumes "holly_inv s" "asic_reg_write n2 addr data s = Some s'"
  shows "holly_inv s'"
proof -
  have "intc_inv s" using assms(1) by (simp add: holly_inv_def)
  then show ?thesis
    using assms by (auto simp: asic_reg_write_def Let_def Write_IML_inv asic_ops_inv Write_SB_ISTEXT_def
      split: if_splits)
qed

subsection \<open>The controller's own operations\<close>

text \<open>Whatever keeps the registers and the three lines keeps the invariant.\<close>

lemma holly_inv_env:
  assumes "holly_inv s" "intc_inv s'" "fst (intc_abs s') = fst (intc_abs s)"
    "asic_RL6 s' = asic_RL6 s" "asic_RL4 s' = asic_RL4 s" "asic_RL2 s' = asic_RL2 s"
  shows "holly_inv s'"
proof -
  have "raised s' i = raised s i" if "i < 28" for i
    using assms(3) that by (auto simp: intc_abs_def set_eq_iff)
  then show ?thesis using assms by (simp add: holly_inv_def IRL_defs)
qed

lemma SIIDRebuild_RL [simp]:
  "asic_RL6 (SIIDRebuild s) = asic_RL6 s" "asic_RL4 (SIIDRebuild s) = asic_RL4 s"
  "asic_RL2 (SIIDRebuild s) = asic_RL2 s"
  by (rule SIIDRebuild_obtain [of s], simp add: asic_RL_defs)+

lemma UpdateSR_RL [simp]:
  "asic_RL6 (snd (UpdateSR s)) = asic_RL6 s" "asic_RL4 (snd (UpdateSR s)) = asic_RL4 s"
  "asic_RL2 (snd (UpdateSR s)) = asic_RL2 s"
  by (rule UpdateSR_obtain [of s], simp add: asic_RL_defs)+

lemma IPR_RL:
  "asic_RL6 (s\<lparr>INTC_IPRA := d\<rparr>) = asic_RL6 s" "asic_RL4 (s\<lparr>INTC_IPRA := d\<rparr>) = asic_RL4 s"
  "asic_RL2 (s\<lparr>INTC_IPRA := d\<rparr>) = asic_RL2 s" "asic_RL6 (s\<lparr>INTC_IPRB := d\<rparr>) = asic_RL6 s"
  "asic_RL4 (s\<lparr>INTC_IPRB := d\<rparr>) = asic_RL4 s" "asic_RL2 (s\<lparr>INTC_IPRB := d\<rparr>) = asic_RL2 s"
  "asic_RL6 (s\<lparr>INTC_IPRC := d\<rparr>) = asic_RL6 s" "asic_RL4 (s\<lparr>INTC_IPRC := d\<rparr>) = asic_RL4 s"
  "asic_RL2 (s\<lparr>INTC_IPRC := d\<rparr>) = asic_RL2 s"
  by (simp_all add: asic_RL_defs)

lemma SIIDRebuild_holly:
  assumes "holly_inv s"
  shows "holly_inv (SIIDRebuild (s\<lparr>INTC_IPRA := d\<rparr>))" "holly_inv (SIIDRebuild (s\<lparr>INTC_IPRB := d\<rparr>))"
    "holly_inv (SIIDRebuild (s\<lparr>INTC_IPRC := d\<rparr>))"
  by (rule holly_inv_env [OF assms]; simp add: SIIDRebuild_spec(1) SIIDRebuild_abs IPR_RL)+

lemma write_IPR_holly:
  assumes "holly_inv s"
  shows "holly_inv (write_INTC_IPRA d s)" "holly_inv (write_INTC_IPRB d s)" "holly_inv (write_INTC_IPRC d s)"
  using write_IPR_cases [of d s] SIIDRebuild_holly [OF assms, of d] assms by metis+

lemma sr_write_holly:
  assumes "holly_inv s"
  shows "holly_inv (snd (UpdateSR (s\<lparr>sr := x\<rparr>)))"
proof -
  let ?s = "s\<lparr>sr := x\<rparr>"
  have "levels ?s = levels s" by (rule levels_cong, rule GetPrLvl_cong) simp_all
  then have tab: "table_ok ?s" using assms by (simp add: holly_inv_def intc_inv_def table_ok_def)
  have "intc_abs (snd (UpdateSR ?s)) = intc_abs s"
    by (rule UpdateSR_obtain [of ?s], simp add: intc_abs_def raised_def enabled_def)
  then show ?thesis
    by (intro holly_inv_env [OF assms]) (simp_all add: UpdateSR_simps(9) [OF tab], simp_all add: asic_RL_defs)
qed

lemma pc_RL [simp]:
  "asic_RL6 (s\<lparr>pc := v\<rparr>) = asic_RL6 s" "asic_RL4 (s\<lparr>pc := v\<rparr>) = asic_RL4 s"
  "asic_RL2 (s\<lparr>pc := v\<rparr>) = asic_RL2 s"
  by (simp_all add: asic_RL_defs)

lemma Do_Interrupt_holly:
  assumes "holly_inv s"
  shows "holly_inv (Do_Interrupt ev s)"
proof -
  define s1 where "s1 = s\<lparr>CCN_INTEVT := ucast ev\<rparr>"
  define s4 where "s4 = snd (UpdateSR (s1\<lparr>ssr := sr_getFull (sr s1), spc := pc s, sgr := r s1 15,
        sr := (sr s1)\<lparr>status := handler_status (status (sr s1))\<rparr>\<rparr>))"
  have s': "Do_Interrupt ev s = s4\<lparr>pc := vbr s4 + 0x600\<rparr>"
    by (simp add: Do_Interrupt_def Let_def split_beta handler_status_def s4_def s1_def)
  have f: "\<exists>e x. s1 = s\<lparr>CCN_INTEVT := e, CCN_EXPEVT := x\<rparr>"
    unfolding s1_def by (intro exI [of _ "ucast ev"] exI [of _ "CCN_EXPEVT s"]) simp
  have inv: "intc_inv s" using assms by (simp add: holly_inv_def)
  note entry = handler_entry(1,2) [OF inv f s4_def]
  have "asic_RL6 s4 = asic_RL6 s" "asic_RL4 s4 = asic_RL4 s" "asic_RL2 s4 = asic_RL2 s"
    by (simp_all add: s4_def) (simp_all add: s1_def asic_RL_defs)
  then show ?thesis
    unfolding s' by (intro holly_inv_env [OF assms]) (simp_all add: intc_inv_frame entry)
qed

lemma UpdateINTC_holly: "holly_inv s \<Longrightarrow> holly_inv (snd (UpdateINTC s))"
  by (simp add: UpdateINTC_def Do_Interrupt_holly)

subsection \<open>Reachable states\<close>

text \<open>The steps of the machine that concern the controllers: devices raise and cancel their
  interrupts, the program writes the registers of the system bus and of the SH4's controller and
  the status register, other devices of the SH4 drive their own lines, and interrupts are taken.\<close>

inductive holly_step :: "bool \<Rightarrow> 'z holly_st_scheme \<Rightarrow> 'z holly_st_scheme \<Rightarrow> bool" for Naomi2 where
  raise: "holly_step Naomi2 s (asic_RaiseInterrupt intr s)"
| raise_both: "holly_step Naomi2 s (asic_RaiseInterruptBothCLX intr s)"
| cancel: "holly_step Naomi2 s (asic_CancelInterrupt intr s)"
| reg_write: "asic_reg_write Naomi2 addr data s = Some s' \<Longrightarrow> holly_step Naomi2 s s'"
| other_line: "i < sh4_INT_ID_COUNT \<Longrightarrow> i \<notin> {sh4_IRL_9, sh4_IRL_11, sh4_IRL_13}
    \<Longrightarrow> holly_step Naomi2 s (InterruptPend i v s)"
| mask_line: "i < sh4_INT_ID_COUNT \<Longrightarrow> holly_step Naomi2 s (InterruptMask i v s)"
| priority_A: "holly_step Naomi2 s (write_INTC_IPRA d s)"
| priority_B: "holly_step Naomi2 s (write_INTC_IPRB d s)"
| priority_C: "holly_step Naomi2 s (write_INTC_IPRC d s)"
| status: "holly_step Naomi2 s (snd (UpdateSR (s\<lparr>sr := x\<rparr>)))"
| accept: "holly_step Naomi2 s (snd (UpdateINTC s))"

text \<open>At power on the registers are zero and the SH4's controller is reset.\<close>

definition holly_power_on :: "'z holly_st_scheme \<Rightarrow> bool" where
  "holly_power_on s \<longleftrightarrow> intc_inv s \<and> fst (intc_abs s) = {}
     \<and> SB_ISTNRM s = 0 \<and> SB_ISTNRM1 s = 0 \<and> SB_ISTEXT s = 0 \<and> SB_ISTERR s = 0"

inductive holly_reach :: "bool \<Rightarrow> 'z holly_st_scheme \<Rightarrow> bool" for Naomi2 where
  power_on: "holly_power_on s \<Longrightarrow> holly_reach Naomi2 s"
| step: "holly_reach Naomi2 s \<Longrightarrow> holly_step Naomi2 s s' \<Longrightarrow> holly_reach Naomi2 s'"

lemma InterruptMask_RL [simp]:
  "asic_RL6 (InterruptMask i v s) = asic_RL6 s" "asic_RL4 (InterruptMask i v s) = asic_RL4 s"
  "asic_RL2 (InterruptMask i v s) = asic_RL2 s"
  by (simp_all add: InterruptMask_def SetInterruptMask_def ResetInterruptMask_def recalc_frame asic_RL_defs)

lemma holly_step_inv: "holly_step n2 s s' \<Longrightarrow> holly_inv s \<Longrightarrow> holly_inv s'"
proof (induction rule: holly_step.induct)
  case (other_line i s v)
  then show ?case
    by (simp add: holly_inv_def intc.ok_drive intc.level_drive IRL_defs sh4_INT_ID_COUNT_def)
next
  case (mask_line i s v)
  then have "intc_inv s" "i < 28" by (simp_all add: holly_inv_def sh4_INT_ID_COUNT_def)
  from InterruptMask_lines [OF this, where v = v] show ?case
    using mask_line by (simp add: holly_inv_def IRL_defs)
qed (simp_all add: asic_ops_inv asic_reg_write_inv write_IPR_holly sr_write_holly UpdateINTC_holly
    holly_inv_def [THEN iffD1])

lemma power_on_inv: "holly_power_on s \<Longrightarrow> holly_inv s"
proof -
  assume p: "holly_power_on s"
  then have "\<not> raised s i" if "i < 28" for i using that by (auto simp: holly_power_on_def intc_abs_def)
  with p show "holly_inv s" by (simp add: holly_power_on_def holly_inv_def asic_RL_defs IRL_defs)
qed

lemma holly_reach_inv: "holly_reach n2 s \<Longrightarrow> holly_inv s"
  by (induction rule: holly_reach.induct) (simp_all add: power_on_inv holly_step_inv)

subsection \<open>Delivery\<close>

text \<open>The status register an interrupt belongs to, and the mask that lets it drive the level 6
  line.\<close>

definition holly_enabled6 :: "'z holly_st_scheme \<Rightarrow> u32 \<Rightarrow> bool" where
  "holly_enabled6 s intr \<longleftrightarrow> holly_type intr = 0 \<and> holly_mask intr AND SB_IML6NRM s \<noteq> 0
     \<or> holly_type intr = 1 \<and> holly_mask intr AND SB_IML6EXT s \<noteq> 0
     \<or> holly_type intr = 2 \<and> holly_mask intr AND SB_IML6ERR s \<noteq> 0"

lemma and_or_nonzero: "(y :: u32) AND z \<noteq> 0 \<Longrightarrow> (x OR y) AND z \<noteq> 0"
  by (auto simp: bit_eq_iff bit_and_iff bit_or_iff)

lemma raise_RL6: "holly_enabled6 s intr \<Longrightarrow> asic_RL6 (asic_RaiseInterrupt intr s)"
  unfolding asic_RaiseInterrupt_def Let_def asic_Pending_RL
  by (auto simp: holly_enabled6_def asic_RL6_def Let_def and_or_nonzero)

lemma IRL_9_level: "GetPrLvl s sh4_IRL_9 = 6"
  by (simp add: GetPrLvl_def sh4_IRL_9_def InterruptSourceList_def)

lemma asic_Pending_simps [simp]:
  "sr (asic_Pending s) = sr s" "GetPrLvl (asic_Pending s) = GetPrLvl s" "enabled (asic_Pending s) = enabled s"
  by (simp_all add: asic_Pending_drives)

lemma asic_RaiseInterrupt_simps [simp]:
  "sr (asic_RaiseInterrupt intr s) = sr s" "enabled (asic_RaiseInterrupt intr s) = enabled s"
  by (simp_all add: asic_RaiseInterrupt_def Let_def) (simp add: enabled_def fun_eq_iff)

lemma InterruptPend_SB [simp]:
  "SB_ISTNRM (InterruptPend i v s) = SB_ISTNRM s" "SB_ISTEXT (InterruptPend i v s) = SB_ISTEXT s"
  "SB_ISTERR (InterruptPend i v s) = SB_ISTERR s" "SB_ISTNRM1 (InterruptPend i v s) = SB_ISTNRM1 s"
  "SB_IML4EXT (InterruptPend i v s) = SB_IML4EXT s" "SB_IML6NRM (InterruptPend i v s) = SB_IML6NRM s"
  by (rule InterruptPend_frame [of i v s]; simp)+

text \<open>A machine to evaluate on.\<close>

definition holly_zero :: holly_st where
  "holly_zero = interrupts_reset (intc_st.extend intc_zero (holly_st.fields 0 0 0 0 0 0 0 0 0 0 0 0 0))"

lemma SIIDRebuild_SB [simp]:
  "SB_ISTNRM (SIIDRebuild s) = SB_ISTNRM s" "SB_ISTNRM1 (SIIDRebuild s) = SB_ISTNRM1 s"
  "SB_ISTEXT (SIIDRebuild s) = SB_ISTEXT s" "SB_ISTERR (SIIDRebuild s) = SB_ISTERR s"
  by (rule SIIDRebuild_obtain [of s], simp)+

lemma holly_zero_power_on: "holly_power_on holly_zero"
  unfolding holly_power_on_def holly_zero_def reset_abs fst_conv
  by (intro conjI reset_abs refl) (simp_all add: interrupts_reset_def intc_st.defs holly_st.defs)

lemma holly_zero_sr: "sr holly_zero = \<lparr>status = 0x40000000, sr_T = 0\<rparr>"
  by (simp add: holly_zero_def intc_st.defs intc_zero_sr)

lemma holly_zero_enabled: "i < 28 \<Longrightarrow> enabled holly_zero i"
  using intc_absD(2) [OF reset_abs(2)] by (simp add: holly_zero_def)

section \<open>Properties of the system bus's interrupts\<close>

text \<open>C12: In every state the machine can reach, each of the three interrupt lines into the SH4
  is raised exactly when some status bit of the system bus is enabled for it, whatever devices,
  register writes, priority changes and deliveries have come in between.\<close>

theorem holly_lines_follow:
  assumes "holly_reach Naomi2 s"
  shows "intc_inv s \<and> raised s sh4_IRL_9 = asic_RL6 s \<and> raised s sh4_IRL_11 = asic_RL4 s
    \<and> raised s sh4_IRL_13 = asic_RL2 s"
  using holly_reach_inv [OF assms] by (simp add: holly_inv_def)

theorem holly_lines_follow_witness:
  "raised (asic_RaiseInterrupt holly_SPU_IRQ (Write_SB_IML4EXT False 0x005F6924 2 holly_zero)) sh4_IRL_11"
proof -
  let ?w = "Write_SB_IML4EXT False 0x005F6924 2 holly_zero"
  have "asic_reg_write False 0x005F6924 2 holly_zero = Some ?w"
    by (simp add: asic_reg_write_def asic_reg_index_def)
  then have "holly_step False holly_zero ?w" by (rule holly_step.reg_write)
  then have "holly_reach False (asic_RaiseInterrupt holly_SPU_IRQ ?w)"
    using holly_reach.power_on [OF holly_zero_power_on] holly_reach.step holly_step.raise by blast
  moreover have "asic_RL4 (asic_RaiseInterrupt holly_SPU_IRQ ?w)"
    using holly_zero_power_on
    by (simp add: asic_RaiseInterrupt_def Let_def holly_SPU_IRQ_def holly_type_def holly_mask_def
        Write_SB_IML4EXT_def CLXB_def asic_RL4Pending_def holly_power_on_def)
      (simp add: asic_RL4_def Let_def)
  ultimately show ?thesis using holly_lines_follow [of False] by blast
qed



end
