(* ===== verification/Arm7_State.thy ===== *)
theory Arm7_State
  imports Prelude
begin

section \<open>The sound CPU's state\<close>

text \<open>
  \<open>core/hw/arm7/arm7.h\<close>, \<open>arm7.cpp\<close>, \<open>arm_mem.h\<close> and \<open>arm_mem.cpp\<close>: the register file
  of the ARM7 in the AICA sound chip with its banked registers, the switch between
  processor modes, the exceptions, the interrupt controller in front of the processor, and
  its view of the memory.

  The register file is the array \<open>arm_Reg\<close> with the indices of \<open>Arm7Reg\<close>. The sound
  memory is a function from the byte offset; its size is in \<open>ARAM_MASK\<close>, a setting of the
  platform. The registers of the sound generator (\<open>readRegInternal\<close> and \<open>writeRegInternal\<close>
  of \<open>core/hw/aica/aica_mem.cpp\<close>) are another component: the record \<open>aica\<close> stands for
  them, and may change anything in the state it extends. Logging and the observation hooks
  are left out.
\<close>

record arm_st =
  arm_Reg :: "nat \<Rightarrow> u32"
  armIrqEnable :: bool
  armFiqEnable :: bool
  armMode :: u32
  Arm7Enabled :: bool
  arm7ClockTicks :: u32
  aica_interr :: bool
  aica_reg_L :: u32
  e68k_out :: bool
  e68k_reg_L :: u32
  e68k_reg_M :: u32
  aica_ram :: "u32 \<Rightarrow> u8"
  ARAM_MASK :: u32

record 's aica =
  readRegInternal8 :: "u32 \<Rightarrow> 's \<Rightarrow> u8 \<times> 's"
  readRegInternal16 :: "u32 \<Rightarrow> 's \<Rightarrow> u16 \<times> 's"
  writeRegInternal8 :: "u32 \<Rightarrow> u8 \<Rightarrow> 's \<Rightarrow> 's"
  writeRegInternal16 :: "u32 \<Rightarrow> u16 \<Rightarrow> 's \<Rightarrow> 's"

subsection \<open>Registers and flags\<close>

abbreviation (input) RN_CPSR :: nat where "RN_CPSR \<equiv> 16"
abbreviation (input) RN_SPSR :: nat where "RN_SPSR \<equiv> 17"
abbreviation (input) R13_IRQ :: nat where "R13_IRQ \<equiv> 18"
abbreviation (input) R14_IRQ :: nat where "R14_IRQ \<equiv> 19"
abbreviation (input) SPSR_IRQ :: nat where "SPSR_IRQ \<equiv> 20"
abbreviation (input) R13_USR :: nat where "R13_USR \<equiv> 26"
abbreviation (input) R14_USR :: nat where "R14_USR \<equiv> 27"
abbreviation (input) R13_SVC :: nat where "R13_SVC \<equiv> 28"
abbreviation (input) R14_SVC :: nat where "R14_SVC \<equiv> 29"
abbreviation (input) SPSR_SVC :: nat where "SPSR_SVC \<equiv> 30"
abbreviation (input) R13_ABT :: nat where "R13_ABT \<equiv> 31"
abbreviation (input) R14_ABT :: nat where "R14_ABT \<equiv> 32"
abbreviation (input) SPSR_ABT :: nat where "SPSR_ABT \<equiv> 33"
abbreviation (input) R13_UND :: nat where "R13_UND \<equiv> 34"
abbreviation (input) R14_UND :: nat where "R14_UND \<equiv> 35"
abbreviation (input) SPSR_UND :: nat where "SPSR_UND \<equiv> 36"
abbreviation (input) R8_FIQ :: nat where "R8_FIQ \<equiv> 37"
abbreviation (input) R9_FIQ :: nat where "R9_FIQ \<equiv> 38"
abbreviation (input) R10_FIQ :: nat where "R10_FIQ \<equiv> 39"
abbreviation (input) R11_FIQ :: nat where "R11_FIQ \<equiv> 40"
abbreviation (input) R12_FIQ :: nat where "R12_FIQ \<equiv> 41"
abbreviation (input) R13_FIQ :: nat where "R13_FIQ \<equiv> 42"
abbreviation (input) R14_FIQ :: nat where "R14_FIQ \<equiv> 43"
abbreviation (input) SPSR_FIQ :: nat where "SPSR_FIQ \<equiv> 44"
abbreviation (input) RN_PSR_FLAGS :: nat where "RN_PSR_FLAGS \<equiv> 45"
abbreviation (input) R15_ARM_NEXT :: nat where "R15_ARM_NEXT \<equiv> 46"
abbreviation (input) INTR_PEND :: nat where "INTR_PEND \<equiv> 47"
abbreviation (input) CYCL_CNT :: nat where "CYCL_CNT \<equiv> 48"
abbreviation (input) RN_ARM_REG_COUNT :: nat where "RN_ARM_REG_COUNT \<equiv> 50"

definition reg :: "'z arm_st_scheme \<Rightarrow> nat \<Rightarrow> u32" where
  "reg s i = arm_Reg s i"

definition setreg :: "nat \<Rightarrow> u32 \<Rightarrow> 'z arm_st_scheme \<Rightarrow> 'z arm_st_scheme" where
  "setreg i v s = s\<lparr>arm_Reg := (arm_Reg s)(i := v)\<rparr>"

definition N_FLAG :: "'z arm_st_scheme \<Rightarrow> bool" where "N_FLAG s \<longleftrightarrow> bit (reg s RN_PSR_FLAGS) 31"

definition Z_FLAG :: "'z arm_st_scheme \<Rightarrow> bool" where "Z_FLAG s \<longleftrightarrow> bit (reg s RN_PSR_FLAGS) 30"

definition C_FLAG :: "'z arm_st_scheme \<Rightarrow> bool" where "C_FLAG s \<longleftrightarrow> bit (reg s RN_PSR_FLAGS) 29"

definition V_FLAG :: "'z arm_st_scheme \<Rightarrow> bool" where "V_FLAG s \<longleftrightarrow> bit (reg s RN_PSR_FLAGS) 28"

definition set_flag :: "nat \<Rightarrow> bool \<Rightarrow> 'z arm_st_scheme \<Rightarrow> 'z arm_st_scheme" where
  "set_flag k b s = setreg RN_PSR_FLAGS
     (if b then set_bit k (reg s RN_PSR_FLAGS) else unset_bit k (reg s RN_PSR_FLAGS)) s"

definition set_N :: "bool \<Rightarrow> 'z arm_st_scheme \<Rightarrow> 'z arm_st_scheme" where "set_N = set_flag 31"

definition set_Z :: "bool \<Rightarrow> 'z arm_st_scheme \<Rightarrow> 'z arm_st_scheme" where "set_Z = set_flag 30"

definition set_C :: "bool \<Rightarrow> 'z arm_st_scheme \<Rightarrow> 'z arm_st_scheme" where "set_C = set_flag 29"

definition set_V :: "bool \<Rightarrow> 'z arm_st_scheme \<Rightarrow> 'z arm_st_scheme" where "set_V = set_flag 28"

definition add_ticks :: "u32 \<Rightarrow> 'z arm_st_scheme \<Rightarrow> 'z arm_st_scheme" where
  "add_ticks n s = s\<lparr>arm7ClockTicks := arm7ClockTicks s + n\<rparr>"

definition set_next :: "u32 \<Rightarrow> 'z arm_st_scheme \<Rightarrow> 'z arm_st_scheme" where
  "set_next v s = setreg R15_ARM_NEXT v s"

subsection \<open>Interrupt controllers\<close>

definition update_armintc :: "'z arm_st_scheme \<Rightarrow> 'z arm_st_scheme" where
  "update_armintc s = setreg INTR_PEND (if e68k_out s \<and> armFiqEnable s then 1 else 0) s"

definition update_e68k :: "'z arm_st_scheme \<Rightarrow> 'z arm_st_scheme" where
  "update_e68k s =
     (if \<not> e68k_out s \<and> aica_interr s
      then update_armintc (s\<lparr>e68k_out := True, e68k_reg_L := aica_reg_L s\<rparr>)
      else s)"

definition interruptChange :: "u32 \<Rightarrow> u32 \<Rightarrow> 'z arm_st_scheme \<Rightarrow> 'z arm_st_scheme" where
  "interruptChange bits L s =
     (let s = s\<lparr>aica_interr := (bits \<noteq> 0)\<rparr>;
          s = (if aica_interr s then s\<lparr>aica_reg_L := L\<rparr> else s)
      in update_e68k s)"

definition e68k_AcceptInterrupt :: "'z arm_st_scheme \<Rightarrow> 'z arm_st_scheme" where
  "e68k_AcceptInterrupt s = update_armintc (update_e68k (s\<lparr>e68k_out := False\<rparr>))"

subsection \<open>Processor modes\<close>

definition CPUSwap :: "nat \<Rightarrow> nat \<Rightarrow> 'z arm_st_scheme \<Rightarrow> 'z arm_st_scheme" where
  "CPUSwap a b s =
     (let c = reg s b;
          s = setreg b (reg s a) s;
          s = setreg a c s
      in s)"

definition CPUUpdateCPSR :: "'z arm_st_scheme \<Rightarrow> 'z arm_st_scheme" where
  "CPUUpdateCPSR s =
     (let CPSR = reg s RN_CPSR AND 0x40;
          CPSR = set_field 28 4 (get_field 28 4 (reg s RN_PSR_FLAGS)) CPSR;
          CPSR = (if \<not> armFiqEnable s then CPSR OR 0x40 else CPSR);
          CPSR = (if \<not> armIrqEnable s then CPSR OR 0x80 else CPSR);
          CPSR = set_field 0 5 (armMode s) CPSR
      in setreg RN_CPSR CPSR s)"

definition CPUUpdateFlags :: "'z arm_st_scheme \<Rightarrow> 'z arm_st_scheme" where
  "CPUUpdateFlags s =
     (let CPSR = reg s RN_CPSR;
          s = setreg RN_PSR_FLAGS (set_field 28 4 (get_field 28 4 CPSR) (reg s RN_PSR_FLAGS)) s;
          s = s\<lparr>armIrqEnable := (CPSR AND 0x80 = 0)\<rparr>;
          s = s\<lparr>armFiqEnable := (CPSR AND 0x40 = 0)\<rparr>
      in update_armintc s)"

text \<open>The first half of \<open>CPUSwitchMode\<close>: the registers of the mode that is left.\<close>

definition leave_mode :: "'z arm_st_scheme \<Rightarrow> 'z arm_st_scheme" where
  "leave_mode s =
     (if armMode s = 0x10 \<or> armMode s = 0x1F then
        let s = setreg R13_USR (reg s 13) s;
            s = setreg R14_USR (reg s 14) s;
            s = setreg RN_SPSR (reg s RN_CPSR) s
        in s
      else if armMode s = 0x11 then
        let s = CPUSwap R8_FIQ 8 s;
            s = CPUSwap R9_FIQ 9 s;
            s = CPUSwap R10_FIQ 10 s;
            s = CPUSwap R11_FIQ 11 s;
            s = CPUSwap R12_FIQ 12 s;
            s = setreg R13_FIQ (reg s 13) s;
            s = setreg R14_FIQ (reg s 14) s;
            s = setreg SPSR_FIQ (reg s RN_SPSR) s
        in s
      else if armMode s = 0x12 then
        let s = setreg R13_IRQ (reg s 13) s;
            s = setreg R14_IRQ (reg s 14) s;
            s = setreg SPSR_IRQ (reg s RN_SPSR) s
        in s
      else if armMode s = 0x13 then
        let s = setreg R13_SVC (reg s 13) s;
            s = setreg R14_SVC (reg s 14) s;
            s = setreg SPSR_SVC (reg s RN_SPSR) s
        in s
      else if armMode s = 0x17 then
        let s = setreg R13_ABT (reg s 13) s;
            s = setreg R14_ABT (reg s 14) s;
            s = setreg SPSR_ABT (reg s RN_SPSR) s
        in s
      else if armMode s = 0x1b then
        let s = setreg R13_UND (reg s 13) s;
            s = setreg R14_UND (reg s 14) s;
            s = setreg SPSR_UND (reg s RN_SPSR) s
        in s
      else s)"

text \<open>The second half: the registers of the mode that is entered; an illegal mode stops the
  processor.\<close>

definition enter_mode :: "u32 \<Rightarrow> bool \<Rightarrow> 'z arm_st_scheme \<Rightarrow> 'z arm_st_scheme" where
  "enter_mode mode saveState s =
     (let CPSR = reg s RN_CPSR; SPSR = reg s RN_SPSR in
      if mode = 0x10 \<or> mode = 0x1F then
        let s = setreg 13 (reg s R13_USR) s;
            s = setreg 14 (reg s R14_USR) s;
            s = setreg RN_CPSR SPSR s
        in s
      else if mode = 0x11 then
        let s = CPUSwap 8 R8_FIQ s;
            s = CPUSwap 9 R9_FIQ s;
            s = CPUSwap 10 R10_FIQ s;
            s = CPUSwap 11 R11_FIQ s;
            s = CPUSwap 12 R12_FIQ s;
            s = setreg 13 (reg s R13_FIQ) s;
            s = setreg 14 (reg s R14_FIQ) s
        in setreg RN_SPSR (if saveState then CPSR else reg s SPSR_FIQ) s
      else if mode = 0x12 then
        let s = setreg 13 (reg s R13_IRQ) s;
            s = setreg 14 (reg s R14_IRQ) s;
            s = setreg RN_CPSR SPSR s
        in setreg RN_SPSR (if saveState then CPSR else reg s SPSR_IRQ) s
      else if mode = 0x13 then
        let s = setreg 13 (reg s R13_SVC) s;
            s = setreg 14 (reg s R14_SVC) s;
            s = setreg RN_CPSR SPSR s
        in setreg RN_SPSR (if saveState then CPSR else reg s SPSR_SVC) s
      else if mode = 0x17 then
        let s = setreg 13 (reg s R13_ABT) s;
            s = setreg 14 (reg s R14_ABT) s;
            s = setreg RN_CPSR SPSR s
        in setreg RN_SPSR (if saveState then CPSR else reg s SPSR_ABT) s
      else if mode = 0x1b then
        let s = setreg 13 (reg s R13_UND) s;
            s = setreg 14 (reg s R14_UND) s;
            s = setreg RN_CPSR SPSR s
        in setreg RN_SPSR (if saveState then CPSR else reg s SPSR_UND) s
      else s\<lparr>Arm7Enabled := False\<rparr>)"

definition CPUSwitchMode :: "u32 \<Rightarrow> bool \<Rightarrow> 'z arm_st_scheme \<Rightarrow> 'z arm_st_scheme" where
  "CPUSwitchMode mode saveState s =
     (let s = CPUUpdateCPSR s;
          s = leave_mode s;
          s = enter_mode mode saveState s;
          s = s\<lparr>armMode := mode\<rparr>;
          s = CPUUpdateFlags s
      in CPUUpdateCPSR s)"

subsection \<open>Exceptions and reset\<close>

definition CPUSoftwareInterrupt :: "u32 \<Rightarrow> 'z arm_st_scheme \<Rightarrow> 'z arm_st_scheme" where
  "CPUSoftwareInterrupt comment s =
     (let PC = reg s R15_ARM_NEXT + 4;
          s = CPUSwitchMode 0x13 True s;
          s = setreg 14 PC s;
          s = s\<lparr>armIrqEnable := False\<rparr>
      in set_next 0x08 s)"

definition CPUUndefinedException :: "'z arm_st_scheme \<Rightarrow> 'z arm_st_scheme" where
  "CPUUndefinedException s =
     (let PC = reg s R15_ARM_NEXT + 4;
          s = CPUSwitchMode 0x1b True s;
          s = setreg 14 PC s;
          s = s\<lparr>armIrqEnable := False\<rparr>
      in set_next 0x04 s)"

definition CPUFiq :: "'z arm_st_scheme \<Rightarrow> 'z arm_st_scheme" where
  "CPUFiq s =
     (let PC = reg s R15_ARM_NEXT + 4;
          s = CPUSwitchMode 0x11 True s;
          s = setreg 14 PC s;
          s = s\<lparr>armIrqEnable := False\<rparr>;
          s = s\<lparr>armFiqEnable := False\<rparr>;
          s = update_armintc s
      in set_next 0x1c s)"

definition arm_reset :: "'z arm_st_scheme \<Rightarrow> 'z arm_st_scheme" where
  "arm_reset s =
     (let s = s\<lparr>aica_interr := False, aica_reg_L := 0, e68k_out := False, e68k_reg_L := 0, e68k_reg_M := 0\<rparr>;
          s = s\<lparr>Arm7Enabled := False\<rparr>;
          s = s\<lparr>arm_Reg := (\<lambda>i. if i < RN_ARM_REG_COUNT then 0 else arm_Reg s i)\<rparr>;
          s = s\<lparr>armMode := 0x13\<rparr>;
          s = setreg 13 0x03007F00 s;
          s = setreg 15 0 s;
          s = setreg RN_CPSR 0 s;
          s = setreg R13_IRQ 0x03007FA0 s;
          s = setreg R13_SVC 0x03007FE0 s;
          s = s\<lparr>armIrqEnable := True\<rparr>;
          s = s\<lparr>armFiqEnable := False\<rparr>;
          s = update_armintc s;
          s = set_C False (set_V False (set_N False (set_Z False s)));
          s = setreg RN_CPSR (reg s RN_CPSR OR 0x40) s;
          s = CPUUpdateCPSR s;
          s = set_next (reg s 15) s
      in setreg 15 (reg s 15 + 4) s)"

definition arm_enable :: "bool \<Rightarrow> 'z arm_st_scheme \<Rightarrow> 'z arm_st_scheme" where
  "arm_enable enabled s =
     (let s = (if \<not> Arm7Enabled s \<and> enabled then arm_reset s else s)
      in s\<lparr>Arm7Enabled := enabled\<rparr>)"

definition avoidRaceCondition :: "'z arm_st_scheme \<Rightarrow> 'z arm_st_scheme" where
  "avoidRaceCondition s =
     s\<lparr>arm7ClockTicks := (if sint (arm7ClockTicks s) < - 50 then arm7ClockTicks s else - 50)\<rparr>"

text \<open>The table of bit counts.\<close>

definition cpuBitsSet :: "u32 \<Rightarrow> nat" where
  "cpuBitsSet i = length (filter (\<lambda>j. i AND push_bit j 1 \<noteq> 0) [0..<8])"

subsection \<open>Memory\<close>

text \<open>The host is little endian.\<close>

definition load8 :: "u32 \<Rightarrow> 'z arm_st_scheme \<Rightarrow> u8" where
  "load8 a s = aica_ram s a"

definition load16 :: "u32 \<Rightarrow> 'z arm_st_scheme \<Rightarrow> u16" where
  "load16 a s = ucast (aica_ram s a) OR push_bit 8 (ucast (aica_ram s (a + 1)))"

definition load32 :: "u32 \<Rightarrow> 'z arm_st_scheme \<Rightarrow> u32" where
  "load32 a s = ucast (aica_ram s a) OR push_bit 8 (ucast (aica_ram s (a + 1)))
     OR push_bit 16 (ucast (aica_ram s (a + 2))) OR push_bit 24 (ucast (aica_ram s (a + 3)))"

definition store8 :: "u32 \<Rightarrow> u8 \<Rightarrow> 'z arm_st_scheme \<Rightarrow> 'z arm_st_scheme" where
  "store8 a v s = s\<lparr>aica_ram := (aica_ram s)(a := v)\<rparr>"

definition store32 :: "u32 \<Rightarrow> u32 \<Rightarrow> 'z arm_st_scheme \<Rightarrow> 'z arm_st_scheme" where
  "store32 a v s = s\<lparr>aica_ram := (aica_ram s)(a := ucast v, a + 1 := ucast (drop_bit 8 v),
     a + 2 := ucast (drop_bit 16 v), a + 3 := ucast (drop_bit 24 v))\<rparr>"

abbreviation (input) REG_L :: u32 where "REG_L \<equiv> 0x2D00"
abbreviation (input) REG_M :: u32 where "REG_M \<equiv> 0x2D04"

definition readReg8 :: "'z arm_st_scheme aica \<Rightarrow> u32 \<Rightarrow> 'z arm_st_scheme \<Rightarrow> u8 \<times> 'z arm_st_scheme" where
  "readReg8 a addr s =
     (let addr = addr AND 0x7FFF in
      if addr = REG_L then (ucast (e68k_reg_L s), s)
      else if addr = REG_M then (ucast (e68k_reg_M s), s)
      else readRegInternal8 a addr s)"

definition readReg16 :: "'z arm_st_scheme aica \<Rightarrow> u32 \<Rightarrow> 'z arm_st_scheme \<Rightarrow> u16 \<times> 'z arm_st_scheme" where
  "readReg16 a addr s =
     (let addr = addr AND 0x7FFF in
      if addr = REG_L then (ucast (e68k_reg_L s), s)
      else if addr = REG_M then (ucast (e68k_reg_M s), s)
      else readRegInternal16 a addr s)"

definition readReg32 :: "'z arm_st_scheme aica \<Rightarrow> u32 \<Rightarrow> 'z arm_st_scheme \<Rightarrow> u32 \<times> 'z arm_st_scheme" where
  "readReg32 a addr s =
     (let addr = addr AND 0x7FFF in
      if addr = REG_L then (e68k_reg_L s, s)
      else if addr = REG_M then (e68k_reg_M s, s)
      else let (v, s) = readRegInternal16 a addr s in (ucast v, s))"

definition writeReg8 :: "'z arm_st_scheme aica \<Rightarrow> u32 \<Rightarrow> u8 \<Rightarrow> 'z arm_st_scheme \<Rightarrow> 'z arm_st_scheme" where
  "writeReg8 a addr data s =
     (let addr = addr AND 0x7FFF in
      if addr = REG_L then s
      else if addr = REG_M then (if data AND 1 \<noteq> 0 then e68k_AcceptInterrupt s else s)
      else writeRegInternal8 a addr data s)"

definition writeReg32 :: "'z arm_st_scheme aica \<Rightarrow> u32 \<Rightarrow> u32 \<Rightarrow> 'z arm_st_scheme \<Rightarrow> 'z arm_st_scheme" where
  "writeReg32 a addr data s =
     (let addr = addr AND 0x7FFF in
      if addr = REG_L then s
      else if addr = REG_M then (if data AND 1 \<noteq> 0 then e68k_AcceptInterrupt s else s)
      else writeRegInternal16 a addr (ucast data) s)"

text \<open>The processor's accesses: the top byte of the address is ignored, the sound memory
  occupies the first 8 MB (mirrored by the mask), and an unaligned word read rotates the word.\<close>

definition CPUReadByte :: "'z arm_st_scheme aica \<Rightarrow> u32 \<Rightarrow> 'z arm_st_scheme \<Rightarrow> u8 \<times> 'z arm_st_scheme" where
  "CPUReadByte a addr s =
     (let addr = addr AND 0x00FFFFFF in
      if addr < 0x800000 then (load8 (addr AND ARAM_MASK s) s, s) else readReg8 a addr s)"

definition CPUReadHalfWord :: "'z arm_st_scheme aica \<Rightarrow> u32 \<Rightarrow> 'z arm_st_scheme \<Rightarrow> u16 \<times> 'z arm_st_scheme" where
  "CPUReadHalfWord a addr s =
     (let addr = addr AND 0x00FFFFFF in
      if addr < 0x800000 then (load16 (addr AND (ARAM_MASK s - 1)) s, s) else readReg16 a addr s)"

definition CPUReadMemory :: "'z arm_st_scheme aica \<Rightarrow> u32 \<Rightarrow> 'z arm_st_scheme \<Rightarrow> u32 \<times> 'z arm_st_scheme" where
  "CPUReadMemory a addr s =
     (let addr = addr AND 0x00FFFFFF in
      if addr < 0x800000 then
        let rv = load32 (addr AND (ARAM_MASK s - 3)) s in
        if addr AND 3 \<noteq> 0 then
          let sf = unat ((addr AND 3) * 8) in (drop_bit sf rv OR push_bit (32 - sf) rv, s)
        else (rv, s)
      else readReg32 a addr s)"

definition CPUWriteByte :: "'z arm_st_scheme aica \<Rightarrow> u32 \<Rightarrow> u8 \<Rightarrow> 'z arm_st_scheme \<Rightarrow> 'z arm_st_scheme" where
  "CPUWriteByte a addr data s =
     (let addr = addr AND 0x00FFFFFF in
      if addr < 0x800000 then store8 (addr AND ARAM_MASK s) data s else writeReg8 a addr data s)"

definition CPUWriteMemory :: "'z arm_st_scheme aica \<Rightarrow> u32 \<Rightarrow> u32 \<Rightarrow> 'z arm_st_scheme \<Rightarrow> 'z arm_st_scheme" where
  "CPUWriteMemory a addr data s =
     (let addr = addr AND 0x00FFFFFF in
      if addr < 0x800000 then store32 (addr AND (ARAM_MASK s - 3)) data s else writeReg32 a addr data s)"

definition CPUReadMemoryQuick :: "u32 \<Rightarrow> 'z arm_st_scheme \<Rightarrow> u32" where
  "CPUReadMemoryQuick addr s = load32 (addr AND ARAM_MASK s) s"

subsection \<open>Lemmas\<close>

lemma reg_setreg [simp]: "reg (setreg i v s) j = (if j = i then v else reg s j)"
  by (simp add: reg_def setreg_def)

lemma reg_fields [simp]:
  "reg (s\<lparr>armIrqEnable := v0\<rparr>) = reg s"
  "reg (s\<lparr>armFiqEnable := v1\<rparr>) = reg s"
  "reg (s\<lparr>armMode := v2\<rparr>) = reg s"
  "reg (s\<lparr>Arm7Enabled := v3\<rparr>) = reg s"
  "reg (s\<lparr>arm7ClockTicks := v4\<rparr>) = reg s"
  "reg (s\<lparr>aica_interr := v5\<rparr>) = reg s"
  "reg (s\<lparr>aica_reg_L := v6\<rparr>) = reg s"
  "reg (s\<lparr>e68k_out := v7\<rparr>) = reg s"
  "reg (s\<lparr>e68k_reg_L := v8\<rparr>) = reg s"
  "reg (s\<lparr>e68k_reg_M := v9\<rparr>) = reg s"
  "reg (s\<lparr>aica_ram := v10\<rparr>) = reg s"
  "reg (s\<lparr>ARAM_MASK := v11\<rparr>) = reg s"
  by (simp_all add: fun_eq_iff reg_def)

lemma setreg_frame [simp]:
  "armIrqEnable (setreg i v s) = armIrqEnable s"
  "armFiqEnable (setreg i v s) = armFiqEnable s"
  "armMode (setreg i v s) = armMode s"
  "Arm7Enabled (setreg i v s) = Arm7Enabled s"
  "arm7ClockTicks (setreg i v s) = arm7ClockTicks s"
  "aica_interr (setreg i v s) = aica_interr s"
  "aica_reg_L (setreg i v s) = aica_reg_L s"
  "e68k_out (setreg i v s) = e68k_out s"
  "e68k_reg_L (setreg i v s) = e68k_reg_L s"
  "e68k_reg_M (setreg i v s) = e68k_reg_M s"
  "aica_ram (setreg i v s) = aica_ram s"
  "ARAM_MASK (setreg i v s) = ARAM_MASK s"
  by (simp_all add: setreg_def)

lemma set_next_frame [simp]:
  "armIrqEnable (set_next v s) = armIrqEnable s"
  "armFiqEnable (set_next v s) = armFiqEnable s"
  "armMode (set_next v s) = armMode s"
  "Arm7Enabled (set_next v s) = Arm7Enabled s"
  "arm7ClockTicks (set_next v s) = arm7ClockTicks s"
  "aica_interr (set_next v s) = aica_interr s"
  "aica_reg_L (set_next v s) = aica_reg_L s"
  "e68k_out (set_next v s) = e68k_out s"
  "e68k_reg_L (set_next v s) = e68k_reg_L s"
  "e68k_reg_M (set_next v s) = e68k_reg_M s"
  "aica_ram (set_next v s) = aica_ram s"
  "ARAM_MASK (set_next v s) = ARAM_MASK s"
  by (simp_all add: set_next_def)

lemma set_flag_frame [simp]:
  "armIrqEnable (set_flag k b s) = armIrqEnable s"
  "armFiqEnable (set_flag k b s) = armFiqEnable s"
  "armMode (set_flag k b s) = armMode s"
  "Arm7Enabled (set_flag k b s) = Arm7Enabled s"
  "arm7ClockTicks (set_flag k b s) = arm7ClockTicks s"
  "aica_interr (set_flag k b s) = aica_interr s"
  "aica_reg_L (set_flag k b s) = aica_reg_L s"
  "e68k_out (set_flag k b s) = e68k_out s"
  "e68k_reg_L (set_flag k b s) = e68k_reg_L s"
  "e68k_reg_M (set_flag k b s) = e68k_reg_M s"
  "aica_ram (set_flag k b s) = aica_ram s"
  "ARAM_MASK (set_flag k b s) = ARAM_MASK s"
  by (simp_all add: set_flag_def)

lemma update_armintc_frame [simp]:
  "armIrqEnable (update_armintc s) = armIrqEnable s"
  "armFiqEnable (update_armintc s) = armFiqEnable s"
  "armMode (update_armintc s) = armMode s"
  "Arm7Enabled (update_armintc s) = Arm7Enabled s"
  "arm7ClockTicks (update_armintc s) = arm7ClockTicks s"
  "aica_interr (update_armintc s) = aica_interr s"
  "aica_reg_L (update_armintc s) = aica_reg_L s"
  "e68k_out (update_armintc s) = e68k_out s"
  "e68k_reg_L (update_armintc s) = e68k_reg_L s"
  "e68k_reg_M (update_armintc s) = e68k_reg_M s"
  "aica_ram (update_armintc s) = aica_ram s"
  "ARAM_MASK (update_armintc s) = ARAM_MASK s"
  by (simp_all add: update_armintc_def)

lemma add_ticks_frame [simp]:
  "armIrqEnable (add_ticks n s) = armIrqEnable s"
  "armFiqEnable (add_ticks n s) = armFiqEnable s"
  "armMode (add_ticks n s) = armMode s"
  "Arm7Enabled (add_ticks n s) = Arm7Enabled s"
  "aica_interr (add_ticks n s) = aica_interr s"
  "aica_reg_L (add_ticks n s) = aica_reg_L s"
  "e68k_out (add_ticks n s) = e68k_out s"
  "e68k_reg_L (add_ticks n s) = e68k_reg_L s"
  "e68k_reg_M (add_ticks n s) = e68k_reg_M s"
  "aica_ram (add_ticks n s) = aica_ram s"
  "ARAM_MASK (add_ticks n s) = ARAM_MASK s"
  by (simp_all add: add_ticks_def)

lemma CPUSwap_frame [simp]:
  "armIrqEnable (CPUSwap i j s) = armIrqEnable s"
  "armFiqEnable (CPUSwap i j s) = armFiqEnable s"
  "armMode (CPUSwap i j s) = armMode s"
  "Arm7Enabled (CPUSwap i j s) = Arm7Enabled s"
  "arm7ClockTicks (CPUSwap i j s) = arm7ClockTicks s"
  "aica_interr (CPUSwap i j s) = aica_interr s"
  "aica_reg_L (CPUSwap i j s) = aica_reg_L s"
  "e68k_out (CPUSwap i j s) = e68k_out s"
  "e68k_reg_L (CPUSwap i j s) = e68k_reg_L s"
  "e68k_reg_M (CPUSwap i j s) = e68k_reg_M s"
  "aica_ram (CPUSwap i j s) = aica_ram s"
  "ARAM_MASK (CPUSwap i j s) = ARAM_MASK s"
  by (simp_all add: CPUSwap_def Let_def)

lemma CPUUpdateCPSR_frame [simp]:
  "armIrqEnable (CPUUpdateCPSR s) = armIrqEnable s"
  "armFiqEnable (CPUUpdateCPSR s) = armFiqEnable s"
  "armMode (CPUUpdateCPSR s) = armMode s"
  "Arm7Enabled (CPUUpdateCPSR s) = Arm7Enabled s"
  "arm7ClockTicks (CPUUpdateCPSR s) = arm7ClockTicks s"
  "aica_interr (CPUUpdateCPSR s) = aica_interr s"
  "aica_reg_L (CPUUpdateCPSR s) = aica_reg_L s"
  "e68k_out (CPUUpdateCPSR s) = e68k_out s"
  "e68k_reg_L (CPUUpdateCPSR s) = e68k_reg_L s"
  "e68k_reg_M (CPUUpdateCPSR s) = e68k_reg_M s"
  "aica_ram (CPUUpdateCPSR s) = aica_ram s"
  "ARAM_MASK (CPUUpdateCPSR s) = ARAM_MASK s"
  by (simp_all add: CPUUpdateCPSR_def Let_def)

lemma CPUUpdateFlags_frame [simp]:
  "armMode (CPUUpdateFlags s) = armMode s"
  "Arm7Enabled (CPUUpdateFlags s) = Arm7Enabled s"
  "arm7ClockTicks (CPUUpdateFlags s) = arm7ClockTicks s"
  "aica_interr (CPUUpdateFlags s) = aica_interr s"
  "aica_reg_L (CPUUpdateFlags s) = aica_reg_L s"
  "e68k_out (CPUUpdateFlags s) = e68k_out s"
  "e68k_reg_L (CPUUpdateFlags s) = e68k_reg_L s"
  "e68k_reg_M (CPUUpdateFlags s) = e68k_reg_M s"
  "aica_ram (CPUUpdateFlags s) = aica_ram s"
  "ARAM_MASK (CPUUpdateFlags s) = ARAM_MASK s"
  by (simp_all add: CPUUpdateFlags_def Let_def)

lemma leave_mode_frame [simp]:
  "armIrqEnable (leave_mode s) = armIrqEnable s"
  "armFiqEnable (leave_mode s) = armFiqEnable s"
  "armMode (leave_mode s) = armMode s"
  "Arm7Enabled (leave_mode s) = Arm7Enabled s"
  "arm7ClockTicks (leave_mode s) = arm7ClockTicks s"
  "aica_interr (leave_mode s) = aica_interr s"
  "aica_reg_L (leave_mode s) = aica_reg_L s"
  "e68k_out (leave_mode s) = e68k_out s"
  "e68k_reg_L (leave_mode s) = e68k_reg_L s"
  "e68k_reg_M (leave_mode s) = e68k_reg_M s"
  "aica_ram (leave_mode s) = aica_ram s"
  "ARAM_MASK (leave_mode s) = ARAM_MASK s"
  by (simp_all add: leave_mode_def Let_def)

lemma enter_mode_frame [simp]:
  "armIrqEnable (enter_mode m b s) = armIrqEnable s"
  "armFiqEnable (enter_mode m b s) = armFiqEnable s"
  "armMode (enter_mode m b s) = armMode s"
  "arm7ClockTicks (enter_mode m b s) = arm7ClockTicks s"
  "aica_interr (enter_mode m b s) = aica_interr s"
  "aica_reg_L (enter_mode m b s) = aica_reg_L s"
  "e68k_out (enter_mode m b s) = e68k_out s"
  "e68k_reg_L (enter_mode m b s) = e68k_reg_L s"
  "e68k_reg_M (enter_mode m b s) = e68k_reg_M s"
  "aica_ram (enter_mode m b s) = aica_ram s"
  "ARAM_MASK (enter_mode m b s) = ARAM_MASK s"
  by (simp_all add: enter_mode_def Let_def)

lemma CPUSwitchMode_frame [simp]:
  "arm7ClockTicks (CPUSwitchMode m b s) = arm7ClockTicks s"
  "aica_interr (CPUSwitchMode m b s) = aica_interr s"
  "aica_reg_L (CPUSwitchMode m b s) = aica_reg_L s"
  "e68k_out (CPUSwitchMode m b s) = e68k_out s"
  "e68k_reg_L (CPUSwitchMode m b s) = e68k_reg_L s"
  "e68k_reg_M (CPUSwitchMode m b s) = e68k_reg_M s"
  "aica_ram (CPUSwitchMode m b s) = aica_ram s"
  "ARAM_MASK (CPUSwitchMode m b s) = ARAM_MASK s"
  by (simp_all add: CPUSwitchMode_def Let_def)

lemma ticks_add [simp]: "arm7ClockTicks (add_ticks n s) = arm7ClockTicks s + n" "reg (add_ticks n s) = reg s"
  by (simp_all add: add_ticks_def)

lemma reg_CPUSwap [simp]:
  "reg (CPUSwap i j s) k = (if k = i then reg s j else if k = j then reg s i else reg s k)"
  by (simp add: CPUSwap_def Let_def)

lemma reg_set_next [simp]: "reg (set_next v s) i = (if i = R15_ARM_NEXT then v else reg s i)"
  by (simp add: set_next_def)

lemma reg_update_armintc [simp]:
  "reg (update_armintc s) i = (if i = INTR_PEND then (if e68k_out s \<and> armFiqEnable s then 1 else 0) else reg s i)"
  by (simp add: update_armintc_def)

lemma reg_CPUUpdateCPSR_other [simp]: "i \<noteq> RN_CPSR \<Longrightarrow> reg (CPUUpdateCPSR s) i = reg s i"
  by (simp add: CPUUpdateCPSR_def Let_def)

lemma reg_set_flag_other [simp]: "i \<noteq> RN_PSR_FLAGS \<Longrightarrow> reg (set_flag k b s) i = reg s i"
  by (simp add: set_flag_def)

text \<open>Flags.\<close>

lemmas flag_defs = N_FLAG_def Z_FLAG_def C_FLAG_def V_FLAG_def
lemmas set_flag_defs = set_N_def set_Z_def set_C_def set_V_def

lemma flag_set_flag: "k < 32 \<Longrightarrow> bit (reg (set_flag k b s) RN_PSR_FLAGS) j = (if j = k then b else bit (reg s RN_PSR_FLAGS) j)"
  by (auto simp: set_flag_def bit_simps)

lemma flags_set [simp]:
  "N_FLAG (set_N b s) = b" "N_FLAG (set_Z b s) = N_FLAG s" "N_FLAG (set_C b s) = N_FLAG s" "N_FLAG (set_V b s) = N_FLAG s"
  "Z_FLAG (set_N b s) = Z_FLAG s" "Z_FLAG (set_Z b s) = b" "Z_FLAG (set_C b s) = Z_FLAG s" "Z_FLAG (set_V b s) = Z_FLAG s"
  "C_FLAG (set_N b s) = C_FLAG s" "C_FLAG (set_Z b s) = C_FLAG s" "C_FLAG (set_C b s) = b" "C_FLAG (set_V b s) = C_FLAG s"
  "V_FLAG (set_N b s) = V_FLAG s" "V_FLAG (set_Z b s) = V_FLAG s" "V_FLAG (set_C b s) = V_FLAG s" "V_FLAG (set_V b s) = b"
  by (simp_all add: flag_defs set_flag_defs flag_set_flag)

lemma flags_setreg [simp]:
  "i \<noteq> RN_PSR_FLAGS \<Longrightarrow> N_FLAG (setreg i v s) = N_FLAG s" "i \<noteq> RN_PSR_FLAGS \<Longrightarrow> Z_FLAG (setreg i v s) = Z_FLAG s"
  "i \<noteq> RN_PSR_FLAGS \<Longrightarrow> C_FLAG (setreg i v s) = C_FLAG s" "i \<noteq> RN_PSR_FLAGS \<Longrightarrow> V_FLAG (setreg i v s) = V_FLAG s"
  by (simp_all add: flag_defs)

lemma set_N_frame [simp]:
  "armIrqEnable (set_N b s) = armIrqEnable s"
  "armFiqEnable (set_N b s) = armFiqEnable s"
  "armMode (set_N b s) = armMode s"
  "Arm7Enabled (set_N b s) = Arm7Enabled s"
  "arm7ClockTicks (set_N b s) = arm7ClockTicks s"
  "aica_interr (set_N b s) = aica_interr s"
  "aica_reg_L (set_N b s) = aica_reg_L s"
  "e68k_out (set_N b s) = e68k_out s"
  "e68k_reg_L (set_N b s) = e68k_reg_L s"
  "e68k_reg_M (set_N b s) = e68k_reg_M s"
  "aica_ram (set_N b s) = aica_ram s"
  "ARAM_MASK (set_N b s) = ARAM_MASK s"
  by (simp_all add: set_flag_defs)

lemma set_Z_frame [simp]:
  "armIrqEnable (set_Z b s) = armIrqEnable s"
  "armFiqEnable (set_Z b s) = armFiqEnable s"
  "armMode (set_Z b s) = armMode s"
  "Arm7Enabled (set_Z b s) = Arm7Enabled s"
  "arm7ClockTicks (set_Z b s) = arm7ClockTicks s"
  "aica_interr (set_Z b s) = aica_interr s"
  "aica_reg_L (set_Z b s) = aica_reg_L s"
  "e68k_out (set_Z b s) = e68k_out s"
  "e68k_reg_L (set_Z b s) = e68k_reg_L s"
  "e68k_reg_M (set_Z b s) = e68k_reg_M s"
  "aica_ram (set_Z b s) = aica_ram s"
  "ARAM_MASK (set_Z b s) = ARAM_MASK s"
  by (simp_all add: set_flag_defs)

lemma set_C_frame [simp]:
  "armIrqEnable (set_C b s) = armIrqEnable s"
  "armFiqEnable (set_C b s) = armFiqEnable s"
  "armMode (set_C b s) = armMode s"
  "Arm7Enabled (set_C b s) = Arm7Enabled s"
  "arm7ClockTicks (set_C b s) = arm7ClockTicks s"
  "aica_interr (set_C b s) = aica_interr s"
  "aica_reg_L (set_C b s) = aica_reg_L s"
  "e68k_out (set_C b s) = e68k_out s"
  "e68k_reg_L (set_C b s) = e68k_reg_L s"
  "e68k_reg_M (set_C b s) = e68k_reg_M s"
  "aica_ram (set_C b s) = aica_ram s"
  "ARAM_MASK (set_C b s) = ARAM_MASK s"
  by (simp_all add: set_flag_defs)

lemma set_V_frame [simp]:
  "armIrqEnable (set_V b s) = armIrqEnable s"
  "armFiqEnable (set_V b s) = armFiqEnable s"
  "armMode (set_V b s) = armMode s"
  "Arm7Enabled (set_V b s) = Arm7Enabled s"
  "arm7ClockTicks (set_V b s) = arm7ClockTicks s"
  "aica_interr (set_V b s) = aica_interr s"
  "aica_reg_L (set_V b s) = aica_reg_L s"
  "e68k_out (set_V b s) = e68k_out s"
  "e68k_reg_L (set_V b s) = e68k_reg_L s"
  "e68k_reg_M (set_V b s) = e68k_reg_M s"
  "aica_ram (set_V b s) = aica_ram s"
  "ARAM_MASK (set_V b s) = ARAM_MASK s"
  by (simp_all add: set_flag_defs)

lemma reg_flags_other [simp]:
  "i \<noteq> RN_PSR_FLAGS \<Longrightarrow> reg (set_N b s) i = reg s i" "i \<noteq> RN_PSR_FLAGS \<Longrightarrow> reg (set_Z b s) i = reg s i"
  "i \<noteq> RN_PSR_FLAGS \<Longrightarrow> reg (set_C b s) i = reg s i" "i \<noteq> RN_PSR_FLAGS \<Longrightarrow> reg (set_V b s) i = reg s i"
  by (simp_all add: set_flag_defs)

text \<open>A state to evaluate on.\<close>

definition arm_zero :: arm_st where
  "arm_zero = \<lparr>arm_Reg = (\<lambda>_. 0), armIrqEnable = True, armFiqEnable = True, armMode = 0x13, Arm7Enabled = True,
     arm7ClockTicks = 0, aica_interr = False, aica_reg_L = 0, e68k_out = False, e68k_reg_L = 0, e68k_reg_M = 0,
     aica_ram = (\<lambda>_. 0), ARAM_MASK = 0x1FFFFF\<rparr>"

lemma arm_zero_simps [simp]:
  "reg arm_zero i = 0" "armIrqEnable arm_zero" "armFiqEnable arm_zero" "armMode arm_zero = 0x13"
  "arm7ClockTicks arm_zero = 0" "\<not> e68k_out arm_zero" "aica_ram arm_zero a = 0" "ARAM_MASK arm_zero = 0x1FFFFF"
  by (simp_all add: arm_zero_def reg_def)

text \<open>A sound generator whose registers read as zero and ignore writes.\<close>

definition silent_aica :: "arm_st aica" where
  "silent_aica = \<lparr>readRegInternal8 = \<lambda>addr s. (0, s), readRegInternal16 = \<lambda>addr s. (0, s),
     writeRegInternal8 = \<lambda>addr v s. s, writeRegInternal16 = \<lambda>addr v s. s\<rparr>"

end
