(* ===== verification/Arm7_Alu.thy ===== *)
theory Arm7_Alu
  imports Arm7_State
begin

section \<open>Data processing instructions of the sound CPU\<close>

text \<open>
  The macros of \<open>core/hw/arm7/arm-new.h\<close> that make up the data processing instructions: the
  operations (\<open>OP_AND\<close> to \<open>OP_MVNS\<close>), the barrel shifter in its logical form (which
  computes the carry out) and its arithmetic form (which does not), and the treatment of the
  program counter as destination.

  An operation takes the destination and base register numbers, the shifter's value and
  carry out. A shift by 32 of a 32 bit value, which \<open>ARITHMETIC_ROR_IMM\<close> can reach, is undefined
  in C++; the shift counts of the hosts are taken modulo 32, and the result there is the
  same for a shift that yields 0.
\<close>

type_synonym 'z opfn = "nat \<Rightarrow> nat \<Rightarrow> u32 \<Rightarrow> bool \<Rightarrow> 'z arm_st_scheme \<Rightarrow> 'z arm_st_scheme"

definition NEG :: "u32 \<Rightarrow> u32" where "NEG i = drop_bit 31 i"

definition POS :: "u32 \<Rightarrow> u32" where "POS i = drop_bit 31 (NOT i)"

definition ADDCARRY :: "u32 \<Rightarrow> u32 \<Rightarrow> u32 \<Rightarrow> 'z arm_st_scheme \<Rightarrow> 'z arm_st_scheme" where
  "ADDCARRY a b c = set_C ((NEG a AND NEG b) OR (NEG a AND POS c) OR (NEG b AND POS c) \<noteq> 0)"

definition ADDOVERFLOW :: "u32 \<Rightarrow> u32 \<Rightarrow> u32 \<Rightarrow> 'z arm_st_scheme \<Rightarrow> 'z arm_st_scheme" where
  "ADDOVERFLOW a b c = set_V ((NEG a AND NEG b AND POS c) OR (POS a AND POS b AND NEG c) \<noteq> 0)"

definition SUBCARRY :: "u32 \<Rightarrow> u32 \<Rightarrow> u32 \<Rightarrow> 'z arm_st_scheme \<Rightarrow> 'z arm_st_scheme" where
  "SUBCARRY a b c = set_C ((NEG a AND POS b) OR (NEG a AND POS c) OR (POS b AND POS c) \<noteq> 0)"

definition SUBOVERFLOW :: "u32 \<Rightarrow> u32 \<Rightarrow> u32 \<Rightarrow> 'z arm_st_scheme \<Rightarrow> 'z arm_st_scheme" where
  "SUBOVERFLOW a b c = set_V ((NEG a AND POS b AND POS c) OR (POS a AND NEG b AND NEG c) \<noteq> 0)"

text \<open>The flags of a logical result and of an arithmetic one.\<close>

definition logical_flags :: "u32 \<Rightarrow> bool \<Rightarrow> 'z arm_st_scheme \<Rightarrow> 'z arm_st_scheme" where
  "logical_flags res C_OUT s =
     (let s = set_N (res AND 0x80000000 \<noteq> 0) s;
          s = set_Z (res = 0) s
      in set_C C_OUT s)"

definition result_flags :: "u32 \<Rightarrow> 'z arm_st_scheme \<Rightarrow> 'z arm_st_scheme" where
  "result_flags res s = set_N (NEG res \<noteq> 0) (set_Z (res = 0) s)"

subsection \<open>Operations\<close>

definition OP_AND :: "'z opfn" where
  "OP_AND dest base value C_OUT s = setreg dest (reg s base AND value) s"

definition OP_ANDS :: "'z opfn" where
  "OP_ANDS dest base value C_OUT s =
     (let s = setreg dest (reg s base AND value) s in logical_flags (reg s dest) C_OUT s)"

definition OP_EOR :: "'z opfn" where
  "OP_EOR dest base value C_OUT s = setreg dest (reg s base XOR value) s"

definition OP_EORS :: "'z opfn" where
  "OP_EORS dest base value C_OUT s =
     (let s = setreg dest (reg s base XOR value) s in logical_flags (reg s dest) C_OUT s)"

definition OP_SUB :: "'z opfn" where
  "OP_SUB dest base value C_OUT s = setreg dest (reg s base - value) s"

definition OP_SUBS :: "'z opfn" where
  "OP_SUBS dest base value C_OUT s =
     (let lhs = reg s base; rhs = value; res = lhs - rhs
      in SUBOVERFLOW lhs rhs res (SUBCARRY lhs rhs res (result_flags res (setreg dest res s))))"

definition OP_RSB :: "'z opfn" where
  "OP_RSB dest base value C_OUT s = setreg dest (value - reg s base) s"

definition OP_RSBS :: "'z opfn" where
  "OP_RSBS dest base value C_OUT s =
     (let lhs = reg s base; rhs = value; res = rhs - lhs
      in SUBOVERFLOW rhs lhs res (SUBCARRY rhs lhs res (result_flags res (setreg dest res s))))"

definition OP_ADD :: "'z opfn" where
  "OP_ADD dest base value C_OUT s = setreg dest (reg s base + value) s"

definition OP_ADDS :: "'z opfn" where
  "OP_ADDS dest base value C_OUT s =
     (let lhs = reg s base; rhs = value; res = lhs + rhs
      in ADDOVERFLOW lhs rhs res (ADDCARRY lhs rhs res (result_flags res (setreg dest res s))))"

definition OP_ADC :: "'z opfn" where
  "OP_ADC dest base value C_OUT s = setreg dest (reg s base + value + (if C_FLAG s then 1 else 0)) s"

definition OP_ADCS :: "'z opfn" where
  "OP_ADCS dest base value C_OUT s =
     (let lhs = reg s base; rhs = value; res = lhs + rhs + (if C_FLAG s then 1 else 0)
      in ADDOVERFLOW lhs rhs res (ADDCARRY lhs rhs res (result_flags res (setreg dest res s))))"

definition OP_SBC :: "'z opfn" where
  "OP_SBC dest base value C_OUT s = setreg dest (reg s base - value - (if C_FLAG s then 0 else 1)) s"

definition OP_SBCS :: "'z opfn" where
  "OP_SBCS dest base value C_OUT s =
     (let lhs = reg s base; rhs = value; res = lhs - rhs - (if C_FLAG s then 0 else 1)
      in SUBOVERFLOW lhs rhs res (SUBCARRY lhs rhs res (result_flags res (setreg dest res s))))"

definition OP_RSC :: "'z opfn" where
  "OP_RSC dest base value C_OUT s = setreg dest (value - reg s base - (if C_FLAG s then 0 else 1)) s"

definition OP_RSCS :: "'z opfn" where
  "OP_RSCS dest base value C_OUT s =
     (let lhs = reg s base; rhs = value; res = rhs - lhs - (if C_FLAG s then 0 else 1)
      in SUBOVERFLOW rhs lhs res (SUBCARRY rhs lhs res (result_flags res (setreg dest res s))))"

definition OP_CMP :: "'z opfn" where
  "OP_CMP dest base value C_OUT s =
     (let lhs = reg s base; rhs = value; res = lhs - rhs
      in SUBOVERFLOW lhs rhs res (SUBCARRY lhs rhs res (result_flags res s)))"

definition OP_CMN :: "'z opfn" where
  "OP_CMN dest base value C_OUT s =
     (let lhs = reg s base; rhs = value; res = lhs + rhs
      in ADDOVERFLOW lhs rhs res (ADDCARRY lhs rhs res (result_flags res s)))"

definition OP_TST :: "'z opfn" where
  "OP_TST dest base value C_OUT s = logical_flags (reg s base AND value) C_OUT s"

definition OP_TEQ :: "'z opfn" where
  "OP_TEQ dest base value C_OUT s = logical_flags (reg s base XOR value) C_OUT s"

definition OP_ORR :: "'z opfn" where
  "OP_ORR dest base value C_OUT s = setreg dest (reg s base OR value) s"

definition OP_ORRS :: "'z opfn" where
  "OP_ORRS dest base value C_OUT s =
     (let s = setreg dest (reg s base OR value) s in logical_flags (reg s dest) C_OUT s)"

definition OP_MOV :: "'z opfn" where
  "OP_MOV dest base value C_OUT s = setreg dest value s"

definition OP_MOVS :: "'z opfn" where
  "OP_MOVS dest base value C_OUT s =
     (let s = setreg dest value s in logical_flags (reg s dest) C_OUT s)"

definition OP_BIC :: "'z opfn" where
  "OP_BIC dest base value C_OUT s = setreg dest (reg s base AND NOT value) s"

definition OP_BICS :: "'z opfn" where
  "OP_BICS dest base value C_OUT s =
     (let s = setreg dest (reg s base AND NOT value) s in logical_flags (reg s dest) C_OUT s)"

definition OP_MVN :: "'z opfn" where
  "OP_MVN dest base value C_OUT s = setreg dest (NOT value) s"

definition OP_MVNS :: "'z opfn" where
  "OP_MVNS dest base value C_OUT s =
     (let s = setreg dest (NOT value) s in logical_flags (reg s dest) C_OUT s)"

subsection \<open>Operand fields\<close>

definition Rm :: "u32 \<Rightarrow> nat" where "Rm opcode = unat (opcode AND 0x0f)"

definition Rs :: "u32 \<Rightarrow> nat" where "Rs opcode = unat (drop_bit 8 opcode AND 15)"

definition Rd :: "u32 \<Rightarrow> nat" where "Rd opcode = unat (drop_bit 12 opcode AND 15)"

definition Rn :: "u32 \<Rightarrow> nat" where "Rn opcode = unat (drop_bit 16 opcode AND 0x0F)"

definition shift_imm :: "u32 \<Rightarrow> nat" where "shift_imm opcode = unat (drop_bit 7 opcode AND 0x1F)"

definition rotate_imm :: "u32 \<Rightarrow> nat" where "rotate_imm opcode = unat (drop_bit 7 (opcode AND 0xF00))"

subsection \<open>The shifter with carry out\<close>

definition LOGICAL_LSL_REG :: "u32 \<Rightarrow> nat \<Rightarrow> u32 \<times> bool" where
  "LOGICAL_LSL_REG v shift = (push_bit shift v, drop_bit (32 - shift) v AND 1 \<noteq> 0)"

definition LOGICAL_LSR_REG :: "u32 \<Rightarrow> nat \<Rightarrow> u32 \<times> bool" where
  "LOGICAL_LSR_REG v shift = (drop_bit shift v, drop_bit (shift - 1) v AND 1 \<noteq> 0)"

definition LOGICAL_ASR_REG :: "u32 \<Rightarrow> nat \<Rightarrow> u32 \<times> bool" where
  "LOGICAL_ASR_REG v shift = (signed_drop_bit shift v, signed_drop_bit (shift - 1) v AND 1 \<noteq> 0)"

definition LOGICAL_ROR_REG :: "u32 \<Rightarrow> nat \<Rightarrow> u32 \<times> bool" where
  "LOGICAL_ROR_REG v shift =
     (push_bit (32 - shift) v OR drop_bit shift v, drop_bit (shift - 1) v AND 1 \<noteq> 0)"

definition LOGICAL_RRX_REG :: "u32 \<Rightarrow> bool \<Rightarrow> u32 \<times> bool" where
  "LOGICAL_RRX_REG v c = (drop_bit 1 v OR push_bit 31 (if c then 1 else 0), v AND 1 \<noteq> 0)"

definition LOGICAL_ROR_IMM :: "u32 \<Rightarrow> nat \<Rightarrow> u32 \<times> bool" where
  "LOGICAL_ROR_IMM v shift =
     (push_bit (32 - shift) v OR drop_bit shift v, drop_bit (shift - 1) v AND 1 \<noteq> 0)"

text \<open>The forms with an immediate shift amount.\<close>

definition logical_LSL_imm :: "u32 \<Rightarrow> 'z arm_st_scheme \<Rightarrow> u32 \<times> bool" where
  "logical_LSL_imm opcode s =
     (let shift = shift_imm opcode
      in if shift \<noteq> 0 then LOGICAL_LSL_REG (reg s (Rm opcode)) shift else (reg s (Rm opcode), C_FLAG s))"

definition logical_LSR_imm :: "u32 \<Rightarrow> 'z arm_st_scheme \<Rightarrow> u32 \<times> bool" where
  "logical_LSR_imm opcode s =
     (let shift = shift_imm opcode
      in if shift \<noteq> 0 then LOGICAL_LSR_REG (reg s (Rm opcode)) shift
         else (0, reg s (Rm opcode) AND 0x80000000 \<noteq> 0))"

definition logical_ASR_imm :: "u32 \<Rightarrow> 'z arm_st_scheme \<Rightarrow> u32 \<times> bool" where
  "logical_ASR_imm opcode s =
     (let shift = shift_imm opcode
      in if shift \<noteq> 0 then LOGICAL_ASR_REG (reg s (Rm opcode)) shift
         else if reg s (Rm opcode) AND 0x80000000 \<noteq> 0 then (0xFFFFFFFF, True) else (0, False))"

definition logical_ROR_imm :: "u32 \<Rightarrow> 'z arm_st_scheme \<Rightarrow> u32 \<times> bool" where
  "logical_ROR_imm opcode s =
     (let shift = shift_imm opcode
      in if shift \<noteq> 0 then LOGICAL_ROR_REG (reg s (Rm opcode)) shift
         else LOGICAL_RRX_REG (reg s (Rm opcode)) (C_FLAG s))"

text \<open>The forms with the shift amount in a register: \<open>shift\<close> is its low byte.\<close>

definition logical_LSL_Rs :: "u32 \<Rightarrow> nat \<Rightarrow> 'z arm_st_scheme \<Rightarrow> u32 \<times> bool" where
  "logical_LSL_Rs opcode shift s =
     (if shift \<noteq> 0 then
        if shift = 32 then (0, reg s (Rm opcode) AND 1 \<noteq> 0)
        else if shift < 32 then LOGICAL_LSL_REG (reg s (Rm opcode)) shift
        else (0, False)
      else (reg s (Rm opcode), C_FLAG s))"

definition logical_LSR_Rs :: "u32 \<Rightarrow> nat \<Rightarrow> 'z arm_st_scheme \<Rightarrow> u32 \<times> bool" where
  "logical_LSR_Rs opcode shift s =
     (if shift \<noteq> 0 then
        if shift = 32 then (0, reg s (Rm opcode) AND 0x80000000 \<noteq> 0)
        else if shift < 32 then LOGICAL_LSR_REG (reg s (Rm opcode)) shift
        else (0, False)
      else (reg s (Rm opcode), C_FLAG s))"

definition logical_ASR_Rs :: "u32 \<Rightarrow> nat \<Rightarrow> 'z arm_st_scheme \<Rightarrow> u32 \<times> bool" where
  "logical_ASR_Rs opcode shift s =
     (if shift < 32 then
        if shift \<noteq> 0 then LOGICAL_ASR_REG (reg s (Rm opcode)) shift
        else (reg s (Rm opcode), C_FLAG s)
      else if reg s (Rm opcode) AND 0x80000000 \<noteq> 0 then (0xFFFFFFFF, True) else (0, False))"

definition logical_ROR_Rs :: "u32 \<Rightarrow> nat \<Rightarrow> 'z arm_st_scheme \<Rightarrow> u32 \<times> bool" where
  "logical_ROR_Rs opcode shift s =
     (if shift \<noteq> 0 then
        let shift = shift mod 32 in
        if shift \<noteq> 0 then LOGICAL_ROR_REG (reg s (Rm opcode)) shift
        else (reg s (Rm opcode), reg s (Rm opcode) AND 0x80000000 \<noteq> 0)
      else (reg s (Rm opcode), reg s (Rm opcode) AND 0x80000000 \<noteq> 0))"

definition logical_imm :: "u32 \<Rightarrow> 'z arm_st_scheme \<Rightarrow> u32 \<times> bool" where
  "logical_imm opcode s =
     (let shift = rotate_imm opcode
      in if shift \<noteq> 0 then LOGICAL_ROR_IMM (opcode AND 0xff) shift else (opcode AND 0xff, C_FLAG s))"

subsection \<open>The shifter without carry out\<close>

definition arithmetic_LSL_imm :: "u32 \<Rightarrow> 'z arm_st_scheme \<Rightarrow> u32" where
  "arithmetic_LSL_imm opcode s =
     (let shift = shift_imm opcode
      in if shift \<noteq> 0 then push_bit shift (reg s (Rm opcode)) else reg s (Rm opcode))"

definition arithmetic_LSR_imm :: "u32 \<Rightarrow> 'z arm_st_scheme \<Rightarrow> u32" where
  "arithmetic_LSR_imm opcode s =
     (let shift = shift_imm opcode in if shift \<noteq> 0 then drop_bit shift (reg s (Rm opcode)) else 0)"

definition arithmetic_ASR_imm :: "u32 \<Rightarrow> 'z arm_st_scheme \<Rightarrow> u32" where
  "arithmetic_ASR_imm opcode s =
     (let shift = shift_imm opcode
      in if shift \<noteq> 0 then signed_drop_bit shift (reg s (Rm opcode))
         else if reg s (Rm opcode) AND 0x80000000 \<noteq> 0 then 0xFFFFFFFF else 0)"

definition arithmetic_ROR_imm :: "u32 \<Rightarrow> 'z arm_st_scheme \<Rightarrow> u32" where
  "arithmetic_ROR_imm opcode s =
     (let shift = shift_imm opcode; v = reg s (Rm opcode)
      in if shift \<noteq> 0 then push_bit (32 - shift) v OR drop_bit shift v
         else drop_bit 1 v OR push_bit 31 (if C_FLAG s then 1 else 0))"

definition arithmetic_LSL_Rs :: "u32 \<Rightarrow> nat \<Rightarrow> 'z arm_st_scheme \<Rightarrow> u32" where
  "arithmetic_LSL_Rs opcode shift s =
     (if shift \<noteq> 0 then
        if shift = 32 then 0
        else if shift < 32 then push_bit shift (reg s (Rm opcode))
        else 0
      else reg s (Rm opcode))"

definition arithmetic_LSR_Rs :: "u32 \<Rightarrow> nat \<Rightarrow> 'z arm_st_scheme \<Rightarrow> u32" where
  "arithmetic_LSR_Rs opcode shift s =
     (if shift \<noteq> 0 then
        if shift = 32 then 0
        else if shift < 32 then drop_bit shift (reg s (Rm opcode))
        else 0
      else reg s (Rm opcode))"

definition arithmetic_ASR_Rs :: "u32 \<Rightarrow> nat \<Rightarrow> 'z arm_st_scheme \<Rightarrow> u32" where
  "arithmetic_ASR_Rs opcode shift s =
     (if shift < 32 then
        if shift \<noteq> 0 then signed_drop_bit shift (reg s (Rm opcode)) else reg s (Rm opcode)
      else if reg s (Rm opcode) AND 0x80000000 \<noteq> 0 then 0xFFFFFFFF else 0)"

definition arithmetic_ROR_Rs :: "u32 \<Rightarrow> nat \<Rightarrow> 'z arm_st_scheme \<Rightarrow> u32" where
  "arithmetic_ROR_Rs opcode shift s =
     (if shift \<noteq> 0 then
        let shift = shift mod 32; v = reg s (Rm opcode) in
        if shift \<noteq> 0 then push_bit (32 - shift) v OR drop_bit shift v else v
      else reg s (Rm opcode))"

definition arithmetic_imm :: "u32 \<Rightarrow> u32" where
  "arithmetic_imm opcode =
     (let shift = rotate_imm opcode; v = opcode AND 0xff
      in push_bit ((32 - shift) mod 32) v OR drop_bit shift v)"

subsection \<open>Instructions\<close>

text \<open>The end of every form: with the program counter as destination the instruction is a
  branch, and with the \<open>S\<close> bit a return from an exception.\<close>

definition finish_data :: "'z opfn \<Rightarrow> 'z opfn \<Rightarrow> u32 \<Rightarrow> u32 \<Rightarrow> bool \<Rightarrow> 'z arm_st_scheme \<Rightarrow> 'z arm_st_scheme" where
  "finish_data OPCODE OPCODE2 opcode value C_OUT s =
     (let base = Rn opcode; dest = Rd opcode in
      if dest = 15 then
        let s = OPCODE2 dest base value C_OUT s;
            s = (if opcode AND 0x00100000 \<noteq> 0
                 then CPUSwitchMode (reg s RN_SPSR AND 0x1f) False (add_ticks 1 s) else s);
            s = setreg 15 (reg s 15 AND 0xFFFFFFFC) s;
            s = set_next (reg s 15) s
        in setreg 15 (reg s 15 + 4) s
      else OPCODE dest base value C_OUT s)"

text \<open>The preparation of the forms that shift by a register.\<close>

definition by_register :: "u32 \<Rightarrow> 'z arm_st_scheme \<Rightarrow> nat \<times> 'z arm_st_scheme" where
  "by_register opcode s =
     (let s = add_ticks 1 s; shift = unat (reg s (Rs opcode) AND 0xFF)
      in (shift, setreg 15 (reg s 15 + 4) s))"

text \<open>The macro: \<open>sel\<close> is the distance of the switch value from \<open>BASE\<close>; \<^const>\<open>None\<close> when the
  macro has no label for it.\<close>

definition LOGICAL_DATA_OPCODE ::
  "'z opfn \<Rightarrow> 'z opfn \<Rightarrow> nat \<Rightarrow> u32 \<Rightarrow> 'z arm_st_scheme \<Rightarrow> 'z arm_st_scheme option" where
  "LOGICAL_DATA_OPCODE OPCODE OPCODE2 sel opcode s =
     (let fin = (\<lambda>(value, C_OUT). finish_data OPCODE OPCODE2 opcode value C_OUT);
          imm = (\<lambda>operand. Some (fin (operand opcode s) s));
          byreg = (\<lambda>operand. let (shift, s) = by_register opcode s in Some (fin (operand opcode shift s) s))
      in if sel = 0 \<or> sel = 8 then imm logical_LSL_imm
         else if sel = 2 \<or> sel = 10 then imm logical_LSR_imm
         else if sel = 4 \<or> sel = 12 then imm logical_ASR_imm
         else if sel = 6 \<or> sel = 14 then imm logical_ROR_imm
         else if sel = 1 then byreg logical_LSL_Rs
         else if sel = 3 then byreg logical_LSR_Rs
         else if sel = 5 then byreg logical_ASR_Rs
         else if sel = 7 then byreg logical_ROR_Rs
         else if 0x200 \<le> sel \<and> sel \<le> 0x20f then imm logical_imm
         else None)"

definition ARITHMETIC_DATA_OPCODE ::
  "'z opfn \<Rightarrow> 'z opfn \<Rightarrow> nat \<Rightarrow> u32 \<Rightarrow> 'z arm_st_scheme \<Rightarrow> 'z arm_st_scheme option" where
  "ARITHMETIC_DATA_OPCODE OPCODE OPCODE2 sel opcode s =
     (let fin = (\<lambda>value. finish_data OPCODE OPCODE2 opcode value False);
          imm = (\<lambda>operand. Some (fin (operand opcode s) s));
          byreg = (\<lambda>operand. let (shift, s) = by_register opcode s in Some (fin (operand opcode shift s) s))
      in if sel = 0 \<or> sel = 8 then imm arithmetic_LSL_imm
         else if sel = 2 \<or> sel = 10 then imm arithmetic_LSR_imm
         else if sel = 4 \<or> sel = 12 then imm arithmetic_ASR_imm
         else if sel = 6 \<or> sel = 14 then imm arithmetic_ROR_imm
         else if sel = 1 then byreg arithmetic_LSL_Rs
         else if sel = 3 then byreg arithmetic_LSR_Rs
         else if sel = 5 then byreg arithmetic_ASR_Rs
         else if sel = 7 then byreg arithmetic_ROR_Rs
         else if 0x200 \<le> sel \<and> sel \<le> 0x20f then imm (\<lambda>opcode s. arithmetic_imm opcode)
         else None)"

text \<open>The macro for the operations that name the base register themselves or have none is
  the same but for the unused variable.\<close>

definition LOGICAL_DATA_OPCODE_WITHOUT_base ::
  "'z opfn \<Rightarrow> 'z opfn \<Rightarrow> nat \<Rightarrow> u32 \<Rightarrow> 'z arm_st_scheme \<Rightarrow> 'z arm_st_scheme option" where
  "LOGICAL_DATA_OPCODE_WITHOUT_base = LOGICAL_DATA_OPCODE"

text \<open>The data processing cases of the switch: \<open>base\<close> is the high part of the switch value
  without the immediate bit.\<close>

definition data_opcode :: "nat \<Rightarrow> nat \<Rightarrow> u32 \<Rightarrow> 'z arm_st_scheme \<Rightarrow> 'z arm_st_scheme option" where
  "data_opcode base =
     (if base = 0x000 then LOGICAL_DATA_OPCODE_WITHOUT_base OP_AND OP_AND
      else if base = 0x010 then LOGICAL_DATA_OPCODE_WITHOUT_base OP_ANDS OP_AND
      else if base = 0x020 then LOGICAL_DATA_OPCODE_WITHOUT_base OP_EOR OP_EOR
      else if base = 0x030 then LOGICAL_DATA_OPCODE_WITHOUT_base OP_EORS OP_EOR
      else if base = 0x040 then ARITHMETIC_DATA_OPCODE OP_SUB OP_SUB
      else if base = 0x050 then ARITHMETIC_DATA_OPCODE OP_SUBS OP_SUB
      else if base = 0x060 then ARITHMETIC_DATA_OPCODE OP_RSB OP_RSB
      else if base = 0x070 then ARITHMETIC_DATA_OPCODE OP_RSBS OP_RSB
      else if base = 0x080 then ARITHMETIC_DATA_OPCODE OP_ADD OP_ADD
      else if base = 0x090 then ARITHMETIC_DATA_OPCODE OP_ADDS OP_ADD
      else if base = 0x0a0 then ARITHMETIC_DATA_OPCODE OP_ADC OP_ADC
      else if base = 0x0b0 then ARITHMETIC_DATA_OPCODE OP_ADCS OP_ADC
      else if base = 0x0c0 then ARITHMETIC_DATA_OPCODE OP_SBC OP_SBC
      else if base = 0x0d0 then ARITHMETIC_DATA_OPCODE OP_SBCS OP_SBC
      else if base = 0x0e0 then ARITHMETIC_DATA_OPCODE OP_RSC OP_RSC
      else if base = 0x0f0 then ARITHMETIC_DATA_OPCODE OP_RSCS OP_RSC
      else if base = 0x110 then LOGICAL_DATA_OPCODE OP_TST OP_TST
      else if base = 0x130 then LOGICAL_DATA_OPCODE OP_TEQ OP_TEQ
      else if base = 0x150 then ARITHMETIC_DATA_OPCODE OP_CMP OP_CMP
      else if base = 0x170 then ARITHMETIC_DATA_OPCODE OP_CMN OP_CMN
      else if base = 0x180 then LOGICAL_DATA_OPCODE OP_ORR OP_ORR
      else if base = 0x190 then LOGICAL_DATA_OPCODE OP_ORRS OP_ORR
      else if base = 0x1a0 then LOGICAL_DATA_OPCODE_WITHOUT_base OP_MOV OP_MOV
      else if base = 0x1b0 then LOGICAL_DATA_OPCODE_WITHOUT_base OP_MOVS OP_MOV
      else if base = 0x1c0 then LOGICAL_DATA_OPCODE OP_BIC OP_BIC
      else if base = 0x1d0 then LOGICAL_DATA_OPCODE OP_BICS OP_BIC
      else if base = 0x1e0 then LOGICAL_DATA_OPCODE_WITHOUT_base OP_MVN OP_MVN
      else if base = 0x1f0 then LOGICAL_DATA_OPCODE_WITHOUT_base OP_MVNS OP_MVN
      else (\<lambda>_ _ _. None))"

end
