(* ===== verification/Arm7_Ops.thy ===== *)
theory Arm7_Ops
  imports Arm7_Alu
begin

section \<open>Multiplication, status and memory instructions of the sound CPU\<close>

text \<open>
  The remaining cases of the switch in \<open>core/hw/arm7/arm-new.h\<close>, and the switch itself: the
  multiplications, the transfers to and from the status registers, the swaps, the loads and
  stores in all their addressing modes, the block transfers, the branches and the software
  interrupt. The cases that the file has commented out (\<open>LDRH\<close>, \<open>STRH\<close> and \<open>BX\<close>) are undefined
  instructions.
\<close>

subsection \<open>Multiplication\<close>

text \<open>The cycles of a multiplication depend on the significant bytes of the multiplier.\<close>

definition mul_ticks :: "u32 \<Rightarrow> u32 \<Rightarrow> u32" where
  "mul_ticks n rs =
     (if rs AND 0xFFFFFF00 = 0 then n
      else if rs AND 0xFFFF0000 = 0 then n + 1
      else if rs AND 0xFF000000 = 0 then n + 2
      else n + 3)"

definition mul_ticks_signed :: "u32 \<Rightarrow> u32 \<Rightarrow> u32" where
  "mul_ticks_signed n rs = mul_ticks n (if sint rs < 0 then NOT rs else rs)"

definition mul_flags :: "u32 \<Rightarrow> 'z arm_st_scheme \<Rightarrow> 'z arm_st_scheme" where
  "mul_flags res s = set_Z (res = 0) (set_N (res AND 0x80000000 \<noteq> 0) s)"


definition MUL :: "u32 \<Rightarrow> 'z arm_st_scheme \<Rightarrow> 'z arm_st_scheme" where
  "MUL opcode s =
     (let dest = Rn opcode; mult = Rm opcode; rs = reg s (Rs opcode);
          s = setreg dest (reg s mult * rs) s
      in add_ticks (mul_ticks_signed 2 rs) s)"

definition MULS :: "u32 \<Rightarrow> 'z arm_st_scheme \<Rightarrow> 'z arm_st_scheme" where
  "MULS opcode s =
     (let dest = Rn opcode; mult = Rm opcode; rs = reg s (Rs opcode);
          s = setreg dest (reg s mult * rs) s;
          s = mul_flags (reg s dest) s
      in add_ticks (mul_ticks_signed 2 rs) s)"

definition MLA :: "u32 \<Rightarrow> 'z arm_st_scheme \<Rightarrow> 'z arm_st_scheme" where
  "MLA opcode s =
     (let dest = Rn opcode; mult = Rm opcode; rs = reg s (Rs opcode);
          s = setreg dest (reg s mult * rs + reg s (Rd opcode)) s
      in add_ticks (mul_ticks_signed 3 rs) s)"

definition MLAS :: "u32 \<Rightarrow> 'z arm_st_scheme \<Rightarrow> 'z arm_st_scheme" where
  "MLAS opcode s =
     (let dest = Rn opcode; mult = Rm opcode; rs = reg s (Rs opcode);
          s = setreg dest (reg s mult * rs + reg s (Rd opcode)) s;
          s = mul_flags (reg s dest) s
      in add_ticks (mul_ticks_signed 3 rs) s)"

definition UMULL :: "u32 \<Rightarrow> 'z arm_st_scheme \<Rightarrow> 'z arm_st_scheme" where
  "UMULL opcode s =
     (let source = reg s (Rs opcode); destLo = Rd opcode; destHi = Rn opcode;
          temp = (ucast (reg s (Rm opcode)) :: u64) * ucast source;
          s = setreg destLo (ucast temp) s;
          s = setreg destHi (ucast (drop_bit 32 temp)) s
      in add_ticks (mul_ticks 2 source) s)"

definition UMULLS :: "u32 \<Rightarrow> 'z arm_st_scheme \<Rightarrow> 'z arm_st_scheme" where
  "UMULLS opcode s =
     (let source = reg s (Rs opcode); destLo = Rd opcode; destHi = Rn opcode;
          temp = (ucast (reg s (Rm opcode)) :: u64) * ucast source;
          s = setreg destLo (ucast temp) s;
          s = setreg destHi (ucast (drop_bit 32 temp)) s;
          s = set_N (reg s destHi AND 0x80000000 \<noteq> 0) (set_Z (temp = 0) s)
      in add_ticks (mul_ticks 2 source) s)"

definition UMLAL :: "u32 \<Rightarrow> 'z arm_st_scheme \<Rightarrow> 'z arm_st_scheme" where
  "UMLAL opcode s =
     (let source = reg s (Rs opcode); destLo = Rd opcode; destHi = Rn opcode;
          temp = (push_bit 32 (ucast (reg s destHi)) OR ucast (reg s destLo)) + (ucast (reg s (Rm opcode)) :: u64) * ucast source;
          s = setreg destLo (ucast temp) s;
          s = setreg destHi (ucast (drop_bit 32 temp)) s
      in add_ticks (mul_ticks 3 source) s)"

definition UMLALS :: "u32 \<Rightarrow> 'z arm_st_scheme \<Rightarrow> 'z arm_st_scheme" where
  "UMLALS opcode s =
     (let source = reg s (Rs opcode); destLo = Rd opcode; destHi = Rn opcode;
          temp = (push_bit 32 (ucast (reg s destHi)) OR ucast (reg s destLo)) + (ucast (reg s (Rm opcode)) :: u64) * ucast source;
          s = setreg destLo (ucast temp) s;
          s = setreg destHi (ucast (drop_bit 32 temp)) s;
          s = set_N (reg s destHi AND 0x80000000 \<noteq> 0) (set_Z (temp = 0) s)
      in add_ticks (mul_ticks 3 source) s)"

definition SMULL :: "u32 \<Rightarrow> 'z arm_st_scheme \<Rightarrow> 'z arm_st_scheme" where
  "SMULL opcode s =
     (let source = reg s (Rs opcode); destLo = Rd opcode; destHi = Rn opcode;
          temp = (scast (reg s (Rm opcode)) :: u64) * scast source;
          s = setreg destLo (ucast temp) s;
          s = setreg destHi (ucast (drop_bit 32 temp)) s
      in add_ticks (mul_ticks_signed 2 source) s)"

definition SMULLS :: "u32 \<Rightarrow> 'z arm_st_scheme \<Rightarrow> 'z arm_st_scheme" where
  "SMULLS opcode s =
     (let source = reg s (Rs opcode); destLo = Rd opcode; destHi = Rn opcode;
          temp = (scast (reg s (Rm opcode)) :: u64) * scast source;
          s = setreg destLo (ucast temp) s;
          s = setreg destHi (ucast (drop_bit 32 temp)) s;
          s = set_N (sint temp < 0) (set_Z (temp = 0) s)
      in add_ticks (mul_ticks_signed 2 source) s)"

definition SMLAL :: "u32 \<Rightarrow> 'z arm_st_scheme \<Rightarrow> 'z arm_st_scheme" where
  "SMLAL opcode s =
     (let source = reg s (Rs opcode); destLo = Rd opcode; destHi = Rn opcode;
          temp = (push_bit 32 (ucast (reg s destHi)) OR ucast (reg s destLo)) + (scast (reg s (Rm opcode)) :: u64) * scast source;
          s = setreg destLo (ucast temp) s;
          s = setreg destHi (ucast (drop_bit 32 temp)) s
      in add_ticks (mul_ticks_signed 3 source) s)"

definition SMLALS :: "u32 \<Rightarrow> 'z arm_st_scheme \<Rightarrow> 'z arm_st_scheme" where
  "SMLALS opcode s =
     (let source = reg s (Rs opcode); destLo = Rd opcode; destHi = Rn opcode;
          temp = (push_bit 32 (ucast (reg s destHi)) OR ucast (reg s destLo)) + (scast (reg s (Rm opcode)) :: u64) * scast source;
          s = setreg destLo (ucast temp) s;
          s = setreg destHi (ucast (drop_bit 32 temp)) s;
          s = set_N (sint temp < 0) (set_Z (temp = 0) s)
      in add_ticks (mul_ticks_signed 3 source) s)"

subsection \<open>Status registers and swaps\<close>

definition MRS_CPSR :: "u32 \<Rightarrow> 'z arm_st_scheme \<Rightarrow> 'z arm_st_scheme" where
  "MRS_CPSR opcode s =
     (let s = CPUUpdateCPSR s in setreg (Rd opcode) (reg s RN_CPSR) s)"

definition MRS_SPSR :: "u32 \<Rightarrow> 'z arm_st_scheme \<Rightarrow> 'z arm_st_scheme" where
  "MRS_SPSR opcode s =
     (setreg (Rd opcode) (reg s RN_SPSR) s)"

definition SWP :: "'z arm_st_scheme aica \<Rightarrow> u32 \<Rightarrow> 'z arm_st_scheme \<Rightarrow> 'z arm_st_scheme" where
  "SWP a opcode s =
     (let address = reg s (Rn opcode);
          (temp, s) = CPUReadMemory a address s;
          s = CPUWriteMemory a address (reg s (Rm opcode)) s
      in setreg (Rd opcode) temp s)"

definition SWPB :: "'z arm_st_scheme aica \<Rightarrow> u32 \<Rightarrow> 'z arm_st_scheme \<Rightarrow> 'z arm_st_scheme" where
  "SWPB a opcode s =
     (let address = reg s (Rn opcode);
          (temp, s) = CPUReadByte a address s;
          s = CPUWriteByte a address (ucast (reg s (Rm opcode))) s
      in setreg (Rd opcode) (ucast temp) s)"

text \<open>The bytes of a status register that the field mask of the instruction selects.\<close>

definition msr_control :: "u32 \<Rightarrow> u32 \<Rightarrow> u32 \<Rightarrow> u32" where
  "msr_control opcode value newValue =
     (let newValue = (if opcode AND 0x00010000 \<noteq> 0
                      then (newValue AND 0xFFFFFF00) OR (value AND 0x000000FF) else newValue);
          newValue = (if opcode AND 0x00020000 \<noteq> 0
                      then (newValue AND 0xFFFF00FF) OR (value AND 0x0000FF00) else newValue)
      in if opcode AND 0x00040000 \<noteq> 0
         then (newValue AND 0xFF00FFFF) OR (value AND 0x00FF0000) else newValue)"

definition msr_flags :: "u32 \<Rightarrow> u32 \<Rightarrow> u32 \<Rightarrow> u32" where
  "msr_flags opcode value newValue =
     (if opcode AND 0x00080000 \<noteq> 0
      then (newValue AND 0x00FFFFFF) OR (value AND 0xFF000000) else newValue)"

definition msr_cpsr :: "u32 \<Rightarrow> u32 \<Rightarrow> 'z arm_st_scheme \<Rightarrow> 'z arm_st_scheme" where
  "msr_cpsr opcode value s =
     (let newValue = reg s RN_CPSR;
          newValue = (if 0x10 < sint (armMode s) then msr_control opcode value newValue else newValue);
          newValue = msr_flags opcode value newValue;
          newValue = newValue OR 0x10;
          s = CPUSwitchMode (newValue AND 0x1f) False s;
          s = setreg RN_CPSR newValue s
      in CPUUpdateFlags s)"

definition msr_spsr :: "u32 \<Rightarrow> u32 \<Rightarrow> 'z arm_st_scheme \<Rightarrow> 'z arm_st_scheme" where
  "msr_spsr opcode value s =
     (if 0x10 < sint (armMode s) \<and> sint (armMode s) < 0x1f
      then setreg RN_SPSR (msr_flags opcode value (msr_control opcode value (reg s RN_SPSR))) s
      else s)"

text \<open>The rotated immediate.\<close>

definition msr_imm_value :: "u32 \<Rightarrow> u32" where
  "msr_imm_value opcode =
     (let value = opcode AND 0xFF; shift = rotate_imm opcode
      in if shift \<noteq> 0 then push_bit (32 - shift) value OR drop_bit shift value else value)"

definition MSR_CPSR :: "u32 \<Rightarrow> 'z arm_st_scheme \<Rightarrow> 'z arm_st_scheme" where
  "MSR_CPSR opcode s = (let s = CPUUpdateCPSR s in msr_cpsr opcode (reg s (Rm opcode)) s)"

definition MSR_SPSR :: "u32 \<Rightarrow> 'z arm_st_scheme \<Rightarrow> 'z arm_st_scheme" where
  "MSR_SPSR opcode s = msr_spsr opcode (reg s (Rm opcode)) s"

definition MSR_CPSR_imm :: "u32 \<Rightarrow> 'z arm_st_scheme \<Rightarrow> 'z arm_st_scheme" where
  "MSR_CPSR_imm opcode s = (let s = CPUUpdateCPSR s in msr_cpsr opcode (msr_imm_value opcode) s)"

definition MSR_SPSR_imm :: "u32 \<Rightarrow> 'z arm_st_scheme \<Rightarrow> 'z arm_st_scheme" where
  "MSR_SPSR_imm opcode s = msr_spsr opcode (msr_imm_value opcode) s"

subsection \<open>Signed loads\<close>

definition signed_offset :: "u32 \<Rightarrow> 'z arm_st_scheme \<Rightarrow> u32" where
  "signed_offset opcode s =
     (if bit opcode 22 then (opcode AND 0x0F) OR (drop_bit 4 opcode AND 0xF0) else reg s (Rm opcode))"

text \<open>The twelve addressing modes: \<open>hi\<close> is the upper part of the switch value.\<close>

definition signed_load ::
  "(u32 \<Rightarrow> 'z arm_st_scheme \<Rightarrow> u32 \<times> 'z arm_st_scheme) \<Rightarrow> nat \<Rightarrow> u32 \<Rightarrow> 'z arm_st_scheme \<Rightarrow> 'z arm_st_scheme" where
  "signed_load rd hi opcode s =
     (let base = Rn opcode; dest = Rd opcode; offset = signed_offset opcode s in
      if hi < 0x10 then
        let address = reg s base;
            s = add_ticks 4 s;
            (v, s) = rd address s;
            s = setreg dest v s
        in if dest \<noteq> base
           then setreg base (if bit opcode 23 then address + offset else address - offset) s else s
      else
        let address = (if bit opcode 23 then reg s base + offset else reg s base - offset);
            s = add_ticks 4 s;
            (v, s) = rd address s;
            s = setreg dest v s
        in if bit opcode 21 \<and> dest \<noteq> base then setreg base address s else s)"

definition LDRSB :: "'z arm_st_scheme aica \<Rightarrow> nat \<Rightarrow> u32 \<Rightarrow> 'z arm_st_scheme \<Rightarrow> 'z arm_st_scheme" where
  "LDRSB a hi = signed_load (\<lambda>address s. let (v, s) = CPUReadByte a address s in (scast v, s)) hi"

definition LDRSH :: "'z arm_st_scheme aica \<Rightarrow> nat \<Rightarrow> u32 \<Rightarrow> 'z arm_st_scheme \<Rightarrow> 'z arm_st_scheme" where
  "LDRSH a hi = signed_load (\<lambda>address s. let (v, s) = CPUReadHalfWord a address s in (scast v, s)) hi"

subsection \<open>Loads and stores\<close>

text \<open>The register offsets.\<close>

definition offset_LSL :: "u32 \<Rightarrow> 'z arm_st_scheme \<Rightarrow> u32" where
  "offset_LSL opcode s = push_bit (shift_imm opcode) (reg s (Rm opcode))"

definition offset_LSR :: "u32 \<Rightarrow> 'z arm_st_scheme \<Rightarrow> u32" where
  "offset_LSR opcode s =
     (let shift = shift_imm opcode in if shift \<noteq> 0 then drop_bit shift (reg s (Rm opcode)) else 0)"

definition offset_ASR :: "u32 \<Rightarrow> 'z arm_st_scheme \<Rightarrow> u32" where
  "offset_ASR opcode s =
     (let shift = shift_imm opcode
      in if shift \<noteq> 0 then signed_drop_bit shift (reg s (Rm opcode))
         else if reg s (Rm opcode) AND 0x80000000 \<noteq> 0 then 0xFFFFFFFF else 0)"

definition offset_ROR :: "u32 \<Rightarrow> 'z arm_st_scheme \<Rightarrow> u32" where
  "offset_ROR opcode s =
     (let shift = shift_imm opcode; value = reg s (Rm opcode)
      in if shift \<noteq> 0 then push_bit (32 - shift) value OR drop_bit shift value
         else drop_bit 1 value OR push_bit 31 (if C_FLAG s then 1 else 0))"

text \<open>A load into the program counter is a branch.\<close>

definition load_pc :: "nat \<Rightarrow> 'z arm_st_scheme \<Rightarrow> 'z arm_st_scheme" where
  "load_pc dest s =
     (if dest = 15 then
        let s = add_ticks 2 s;
            s = setreg 15 (reg s 15 AND 0xFFFFFFFC) s;
            s = set_next (reg s 15) s
        in setreg 15 (reg s 15 + 4) s
      else s)"

text \<open>\<open>STR\<close> with the given offset.\<close>

definition STR_post_minus ::
  "'z arm_st_scheme aica \<Rightarrow> u32 \<Rightarrow> u32 \<Rightarrow> 'z arm_st_scheme \<Rightarrow> 'z arm_st_scheme" where
  "STR_post_minus a offset opcode s =
     (let dest = Rd opcode; base = Rn opcode;
          address = reg s base;
          s = CPUWriteMemory a address (reg s dest) s;
          s = setreg base (address - offset) s
      in add_ticks 3 s)"

definition STR_post_plus ::
  "'z arm_st_scheme aica \<Rightarrow> u32 \<Rightarrow> u32 \<Rightarrow> 'z arm_st_scheme \<Rightarrow> 'z arm_st_scheme" where
  "STR_post_plus a offset opcode s =
     (let dest = Rd opcode; base = Rn opcode;
          address = reg s base;
          s = CPUWriteMemory a address (reg s dest) s;
          s = setreg base (address + offset) s
      in add_ticks 3 s)"

definition STR_pre_minus ::
  "'z arm_st_scheme aica \<Rightarrow> u32 \<Rightarrow> u32 \<Rightarrow> 'z arm_st_scheme \<Rightarrow> 'z arm_st_scheme" where
  "STR_pre_minus a offset opcode s =
     (let dest = Rd opcode; base = Rn opcode;
          address = reg s base - offset;
          s = CPUWriteMemory a address (reg s dest) s
      in add_ticks 3 s)"

definition STR_pre_wb_minus ::
  "'z arm_st_scheme aica \<Rightarrow> u32 \<Rightarrow> u32 \<Rightarrow> 'z arm_st_scheme \<Rightarrow> 'z arm_st_scheme" where
  "STR_pre_wb_minus a offset opcode s =
     (let dest = Rd opcode; base = Rn opcode;
          address = reg s base - offset;
          s = setreg base address s;
          s = CPUWriteMemory a address (reg s dest) s
      in add_ticks 3 s)"

definition STR_pre_plus ::
  "'z arm_st_scheme aica \<Rightarrow> u32 \<Rightarrow> u32 \<Rightarrow> 'z arm_st_scheme \<Rightarrow> 'z arm_st_scheme" where
  "STR_pre_plus a offset opcode s =
     (let dest = Rd opcode; base = Rn opcode;
          address = reg s base + offset;
          s = CPUWriteMemory a address (reg s dest) s
      in add_ticks 3 s)"

definition STR_pre_wb_plus ::
  "'z arm_st_scheme aica \<Rightarrow> u32 \<Rightarrow> u32 \<Rightarrow> 'z arm_st_scheme \<Rightarrow> 'z arm_st_scheme" where
  "STR_pre_wb_plus a offset opcode s =
     (let dest = Rd opcode; base = Rn opcode;
          address = reg s base + offset;
          s = setreg base address s;
          s = CPUWriteMemory a address (reg s dest) s
      in add_ticks 3 s)"

text \<open>\<open>LDR\<close> with the given offset.\<close>

definition LDR_post_minus ::
  "'z arm_st_scheme aica \<Rightarrow> u32 \<Rightarrow> u32 \<Rightarrow> 'z arm_st_scheme \<Rightarrow> 'z arm_st_scheme" where
  "LDR_post_minus a offset opcode s =
     (let dest = Rd opcode; base = Rn opcode;
          address = reg s base;
          (v, s) = CPUReadMemory a address s;
          s = setreg dest v s;
          s = (if dest \<noteq> base then setreg base (address - offset) s else s)
      in load_pc dest (add_ticks 4 s))"

definition LDR_post_plus ::
  "'z arm_st_scheme aica \<Rightarrow> u32 \<Rightarrow> u32 \<Rightarrow> 'z arm_st_scheme \<Rightarrow> 'z arm_st_scheme" where
  "LDR_post_plus a offset opcode s =
     (let dest = Rd opcode; base = Rn opcode;
          address = reg s base;
          (v, s) = CPUReadMemory a address s;
          s = setreg dest v s;
          s = (if dest \<noteq> base then setreg base (address + offset) s else s)
      in load_pc dest (add_ticks 4 s))"

definition LDR_pre_minus ::
  "'z arm_st_scheme aica \<Rightarrow> u32 \<Rightarrow> u32 \<Rightarrow> 'z arm_st_scheme \<Rightarrow> 'z arm_st_scheme" where
  "LDR_pre_minus a offset opcode s =
     (let dest = Rd opcode; base = Rn opcode;
          address = reg s base - offset;
          (v, s) = CPUReadMemory a address s;
          s = setreg dest v s
      in load_pc dest (add_ticks 4 s))"

definition LDR_pre_wb_minus ::
  "'z arm_st_scheme aica \<Rightarrow> u32 \<Rightarrow> u32 \<Rightarrow> 'z arm_st_scheme \<Rightarrow> 'z arm_st_scheme" where
  "LDR_pre_wb_minus a offset opcode s =
     (let dest = Rd opcode; base = Rn opcode;
          address = reg s base - offset;
          (v, s) = CPUReadMemory a address s;
          s = setreg dest v s;
          s = (if dest \<noteq> base then setreg base address s else s)
      in load_pc dest (add_ticks 4 s))"

definition LDR_pre_plus ::
  "'z arm_st_scheme aica \<Rightarrow> u32 \<Rightarrow> u32 \<Rightarrow> 'z arm_st_scheme \<Rightarrow> 'z arm_st_scheme" where
  "LDR_pre_plus a offset opcode s =
     (let dest = Rd opcode; base = Rn opcode;
          address = reg s base + offset;
          (v, s) = CPUReadMemory a address s;
          s = setreg dest v s
      in load_pc dest (add_ticks 4 s))"

definition LDR_pre_wb_plus ::
  "'z arm_st_scheme aica \<Rightarrow> u32 \<Rightarrow> u32 \<Rightarrow> 'z arm_st_scheme \<Rightarrow> 'z arm_st_scheme" where
  "LDR_pre_wb_plus a offset opcode s =
     (let dest = Rd opcode; base = Rn opcode;
          address = reg s base + offset;
          (v, s) = CPUReadMemory a address s;
          s = setreg dest v s;
          s = (if dest \<noteq> base then setreg base address s else s)
      in load_pc dest (add_ticks 4 s))"

text \<open>\<open>STRB\<close> with the given offset.\<close>

definition STRB_post_minus ::
  "'z arm_st_scheme aica \<Rightarrow> u32 \<Rightarrow> u32 \<Rightarrow> 'z arm_st_scheme \<Rightarrow> 'z arm_st_scheme" where
  "STRB_post_minus a offset opcode s =
     (let dest = Rd opcode; base = Rn opcode;
          address = reg s base;
          s = CPUWriteByte a address (ucast (reg s dest)) s;
          s = setreg base (address - offset) s
      in add_ticks 3 s)"

definition STRB_post_plus ::
  "'z arm_st_scheme aica \<Rightarrow> u32 \<Rightarrow> u32 \<Rightarrow> 'z arm_st_scheme \<Rightarrow> 'z arm_st_scheme" where
  "STRB_post_plus a offset opcode s =
     (let dest = Rd opcode; base = Rn opcode;
          address = reg s base;
          s = CPUWriteByte a address (ucast (reg s dest)) s;
          s = setreg base (address + offset) s
      in add_ticks 3 s)"

definition STRB_pre_minus ::
  "'z arm_st_scheme aica \<Rightarrow> u32 \<Rightarrow> u32 \<Rightarrow> 'z arm_st_scheme \<Rightarrow> 'z arm_st_scheme" where
  "STRB_pre_minus a offset opcode s =
     (let dest = Rd opcode; base = Rn opcode;
          address = reg s base - offset;
          s = CPUWriteByte a address (ucast (reg s dest)) s
      in add_ticks 3 s)"

definition STRB_pre_wb_minus ::
  "'z arm_st_scheme aica \<Rightarrow> u32 \<Rightarrow> u32 \<Rightarrow> 'z arm_st_scheme \<Rightarrow> 'z arm_st_scheme" where
  "STRB_pre_wb_minus a offset opcode s =
     (let dest = Rd opcode; base = Rn opcode;
          address = reg s base - offset;
          s = setreg base address s;
          s = CPUWriteByte a address (ucast (reg s dest)) s
      in add_ticks 3 s)"

definition STRB_pre_plus ::
  "'z arm_st_scheme aica \<Rightarrow> u32 \<Rightarrow> u32 \<Rightarrow> 'z arm_st_scheme \<Rightarrow> 'z arm_st_scheme" where
  "STRB_pre_plus a offset opcode s =
     (let dest = Rd opcode; base = Rn opcode;
          address = reg s base + offset;
          s = CPUWriteByte a address (ucast (reg s dest)) s
      in add_ticks 3 s)"

definition STRB_pre_wb_plus ::
  "'z arm_st_scheme aica \<Rightarrow> u32 \<Rightarrow> u32 \<Rightarrow> 'z arm_st_scheme \<Rightarrow> 'z arm_st_scheme" where
  "STRB_pre_wb_plus a offset opcode s =
     (let dest = Rd opcode; base = Rn opcode;
          address = reg s base + offset;
          s = setreg base address s;
          s = CPUWriteByte a address (ucast (reg s dest)) s
      in add_ticks 3 s)"

text \<open>\<open>LDRB\<close> with the given offset.\<close>

definition LDRB_post_minus ::
  "'z arm_st_scheme aica \<Rightarrow> u32 \<Rightarrow> u32 \<Rightarrow> 'z arm_st_scheme \<Rightarrow> 'z arm_st_scheme" where
  "LDRB_post_minus a offset opcode s =
     (let dest = Rd opcode; base = Rn opcode;
          address = reg s base;
          (v, s) = CPUReadByte a address s;
          s = setreg dest (ucast v) s;
          s = (if dest \<noteq> base then setreg base (address - offset) s else s)
      in add_ticks 4 s)"

definition LDRB_post_plus ::
  "'z arm_st_scheme aica \<Rightarrow> u32 \<Rightarrow> u32 \<Rightarrow> 'z arm_st_scheme \<Rightarrow> 'z arm_st_scheme" where
  "LDRB_post_plus a offset opcode s =
     (let dest = Rd opcode; base = Rn opcode;
          address = reg s base;
          (v, s) = CPUReadByte a address s;
          s = setreg dest (ucast v) s;
          s = (if dest \<noteq> base then setreg base (address + offset) s else s)
      in add_ticks 4 s)"

definition LDRB_pre_minus ::
  "'z arm_st_scheme aica \<Rightarrow> u32 \<Rightarrow> u32 \<Rightarrow> 'z arm_st_scheme \<Rightarrow> 'z arm_st_scheme" where
  "LDRB_pre_minus a offset opcode s =
     (let dest = Rd opcode; base = Rn opcode;
          address = reg s base - offset;
          (v, s) = CPUReadByte a address s;
          s = setreg dest (ucast v) s
      in add_ticks 4 s)"

definition LDRB_pre_wb_minus ::
  "'z arm_st_scheme aica \<Rightarrow> u32 \<Rightarrow> u32 \<Rightarrow> 'z arm_st_scheme \<Rightarrow> 'z arm_st_scheme" where
  "LDRB_pre_wb_minus a offset opcode s =
     (let dest = Rd opcode; base = Rn opcode;
          address = reg s base - offset;
          (v, s) = CPUReadByte a address s;
          s = setreg dest (ucast v) s;
          s = (if dest \<noteq> base then setreg base address s else s)
      in add_ticks 4 s)"

definition LDRB_pre_plus ::
  "'z arm_st_scheme aica \<Rightarrow> u32 \<Rightarrow> u32 \<Rightarrow> 'z arm_st_scheme \<Rightarrow> 'z arm_st_scheme" where
  "LDRB_pre_plus a offset opcode s =
     (let dest = Rd opcode; base = Rn opcode;
          address = reg s base + offset;
          (v, s) = CPUReadByte a address s;
          s = setreg dest (ucast v) s
      in add_ticks 4 s)"

definition LDRB_pre_wb_plus ::
  "'z arm_st_scheme aica \<Rightarrow> u32 \<Rightarrow> u32 \<Rightarrow> 'z arm_st_scheme \<Rightarrow> 'z arm_st_scheme" where
  "LDRB_pre_wb_plus a offset opcode s =
     (let dest = Rd opcode; base = Rn opcode;
          address = reg s base + offset;
          (v, s) = CPUReadByte a address s;
          s = setreg dest (ucast v) s;
          s = (if dest \<noteq> base then setreg base address s else s)
      in add_ticks 4 s)"

text \<open>The forms with an immediate offset; the translated loads do not branch.\<close>

definition LDR_imm_post_minus ::
  "'z arm_st_scheme aica \<Rightarrow> u32 \<Rightarrow> u32 \<Rightarrow> 'z arm_st_scheme \<Rightarrow> 'z arm_st_scheme" where
  "LDR_imm_post_minus a offset opcode s =
     (let dest = Rd opcode; base = Rn opcode;
          address = reg s base;
          (v, s) = CPUReadMemory a address s;
          s = setreg dest v s;
          s = (if dest \<noteq> base then setreg base (reg s base - offset) s else s)
      in load_pc dest (add_ticks 4 s))"

definition LDRT_imm_post_minus ::
  "'z arm_st_scheme aica \<Rightarrow> u32 \<Rightarrow> u32 \<Rightarrow> 'z arm_st_scheme \<Rightarrow> 'z arm_st_scheme" where
  "LDRT_imm_post_minus a offset opcode s =
     (let dest = Rd opcode; base = Rn opcode;
          address = reg s base;
          (v, s) = CPUReadMemory a address s;
          s = setreg dest v s;
          s = (if dest \<noteq> base then setreg base (reg s base - offset) s else s)
      in add_ticks 4 s)"

definition LDRB_imm_post_minus ::
  "'z arm_st_scheme aica \<Rightarrow> u32 \<Rightarrow> u32 \<Rightarrow> 'z arm_st_scheme \<Rightarrow> 'z arm_st_scheme" where
  "LDRB_imm_post_minus a offset opcode s =
     (let dest = Rd opcode; base = Rn opcode;
          address = reg s base;
          (v, s) = CPUReadByte a address s;
          s = setreg dest (ucast v) s;
          s = (if dest \<noteq> base then setreg base (reg s base - offset) s else s)
      in add_ticks 4 s)"

definition LDR_imm_post_plus ::
  "'z arm_st_scheme aica \<Rightarrow> u32 \<Rightarrow> u32 \<Rightarrow> 'z arm_st_scheme \<Rightarrow> 'z arm_st_scheme" where
  "LDR_imm_post_plus a offset opcode s =
     (let dest = Rd opcode; base = Rn opcode;
          address = reg s base;
          (v, s) = CPUReadMemory a address s;
          s = setreg dest v s;
          s = (if dest \<noteq> base then setreg base (reg s base + offset) s else s)
      in load_pc dest (add_ticks 4 s))"

definition LDRT_imm_post_plus ::
  "'z arm_st_scheme aica \<Rightarrow> u32 \<Rightarrow> u32 \<Rightarrow> 'z arm_st_scheme \<Rightarrow> 'z arm_st_scheme" where
  "LDRT_imm_post_plus a offset opcode s =
     (let dest = Rd opcode; base = Rn opcode;
          address = reg s base;
          (v, s) = CPUReadMemory a address s;
          s = setreg dest v s;
          s = (if dest \<noteq> base then setreg base (reg s base + offset) s else s)
      in add_ticks 4 s)"

definition LDRB_imm_post_plus ::
  "'z arm_st_scheme aica \<Rightarrow> u32 \<Rightarrow> u32 \<Rightarrow> 'z arm_st_scheme \<Rightarrow> 'z arm_st_scheme" where
  "LDRB_imm_post_plus a offset opcode s =
     (let dest = Rd opcode; base = Rn opcode;
          address = reg s base;
          (v, s) = CPUReadByte a address s;
          s = setreg dest (ucast v) s;
          s = (if dest \<noteq> base then setreg base (reg s base + offset) s else s)
      in add_ticks 4 s)"

definition STR_imm ::
  "'z arm_st_scheme aica \<Rightarrow> nat \<Rightarrow> u32 \<Rightarrow> 'z arm_st_scheme \<Rightarrow> 'z arm_st_scheme option" where
  "STR_imm a hi opcode s =
     (let offset = opcode AND 0xFFF in
      if hi = 0x40 \<or> hi = 0x42 then Some (STR_post_minus a offset opcode s)
      else if hi = 0x48 \<or> hi = 0x4a then Some (STR_post_plus a offset opcode s)
      else if hi = 0x50 then Some (STR_pre_minus a offset opcode s)
      else if hi = 0x52 then Some (STR_pre_wb_minus a offset opcode s)
      else if hi = 0x58 then Some (STR_pre_plus a offset opcode s)
      else if hi = 0x5a then Some (STR_pre_wb_plus a offset opcode s)
      else None)"

definition LDR_imm ::
  "'z arm_st_scheme aica \<Rightarrow> nat \<Rightarrow> u32 \<Rightarrow> 'z arm_st_scheme \<Rightarrow> 'z arm_st_scheme option" where
  "LDR_imm a hi opcode s =
     (let offset = opcode AND 0xFFF in
      if hi = 0x41 then Some (LDR_imm_post_minus a offset opcode s)
      else if hi = 0x43 then Some (LDRT_imm_post_minus a offset opcode s)
      else if hi = 0x49 then Some (LDR_imm_post_plus a offset opcode s)
      else if hi = 0x4b then Some (LDRT_imm_post_plus a offset opcode s)
      else if hi = 0x51 then Some (LDR_pre_minus a offset opcode s)
      else if hi = 0x53 then Some (LDR_pre_wb_minus a offset opcode s)
      else if hi = 0x59 then Some (LDR_pre_plus a offset opcode s)
      else if hi = 0x5b then Some (LDR_pre_wb_plus a offset opcode s)
      else None)"

definition STRB_imm ::
  "'z arm_st_scheme aica \<Rightarrow> nat \<Rightarrow> u32 \<Rightarrow> 'z arm_st_scheme \<Rightarrow> 'z arm_st_scheme option" where
  "STRB_imm a hi opcode s =
     (let offset = opcode AND 0xFFF in
      if hi = 0x44 \<or> hi = 0x46 then Some (STRB_post_minus a offset opcode s)
      else if hi = 0x4c \<or> hi = 0x4e then Some (STRB_post_plus a offset opcode s)
      else if hi = 0x54 then Some (STRB_pre_minus a offset opcode s)
      else if hi = 0x56 then Some (STRB_pre_wb_minus a offset opcode s)
      else if hi = 0x5c then Some (STRB_pre_plus a offset opcode s)
      else if hi = 0x5e then Some (STRB_pre_wb_plus a offset opcode s)
      else None)"

definition LDRB_imm ::
  "'z arm_st_scheme aica \<Rightarrow> nat \<Rightarrow> u32 \<Rightarrow> 'z arm_st_scheme \<Rightarrow> 'z arm_st_scheme option" where
  "LDRB_imm a hi opcode s =
     (let offset = opcode AND 0xFFF in
      if hi = 0x45 \<or> hi = 0x47 then Some (LDRB_imm_post_minus a offset opcode s)
      else if hi = 0x4d \<or> hi = 0x4f then Some (LDRB_imm_post_plus a offset opcode s)
      else if hi = 0x55 then Some (LDRB_pre_minus a offset opcode s)
      else if hi = 0x57 then Some (LDRB_pre_wb_minus a offset opcode s)
      else if hi = 0x5d then Some (LDRB_pre_plus a offset opcode s)
      else if hi = 0x5f then Some (LDRB_pre_wb_plus a offset opcode s)
      else None)"

text \<open>The forms with a register offset: an even \<open>lo\<close> selects the shift.\<close>

definition transfer_reg ::
  "nat \<Rightarrow> ('z arm_st_scheme aica \<Rightarrow> u32 \<Rightarrow> u32 \<Rightarrow> 'z arm_st_scheme \<Rightarrow> 'z arm_st_scheme) option" where
  "transfer_reg hi =
     (if hi = 0x60 \<or> hi = 0x62 then Some STR_post_minus
      else if hi = 0x68 \<or> hi = 0x6a then Some STR_post_plus
      else if hi = 0x70 then Some STR_pre_minus
      else if hi = 0x72 then Some STR_pre_wb_minus
      else if hi = 0x78 then Some STR_pre_plus
      else if hi = 0x7a then Some STR_pre_wb_plus
      else if hi = 0x61 \<or> hi = 0x63 then Some LDR_post_minus
      else if hi = 0x69 \<or> hi = 0x6b then Some LDR_post_plus
      else if hi = 0x71 then Some LDR_pre_minus
      else if hi = 0x73 then Some LDR_pre_wb_minus
      else if hi = 0x79 then Some LDR_pre_plus
      else if hi = 0x7b then Some LDR_pre_wb_plus
      else if hi = 0x64 \<or> hi = 0x66 then Some STRB_post_minus
      else if hi = 0x6c \<or> hi = 0x6e then Some STRB_post_plus
      else if hi = 0x74 then Some STRB_pre_minus
      else if hi = 0x76 then Some STRB_pre_wb_minus
      else if hi = 0x7c then Some STRB_pre_plus
      else if hi = 0x7e then Some STRB_pre_wb_plus
      else if hi = 0x65 \<or> hi = 0x67 then Some LDRB_post_minus
      else if hi = 0x6d \<or> hi = 0x6f then Some LDRB_post_plus
      else if hi = 0x75 then Some LDRB_pre_minus
      else if hi = 0x77 then Some LDRB_pre_wb_minus
      else if hi = 0x7d then Some LDRB_pre_plus
      else if hi = 0x7f then Some LDRB_pre_wb_plus
      else None)"

definition shifted_offset :: "nat \<Rightarrow> u32 \<Rightarrow> 'z arm_st_scheme \<Rightarrow> u32 option" where
  "shifted_offset lo opcode s =
     (if lo = 0 \<or> lo = 8 then Some (offset_LSL opcode s)
      else if lo = 2 \<or> lo = 10 then Some (offset_LSR opcode s)
      else if lo = 4 \<or> lo = 12 then Some (offset_ASR opcode s)
      else if lo = 6 \<or> lo = 14 then Some (offset_ROR opcode s)
      else None)"

subsection \<open>Block transfers\<close>

text \<open>The size in bytes of the block.\<close>

definition block_size :: "u32 \<Rightarrow> u32" where
  "block_size opcode =
     4 * (word_of_nat (cpuBitsSet (opcode AND 255)) + word_of_nat (cpuBitsSet (drop_bit 8 opcode AND 255)))"

text \<open>The registers of a transfer, as pairs of the bit in the instruction and the index in the
  register file: those of the current mode, and those of the user bank.\<close>

definition current_regs :: "(nat \<times> nat) list" where
  "current_regs = map (\<lambda>i. (i, i)) [0..<15]"

definition user_regs :: "'z arm_st_scheme \<Rightarrow> (nat \<times> nat) list" where
  "user_regs s =
     map (\<lambda>i. (i, i)) [0..<8]
     @ (if armMode s = 0x11
        then [(8, R8_FIQ), (9, R9_FIQ), (10, R10_FIQ), (11, R11_FIQ), (12, R12_FIQ)]
        else map (\<lambda>i. (i, i)) [8..<13])
     @ (if armMode s \<noteq> 0x10 \<and> armMode s \<noteq> 0x1f then [(13, R13_USR), (14, R14_USR)]
        else [(13, 13), (14, 14)])"

text \<open>The macros for one register. The local variables are the address and the mark of the
  first transfer; the cycles of a first and a further access are the same.\<close>

definition STM_REG :: "'z arm_st_scheme aica \<Rightarrow> u32 \<Rightarrow> nat \<times> nat
    \<Rightarrow> u32 \<times> bool \<times> 'z arm_st_scheme \<Rightarrow> u32 \<times> bool \<times> 'z arm_st_scheme" where
  "STM_REG a opcode = (\<lambda>(val, num) (address, offset, s).
     if bit opcode val
     then let s = CPUWriteMemory a address (reg s num) s in (address + 4, True, add_ticks 2 s)
     else (address, offset, s))"

definition STMW_REG :: "'z arm_st_scheme aica \<Rightarrow> nat \<Rightarrow> u32 \<Rightarrow> u32 \<Rightarrow> nat \<times> nat
    \<Rightarrow> u32 \<times> bool \<times> 'z arm_st_scheme \<Rightarrow> u32 \<times> bool \<times> 'z arm_st_scheme" where
  "STMW_REG a base temp opcode = (\<lambda>(val, num) (address, offset, s).
     if bit opcode val
     then let s = CPUWriteMemory a address (reg s num) s;
              s = (if \<not> offset then setreg base temp s else s)
          in (address + 4, True, add_ticks 2 s)
     else (address, offset, s))"

definition LDM_REG :: "'z arm_st_scheme aica \<Rightarrow> u32 \<Rightarrow> nat \<times> nat
    \<Rightarrow> u32 \<times> bool \<times> 'z arm_st_scheme \<Rightarrow> u32 \<times> bool \<times> 'z arm_st_scheme" where
  "LDM_REG a opcode = (\<lambda>(val, num) (address, offset, s).
     if bit opcode val
     then let (v, s) = CPUReadMemory a address s in (address + 4, True, add_ticks 2 (setreg num v s))
     else (address, offset, s))"

text \<open>The common shapes of the stores: without write back, and with it. The program counter is
  stored last; where the block goes down the base is written again after it, where it goes up
  only when it is the first register.\<close>

definition store_block :: "'z arm_st_scheme aica \<Rightarrow> (nat \<times> nat) list \<Rightarrow> u32 \<Rightarrow> u32
    \<Rightarrow> 'z arm_st_scheme \<Rightarrow> 'z arm_st_scheme" where
  "store_block a regs address opcode s =
     (let (address, offset, s) = fold (STM_REG a opcode) regs (address, False, add_ticks 2 s)
      in if bit opcode 15 then add_ticks 2 (CPUWriteMemory a address (reg s 15 + 4) s) else s)"

definition store_block_down :: "'z arm_st_scheme aica \<Rightarrow> (nat \<times> nat) list \<Rightarrow> u32 \<Rightarrow> u32 \<Rightarrow> u32
    \<Rightarrow> 'z arm_st_scheme \<Rightarrow> 'z arm_st_scheme" where
  "store_block_down a regs address temp opcode s =
     (let base = Rn opcode;
          (address, offset, s) = fold (STMW_REG a base temp opcode) regs (address, False, add_ticks 2 s)
      in if bit opcode 15
         then setreg base temp (add_ticks 2 (CPUWriteMemory a address (reg s 15 + 4) s)) else s)"

definition store_block_up :: "'z arm_st_scheme aica \<Rightarrow> (nat \<times> nat) list \<Rightarrow> u32 \<Rightarrow> u32 \<Rightarrow> u32
    \<Rightarrow> 'z arm_st_scheme \<Rightarrow> 'z arm_st_scheme" where
  "store_block_up a regs address temp opcode s =
     (let base = Rn opcode;
          (address, offset, s) = fold (STMW_REG a base temp opcode) regs (address, False, add_ticks 2 s)
      in if bit opcode 15
         then let s = CPUWriteMemory a address (reg s 15 + 4) s;
                  s = (if \<not> offset then setreg base temp s else s)
              in add_ticks 2 s
         else s)"

text \<open>The common shapes of the loads: the current bank, with the program counter as a plain
  branch, and the user bank or the return from an exception.\<close>

definition load_block :: "'z arm_st_scheme aica \<Rightarrow> u32 \<Rightarrow> u32 \<Rightarrow> 'z arm_st_scheme \<Rightarrow> 'z arm_st_scheme" where
  "load_block a address opcode s =
     (let (address, offset, s) = fold (LDM_REG a opcode) current_regs (address, False, add_ticks 2 s)
      in if bit opcode 15
         then let (v, s) = CPUReadMemory a address s;
                  s = add_ticks 3 (setreg 15 v s);
                  s = set_next (reg s 15) s
              in setreg 15 (reg s 15 + 4) s
         else s)"

definition base_back :: "u32 \<Rightarrow> u32 \<Rightarrow> 'z arm_st_scheme \<Rightarrow> 'z arm_st_scheme" where
  "base_back opcode temp s = (if \<not> bit opcode (Rn opcode) then setreg (Rn opcode) temp s else s)"

definition load_block_user :: "'z arm_st_scheme aica \<Rightarrow> u32 \<Rightarrow> u32 option \<Rightarrow> u32
    \<Rightarrow> 'z arm_st_scheme \<Rightarrow> 'z arm_st_scheme" where
  "load_block_user a address temp opcode s =
     (let back = (case temp of None \<Rightarrow> (\<lambda>s. s) | Some t \<Rightarrow> base_back opcode t) in
      if bit opcode 15
      then let (address, offset, s) = fold (LDM_REG a opcode) current_regs (address, False, add_ticks 2 s);
               (v, s) = CPUReadMemory a address s;
               s = add_ticks 3 (setreg 15 v s);
               s = back s;
               s = CPUSwitchMode (reg s RN_SPSR AND 0x1f) False s;
               s = set_next (reg s 15 AND 0xFFFFFFFC) s
           in setreg 15 (reg s R15_ARM_NEXT + 4) s
      else let (address, offset, s) = fold (LDM_REG a opcode) (user_regs s) (address, False, add_ticks 2 s)
           in back s)"

text \<open>The sixteen stores and the sixteen loads.\<close>

definition STMDA :: "'z arm_st_scheme aica \<Rightarrow> u32 \<Rightarrow> 'z arm_st_scheme \<Rightarrow> 'z arm_st_scheme" where
  "STMDA a opcode s =
     (let temp = reg s (Rn opcode) - block_size opcode;
          address = (temp + 4) AND 0xFFFFFFFC
      in store_block a current_regs address opcode s)"

definition STMDA_wb :: "'z arm_st_scheme aica \<Rightarrow> u32 \<Rightarrow> 'z arm_st_scheme \<Rightarrow> 'z arm_st_scheme" where
  "STMDA_wb a opcode s =
     (let temp = reg s (Rn opcode) - block_size opcode;
          address = (temp + 4) AND 0xFFFFFFFC
      in store_block_down a current_regs address temp opcode s)"

definition STMDA_user :: "'z arm_st_scheme aica \<Rightarrow> u32 \<Rightarrow> 'z arm_st_scheme \<Rightarrow> 'z arm_st_scheme" where
  "STMDA_user a opcode s =
     (let temp = reg s (Rn opcode) - block_size opcode;
          address = (temp + 4) AND 0xFFFFFFFC
      in store_block a (user_regs s) address opcode s)"

definition STMDA_user_wb :: "'z arm_st_scheme aica \<Rightarrow> u32 \<Rightarrow> 'z arm_st_scheme \<Rightarrow> 'z arm_st_scheme" where
  "STMDA_user_wb a opcode s =
     (let temp = reg s (Rn opcode) - block_size opcode;
          address = (temp + 4) AND 0xFFFFFFFC
      in store_block_down a (user_regs s) address temp opcode s)"

definition LDMDA :: "'z arm_st_scheme aica \<Rightarrow> u32 \<Rightarrow> 'z arm_st_scheme \<Rightarrow> 'z arm_st_scheme" where
  "LDMDA a opcode s =
     (let temp = reg s (Rn opcode) - block_size opcode;
          address = (temp + 4) AND 0xFFFFFFFC
      in load_block a address opcode s)"

definition LDMDA_wb :: "'z arm_st_scheme aica \<Rightarrow> u32 \<Rightarrow> 'z arm_st_scheme \<Rightarrow> 'z arm_st_scheme" where
  "LDMDA_wb a opcode s =
     (let temp = reg s (Rn opcode) - block_size opcode;
          address = (temp + 4) AND 0xFFFFFFFC
      in base_back opcode temp (load_block a address opcode s))"

definition LDMDA_user :: "'z arm_st_scheme aica \<Rightarrow> u32 \<Rightarrow> 'z arm_st_scheme \<Rightarrow> 'z arm_st_scheme" where
  "LDMDA_user a opcode s =
     (let temp = reg s (Rn opcode) - block_size opcode;
          address = (temp + 4) AND 0xFFFFFFFC
      in load_block_user a address None opcode s)"

definition LDMDA_user_wb :: "'z arm_st_scheme aica \<Rightarrow> u32 \<Rightarrow> 'z arm_st_scheme \<Rightarrow> 'z arm_st_scheme" where
  "LDMDA_user_wb a opcode s =
     (let temp = reg s (Rn opcode) - block_size opcode;
          address = (temp + 4) AND 0xFFFFFFFC
      in load_block_user a address (Some temp) opcode s)"

definition STMIA :: "'z arm_st_scheme aica \<Rightarrow> u32 \<Rightarrow> 'z arm_st_scheme \<Rightarrow> 'z arm_st_scheme" where
  "STMIA a opcode s =
     (let address = reg s (Rn opcode) AND 0xFFFFFFFC
      in store_block a current_regs address opcode s)"

definition STMIA_wb :: "'z arm_st_scheme aica \<Rightarrow> u32 \<Rightarrow> 'z arm_st_scheme \<Rightarrow> 'z arm_st_scheme" where
  "STMIA_wb a opcode s =
     (let temp = reg s (Rn opcode) + block_size opcode;
          address = reg s (Rn opcode) AND 0xFFFFFFFC
      in store_block_up a current_regs address temp opcode s)"

definition STMIA_user :: "'z arm_st_scheme aica \<Rightarrow> u32 \<Rightarrow> 'z arm_st_scheme \<Rightarrow> 'z arm_st_scheme" where
  "STMIA_user a opcode s =
     (let address = reg s (Rn opcode) AND 0xFFFFFFFC
      in store_block a (user_regs s) address opcode s)"

definition STMIA_user_wb :: "'z arm_st_scheme aica \<Rightarrow> u32 \<Rightarrow> 'z arm_st_scheme \<Rightarrow> 'z arm_st_scheme" where
  "STMIA_user_wb a opcode s =
     (let temp = reg s (Rn opcode) + block_size opcode;
          address = reg s (Rn opcode) AND 0xFFFFFFFC
      in store_block_up a (user_regs s) address temp opcode s)"

definition LDMIA :: "'z arm_st_scheme aica \<Rightarrow> u32 \<Rightarrow> 'z arm_st_scheme \<Rightarrow> 'z arm_st_scheme" where
  "LDMIA a opcode s =
     (let address = reg s (Rn opcode) AND 0xFFFFFFFC
      in load_block a address opcode s)"

definition LDMIA_wb :: "'z arm_st_scheme aica \<Rightarrow> u32 \<Rightarrow> 'z arm_st_scheme \<Rightarrow> 'z arm_st_scheme" where
  "LDMIA_wb a opcode s =
     (let temp = reg s (Rn opcode) + block_size opcode;
          address = reg s (Rn opcode) AND 0xFFFFFFFC
      in base_back opcode temp (load_block a address opcode s))"

definition LDMIA_user :: "'z arm_st_scheme aica \<Rightarrow> u32 \<Rightarrow> 'z arm_st_scheme \<Rightarrow> 'z arm_st_scheme" where
  "LDMIA_user a opcode s =
     (let address = reg s (Rn opcode) AND 0xFFFFFFFC
      in load_block_user a address None opcode s)"

definition LDMIA_user_wb :: "'z arm_st_scheme aica \<Rightarrow> u32 \<Rightarrow> 'z arm_st_scheme \<Rightarrow> 'z arm_st_scheme" where
  "LDMIA_user_wb a opcode s =
     (let temp = reg s (Rn opcode) + block_size opcode;
          address = reg s (Rn opcode) AND 0xFFFFFFFC
      in load_block_user a address (Some temp) opcode s)"

definition STMDB :: "'z arm_st_scheme aica \<Rightarrow> u32 \<Rightarrow> 'z arm_st_scheme \<Rightarrow> 'z arm_st_scheme" where
  "STMDB a opcode s =
     (let temp = reg s (Rn opcode) - block_size opcode;
          address = temp AND 0xFFFFFFFC
      in store_block a current_regs address opcode s)"

definition STMDB_wb :: "'z arm_st_scheme aica \<Rightarrow> u32 \<Rightarrow> 'z arm_st_scheme \<Rightarrow> 'z arm_st_scheme" where
  "STMDB_wb a opcode s =
     (let temp = reg s (Rn opcode) - block_size opcode;
          address = temp AND 0xFFFFFFFC
      in store_block_down a current_regs address temp opcode s)"

definition STMDB_user :: "'z arm_st_scheme aica \<Rightarrow> u32 \<Rightarrow> 'z arm_st_scheme \<Rightarrow> 'z arm_st_scheme" where
  "STMDB_user a opcode s =
     (let temp = reg s (Rn opcode) - block_size opcode;
          address = temp AND 0xFFFFFFFC
      in store_block a (user_regs s) address opcode s)"

definition STMDB_user_wb :: "'z arm_st_scheme aica \<Rightarrow> u32 \<Rightarrow> 'z arm_st_scheme \<Rightarrow> 'z arm_st_scheme" where
  "STMDB_user_wb a opcode s =
     (let temp = reg s (Rn opcode) - block_size opcode;
          address = temp AND 0xFFFFFFFC
      in store_block_down a (user_regs s) address temp opcode s)"

definition LDMDB :: "'z arm_st_scheme aica \<Rightarrow> u32 \<Rightarrow> 'z arm_st_scheme \<Rightarrow> 'z arm_st_scheme" where
  "LDMDB a opcode s =
     (let temp = reg s (Rn opcode) - block_size opcode;
          address = temp AND 0xFFFFFFFC
      in load_block a address opcode s)"

definition LDMDB_wb :: "'z arm_st_scheme aica \<Rightarrow> u32 \<Rightarrow> 'z arm_st_scheme \<Rightarrow> 'z arm_st_scheme" where
  "LDMDB_wb a opcode s =
     (let temp = reg s (Rn opcode) - block_size opcode;
          address = temp AND 0xFFFFFFFC
      in base_back opcode temp (load_block a address opcode s))"

definition LDMDB_user :: "'z arm_st_scheme aica \<Rightarrow> u32 \<Rightarrow> 'z arm_st_scheme \<Rightarrow> 'z arm_st_scheme" where
  "LDMDB_user a opcode s =
     (let temp = reg s (Rn opcode) - block_size opcode;
          address = temp AND 0xFFFFFFFC
      in load_block_user a address None opcode s)"

definition LDMDB_user_wb :: "'z arm_st_scheme aica \<Rightarrow> u32 \<Rightarrow> 'z arm_st_scheme \<Rightarrow> 'z arm_st_scheme" where
  "LDMDB_user_wb a opcode s =
     (let temp = reg s (Rn opcode) - block_size opcode;
          address = temp AND 0xFFFFFFFC
      in load_block_user a address (Some temp) opcode s)"

definition STMIB :: "'z arm_st_scheme aica \<Rightarrow> u32 \<Rightarrow> 'z arm_st_scheme \<Rightarrow> 'z arm_st_scheme" where
  "STMIB a opcode s =
     (let address = (reg s (Rn opcode) + 4) AND 0xFFFFFFFC
      in store_block a current_regs address opcode s)"

definition STMIB_wb :: "'z arm_st_scheme aica \<Rightarrow> u32 \<Rightarrow> 'z arm_st_scheme \<Rightarrow> 'z arm_st_scheme" where
  "STMIB_wb a opcode s =
     (let temp = reg s (Rn opcode) + block_size opcode;
          address = (reg s (Rn opcode) + 4) AND 0xFFFFFFFC
      in store_block_up a current_regs address temp opcode s)"

definition STMIB_user :: "'z arm_st_scheme aica \<Rightarrow> u32 \<Rightarrow> 'z arm_st_scheme \<Rightarrow> 'z arm_st_scheme" where
  "STMIB_user a opcode s =
     (let address = (reg s (Rn opcode) + 4) AND 0xFFFFFFFC
      in store_block a (user_regs s) address opcode s)"

definition STMIB_user_wb :: "'z arm_st_scheme aica \<Rightarrow> u32 \<Rightarrow> 'z arm_st_scheme \<Rightarrow> 'z arm_st_scheme" where
  "STMIB_user_wb a opcode s =
     (let temp = reg s (Rn opcode) + block_size opcode;
          address = (reg s (Rn opcode) + 4) AND 0xFFFFFFFC
      in store_block_up a (user_regs s) address temp opcode s)"

definition LDMIB :: "'z arm_st_scheme aica \<Rightarrow> u32 \<Rightarrow> 'z arm_st_scheme \<Rightarrow> 'z arm_st_scheme" where
  "LDMIB a opcode s =
     (let address = (reg s (Rn opcode) + 4) AND 0xFFFFFFFC
      in load_block a address opcode s)"

definition LDMIB_wb :: "'z arm_st_scheme aica \<Rightarrow> u32 \<Rightarrow> 'z arm_st_scheme \<Rightarrow> 'z arm_st_scheme" where
  "LDMIB_wb a opcode s =
     (let temp = reg s (Rn opcode) + block_size opcode;
          address = (reg s (Rn opcode) + 4) AND 0xFFFFFFFC
      in base_back opcode temp (load_block a address opcode s))"

definition LDMIB_user :: "'z arm_st_scheme aica \<Rightarrow> u32 \<Rightarrow> 'z arm_st_scheme \<Rightarrow> 'z arm_st_scheme" where
  "LDMIB_user a opcode s =
     (let address = (reg s (Rn opcode) + 4) AND 0xFFFFFFFC
      in load_block_user a address None opcode s)"

definition LDMIB_user_wb :: "'z arm_st_scheme aica \<Rightarrow> u32 \<Rightarrow> 'z arm_st_scheme \<Rightarrow> 'z arm_st_scheme" where
  "LDMIB_user_wb a opcode s =
     (let temp = reg s (Rn opcode) + block_size opcode;
          address = (reg s (Rn opcode) + 4) AND 0xFFFFFFFC
      in load_block_user a address (Some temp) opcode s)"

definition block_opcode :: "nat \<Rightarrow> ('z arm_st_scheme aica \<Rightarrow> u32 \<Rightarrow> 'z arm_st_scheme \<Rightarrow> 'z arm_st_scheme) option" where
  "block_opcode hi =
     (if hi = 0x80 then Some STMDA
      else if hi = 0x82 then Some STMDA_wb
      else if hi = 0x84 then Some STMDA_user
      else if hi = 0x86 then Some STMDA_user_wb
      else if hi = 0x81 then Some LDMDA
      else if hi = 0x83 then Some LDMDA_wb
      else if hi = 0x85 then Some LDMDA_user
      else if hi = 0x87 then Some LDMDA_user_wb
      else if hi = 0x88 then Some STMIA
      else if hi = 0x8a then Some STMIA_wb
      else if hi = 0x8c then Some STMIA_user
      else if hi = 0x8e then Some STMIA_user_wb
      else if hi = 0x89 then Some LDMIA
      else if hi = 0x8b then Some LDMIA_wb
      else if hi = 0x8d then Some LDMIA_user
      else if hi = 0x8f then Some LDMIA_user_wb
      else if hi = 0x90 then Some STMDB
      else if hi = 0x92 then Some STMDB_wb
      else if hi = 0x94 then Some STMDB_user
      else if hi = 0x96 then Some STMDB_user_wb
      else if hi = 0x91 then Some LDMDB
      else if hi = 0x93 then Some LDMDB_wb
      else if hi = 0x95 then Some LDMDB_user
      else if hi = 0x97 then Some LDMDB_user_wb
      else if hi = 0x98 then Some STMIB
      else if hi = 0x9a then Some STMIB_wb
      else if hi = 0x9c then Some STMIB_user
      else if hi = 0x9e then Some STMIB_user_wb
      else if hi = 0x99 then Some LDMIB
      else if hi = 0x9b then Some LDMIB_wb
      else if hi = 0x9d then Some LDMIB_user
      else if hi = 0x9f then Some LDMIB_user_wb
      else None)"

subsection \<open>Branches\<close>

definition branch_offset :: "u32 \<Rightarrow> u32" where
  "branch_offset opcode =
     (let offset = opcode AND 0x00FFFFFF;
          offset = (if offset AND 0x00800000 \<noteq> 0 then offset OR 0xFF000000 else offset)
      in push_bit 2 offset)"

definition B :: "u32 \<Rightarrow> 'z arm_st_scheme \<Rightarrow> 'z arm_st_scheme" where
  "B opcode s =
     (let s = add_ticks 3 s;
          s = setreg 15 (reg s 15 + branch_offset opcode) s;
          s = set_next (reg s 15) s
      in setreg 15 (reg s 15 + 4) s)"

definition BL :: "u32 \<Rightarrow> 'z arm_st_scheme \<Rightarrow> 'z arm_st_scheme" where
  "BL opcode s =
     (let s = add_ticks 3 s;
          s = setreg 14 (reg s 15 - 4) s;
          s = setreg 15 (reg s 15 + branch_offset opcode) s;
          s = set_next (reg s 15) s
      in setreg 15 (reg s 15 + 4) s)"

definition SWI :: "u32 \<Rightarrow> 'z arm_st_scheme \<Rightarrow> 'z arm_st_scheme" where
  "SWI opcode s = CPUSoftwareInterrupt (opcode AND 0x00FFFFFF) (add_ticks 3 s)"

end
