(* ===== verification/Arm7_Interpreter.thy ===== *)
theory Arm7_Interpreter
  imports Arm7_Ops
begin

section \<open>The sound CPU's interpreter\<close>

text \<open>
  The condition field and the switch of \<open>core/hw/arm7/arm-new.h\<close>, the interpreter loop of
  \<open>core/hw/arm7/arm7.cpp\<close> and the entry points of the recompiler. The loop runs while the
  tick counter is negative; whether it ends is proved, not assumed, so it is a partial
  function here. \<open>timeStep\<close>, the sound generator's step, is a parameter of \<open>run\<close>.
\<close>

definition cond_res :: "nat \<Rightarrow> 'z arm_st_scheme \<Rightarrow> bool" where
  "cond_res cond s =
     (if cond = 0x0e then True
      else if cond = 0x00 then Z_FLAG s
      else if cond = 0x01 then \<not> Z_FLAG s
      else if cond = 0x02 then C_FLAG s
      else if cond = 0x03 then \<not> C_FLAG s
      else if cond = 0x04 then N_FLAG s
      else if cond = 0x05 then \<not> N_FLAG s
      else if cond = 0x06 then V_FLAG s
      else if cond = 0x07 then \<not> V_FLAG s
      else if cond = 0x08 then C_FLAG s \<and> \<not> Z_FLAG s
      else if cond = 0x09 then \<not> C_FLAG s \<or> Z_FLAG s
      else if cond = 0x0A then N_FLAG s = V_FLAG s
      else if cond = 0x0B then N_FLAG s \<noteq> V_FLAG s
      else if cond = 0x0C then \<not> Z_FLAG s \<and> N_FLAG s = V_FLAG s
      else if cond = 0x0D then Z_FLAG s \<or> N_FLAG s \<noteq> V_FLAG s
      else False)"

definition opcode_hash :: "u32 \<Rightarrow> nat" where
  "opcode_hash opcode = unat ((drop_bit 16 opcode AND 0xFF0) OR (drop_bit 4 opcode AND 0x0F))"

text \<open>The single cases below \<open>0x200\<close>.\<close>

definition single_opcode ::
  "'z arm_st_scheme aica \<Rightarrow> nat \<Rightarrow> u32 \<Rightarrow> 'z arm_st_scheme \<Rightarrow> 'z arm_st_scheme option" where
  "single_opcode a h opcode s =
     (if h = 0x009 then Some (MUL opcode s)
      else if h = 0x019 then Some (MULS opcode s)
      else if h = 0x029 then Some (MLA opcode s)
      else if h = 0x039 then Some (MLAS opcode s)
      else if h = 0x089 then Some (UMULL opcode s)
      else if h = 0x099 then Some (UMULLS opcode s)
      else if h = 0x0a9 then Some (UMLAL opcode s)
      else if h = 0x0b9 then Some (UMLALS opcode s)
      else if h = 0x0c9 then Some (SMULL opcode s)
      else if h = 0x0d9 then Some (SMULLS opcode s)
      else if h = 0x0e9 then Some (SMLAL opcode s)
      else if h = 0x0f9 then Some (SMLALS opcode s)
      else if h = 0x100 then Some (MRS_CPSR opcode s)
      else if h = 0x109 then Some (SWP a opcode s)
      else if h = 0x120 then Some (MSR_CPSR opcode s)
      else if h = 0x140 then Some (MRS_SPSR opcode s)
      else if h = 0x149 then Some (SWPB a opcode s)
      else if h = 0x160 then Some (MSR_SPSR opcode s)
      else if h < 0x200 \<and> odd (h div 16) \<and> h mod 16 = 0xd then Some (LDRSB a (h div 16) opcode s)
      else if h < 0x200 \<and> odd (h div 16) \<and> h mod 16 = 0xf then Some (LDRSH a (h div 16) opcode s)
      else None)"

definition imm_transfer ::
  "'z arm_st_scheme aica \<Rightarrow> nat \<Rightarrow> u32 \<Rightarrow> 'z arm_st_scheme \<Rightarrow> 'z arm_st_scheme option" where
  "imm_transfer a hi opcode s =
     (case STR_imm a hi opcode s of Some s' \<Rightarrow> Some s' | None \<Rightarrow>
      case LDR_imm a hi opcode s of Some s' \<Rightarrow> Some s' | None \<Rightarrow>
      case STRB_imm a hi opcode s of Some s' \<Rightarrow> Some s' | None \<Rightarrow>
      LDRB_imm a hi opcode s)"

definition reg_transfer ::
  "'z arm_st_scheme aica \<Rightarrow> nat \<Rightarrow> u32 \<Rightarrow> 'z arm_st_scheme \<Rightarrow> 'z arm_st_scheme option" where
  "reg_transfer a h opcode s =
     (case (transfer_reg (h div 16), shifted_offset (h mod 16) opcode s) of
        (Some f, Some offset) \<Rightarrow> Some (f a offset opcode s)
      | _ \<Rightarrow> None)"

definition arm_case ::
  "'z arm_st_scheme aica \<Rightarrow> nat \<Rightarrow> u32 \<Rightarrow> 'z arm_st_scheme \<Rightarrow> 'z arm_st_scheme option" where
  "arm_case a h opcode s =
     (case single_opcode a h opcode s of Some s' \<Rightarrow> Some s' | None \<Rightarrow>
      let hi = h div 16 in
      if hi = 0x32 then Some (MSR_CPSR_imm opcode s)
      else if hi = 0x36 then Some (MSR_SPSR_imm opcode s)
      else if hi < 0x40 then data_opcode (16 * (hi mod 0x20)) (h - 16 * (hi mod 0x20)) opcode s
      else if hi < 0x60 then imm_transfer a hi opcode s
      else if hi < 0x80 then reg_transfer a h opcode s
      else if hi < 0xa0 then map_option (\<lambda>f. f a opcode s) (block_opcode hi)
      else if hi < 0xb0 then Some (B opcode s)
      else if hi < 0xc0 then Some (BL opcode s)
      else if 0xf0 \<le> hi then Some (SWI opcode s)
      else None)"

definition arm_execute :: "'z arm_st_scheme aica \<Rightarrow> u32 \<Rightarrow> 'z arm_st_scheme \<Rightarrow> 'z arm_st_scheme" where
  "arm_execute a opcode s =
     (let s = add_ticks 6 s in
      if cond_res (unat (drop_bit 28 opcode)) s
      then (case arm_case a (opcode_hash opcode) opcode s of
              Some s' \<Rightarrow> s'
            | None \<Rightarrow> CPUUndefinedException s)
      else s)"

text \<open>One pass of the loop.\<close>

definition interpreter_pass :: "'z arm_st_scheme aica \<Rightarrow> 'z arm_st_scheme \<Rightarrow> 'z arm_st_scheme" where
  "interpreter_pass a s =
     (let s = (if reg s INTR_PEND \<noteq> 0 then CPUFiq s else s);
          s = setreg 15 (reg s R15_ARM_NEXT + 8) s;
          opcode = CPUReadMemoryQuick (reg s R15_ARM_NEXT) s;
          s = set_next (reg s R15_ARM_NEXT + 4) s
      in arm_execute a opcode s)"

partial_function (option) interpreter_loop ::
  "'z arm_st_scheme aica \<Rightarrow> 'z arm_st_scheme \<Rightarrow> 'z arm_st_scheme option" where
  "interpreter_loop a s =
     (if sint (arm7ClockTicks s) < 0 then interpreter_loop a (interpreter_pass a s) else Some s)"

definition runInterpreter :: "'z arm_st_scheme aica \<Rightarrow> u32 \<Rightarrow> 'z arm_st_scheme \<Rightarrow> 'z arm_st_scheme option" where
  "runInterpreter a CycleCount s =
     (if \<not> Arm7Enabled s then Some s
      else interpreter_loop a (s\<lparr>arm7ClockTicks := arm7ClockTicks s - CycleCount\<rparr>))"

definition AICA_ARM_CLOCK :: u32 where "AICA_ARM_CLOCK = 33868800 * 4 div 3 div 2"

definition ARM_CYCLES_PER_SAMPLE :: u32 where "ARM_CYCLES_PER_SAMPLE = AICA_ARM_CLOCK div 44100"

primrec arm_run :: "'z arm_st_scheme aica \<Rightarrow> ('z arm_st_scheme \<Rightarrow> 'z arm_st_scheme) \<Rightarrow> nat
    \<Rightarrow> 'z arm_st_scheme \<Rightarrow> 'z arm_st_scheme option" where
  "arm_run a timeStep 0 s = Some s"
| "arm_run a timeStep (Suc samples) s =
     (case runInterpreter a ARM_CYCLES_PER_SAMPLE s of
        None \<Rightarrow> None
      | Some s \<Rightarrow> arm_run a timeStep samples (timeStep s))"

subsection \<open>Entry points of the recompiler\<close>

definition interpret_op :: "'z arm_st_scheme aica \<Rightarrow> u32 \<Rightarrow> 'z arm_st_scheme \<Rightarrow> 'z arm_st_scheme" where
  "interpret_op a opcode s =
     (let ticks = arm7ClockTicks s;
          s = arm_execute a opcode (s\<lparr>arm7ClockTicks := 0\<rparr>);
          clockTicks = arm7ClockTicks s;
          s = s\<lparr>arm7ClockTicks := ticks\<rparr>
      in setreg CYCL_CNT (reg s CYCL_CNT - clockTicks) s)"

definition mask_control :: "u32 \<Rightarrow> u32 \<Rightarrow> u32 \<Rightarrow> u32" where
  "mask_control v msk newValue =
     (let newValue = (if msk AND 1 \<noteq> 0 then (newValue AND 0xFFFFFF00) OR (v AND 0x000000FF) else newValue);
          newValue = (if msk AND 2 \<noteq> 0 then (newValue AND 0xFFFF00FF) OR (v AND 0x0000FF00) else newValue)
      in if msk AND 4 \<noteq> 0 then (newValue AND 0xFF00FFFF) OR (v AND 0x00FF0000) else newValue)"

definition mask_flags :: "u32 \<Rightarrow> u32 \<Rightarrow> u32 \<Rightarrow> u32" where
  "mask_flags v msk newValue =
     (if msk AND 8 \<noteq> 0 then (newValue AND 0x00FFFFFF) OR (v AND 0xFF000000) else newValue)"

definition MSR_do :: "bool \<Rightarrow> u32 \<Rightarrow> u32 \<Rightarrow> 'z arm_st_scheme \<Rightarrow> 'z arm_st_scheme" where
  "MSR_do Pd v msk s =
     (if Pd then
        if 0x10 < sint (armMode s) \<and> sint (armMode s) < 0x1f
        then setreg RN_SPSR (mask_flags v msk (mask_control v msk (reg s RN_SPSR))) s
        else s
      else
        let s = CPUUpdateCPSR s;
            newValue = reg s RN_CPSR;
            newValue = (if 0x10 < sint (armMode s) then mask_control v msk newValue else newValue);
            newValue = mask_flags v msk newValue;
            newValue = newValue OR 0x10;
            s = (if 0x10 < sint (armMode s) then CPUSwitchMode (newValue AND 0x1f) False s else s);
            s = setreg RN_CPSR newValue s
        in CPUUpdateFlags s)"

end
