(* ===== verification/Arm7_Alu_Props.thy ===== *)
theory Arm7_Alu_Props
  imports Arm7_Interpreter
begin

section \<open>What the sound CPU's data processing instructions compute\<close>

text \<open>
  The flags of additions and subtractions against arithmetic on integers, the meaning of the
  condition codes after a comparison, the two forms of the shifter, and the multiplications.
\<close>

subsection \<open>Flags\<close>

lemma drop_bit_31: "drop_bit 31 (x :: u32) = of_bool (bit x 31)"
proof (rule bit_word_eqI)
  fix n assume "n < LENGTH(32)"
  show "bit (drop_bit 31 x) n = bit (of_bool (bit x 31) :: u32) n"
    by (cases n) (auto simp: bit_simps dest: bit_imp_le_length)
qed

lemma NEG_nonzero: "NEG x \<noteq> 0 \<longleftrightarrow> bit x 31" and NEG_le_1: "NEG x = of_bool (bit x 31)"
proof -
  show "NEG x = of_bool (bit x 31)"
    unfolding NEG_def by (rule drop_bit_31)
  then show "NEG x \<noteq> 0 \<longleftrightarrow> bit x 31" by simp
qed

lemma POS_le_1: "POS x = of_bool (\<not> bit x 31)"
  unfolding POS_def drop_bit_31 by (simp add: bit_simps)

lemma bit31_word: "bit (x :: u32) 31 \<longleftrightarrow> 2147483648 \<le> uint x"
  using bit31_uint [of x] by (simp add: bit_uint_iff not_less)

text \<open>The carry of an addition: from the signs of the operands and the result.\<close>

definition carry_of :: "u32 \<Rightarrow> u32 \<Rightarrow> u32 \<Rightarrow> bool" where
  "carry_of a b c \<longleftrightarrow> bit a 31 \<and> bit b 31 \<or> bit a 31 \<and> \<not> bit c 31 \<or> bit b 31 \<and> \<not> bit c 31"

lemma ADDCARRY_eq: "ADDCARRY a b c = set_C (carry_of a b c)"
  unfolding ADDCARRY_def carry_of_def NEG_le_1 POS_le_1 by simp

lemma SUBCARRY_eq: "SUBCARRY a b c = set_C (carry_of a (NOT b) c)"
  unfolding SUBCARRY_def carry_of_def NEG_le_1 POS_le_1 by (simp add: bit_simps)

lemma ADDOVERFLOW_eq: "ADDOVERFLOW a b c = set_V (bit a 31 = bit b 31 \<and> bit c 31 \<noteq> bit a 31)"
  unfolding ADDOVERFLOW_def NEG_le_1 POS_le_1 by simp

lemma SUBOVERFLOW_eq: "SUBOVERFLOW a b c = set_V (bit a 31 \<noteq> bit b 31 \<and> bit c 31 \<noteq> bit a 31)"
  unfolding SUBOVERFLOW_def NEG_le_1 POS_le_1 by simp

lemma uint_add3:
  fixes a b t :: u32
  assumes "t = 0 \<or> t = 1"
  shows "uint (a + b + t) = uint a + uint b + uint t
    \<or> uint (a + b + t) = uint a + uint b + uint t - 4294967296"
  using uint_add_carry [of a b] uint_add_carry [of "a + b" t] assms uint32_bounds [of a] uint32_bounds [of b]
    uint32_bounds [of "a + b"] uint32_bounds [of "a + b + t"]
  by (auto split: if_splits)

lemma carry_int:
  fixes A B C T :: int
  assumes "0 \<le> A" "A < 4294967296" "0 \<le> B" "B < 4294967296" "0 \<le> C" "C < 4294967296" "0 \<le> T" "T \<le> 1"
    and "C = A + B + T \<or> C = A + B + T - 4294967296"
  shows "C + (if 2147483648 \<le> A \<and> 2147483648 \<le> B \<or> 2147483648 \<le> A \<and> \<not> 2147483648 \<le> C
      \<or> 2147483648 \<le> B \<and> \<not> 2147483648 \<le> C then 4294967296 else 0) = A + B + T"
  using assms by (simp split: if_splits) linarith

lemma overflow_int:
  fixes A B C T :: int
  assumes "0 \<le> A" "A < 4294967296" "0 \<le> B" "B < 4294967296" "0 \<le> C" "C < 4294967296" "0 \<le> T" "T \<le> 1"
    and "C = A + B + T \<or> C = A + B + T - 4294967296"
  shows "(2147483648 \<le> A) = (2147483648 \<le> B) \<and> (2147483648 \<le> C) \<noteq> (2147483648 \<le> A) \<longleftrightarrow>
    (if C < 2147483648 then C else C - 4294967296) \<noteq> (if A < 2147483648 then A else A - 4294967296)
      + (if B < 2147483648 then B else B - 4294967296) + T"
proof -
  have "A < 2147483648 \<or> 2147483648 \<le> A" "B < 2147483648 \<or> 2147483648 \<le> B"
    "C < 2147483648 \<or> 2147483648 \<le> C" by linarith+
  then show ?thesis
    by (elim disjE; simp only: if_True if_False not_le [symmetric] simp_thms; insert assms; linarith)
qed

lemma uint_bit: "t = 0 \<or> t = 1 \<Longrightarrow> 0 \<le> uint (t :: u32) \<and> uint t \<le> 1"
  by auto

lemma add_carry_exact:
  assumes "t = 0 \<or> t = (1 :: u32)" "c = a + b + t"
  shows "uint c + (if carry_of a b c then 4294967296 else 0) = uint a + uint b + uint t"
  unfolding carry_of_def bit31_word
  using uint_add3 [OF assms(1), of a b] uint_bit [OF assms(1)] unfolding assms(2) [symmetric]
  by (intro carry_int uint32_bounds) simp_all

lemma sint_add_overflow:
  assumes "t = 0 \<or> t = (1 :: u32)" "c = a + b + t"
  shows "bit a 31 = bit b 31 \<and> bit c 31 \<noteq> bit a 31 \<longleftrightarrow> sint c \<noteq> sint a + sint b + uint t"
  unfolding bit31_word sint32_uint
  using uint_add3 [OF assms(1), of a b] uint_bit [OF assms(1)] unfolding assms(2) [symmetric]
  by (intro overflow_int uint32_bounds) simp_all

text \<open>The flags of an addition and of a subtraction with borrow, as arithmetic on integers.\<close>

definition adds_to :: "u32 \<Rightarrow> u32 \<Rightarrow> bool \<Rightarrow> u32 \<Rightarrow> 'z arm_st_scheme \<Rightarrow> bool" where
  "adds_to l r cin res s' \<longleftrightarrow>
     uint res + (if C_FLAG s' then 4294967296 else 0) = uint l + uint r + (if cin then 1 else 0)
     \<and> (V_FLAG s' \<longleftrightarrow> sint res \<noteq> sint l + sint r + (if cin then 1 else 0))
     \<and> (Z_FLAG s' \<longleftrightarrow> res = 0) \<and> (N_FLAG s' \<longleftrightarrow> sint res < 0)"

definition subtracts_to :: "u32 \<Rightarrow> u32 \<Rightarrow> bool \<Rightarrow> u32 \<Rightarrow> 'z arm_st_scheme \<Rightarrow> bool" where
  "subtracts_to l r cin res s' \<longleftrightarrow>
     uint res = uint l - uint r - (if cin then 0 else 1) + (if C_FLAG s' then 0 else 4294967296)
     \<and> (V_FLAG s' \<longleftrightarrow> sint res \<noteq> sint l - sint r - (if cin then 0 else 1))
     \<and> (Z_FLAG s' \<longleftrightarrow> res = 0) \<and> (N_FLAG s' \<longleftrightarrow> sint res < 0)"

lemma uint_NOT: "uint (NOT (x :: u32)) = 4294967295 - uint x"
proof -
  have "NOT x = - 1 - x" by (simp add: not_eq_complement)
  moreover have "uint (- 1 :: u32) = 4294967295" by (simp add: uint32_eq_m1)
  moreover have "\<not> (- 1 :: u32) < x" by (simp add: not_less)
  ultimately show ?thesis using uint_sub_borrow [of "- 1" x] by simp
qed

lemma sint_NOT: "sint (NOT (x :: u32)) = - 1 - sint x"
  using uint32_bounds [of x] by (auto simp: sint32_uint uint_NOT)

lemma sint_neg_bit: "sint (x :: u32) < 0 \<longleftrightarrow> bit x 31"
  using uint32_bounds [of x] by (auto simp: sint32_uint bit31_word)

lemma sub_as_add: "(a :: u32) - b - (if c then 0 else 1) = a + NOT b + (if c then 1 else 0)"
  by (simp add: not_eq_complement)

lemma result_flags_simps [simp]:
  "Z_FLAG (result_flags res s) = (res = 0)" "N_FLAG (result_flags res s) = bit res 31"
  "C_FLAG (result_flags res s) = C_FLAG s" "V_FLAG (result_flags res s) = V_FLAG s"
  by (simp_all add: result_flags_def NEG_nonzero)

lemma adds_to_flags:
  assumes "res = l + r + (if cin then 1 else 0)"
  shows "adds_to l r cin res (ADDOVERFLOW l r res (ADDCARRY l r res (result_flags res s)))"
proof -
  let ?t = "if cin then 1 else 0 :: u32"
  have t: "?t = 0 \<or> ?t = 1" "uint ?t = (if cin then 1 else 0)" by simp_all
  from add_carry_exact [OF t(1) assms] sint_add_overflow [OF t(1) assms] show ?thesis
    unfolding adds_to_def ADDCARRY_eq ADDOVERFLOW_eq t(2) by (simp add: sint_neg_bit)
qed

lemma subtracts_to_flags:
  assumes "res = l - r - (if cin then 0 else 1)"
  shows "subtracts_to l r cin res (SUBOVERFLOW l r res (SUBCARRY l r res (result_flags res s)))"
proof -
  let ?t = "if cin then 1 else 0 :: u32"
  have t: "?t = 0 \<or> ?t = 1" "uint ?t = (if cin then 1 else 0)" by simp_all
  have res: "res = l + NOT r + ?t" unfolding assms by (rule sub_as_add)
  from add_carry_exact [OF t(1) res] sint_add_overflow [OF t(1) res] show ?thesis
    unfolding subtracts_to_def SUBCARRY_eq SUBOVERFLOW_eq t(2) uint_NOT sint_NOT
    by (auto simp: sint_neg_bit bit_simps split: if_splits)
qed

text \<open>C33: The arithmetic instructions of the sound CPU. With a destination other than the
  program counter, \<open>ADDS\<close> and \<open>ADCS\<close> leave in the destination the sum of the operands (and the
  carry) modulo 2^32, with C the carry out, V set exactly when the sum read as a signed number is
  wrong, Z for a zero result and N for a negative one; \<open>SUBS\<close>, \<open>SBCS\<close>, \<open>RSBS\<close> and \<open>RSCS\<close> do the
  same for the difference, with C the absence of a borrow; \<open>CMP\<close> and \<open>CMN\<close> set the flags of the
  difference and the sum and change no register.\<close>

theorem arithmetic_flags:
  assumes "dest < 15"
  shows "adds_to (reg s base) value False (reg (OP_ADDS dest base value co s) dest) (OP_ADDS dest base value co s)
    \<and> adds_to (reg s base) value (C_FLAG s) (reg (OP_ADCS dest base value co s) dest) (OP_ADCS dest base value co s)
    \<and> subtracts_to (reg s base) value True (reg (OP_SUBS dest base value co s) dest) (OP_SUBS dest base value co s)
    \<and> subtracts_to (reg s base) value (C_FLAG s) (reg (OP_SBCS dest base value co s) dest) (OP_SBCS dest base value co s)
    \<and> subtracts_to value (reg s base) True (reg (OP_RSBS dest base value co s) dest) (OP_RSBS dest base value co s)
    \<and> subtracts_to value (reg s base) (C_FLAG s) (reg (OP_RSCS dest base value co s) dest) (OP_RSCS dest base value co s)
    \<and> subtracts_to (reg s base) value True (reg s base - value) (OP_CMP dest base value co s)
    \<and> adds_to (reg s base) value False (reg s base + value) (OP_CMN dest base value co s)"
proof -
  have d: "reg (ADDOVERFLOW l r x (ADDCARRY l r x (result_flags x (setreg dest x s)))) dest = x"
    "reg (SUBOVERFLOW l r x (SUBCARRY l r x (result_flags x (setreg dest x s)))) dest = x" for l r x
    using assms by (simp_all add: ADDCARRY_def ADDOVERFLOW_def SUBCARRY_def SUBOVERFLOW_def result_flags_def)
  show ?thesis
    unfolding OP_ADDS_def OP_ADCS_def OP_SUBS_def OP_SBCS_def OP_RSBS_def OP_RSCS_def OP_CMP_def OP_CMN_def Let_def d
    by (intro conjI adds_to_flags subtracts_to_flags) simp_all
qed

text \<open>The condition codes after a comparison.\<close>

lemma carry_after_cmp:
  assumes "subtracts_to l r True (l - r) s'"
  shows "C_FLAG s' \<longleftrightarrow> r \<le> l" "Z_FLAG s' \<longleftrightarrow> l = r" "N_FLAG s' = V_FLAG s' \<longleftrightarrow> sint r \<le> sint l"
proof -
  note a = assms [unfolded subtracts_to_def]
  show "C_FLAG s' \<longleftrightarrow> r \<le> l"
    using a uint32_bounds [of "l - r"] uint32_bounds [of l] uint32_bounds [of r] unfolding word_le_def by (auto split: if_splits)
  show "Z_FLAG s' \<longleftrightarrow> l = r" using a by simp
  have "sint (l - r) = sint l - sint r \<or> sint (l - r) = sint l - sint r - 4294967296
      \<or> sint (l - r) = sint l - sint r + 4294967296"
    using uint_sub_borrow [of l r] by (simp add: sint32_uint split: if_splits)
  then show "N_FLAG s' = V_FLAG s' \<longleftrightarrow> sint r \<le> sint l"
    using a sint32_bounds [of "l - r"] sint32_bounds [of l] sint32_bounds [of r] by auto
qed

text \<open>After \<open>CMP Rn, value\<close> the condition field of the next instruction compares the two
  operands: EQ and NE for equality, CS, CC, HI and LS for the unsigned order, GE, LT, GT and
  LE for the signed order, on all operands, including those whose difference
  overflows.\<close>

theorem conditions_after_cmp:
  "cond_res 0 (OP_CMP dest base value co s) = (reg s base = value)
   \<and> cond_res 1 (OP_CMP dest base value co s) = (reg s base \<noteq> value)
   \<and> cond_res 2 (OP_CMP dest base value co s) = (value \<le> reg s base)
   \<and> cond_res 3 (OP_CMP dest base value co s) = (reg s base < value)
   \<and> cond_res 8 (OP_CMP dest base value co s) = (value < reg s base)
   \<and> cond_res 9 (OP_CMP dest base value co s) = (reg s base \<le> value)
   \<and> cond_res 10 (OP_CMP dest base value co s) = (sint value \<le> sint (reg s base))
   \<and> cond_res 11 (OP_CMP dest base value co s) = (sint (reg s base) < sint value)
   \<and> cond_res 12 (OP_CMP dest base value co s) = (sint value < sint (reg s base))
   \<and> cond_res 13 (OP_CMP dest base value co s) = (sint (reg s base) \<le> sint value)"
proof -
  have "subtracts_to (reg s base) value True (reg s base - value) (OP_CMP dest base value co s)"
    unfolding OP_CMP_def Let_def by (intro subtracts_to_flags) simp
  note c = carry_after_cmp [OF this]
  have e: "(reg s base = value) = (sint (reg s base) = sint value)" by (auto intro: signed_word_eqI)
  show ?thesis
    unfolding cond_res_def using c e by (auto simp: word_le_less_eq not_le)
qed

subsection \<open>The two forms of the shifter\<close>

lemma rotate_imm_range: "rotate_imm opcode \<le> 30"
proof -
  have "drop_bit 7 (opcode AND 0xF00) = (drop_bit 7 opcode AND 0x1E :: u32)"
    by (rule bit_word_eqI) (auto simp: bit_simps)
  moreover have "drop_bit 7 opcode AND 0x1E \<le> (0x1E :: u32)" by (rule word_and_le1)
  then have "unat (drop_bit 7 opcode AND 0x1E :: u32) \<le> 30" by (simp add: word_le_nat_alt)
  ultimately show ?thesis by (simp add: rotate_imm_def)
qed

text \<open>The two copies of the barrel shifter agree: for each of the nine operand forms the value
  computed by the arithmetic instructions' shifter is the one of the logical
  instructions' shifter, including the special encodings (shift by 0 and by 32 or more, rotate
  with extend, rotation by 0 of an immediate).\<close>

theorem shifter_forms_agree:
  "arithmetic_LSL_imm opcode s = fst (logical_LSL_imm opcode s)
   \<and> arithmetic_LSR_imm opcode s = fst (logical_LSR_imm opcode s)
   \<and> arithmetic_ASR_imm opcode s = fst (logical_ASR_imm opcode s)
   \<and> arithmetic_ROR_imm opcode s = fst (logical_ROR_imm opcode s)
   \<and> arithmetic_LSL_Rs opcode n s = fst (logical_LSL_Rs opcode n s)
   \<and> arithmetic_LSR_Rs opcode n s = fst (logical_LSR_Rs opcode n s)
   \<and> arithmetic_ASR_Rs opcode n s = fst (logical_ASR_Rs opcode n s)
   \<and> arithmetic_ROR_Rs opcode n s = fst (logical_ROR_Rs opcode n s)
   \<and> arithmetic_imm opcode = fst (logical_imm opcode s)"
proof -
  have "arithmetic_imm opcode = fst (logical_imm opcode s)"
    using rotate_imm_range [of opcode]
    by (simp add: arithmetic_imm_def logical_imm_def LOGICAL_ROR_IMM_def Let_def)
  then show ?thesis
    by (simp add: arithmetic_LSL_imm_def logical_LSL_imm_def LOGICAL_LSL_REG_def
        arithmetic_LSR_imm_def logical_LSR_imm_def LOGICAL_LSR_REG_def
        arithmetic_ASR_imm_def logical_ASR_imm_def LOGICAL_ASR_REG_def
        arithmetic_ROR_imm_def logical_ROR_imm_def LOGICAL_ROR_REG_def LOGICAL_RRX_REG_def
        arithmetic_LSL_Rs_def logical_LSL_Rs_def arithmetic_LSR_Rs_def logical_LSR_Rs_def
        arithmetic_ASR_Rs_def logical_ASR_Rs_def arithmetic_ROR_Rs_def logical_ROR_Rs_def Let_def)
qed

lemma drop_bit_and_1: "drop_bit n (v :: u32) AND 1 \<noteq> 0 \<longleftrightarrow> bit v n"
  by (simp add: and_one_eq mod_2_eq_odd bit_iff_odd_drop_bit)

lemma and_msb: "(v :: u32) AND 0x80000000 \<noteq> 0 \<longleftrightarrow> bit v 31"
  using msb_and [of v] by (simp add: and.commute bit31_word)

lemma rotate_right:
  assumes "0 < n" "n < 32"
  shows "push_bit (32 - n) v OR drop_bit n v = word_rotr n (v :: u32)"
proof (rule bit_word_eqI)
  fix k assume k: "k < LENGTH(32)"
  have "k + n < 32 \<Longrightarrow> (k + n) mod 32 = k + n" "32 \<le> k + n \<Longrightarrow> (k + n) mod 32 = k - (32 - n)"
    using k assms by (simp_all add: mod_if)
  with k assms show "bit (push_bit (32 - n) v OR drop_bit n v) k = bit (word_rotr n v) k"
    by (cases "k + n < 32") (auto simp: bit_simps bit_word_rotr_iff not_less add.commute dest: bit_imp_le_length)
qed

lemma rotr_mod: "word_rotr (n mod 32) (v :: u32) = word_rotr n v"
  by (rule bit_word_eqI) (simp add: bit_word_rotr_iff mod_simps)

lemma mod_32_pred: "n mod 32 \<noteq> 0 \<Longrightarrow> (31 + n) mod 32 = n mod (32::nat) - 1"
proof -
  assume "n mod 32 \<noteq> 0"
  then have "31 + n mod 32 = (n mod 32 - 1) + 32" by simp
  then have "(31 + n mod 32) mod 32 = (n mod 32 - 1) mod 32" by (metis mod_add_self2)
  moreover have "n mod 32 - 1 < 32" by (rule less_imp_diff_less) simp
  ultimately show ?thesis by (simp add: mod_add_right_eq)
qed

text \<open>C36: The shifts by a register, for every amount in the low byte of the register. The values
  are those of the 32 bit shift left, logical and arithmetic shift right and rotation by the
  full amount. The carry out is the last bit shifted out, and the old carry for an amount of 0,
  except that a rotation by 0 sets it to the sign bit.\<close>

theorem shift_by_register:
  assumes "v = reg s (Rm opcode)" "n < 256"
  shows "logical_LSL_Rs opcode n s = (push_bit n v, if n = 0 then C_FLAG s else n \<le> 32 \<and> bit v (32 - n))
    \<and> logical_LSR_Rs opcode n s = (drop_bit n v, if n = 0 then C_FLAG s else bit v (n - 1))
    \<and> logical_ASR_Rs opcode n s = (signed_drop_bit n v, if n = 0 then C_FLAG s else bit v (min 31 (n - 1)))
    \<and> logical_ROR_Rs opcode n s = (word_rotr n v, bit (word_rotr n v) 31)"
proof (intro conjI)
  have push: "32 \<le> n \<Longrightarrow> push_bit n v = 0" by (rule bit_word_eqI) (simp add: bit_simps)
  have drop: "32 \<le> n \<Longrightarrow> drop_bit n v = 0" by (rule bit_word_eqI) (auto simp: bit_simps dest: bit_imp_le_length)
  show "logical_LSL_Rs opcode n s = (push_bit n v, if n = 0 then C_FLAG s else n \<le> 32 \<and> bit v (32 - n))"
    unfolding logical_LSL_Rs_def LOGICAL_LSL_REG_def assms(1) [symmetric] drop_bit_and_1
    using push by (auto simp: bit_0 and_one_eq mod_2_eq_odd)
  show "logical_LSR_Rs opcode n s = (drop_bit n v, if n = 0 then C_FLAG s else bit v (n - 1))"
    unfolding logical_LSR_Rs_def LOGICAL_LSR_REG_def assms(1) [symmetric] drop_bit_and_1 and_msb
    using drop by (auto dest: bit_imp_le_length)
  have asr: "32 \<le> n \<Longrightarrow> signed_drop_bit n v = (if bit v 31 then 0xFFFFFFFF else 0)"
  proof -
    assume "32 \<le> n"
    then have "signed_drop_bit n v = (if bit v 31 then - 1 else 0)"
      by (intro bit_word_eqI) (auto simp: bit_simps)
    then show ?thesis by simp
  qed
  show "logical_ASR_Rs opcode n s = (signed_drop_bit n v, if n = 0 then C_FLAG s else bit v (min 31 (n - 1)))"
  proof (cases "n < 32")
    case True
    then have "\<not> 32 \<le> n - 1" by simp
    then have "signed_drop_bit (n - 1) v AND 1 \<noteq> 0 \<longleftrightarrow> bit v (n - 1)"
      by (simp add: and_one_eq mod_2_eq_odd bit_0 [symmetric] bit_simps)
    moreover have "min 31 (n - 1) = n - 1" using True by linarith
    ultimately show ?thesis
      unfolding logical_ASR_Rs_def LOGICAL_ASR_REG_def assms(1) [symmetric] using True by simp
  next
    case False
    then show ?thesis
      unfolding logical_ASR_Rs_def assms(1) [symmetric] and_msb by (auto simp: asr min_def)
  qed
  have ror: "n mod 32 \<noteq> 0 \<Longrightarrow> bit v (n mod 32 - 1) = bit (word_rotr n v) 31"
    using mod_32_pred [of n] by (simp add: bit_word_rotr_iff)
  have r0: "n mod 32 = 0 \<Longrightarrow> word_rotr n v = v"
    by (rule bit_word_eqI) (simp add: bit_word_rotr_iff mod_add_right_eq [symmetric])
  show "logical_ROR_Rs opcode n s = (word_rotr n v, bit (word_rotr n v) 31)"
    unfolding logical_ROR_Rs_def LOGICAL_ROR_REG_def assms(1) [symmetric] drop_bit_and_1 and_msb Let_def
    using rotate_right [of "n mod 32" v] ror r0 by (cases "n mod 32 = 0") (auto simp: rotr_mod)
qed

theorem arithmetic_flags_witness:
  "(0::nat) < 15 \<and> reg (OP_SBCS 0 1 5 False arm_zero) 0 = 0xFFFFFFFA
   \<and> subtracts_to 0 5 False (reg (OP_SBCS 0 1 5 False arm_zero) 0) (OP_SBCS 0 1 5 False arm_zero)"
  using arithmetic_flags [of 0 arm_zero 1 5 False]
  by (simp add: flag_defs) (simp add: OP_SBCS_def flag_defs SUBCARRY_def SUBOVERFLOW_def result_flags_def)

theorem shift_by_register_witness:
  "(0::nat) < 256 \<and> logical_ROR_Rs 2 0 (setreg 2 0x80000001 arm_zero) = (0x80000001, True)
   \<and> logical_LSL_Rs 2 0 (setreg 2 0x80000001 arm_zero) = (0x80000001, False)"
proof -
  let ?s = "setreg 2 0x80000001 arm_zero"
  have v: "(0x80000001 :: u32) = reg ?s (Rm 2)" by (simp add: Rm_def)
  have "\<not> C_FLAG ?s" by (simp add: flag_defs)
  moreover have "bit (0x80000001 :: u32) 31" by simp
  moreover have "word_rotr 0 (0x80000001 :: u32) = 0x80000001" by (rule bit_word_eqI) (simp add: bit_word_rotr_iff)
  ultimately show ?thesis using shift_by_register [OF v, of 0] by simp
qed

subsection \<open>Long multiplication\<close>

lemma word_halves:
  "4294967296 * uint (ucast (drop_bit 32 (w :: u64)) :: u32) + uint (ucast w :: u32) = uint w"
  "4294967296 * sint (ucast (drop_bit 32 (w :: u64)) :: u32) + uint (ucast w :: u32) = sint w"
proof -
  have lo: "uint (ucast w :: u32) = uint w mod 4294967296"
    by (simp add: unsigned_ucast_eq take_bit_eq_mod)
  have b: "0 \<le> uint w div 4294967296" "uint w div 4294967296 < 4294967296"
    using uint_lt2p [of w] by (simp_all add: div_less_iff_less_mult pos_imp_zdiv_nonneg_iff)
  have "uint (ucast (drop_bit 32 w) :: u32) = (uint w div 4294967296) mod 4294967296"
    by (simp add: unsigned_ucast_eq take_bit_eq_mod drop_bit_eq_div uint_div_distrib)
  then have hi: "uint (ucast (drop_bit 32 w) :: u32) = uint w div 4294967296"
    using b by simp
  show u: "4294967296 * uint (ucast (drop_bit 32 w) :: u32) + uint (ucast w :: u32) = uint w"
    unfolding lo hi by (rule mult_div_mod_eq)
  have "uint w < 9223372036854775808 \<longleftrightarrow> uint (ucast (drop_bit 32 w) :: u32) < 2147483648"
    using u uint32_bounds [of "ucast w"] by linarith
  with u show "4294967296 * sint (ucast (drop_bit 32 w) :: u32) + uint (ucast w :: u32) = sint w"
    by (simp add: sint32_uint sint64_uint)
qed

lemma uint_mult64: "uint (ucast (x :: u32) * ucast (y :: u32) :: u64) = uint x * uint y"
proof -
  have "uint x * uint y \<le> 4294967295 * 4294967295"
    using uint32_bounds [of x] uint32_bounds [of y] by (intro mult_mono) simp_all
  then have "(uint x * uint y) mod 18446744073709551616 = uint x * uint y"
    by (intro mod_pos_pos_trivial) simp_all
  moreover have "uint (ucast z :: u64) = uint z" for z :: u32
    using uint32_bounds [of z] by (simp add: unsigned_ucast_eq take_bit_int_eq_self)
  ultimately show ?thesis by (simp add: uint_word_ariths)
qed

lemma sint_mult64: "sint (scast (x :: u32) * scast (y :: u32) :: u64) = sint x * sint y"
proof -
  have "\<bar>sint x\<bar> \<le> 2147483648" "\<bar>sint y\<bar> \<le> 2147483648"
    using sint32_bounds [of x] sint32_bounds [of y] by linarith+
  then have "\<bar>sint x * sint y\<bar> \<le> 2147483648 * 2147483648"
    unfolding abs_mult by (intro mult_mono) simp_all
  then have b: "- 4611686018427387904 \<le> sint x * sint y" "sint x * sint y \<le> 4611686018427387904"
    by (simp_all add: abs_le_iff)
  have "sint (scast x * scast y :: u64) = signed_take_bit 63 (sint x * sint y)"
    by (simp add: sint_word_ariths sint_scast64)
  also have "\<dots> = sint x * sint y" using b by (intro signed_take_bit_int_eq_self) simp_all
  finally show ?thesis .
qed

lemma uint_join64:
  "uint (push_bit 32 (ucast (hi :: u32)) OR ucast (lo :: u32) :: u64) = 4294967296 * uint hi + uint lo"
proof -
  let ?w = "push_bit 32 (ucast hi) OR ucast lo :: u64"
  have "(ucast ?w :: u32) = lo" "(ucast (drop_bit 32 ?w) :: u32) = hi"
    by (rule bit_word_eqI; auto simp: bit_simps dest: bit_imp_le_length)+
  then show ?thesis using word_halves(1) [of ?w] by simp
qed

lemma uint_add64: "uint (a + b :: u64) = (uint a + uint b) mod 18446744073709551616"
  by (simp add: uint_word_ariths)

lemma sint_mod64: "sint (w :: u64) mod 18446744073709551616 = uint w mod 18446744073709551616"
proof (cases "uint w < 9223372036854775808")
  case True
  then show ?thesis by (simp only: sint64_uint if_True)
next
  case False
  then show ?thesis by (simp only: sint64_uint if_False minus_mod_self2)
qed

lemma uint_add_sint64: "uint (a + b :: u64) = (uint a + sint b) mod 18446744073709551616"
proof -
  have "(uint a + sint b) mod 18446744073709551616 = (uint a + sint b mod 18446744073709551616) mod 18446744073709551616"
    by (rule mod_add_right_eq [symmetric])
  also have "\<dots> = (uint a + uint b) mod 18446744073709551616"
    unfolding sint_mod64 by (rule mod_add_right_eq)
  finally show ?thesis by (simp only: uint_add64)
qed

lemma Rn_less: "Rn opcode < 16" and Rd_less: "Rd opcode < 16" and Rm_less: "Rm opcode < 16"
  and Rs_less: "Rs opcode < 16"
proof -
  have "unat (w AND 0xF) < 16" for w :: u32
    using word_and_le1 [of w "0xF"] by (simp add: word_le_nat_alt)
  then show "Rn opcode < 16" "Rd opcode < 16" "Rm opcode < 16" "Rs opcode < 16"
    by (simp_all add: Rn_def Rd_def Rm_def Rs_def)
qed

text \<open>The long multiplications, when the two halves of the result go to different
  registers: \<open>UMULL\<close> leaves the exact unsigned product, \<open>SMULL\<close> the exact signed product, and
  \<open>UMLAL\<close> and \<open>SMLAL\<close> add the product to the 64 bit number in the two registers
  modulo 2^64.\<close>

theorem long_multiplication:
  assumes "Rd opcode \<noteq> Rn opcode"
  shows "4294967296 * uint (reg (UMULL opcode s) (Rn opcode)) + uint (reg (UMULL opcode s) (Rd opcode))
      = uint (reg s (Rm opcode)) * uint (reg s (Rs opcode))
    \<and> 4294967296 * sint (reg (SMULL opcode s) (Rn opcode)) + uint (reg (SMULL opcode s) (Rd opcode))
      = sint (reg s (Rm opcode)) * sint (reg s (Rs opcode))
    \<and> 4294967296 * uint (reg (UMLAL opcode s) (Rn opcode)) + uint (reg (UMLAL opcode s) (Rd opcode))
      = (4294967296 * uint (reg s (Rn opcode)) + uint (reg s (Rd opcode))
         + uint (reg s (Rm opcode)) * uint (reg s (Rs opcode))) mod 18446744073709551616
    \<and> 4294967296 * uint (reg (SMLAL opcode s) (Rn opcode)) + uint (reg (SMLAL opcode s) (Rd opcode))
      = (4294967296 * uint (reg s (Rn opcode)) + uint (reg s (Rd opcode))
         + sint (reg s (Rm opcode)) * sint (reg s (Rs opcode))) mod 18446744073709551616"
proof -
  note defs = Let_def reg_setreg ticks_add if_True if_False simp_thms word_halves assms assms [symmetric]
  show ?thesis
  proof (intro conjI)
    show "4294967296 * uint (reg (UMULL opcode s) (Rn opcode)) + uint (reg (UMULL opcode s) (Rd opcode))
      = uint (reg s (Rm opcode)) * uint (reg s (Rs opcode))"
      by (simp only: UMULL_def defs uint_mult64)
    show "4294967296 * sint (reg (SMULL opcode s) (Rn opcode)) + uint (reg (SMULL opcode s) (Rd opcode))
      = sint (reg s (Rm opcode)) * sint (reg s (Rs opcode))"
      by (simp only: SMULL_def defs sint_mult64)
    show "4294967296 * uint (reg (UMLAL opcode s) (Rn opcode)) + uint (reg (UMLAL opcode s) (Rd opcode))
      = (4294967296 * uint (reg s (Rn opcode)) + uint (reg s (Rd opcode))
         + uint (reg s (Rm opcode)) * uint (reg s (Rs opcode))) mod 18446744073709551616"
      by (simp only: UMLAL_def defs uint_add64 uint_join64 uint_mult64)
    show "4294967296 * uint (reg (SMLAL opcode s) (Rn opcode)) + uint (reg (SMLAL opcode s) (Rd opcode))
      = (4294967296 * uint (reg s (Rn opcode)) + uint (reg s (Rd opcode))
         + sint (reg s (Rm opcode)) * sint (reg s (Rs opcode))) mod 18446744073709551616"
      by (simp only: SMLAL_def defs uint_add_sint64 uint_join64 sint_mult64)
  qed
qed

theorem long_multiplication_witness:
  "Rd 0xE0832190 \<noteq> Rn 0xE0832190 \<and>
   4294967296 * uint (reg (UMULL 0xE0832190 (setreg 1 0xFFFFFFFF (setreg 0 0xFFFFFFFF arm_zero))) 3)
     + uint (reg (UMULL 0xE0832190 (setreg 1 0xFFFFFFFF (setreg 0 0xFFFFFFFF arm_zero))) 2)
     = 18446744065119617025"
proof -
  have r: "Rd 0xE0832190 = 2" "Rn 0xE0832190 = 3" "Rm 0xE0832190 = 0" "Rs 0xE0832190 = 1"
    by (simp_all add: Rd_def Rn_def Rm_def Rs_def)
  show ?thesis
    using long_multiplication [of "0xE0832190" "setreg 1 0xFFFFFFFF (setreg 0 0xFFFFFFFF arm_zero)"]
    unfolding r by simp
qed

end
