(* ===== verification/Arm7_Memory.thy ===== *)
theory Arm7_Memory
  imports Arm7_Alu_Props
begin

section \<open>The sound memory as a store of words\<close>

text \<open>
  The interface of a store of words, with what a client can conclude about blocks of words, and
  its interpretation on the sound memory as the ARM sees it through \<open>readMem\<close> and \<open>writeMem\<close> of
  \<open>core/hw/arm7/arm_mem.h\<close>. The block transfer instructions rest on it: pushing registers with
  \<open>STMDB\<close> and popping them with \<open>LDMIA\<close>.
\<close>

subsection \<open>Interface\<close>

text \<open>\<open>ok\<close> is the invariant of the state, \<open>valid\<close> says which addresses belong to the store and
  \<open>cell\<close> which word an address selects; two addresses may select the same word.\<close>

locale word_store =
  fixes rd :: "u32 \<Rightarrow> 's \<Rightarrow> u32" and wr :: "u32 \<Rightarrow> u32 \<Rightarrow> 's \<Rightarrow> 's"
    and ok :: "'s \<Rightarrow> bool" and valid :: "'s \<Rightarrow> u32 \<Rightarrow> bool" and cell :: "'s \<Rightarrow> u32 \<Rightarrow> u32"
  assumes ok_wr: "ok s \<Longrightarrow> valid s x \<Longrightarrow> ok (wr x v s)"
    and valid_wr: "ok s \<Longrightarrow> valid s x \<Longrightarrow> valid (wr x v s) = valid s"
    and cell_wr: "ok s \<Longrightarrow> valid s x \<Longrightarrow> cell (wr x v s) = cell s"
    and rd_same: "ok s \<Longrightarrow> valid s x \<Longrightarrow> valid s y \<Longrightarrow> cell s x = cell s y \<Longrightarrow> rd x (wr y v s) = v"
    and rd_other: "ok s \<Longrightarrow> valid s x \<Longrightarrow> valid s y \<Longrightarrow> cell s x \<noteq> cell s y \<Longrightarrow> rd x (wr y v s) = rd x s"
begin

primrec store_words :: "u32 \<Rightarrow> u32 list \<Rightarrow> 's \<Rightarrow> 's" where
  "store_words x [] s = s"
| "store_words x (v # vs) s = store_words (x + 4) vs (wr x v s)"

primrec load_words :: "u32 \<Rightarrow> nat \<Rightarrow> 's \<Rightarrow> u32 list" where
  "load_words x 0 s = []"
| "load_words x (Suc n) s = rd x s # load_words (x + 4) n s"

text \<open>The \<open>n\<close> words from \<open>x\<close> on are valid and different.\<close>

definition block :: "'s \<Rightarrow> u32 \<Rightarrow> nat \<Rightarrow> bool" where
  "block s x n \<longleftrightarrow> (\<forall>i < n. valid s (x + 4 * word_of_nat i))
     \<and> (\<forall>i < n. \<forall>j < n. cell s (x + 4 * word_of_nat i) = cell s (x + 4 * word_of_nat j) \<longrightarrow> i = j)"

lemma block_0 [simp]: "block s x 0"
  by (simp add: block_def)

lemma block_Suc:
  "block s x (Suc n) \<longleftrightarrow> valid s x \<and> block s (x + 4) n \<and> (\<forall>i < n. cell s (x + 4 + 4 * word_of_nat i) \<noteq> cell s x)"
proof -
  have eq: "x + 4 * word_of_nat (Suc i) = x + 4 + 4 * word_of_nat i" for i by (simp add: algebra_simps)
  have "(\<forall>j < n. k \<noteq> c j) \<and> (\<forall>i < n. c i \<noteq> k \<and> (\<forall>j < n. c i = c j \<longrightarrow> i = j)) \<longleftrightarrow>
      (\<forall>i < n. \<forall>j < n. c i = c j \<longrightarrow> i = j) \<and> (\<forall>i < n. c i \<noteq> k)" for k and c :: "nat \<Rightarrow> u32" by auto
  then show ?thesis unfolding block_def All_less_Suc2 by (simp add: eq del: of_nat_Suc)
qed

lemma block_wr [simp]: "ok s \<Longrightarrow> valid s y \<Longrightarrow> block (wr y v s) x n = block s x n"
  by (simp add: block_def valid_wr cell_wr)

lemma rd_store_words:
  assumes "ok s" "block s x (length vs)" "valid s y" "\<forall>i < length vs. cell s (x + 4 * word_of_nat i) \<noteq> cell s y"
  shows "rd y (store_words x vs s) = rd y s"
  using assms
proof (induction vs arbitrary: x s)
  case (Cons v vs)
  have eq: "x + 4 * word_of_nat (Suc i) = x + 4 + 4 * word_of_nat i" for i by (simp add: algebra_simps)
  have b: "valid s x" "block s (x + 4) (length vs)" using Cons.prems(2) by (simp_all add: block_Suc)
  have other: "\<forall>i < length vs. cell s (x + 4 + 4 * word_of_nat i) \<noteq> cell s y" "cell s x \<noteq> cell s y"
    using Cons.prems(4) by (simp_all add: All_less_Suc2 eq del: of_nat_Suc)
  then have "rd y (store_words (x + 4) vs (wr x v s)) = rd y (wr x v s)"
    using Cons.prems(1,3) b by (intro Cons.IH) (simp_all add: ok_wr valid_wr cell_wr)
  then show ?case using rd_other [OF Cons.prems(1,3) b(1)] other(2) by simp
qed simp

lemma ok_store_words: "ok s \<Longrightarrow> block s x (length vs) \<Longrightarrow> ok (store_words x vs s)"
  by (induction vs arbitrary: x s) (simp_all add: block_Suc ok_wr)

text \<open>A block reads back as it was written.\<close>

lemma load_store_words:
  "ok s \<Longrightarrow> block s x (length vs) \<Longrightarrow> load_words x (length vs) (store_words x vs s) = vs"
proof (induction vs arbitrary: x s)
  case (Cons v vs)
  have b: "valid s x" "block s (x + 4) (length vs)" "\<forall>i < length vs. cell s (x + 4 + 4 * word_of_nat i) \<noteq> cell s x"
    using Cons.prems(2) by (simp_all add: block_Suc)
  have "rd x (store_words (x + 4) vs (wr x v s)) = rd x (wr x v s)"
    using Cons.prems(1) b by (intro rd_store_words) (simp_all add: ok_wr valid_wr cell_wr)
  moreover have "rd x (wr x v s) = v" by (rule rd_same [OF Cons.prems(1) b(1,1) refl])
  ultimately show ?case using Cons.IH [of "wr x v s" "x + 4"] Cons.prems(1) b by (simp add: ok_wr)
qed simp

end

subsection \<open>Words in memory\<close>

lemma aligned_mod: "(x :: u32) AND 3 = 0 \<longleftrightarrow> uint x mod 4 = 0"
proof -
  have e: "x AND 3 = take_bit 2 x" by (simp add: take_bit_eq_mask mask_eq_exp_minus_1)
  have "take_bit 2 x = 0 \<longleftrightarrow> uint (take_bit 2 x) = 0" by (simp only: unsigned_eq_0_iff)
  also have "\<dots> \<longleftrightarrow> uint x mod 4 = 0" by (simp only: take_bit_eq_mod uint_mod_distrib) simp
  finally show ?thesis by (simp only: e)
qed

lemma uint_drop_2: "uint (drop_bit 2 (x :: u32)) = uint x div 4"
  by (simp add: drop_bit_eq_div uint_div_distrib)

lemma int_aligned:
  "0 \<le> u \<Longrightarrow> u < 4294967296 \<Longrightarrow> u mod 4 = 0 \<Longrightarrow> 0 \<le> i \<Longrightarrow> i < 4 \<Longrightarrow> (u + i) mod 4294967296 div 4 = u div (4 :: int)"
proof -
  assume a: "0 \<le> u" "u < 4294967296" "u mod 4 = 0" "0 \<le> i" "i < 4"
  have "u div 4 < 1073741824" using a(2) by simp
  then have "u \<le> 4294967292" using a(3) by presburger
  then have "(u + i) mod 4294967296 = u + i" using a by simp
  moreover have "(u + i) div 4 = u div 4" using a(3-5) by presburger
  ultimately show ?thesis by simp
qed

lemma aligned_word_bytes:
  assumes "(x :: u32) AND 3 = 0" "uint i < 4"
  shows "drop_bit 2 (x + i) = drop_bit 2 x"
  unfolding word_uint_eq_iff uint_drop_2 uint32_add
  by (rule int_aligned) (use assms aligned_mod uint32_bounds in simp_all)

lemma aligned_eqI: "(x :: u32) AND 3 = 0 \<Longrightarrow> y AND 3 = 0 \<Longrightarrow> drop_bit 2 x = drop_bit 2 y \<Longrightarrow> x = y"
proof -
  assume "x AND 3 = 0" "y AND 3 = 0" "drop_bit 2 x = drop_bit 2 y"
  then have "uint x mod 4 = 0" "uint y mod 4 = 0" "uint x div 4 = uint y div 4"
    by (simp_all only: aligned_mod uint_drop_2 [symmetric])
  then show "x = y" unfolding word_uint_eq_iff by presburger
qed

lemma aligned_bytes_distinct:
  assumes "(x :: u32) AND 3 = 0" "y AND 3 = 0" "x \<noteq> y" "uint i < 4" "uint j < 4"
  shows "x + i \<noteq> y + j"
  using aligned_eqI [OF assms(1,2)] assms(3) aligned_word_bytes [OF assms(1,4)] aligned_word_bytes [OF assms(2,5)] by metis

lemma word_bytes: "(ucast (ucast w :: u8) :: u32) OR push_bit 8 (ucast (ucast (drop_bit 8 w) :: u8))
    OR push_bit 16 (ucast (ucast (drop_bit 16 w) :: u8)) OR push_bit 24 (ucast (ucast (drop_bit 24 w) :: u8)) = w"
proof (rule bit_word_eqI)
  fix n :: nat assume "n < LENGTH(32)"
  then consider "n < 8" | "8 \<le> n" "n < 16" | "16 \<le> n" "n < 24" | "24 \<le> n" "n < 32" by fastforce
  then show "bit (ucast (ucast w :: u8) OR push_bit 8 (ucast (ucast (drop_bit 8 w) :: u8))
    OR push_bit 16 (ucast (ucast (drop_bit 16 w) :: u8)) OR push_bit 24 (ucast (ucast (drop_bit 24 w) :: u8)) :: u32) n = bit w n"
    by cases (simp_all add: bit_simps, linarith+)
qed

lemma load_store32:
  assumes "x AND 3 = 0" "y AND 3 = 0"
  shows "load32 x (store32 y v s) = (if x = y then v else load32 x s)"
proof (cases "x = y")
  case True
  then show ?thesis by (simp add: load32_def store32_def word_bytes)
next
  case False
  note d = aligned_bytes_distinct [OF assms False]
  have "x \<noteq> y" "x \<noteq> y + 1" "x \<noteq> y + 2" "x \<noteq> y + 3" "x + 1 \<noteq> y" "x + 2 \<noteq> y" "x + 3 \<noteq> y"
    using d [of 0 0] d [of 0 1] d [of 0 2] d [of 0 3] d [of 1 0] d [of 2 0] d [of 3 0] by simp_all
  then show ?thesis using False d [of 1 2] d [of 1 3] d [of 2 1] d [of 2 3] d [of 3 1] d [of 3 2] by (simp add: load32_def store32_def)
qed

subsection \<open>The sound memory\<close>

text \<open>The size of the sound memory is a power of two, from 256 bytes to the 8 MB of the address
  range (2 MB on a Dreamcast). The words of the memory are the aligned addresses of the range.\<close>

definition ram_ok :: "'z arm_st_scheme \<Rightarrow> bool" where
  "ram_ok s \<longleftrightarrow> (\<exists>m. 8 \<le> m \<and> m \<le> 23 \<and> ARAM_MASK s = 2 ^ m - 1)"

definition ram_word :: "'z arm_st_scheme \<Rightarrow> u32 \<Rightarrow> bool" where
  "ram_word s x \<longleftrightarrow> x AND 0x00FFFFFF < 0x800000 \<and> x AND 3 = 0"

definition ram_cell :: "'z arm_st_scheme \<Rightarrow> u32 \<Rightarrow> u32" where
  "ram_cell s x = (x AND 0x00FFFFFF) AND (ARAM_MASK s - 3)"

definition ram_read :: "u32 \<Rightarrow> 'z arm_st_scheme \<Rightarrow> u32" where
  "ram_read x s = load32 (ram_cell s x) s"

definition ram_write :: "u32 \<Rightarrow> u32 \<Rightarrow> 'z arm_st_scheme \<Rightarrow> 'z arm_st_scheme" where
  "ram_write x v s = store32 (ram_cell s x) v s"

lemma ram_cell_bits:
  assumes "ARAM_MASK s = 2 ^ m - 1" "2 \<le> m" "m \<le> 23"
  shows "bit (ram_cell s x) n \<longleftrightarrow> 2 \<le> n \<and> n < m \<and> bit x n"
proof -
  have m: "ARAM_MASK s = mask m" by (simp add: assms(1) mask_eq_exp_minus_1)
  have "NOT (mask m :: u32) AND mask 2 = 0" using assms(2) by (intro bit_word_eqI) (auto simp: bit_simps)
  then have d: "mask m - mask 2 = (mask m :: u32) AND NOT (mask 2)" by (rule disjunctive_diff_eq_and_not)
  have "(3 :: u32) = mask 2" "(0x00FFFFFF :: u32) = mask 24" by (simp_all add: mask_eq_exp_minus_1)
  then have "ram_cell s x = (x AND mask 24) AND (mask m AND NOT (mask 2))" by (simp only: ram_cell_def m d)
  then show ?thesis using assms(3) by (auto simp: bit_simps simp del: mask_numeral)
qed

lemma ram_cell_aligned: "ram_ok s \<Longrightarrow> ram_cell s x AND 3 = 0"
proof -
  assume "ram_ok s"
  then obtain m where m: "ARAM_MASK s = 2 ^ m - 1" "2 \<le> m" "m \<le> 23" by (auto simp: ram_ok_def)
  have "ram_cell s x AND mask 2 = 0" by (rule bit_word_eqI) (auto simp: bit_simps ram_cell_bits [OF m])
  then show ?thesis by (simp add: mask_eq_exp_minus_1)
qed

lemma CPU_ram_access:
  assumes "ram_word s x"
  shows "CPUReadMemory a x s = (ram_read x s, s)" "CPUWriteMemory a x v s = ram_write x v s"
proof -
  have "(x AND 0x00FFFFFF) AND 3 = 0" using assms by (simp add: and.assoc ram_word_def)
  then show "CPUReadMemory a x s = (ram_read x s, s)" "CPUWriteMemory a x v s = ram_write x v s"
    using assms unfolding CPUReadMemory_def CPUWriteMemory_def Let_def ram_read_def ram_write_def ram_cell_def ram_word_def
    by simp_all
qed

lemma ram_write_frame [simp]: "ARAM_MASK (ram_write x v s) = ARAM_MASK s" "reg (ram_write x v s) = reg s"
  "armMode (ram_write x v s) = armMode s"
  by (simp_all add: ram_write_def store32_def)

lemma ram_write_const [simp]: "ram_ok (ram_write x v s) = ram_ok s" "ram_word (ram_write x v s) = ram_word s"
  "ram_cell (ram_write x v s) = ram_cell s"
  by (simp_all add: ram_ok_def ram_word_def ram_cell_def fun_eq_iff)

lemma ram_read_write:
  assumes "ram_ok s"
  shows "ram_read x (ram_write y v s) = (if ram_cell s x = ram_cell s y then v else ram_read x s)"
proof -
  have "ram_read x (ram_write y v s) = load32 (ram_cell s x) (store32 (ram_cell s y) v s)"
    unfolding ram_read_def ram_write_const(3) by (simp add: ram_write_def)
  then show ?thesis using assms by (simp add: load_store32 ram_cell_aligned ram_read_def)
qed

interpretation sound: word_store ram_read ram_write ram_ok ram_word ram_cell
  by unfold_locales (simp_all add: ram_read_write)

lemma ram_cell_word:
  assumes "ARAM_MASK s = 2 ^ m - 1" "2 \<le> m" "m \<le> 23" "x AND 3 = 0"
  shows "ram_cell s x = take_bit m x"
proof (rule bit_word_eqI)
  fix n
  have "x AND mask 2 = 0" using assms(4) by (simp add: mask_eq_exp_minus_1)
  then have "bit x n \<Longrightarrow> 2 \<le> n" using bit_eq_iff [of "x AND mask 2" 0] bit_imp_le_length [of x n]
    by (auto simp: bit_simps not_le)
  then show "bit (ram_cell s x) n = bit (take_bit m x) n"
    by (auto simp: ram_cell_bits [OF assms(1-3)] bit_take_bit_iff)
qed

lemma aligned_step: "(x :: u32) AND 3 = 0 \<Longrightarrow> (x + 4 * word_of_nat i) AND 3 = 0"
proof (induction i)
  case (Suc i)
  have "uint (y + 4 :: u32) mod 4 = uint y mod 4" for y by (simp add: uint32_add mod_mod_cancel)
  then have "(y + 4 :: u32) AND 3 = 0 \<longleftrightarrow> y AND 3 = 0" for y unfolding aligned_mod by simp
  moreover have "x + 4 * word_of_nat (Suc i) = (x + 4 * word_of_nat i) + 4" by (simp add: algebra_simps)
  ultimately show ?case using Suc by (simp only: simp_thms)
qed simp

lemma uint_index: "i \<le> 15 \<Longrightarrow> uint (4 * word_of_nat i :: u32) = 4 * int i"
  by (simp add: uint_word_ariths unsigned_of_nat take_bit_nat_eq_self)

lemma uint_take_bit_mod: "uint (take_bit m (y :: u32)) = uint y mod 2 ^ m"
  by (simp only: unsigned_take_bit_eq) (simp only: take_bit_eq_mod)

lemma uint_take_bit_index:
  assumes "m \<le> 32" "i \<le> 15"
  shows "uint (take_bit m (x + 4 * word_of_nat i) :: u32) = (uint x + 4 * int i) mod 2 ^ m"
proof -
  have "(2 :: int) ^ m dvd 4294967296" using le_imp_power_dvd [OF assms(1), of "2 :: int"] by simp
  then show ?thesis
    by (simp only: uint_take_bit_mod uint32_add uint_index [OF assms(2)] mod_mod_cancel)
qed

lemma mod_add_cancel: "(u + a) mod k = (u + b) mod k \<Longrightarrow> 0 \<le> a \<Longrightarrow> a < k \<Longrightarrow> 0 \<le> b \<Longrightarrow> b < k \<Longrightarrow> a = (b :: int)"
proof -
  assume e: "(u + a) mod k = (u + b) mod k" and r: "0 \<le> a" "a < k" "0 \<le> b" "b < k"
  have "a mod k = b mod k" using e unfolding mod_eq_dvd_iff by simp
  then show ?thesis using r by simp
qed

lemma top_byte_ignored: "(y :: u32) AND 0x00FFFFFF = take_bit 24 y"
  by (simp add: take_bit_eq_mask mask_eq_exp_minus_1)

lemma in_range:
  assumes "uint (x AND 0x00FFFFFF) + 4 * int n \<le> 0x800000" "i < n" "n \<le> 15"
  shows "(x + 4 * word_of_nat i :: u32) AND 0x00FFFFFF < 0x800000"
proof -
  let ?u = "uint x mod 2 ^ 24"
  have b: "?u + 4 * int n \<le> 0x800000" using assms(1) by (simp only: top_byte_ignored uint_take_bit_mod)
  have "uint (take_bit 24 (x + 4 * word_of_nat i)) = (uint x + 4 * int i) mod 2 ^ 24"
    using assms(2,3) by (intro uint_take_bit_index) simp_all
  also have "\<dots> = (?u + 4 * int i) mod 2 ^ 24" by (rule mod_add_left_eq [symmetric])
  also have "\<dots> \<le> ?u + 4 * int i" by (rule zmod_le_nonneg_dividend) simp
  also have "\<dots> < 0x800000" using b assms(2) by linarith
  finally show ?thesis by (simp only: top_byte_ignored word_less_def uint_numeral) simp
qed

lemma different_cells:
  assumes "ram_ok s" "x AND 3 = 0" "i \<le> 15" "j \<le> 15"
    and "ram_cell s (x + 4 * word_of_nat i) = ram_cell s (x + 4 * word_of_nat j)"
  shows "i = j"
proof -
  obtain m where m: "8 \<le> m" "m \<le> 23" "ARAM_MASK s = 2 ^ m - 1" using assms(1) by (auto simp: ram_ok_def)
  have p: "(256 :: int) \<le> 2 ^ m" using power_increasing [OF m(1), of "2 :: int"] by simp
  have b: "2 \<le> m" "m \<le> 32" using m(1,2) by linarith+
  have c: "ram_cell s (x + 4 * word_of_nat k) = take_bit m (x + 4 * word_of_nat k)" for k
    by (rule ram_cell_word [OF m(3) b(1) m(2) aligned_step [OF assms(2)]])
  have "(uint x + 4 * int i) mod 2 ^ m = (uint x + 4 * int j) mod 2 ^ m"
    using assms(5) by (simp only: c uint_take_bit_index [OF b(2) assms(3), symmetric] uint_take_bit_index [OF b(2) assms(4), symmetric])
  then have "4 * int i = 4 * int j" by (rule mod_add_cancel) (use assms(3,4) p in linarith)+
  then show ?thesis by linarith
qed

lemma ram_block:
  assumes "ram_ok s" "x AND 3 = 0" "n \<le> 15" "uint (x AND 0x00FFFFFF) + 4 * int n \<le> 0x800000"
  shows "sound.block s x n"
  unfolding sound.block_def ram_word_def
  using in_range [OF assms(4) _ assms(3)] aligned_step [OF assms(2)] different_cells [OF assms(1,2)] assms(3) by simp

subsection \<open>Block transfers\<close>

text \<open>States with the same sound memory.\<close>

definition same_ram :: "'z arm_st_scheme \<Rightarrow> 'z arm_st_scheme \<Rightarrow> bool" where
  "same_ram s t \<longleftrightarrow> aica_ram s = aica_ram t \<and> ARAM_MASK s = ARAM_MASK t"

lemma same_ram_refl [simp]: "same_ram s s"
  by (simp add: same_ram_def)

lemma same_ram_trans: "same_ram s t \<Longrightarrow> same_ram t u \<Longrightarrow> same_ram s u"
  by (simp add: same_ram_def)

lemma same_ram_frame [simp]: "same_ram (setreg i v s) t = same_ram s t" "same_ram (add_ticks k s) t = same_ram s t"
  "same_ram s (setreg i v t) = same_ram s t" "same_ram s (add_ticks k t) = same_ram s t"
  by (simp_all add: same_ram_def)

lemma same_ram_eqs:
  assumes "same_ram s t"
  shows "ram_read x s = ram_read x t" "ram_ok s = ram_ok t" "sound.block s x n = sound.block t x n"
    "same_ram (ram_write x v s) (ram_write x v t)"
  using assms
  by (simp_all add: same_ram_def ram_read_def ram_write_def ram_cell_def ram_ok_def sound.block_def ram_word_def load32_def
      store32_def)

lemma same_ram_words:
  "same_ram s t \<Longrightarrow> same_ram (sound.store_words x vs s) (sound.store_words x vs t)"
  "same_ram s t \<Longrightarrow> sound.load_words x n s = sound.load_words x n t"
proof (induction vs arbitrary: x s t)
  case (Cons v vs)
  { case 1 show ?case using Cons.IH(1) [OF same_ram_eqs(4) [OF 1]] by simp }
  { case 2 show ?case by (rule Cons.IH(2) [OF 2]) }
next
  case Nil
  { case 1 then show ?case by simp }
  { case 2 then show ?case by (induction n arbitrary: x) (simp_all add: same_ram_eqs(1)) }
qed

lemma fold_STMW:
  assumes "ram_ok s" "sound.block s x (length (filter (bit opcode) is))" "base \<notin> set (filter (bit opcode) is)"
    and "fold (STMW_REG a base temp opcode) (map (\<lambda>i. (i, i)) is) (x, off, s) = (x', off', s')"
  shows "same_ram s' (sound.store_words x (map (reg s) (filter (bit opcode) is)) s)
    \<and> (\<forall>i. reg s' i = (if i = base \<and> \<not> off \<and> filter (bit opcode) is \<noteq> [] then temp else reg s i))"
  using assms
proof (induction "is" arbitrary: x off s)
  case (Cons r rs)
  show ?case
  proof (cases "bit opcode r")
    case True
    define t where "t = add_ticks 2 (if \<not> off then setreg base temp (ram_write x (reg s r) s) else ram_write x (reg s r) s)"
    let ?rs = "filter (bit opcode) rs"
    have b: "ram_word s x" "sound.block s (x + 4) (length ?rs)" using Cons.prems(2) True by (simp_all add: sound.block_Suc)
    have same: "same_ram t (ram_write x (reg s r) s)" by (simp add: t_def)
    have r: "reg t i = (if i = base \<and> \<not> off then temp else reg s i)" for i by (simp add: t_def)
    have regs: "map (reg t) ?rs = map (reg s) ?rs" using Cons.prems(3) True by (auto simp: r)
    have "STMW_REG a base temp opcode (r, r) (x, off, s) = (x + 4, True, t)"
      using True by (simp add: STMW_REG_def CPU_ram_access [OF b(1)] t_def)
    then have "fold (STMW_REG a base temp opcode) (map (\<lambda>i. (i, i)) rs) (x + 4, True, t) = (x', off', s')"
      using Cons.prems(4) by simp
    then have "same_ram s' (sound.store_words (x + 4) (map (reg t) ?rs) t)
      \<and> (\<forall>i. reg s' i = (if i = base \<and> \<not> True \<and> ?rs \<noteq> [] then temp else reg t i))"
      using Cons.prems(1,3) True b(2) by (intro Cons.IH) (simp_all add: same_ram_eqs(2,3) [OF same] b(1))
    then show ?thesis
      using True same_ram_trans [OF _ same_ram_words(1) [OF same]] by (simp add: regs r)
  next
    case False
    then show ?thesis using Cons by (simp add: STMW_REG_def)
  qed
qed simp

lemma fold_LDM:
  assumes "ram_ok s" "sound.block s x (length (filter (bit opcode) is))" "distinct is"
    and "fold (LDM_REG a opcode) (map (\<lambda>i. (i, i)) is) (x, off, s) = (x', off', s')"
  shows "map (reg s') (filter (bit opcode) is) = sound.load_words x (length (filter (bit opcode) is)) s
    \<and> (\<forall>i. i \<notin> set (filter (bit opcode) is) \<longrightarrow> reg s' i = reg s i)"
  using assms
proof (induction "is" arbitrary: x off s)
  case (Cons r rs)
  show ?case
  proof (cases "bit opcode r")
    case True
    define t where "t = add_ticks 2 (setreg r (ram_read x s) s)"
    let ?rs = "filter (bit opcode) rs"
    have b: "ram_word s x" "sound.block s (x + 4) (length ?rs)" using Cons.prems(2) True by (simp_all add: sound.block_Suc)
    have same: "same_ram t s" by (simp add: t_def)
    have "LDM_REG a opcode (r, r) (x, off, s) = (x + 4, True, t)"
      using True by (simp add: LDM_REG_def CPU_ram_access [OF b(1)] t_def)
    then have "fold (LDM_REG a opcode) (map (\<lambda>i. (i, i)) rs) (x + 4, True, t) = (x', off', s')"
      using Cons.prems(4) by simp
    then have "map (reg s') ?rs = sound.load_words (x + 4) (length ?rs) t \<and> (\<forall>i. i \<notin> set ?rs \<longrightarrow> reg s' i = reg t i)"
      using Cons.prems(1,3) b(2) by (intro Cons.IH) (simp_all add: same_ram_eqs(2,3) [OF same])
    moreover have "r \<notin> set rs" using Cons.prems(3) by simp
    moreover have "reg t i = (if i = r then ram_read x s else reg s i)" for i by (simp add: t_def)
    ultimately show ?thesis using True by (simp add: same_ram_words(2) [OF same])
  next
    case False
    then show ?thesis using Cons by (simp add: LDM_REG_def)
  qed
qed simp

lemma bits_filter:
  "cpuBitsSet (opcode AND 255) + cpuBitsSet (drop_bit 8 opcode AND 255) = length (filter (bit opcode) [0..<16])"
proof -
  have b: "x AND push_bit j 1 \<noteq> 0 \<longleftrightarrow> bit x j" for x :: u32 and j
    by (simp add: bit_iff_and_push_bit_not_eq_0)
  have m: "bit (255 :: u32) j \<longleftrightarrow> j < 8" for j
  proof -
    have e: "(255 :: u32) = mask 8" by (simp add: mask_eq_exp_minus_1)
    show ?thesis unfolding e bit_mask_iff by auto
  qed
  have "cpuBitsSet (opcode AND 255) = length (filter (bit opcode) [0..<8])"
    unfolding cpuBitsSet_def b by (rule arg_cong, rule filter_cong, rule refl) (simp only: bit_and_iff m set_upt atLeastLessThan_iff simp_thms)
  moreover have "cpuBitsSet (drop_bit 8 opcode AND 255) = length (filter (\<lambda>j. bit opcode (8 + j)) [0..<8])"
    unfolding cpuBitsSet_def b by (rule arg_cong, rule filter_cong, rule refl)
      (simp only: bit_and_iff bit_drop_bit_eq o_def m set_upt atLeastLessThan_iff simp_thms)
  moreover have "[0..<16] = [0..<8] @ map (\<lambda>j. 8 + j) [0..<8::nat]" by (simp add: upt_rec)
  ultimately show ?thesis by (simp only: filter_append filter_map o_def length_append length_map)
qed

lemma block_size_filter:
  "\<not> bit opcode 15 \<Longrightarrow> block_size opcode = 4 * word_of_nat (length (filter (bit opcode) [0..<15]))"
proof -
  assume "\<not> bit opcode 15"
  moreover have "[0..<16] = [0..<15] @ [15::nat]" by (simp add: upt_rec)
  ultimately show ?thesis
    unfolding block_size_def of_nat_add [symmetric] bits_filter by (simp only: filter_append filter.simps if_False append_Nil2)
qed

text \<open>The registers a block transfer of the current mode moves, without the program counter.\<close>

abbreviation listed :: "u32 \<Rightarrow> nat list" where
  "listed opcode \<equiv> filter (bit opcode) [0..<15]"

lemma block_pointer:
  assumes "x AND 3 = (0 :: u32)"
  shows "(x - 4 * word_of_nat n) AND 3 = 0" "x AND 0xFFFFFFFC = x"
proof -
  show "x AND 0xFFFFFFFC = x" using assms by (rule aligned_and)
  have "x - 4 * word_of_nat n = x + 4 * (- word_of_nat n)" by simp
  also have "\<dots> = x + 4 * word_of_nat (unat (- word_of_nat n :: u32))" by simp
  finally show "(x - 4 * word_of_nat n) AND 3 = 0" by (simp only: aligned_step [OF assms])
qed

lemma push_memory:
  assumes "ram_ok s" "\<not> bit opcode 15" "\<not> bit opcode 13" "Rn opcode = 13"
    and "x = reg s 13 - block_size opcode" "x AND 3 = 0" "uint (x AND 0x00FFFFFF) + 4 * int (length (listed opcode)) \<le> 0x800000"
  shows "same_ram (STMDB_wb a opcode s) (sound.store_words x (map (reg s) (listed opcode)) s)
    \<and> reg (STMDB_wb a opcode s) 13 = x"
proof -
  have len: "length (listed opcode) \<le> 15" using length_filter_le [of "bit opcode" "[0..<15]"] by simp
  note blk = ram_block [OF assms(1,6) len assms(7)]
  obtain x' off' s' where f: "fold (STMW_REG a 13 x opcode) current_regs (x, False, add_ticks 2 s) = (x', off', s')"
    by (metis prod.collapse)
  have e: "STMDB_wb a opcode s = s'"
    using assms(2,4) f by (simp add: STMDB_wb_def store_block_down_def Let_def assms(5) [symmetric] block_pointer(2) [OF assms(6)])
  have same: "same_ram (add_ticks 2 s) s" by simp
  have "same_ram s' (sound.store_words x (map (reg (add_ticks 2 s)) (listed opcode)) (add_ticks 2 s))
    \<and> (\<forall>i. reg s' i = (if i = 13 \<and> \<not> False \<and> listed opcode \<noteq> [] then x else reg (add_ticks 2 s) i))"
    using assms(1,3) blk f unfolding current_regs_def
    by (intro fold_STMW) (simp_all add: same_ram_eqs(2,3) [OF same])
  then show ?thesis
    using same_ram_trans [OF _ same_ram_words(1) [OF same]] assms(2,5)
    by (auto simp: e block_size_filter simp del: filter.simps)
qed

lemma pop_registers:
  assumes "ram_ok h" "\<not> bit opcode 15" "\<not> bit opcode 13" "Rn opcode = 13"
    and "x = reg h 13" "x AND 3 = 0" "uint (x AND 0x00FFFFFF) + 4 * int (length (listed opcode)) \<le> 0x800000"
  shows "map (reg (LDMIA_wb a opcode h)) (listed opcode) = sound.load_words x (length (listed opcode)) h
    \<and> reg (LDMIA_wb a opcode h) 13 = x + block_size opcode
    \<and> (\<forall>i. i \<noteq> 13 \<and> i \<notin> set (listed opcode) \<longrightarrow> reg (LDMIA_wb a opcode h) i = reg h i)"
proof -
  have len: "length (listed opcode) \<le> 15" using length_filter_le [of "bit opcode" "[0..<15]"] by simp
  note blk = ram_block [OF assms(1,6) len assms(7)]
  obtain x' off' h' where f: "fold (LDM_REG a opcode) current_regs (x, False, add_ticks 2 h) = (x', off', h')"
    by (metis prod.collapse)
  have e: "LDMIA_wb a opcode h = setreg 13 (x + block_size opcode) h'"
    using assms(2,3,4) f
    by (simp add: LDMIA_wb_def load_block_def base_back_def Let_def assms(5) [symmetric] block_pointer(2) [OF assms(6)])
  have same: "same_ram (add_ticks 2 h) h" by simp
  have "map (reg h') (listed opcode) = sound.load_words x (length (listed opcode)) (add_ticks 2 h)
    \<and> (\<forall>i. i \<notin> set (listed opcode) \<longrightarrow> reg h' i = reg (add_ticks 2 h) i)"
    using assms(1) blk f unfolding current_regs_def
    by (intro fold_LDM) (simp_all add: same_ram_eqs(2,3) [OF same])
  moreover have "map (reg (setreg 13 v h')) (listed opcode) = map (reg h') (listed opcode)" for v
    using assms(3) by auto
  ultimately show ?thesis by (simp add: e same_ram_words(2) [OF same])
qed

subsection \<open>Push and pop\<close>

text \<open>\<open>STMDB R13!, {list}\<close> and \<open>LDMIA R13!, {list}\<close>.\<close>

definition push_op :: "u32 \<Rightarrow> u32" where "push_op list = 0xE92D0000 OR list"

definition pop_op :: "u32 \<Rightarrow> u32" where "pop_op list = 0xE8BD0000 OR list"

lemma list_bits: "(list :: u32) < 0x8000 \<Longrightarrow> bit list n \<Longrightarrow> n < 15"
proof -
  assume "list < 0x8000" and b: "bit list n"
  then have "uint list < 2 ^ 15" by (simp add: word_less_def)
  then have "take_bit 15 list = list" by (simp add: word_uint_eq_iff unsigned_take_bit_eq take_bit_int_eq_self)
  then show ?thesis using b by (metis bit_take_bit_iff)
qed

lemma list_drop: "(list :: u32) < 0x8000 \<Longrightarrow> 15 \<le> k \<Longrightarrow> drop_bit k list = 0"
  by (rule bit_word_eqI) (auto simp: bit_drop_bit_eq dest: list_bits)

lemma block_op_fields:
  assumes "list < 0x8000"
  shows "drop_bit 16 (push_op list) = 0xE92D" "drop_bit 28 (push_op list) = 0xE"
    "drop_bit 16 (pop_op list) = 0xE8BD" "drop_bit 28 (pop_op list) = 0xE"
    "n \<le> 15 \<Longrightarrow> bit (push_op list) n = bit list n" "n \<le> 15 \<Longrightarrow> bit (pop_op list) n = bit list n"
proof -
  show "drop_bit 16 (push_op list) = 0xE92D" "drop_bit 28 (push_op list) = 0xE"
    "drop_bit 16 (pop_op list) = 0xE8BD" "drop_bit 28 (pop_op list) = 0xE"
    using assms by (simp_all add: push_op_def pop_op_def list_drop drop_bit_or)
  have e: "(0xE92D0000 :: u32) = push_bit 16 0xE92D" "(0xE8BD0000 :: u32) = push_bit 16 0xE8BD" by simp_all
  show "n \<le> 15 \<Longrightarrow> bit (push_op list) n = bit list n" "n \<le> 15 \<Longrightarrow> bit (pop_op list) n = bit list n"
    unfolding push_op_def pop_op_def e by (simp_all only: bit_or_iff bit_push_bit_iff) simp_all
qed

lemma hash_high:
  assumes "drop_bit 16 opcode = c" "c AND 0xFF0 = push_bit 4 h"
  shows "opcode_hash opcode div 16 = unat (drop_bit 4 (push_bit 4 h :: u32))"
proof -
  have "drop_bit 4 (x AND 0x0F :: u32) = 0" for x
  proof -
    have e: "(0x0F :: u32) = mask 4" by (simp add: mask_eq_exp_minus_1)
    show ?thesis unfolding e by (rule bit_word_eqI) (auto simp: bit_drop_bit_eq bit_and_iff bit_mask_iff)
  qed
  then have "drop_bit 4 ((drop_bit 16 opcode AND 0xFF0) OR (drop_bit 4 opcode AND 0x0F)) = drop_bit 4 (push_bit 4 h)"
    unfolding assms drop_bit_or by simp
  moreover have "opcode_hash opcode div 16 = unat (drop_bit 4 ((drop_bit 16 opcode AND 0xFF0) OR (drop_bit 4 opcode AND 0x0F)))"
    unfolding opcode_hash_def by (simp only: drop_bit_eq_div unat_div_distrib) simp
  ultimately show ?thesis by simp
qed

lemma single_high: "0x20 \<le> h div 16 \<Longrightarrow> single_opcode a h opcode s = None"
  unfolding single_opcode_def by auto

lemma block_op_executes:
  assumes "list < 0x8000"
  shows "arm_execute a (push_op list) s = STMDB_wb a (push_op list) (add_ticks 6 s)"
    "arm_execute a (pop_op list) s = LDMIA_wb a (pop_op list) (add_ticks 6 s)"
proof -
  note f = block_op_fields [OF assms]
  have "opcode_hash (push_op list) div 16 = 0x92" using hash_high [OF f(1), where h = "0x92"] by simp
  then show "arm_execute a (push_op list) s = STMDB_wb a (push_op list) (add_ticks 6 s)"
    by (simp add: arm_execute_def cond_res_def f arm_case_def single_high Let_def block_opcode_def)
  have "opcode_hash (pop_op list) div 16 = 0x8b" using hash_high [OF f(3), where h = "0x8b"] by simp
  then show "arm_execute a (pop_op list) s = LDMIA_wb a (pop_op list) (add_ticks 6 s)"
    by (simp add: arm_execute_def cond_res_def f arm_case_def single_high Let_def block_opcode_def)
qed

text \<open>C31: Pushing registers and popping them again. Let the stack pointer be aligned and the block
  fit into the sound memory. Then \<open>STMDB R13!, {list}\<close>, for any list of registers without the
  stack pointer and the program counter, lowers the stack pointer by four bytes a register; and
  after any code that keeps the sound memory and the stack pointer, whatever it does to the
  registers, \<open>LDMIA R13!, {list}\<close> restores every listed register and the stack pointer and leaves
  the other registers alone.\<close>

theorem push_pop:
  assumes "ram_ok s" "list < 0x8000" "\<not> bit list 13" "reg s 13 AND 3 = 0"
    and "x = reg s 13 - 4 * word_of_nat (length (listed list))"
    and "uint (x AND 0x00FFFFFF) + 4 * int (length (listed list)) \<le> 0x800000"
    and "s' = arm_execute a (push_op list) s"
    and "aica_ram h = aica_ram s'" "ARAM_MASK h = ARAM_MASK s'" "reg h 13 = reg s' 13"
    and "h' = arm_execute a (pop_op list) h"
  shows "reg s' 13 = x \<and> reg h' 13 = reg s 13 \<and> (\<forall>i < 15. bit list i \<longrightarrow> reg h' i = reg s i)
    \<and> (\<forall>i < 15. i \<noteq> 13 \<and> \<not> bit list i \<longrightarrow> reg h' i = reg h i)"
proof -
  note f = block_op_fields [OF assms(2)]
  have ls: "listed (push_op list) = listed list" "listed (pop_op list) = listed list"
    by (auto intro!: filter_cong simp: f)
  have nb: "\<not> bit list 15" using list_bits [OF assms(2), of 15] by auto
  have rn: "Rn (push_op list) = 13" "Rn (pop_op list) = 13" by (simp_all add: Rn_def f)
  have sz: "block_size (push_op list) = 4 * word_of_nat (length (listed list))"
    "block_size (pop_op list) = 4 * word_of_nat (length (listed list))"
    using block_size_filter [of "push_op list"] block_size_filter [of "pop_op list"] nb by (simp_all add: f ls)
  have al: "x AND 3 = 0" unfolding assms(5) by (rule block_pointer(1) [OF assms(4)])
  let ?s = "add_ticks 6 s" and ?h = "add_ticks 6 h"
  have push: "same_ram s' (sound.store_words x (map (reg ?s) (listed list)) ?s) \<and> reg s' 13 = x"
    using push_memory [of ?s "push_op list" x a] assms(1,3,5-7) nb rn al
    by (simp add: block_op_executes [OF assms(2)] ls sz f same_ram_eqs(2) [of ?s s])
  have hs: "same_ram ?h (sound.store_words x (map (reg ?s) (listed list)) ?s)"
    using push assms(8,9) by (simp add: same_ram_def)
  have len: "length (listed list) \<le> 15" using length_filter_le [of "bit list" "[0..<15]"] by simp
  have ok: "ram_ok ?s" using assms(1) by (simp add: same_ram_eqs(2) [of ?s s])
  note blk = ram_block [OF ok al len assms(6)]
  have okh: "ram_ok ?h"
    unfolding same_ram_eqs(2) [OF hs] using blk by (intro sound.ok_store_words ok) simp
  have pop: "map (reg h') (listed list) = sound.load_words x (length (listed list)) ?h \<and> reg h' 13 = x + block_size (pop_op list)
    \<and> (\<forall>i. i \<noteq> 13 \<and> i \<notin> set (listed list) \<longrightarrow> reg h' i = reg h i)"
    using pop_registers [of ?h "pop_op list" x a] okh assms(3,6,10,11) nb rn al push
    by (simp add: block_op_executes [OF assms(2)] ls f)
  have "map (reg h') (listed list) = map (reg s) (listed list)"
    using pop same_ram_words(2) [OF hs] sound.load_store_words [OF ok, of x "map (reg ?s) (listed list)"] blk by simp
  then have "\<forall>i < 15. bit list i \<longrightarrow> reg h' i = reg s i" by simp
  then show ?thesis using push pop assms(5) by (simp add: sz)
qed

theorem push_pop_witness:
  "let s = setreg 13 0x1000 (setreg 0 5 arm_zero);
       s' = arm_execute silent_aica (push_op 0x4001) s;
       h' = arm_execute silent_aica (pop_op 0x4001) (setreg 0 9 s')
   in reg s' 13 = 0xFF8 \<and> reg h' 13 = 0x1000 \<and> reg h' 0 = 5"
proof -
  let ?s = "setreg 13 0x1000 (setreg 0 5 arm_zero)"
  have l: "listed 0x4001 = [0, 14]" by (simp add: upt_rec)
  have ok: "ram_ok ?s" by (auto simp: ram_ok_def intro!: exI [of _ 21])
  have "reg (arm_execute silent_aica (push_op 0x4001) ?s) 13 = 0xFF8 \<and>
      reg (arm_execute silent_aica (pop_op 0x4001) (setreg 0 9 (arm_execute silent_aica (push_op 0x4001) ?s))) 13 = reg ?s 13 \<and>
      (\<forall>i < 15. bit (0x4001 :: u32) i \<longrightarrow>
        reg (arm_execute silent_aica (pop_op 0x4001) (setreg 0 9 (arm_execute silent_aica (push_op 0x4001) ?s))) i = reg ?s i) \<and>
      (\<forall>i < 15. i \<noteq> 13 \<and> \<not> bit (0x4001 :: u32) i \<longrightarrow>
        reg (arm_execute silent_aica (pop_op 0x4001) (setreg 0 9 (arm_execute silent_aica (push_op 0x4001) ?s))) i
          = reg (setreg 0 9 (arm_execute silent_aica (push_op 0x4001) ?s)) i)"
    by (rule push_pop [OF ok _ _ _ _ _ refl _ _ _ refl]) (simp_all add: l)
  then show ?thesis by (simp add: Let_def)
qed

subsection \<open>Word accesses\<close>

lemma unat_low_bits: "unat (x AND 3 :: u32) < 4" "unat ((x AND 3) * 8 :: u32) = 8 * unat (x AND 3)"
proof -
  have e: "x AND 3 = take_bit 2 x" by (simp add: take_bit_eq_mask mask_eq_exp_minus_1)
  have "unat (take_bit 2 x) = unat x mod 2 ^ 2" by (simp only: unsigned_take_bit_eq) (simp only: take_bit_eq_mod)
  then show l: "unat (x AND 3) < 4" unfolding e by simp
  then show "unat ((x AND 3) * 8) = 8 * unat (x AND 3)" by (simp add: unat_word_ariths mult.commute)
qed

lemma rotr_zero: "word_rotr 0 (v :: u32) = v"
  by (rule bit_word_eqI) (simp add: bit_word_rotr_iff)

lemma CPUReadMemory_ram:
  assumes "x AND 0x00FFFFFF < 0x800000"
  shows "CPUReadMemory a x s = (word_rotr (8 * unat (x AND 3)) (ram_read x s), s)"
proof (cases "x AND 3 = 0")
  case True
  then show ?thesis using assms by (simp add: CPUReadMemory_def ram_read_def ram_cell_def and.assoc rotr_zero Let_def)
next
  case False
  have e: "(x AND 0x00FFFFFF) AND 3 = x AND 3" by (simp add: and.assoc)
  have "0 < 8 * unat (x AND 3)" using False by (simp add: unat_gt_0)
  then have "drop_bit (8 * unat (x AND 3)) v OR push_bit (32 - 8 * unat (x AND 3)) v = word_rotr (8 * unat (x AND 3)) v" for v :: u32
    using rotate_right [of "8 * unat (x AND 3)" v] unat_low_bits(1) [of x] by (simp add: or.commute)
  then show ?thesis
    using assms False unfolding CPUReadMemory_def Let_def e unat_low_bits(2) ram_read_def ram_cell_def by simp
qed

text \<open>What a word read returns after a word write, for any two addresses of the sound memory,
  aligned or not: when both select the same word (the top byte of the address, the bits above the
  size of the memory and the lowest two bits are ignored) the value written, rotated right by
  eight bits for each byte of misalignment of the read; otherwise what it returned before.\<close>

theorem word_access:
  assumes "ram_ok s" "x AND 0x00FFFFFF < 0x800000" "y AND 0x00FFFFFF < 0x800000"
  shows "CPUReadMemory a x (CPUWriteMemory a y v s) =
    (if ram_cell s x = ram_cell s y then word_rotr (8 * unat (x AND 3)) v else fst (CPUReadMemory a x s),
     CPUWriteMemory a y v s)"
proof -
  have "CPUWriteMemory a y v s = ram_write y v s"
    using assms(3) by (simp add: CPUWriteMemory_def ram_write_def ram_cell_def Let_def)
  then show ?thesis using assms(1,2) by (simp add: CPUReadMemory_ram ram_read_write)
qed

theorem word_access_witness:
  "CPUReadMemory silent_aica 0xFF200101 (CPUWriteMemory silent_aica 0x103 0xAABBCCDD arm_zero) =
     (0xDDAABBCC, CPUWriteMemory silent_aica 0x103 0xAABBCCDD arm_zero)"
proof -
  have ok: "ram_ok arm_zero" by (auto simp: ram_ok_def intro!: exI [of _ 21])
  have "word_rotr 8 (0xAABBCCDD :: u32) = 0xDDAABBCC"
    using rotate_right [of 8 "0xAABBCCDD"] by simp
  then show ?thesis using word_access [OF ok, of "0xFF200101" "0x103" silent_aica "0xAABBCCDD"] by (simp add: ram_cell_def)
qed

end
