(* ===== verification/Arm7_Modes.thy ===== *)
theory Arm7_Modes
  imports Arm7_Memory
begin

section \<open>Processor modes and exceptions of the sound CPU\<close>

text \<open>
  The packing of the status register, the fast interrupt as a transparent interruption of the
  program, and what a software interrupt saves.
\<close>

subsection \<open>The packed status register\<close>

text \<open>The status register keeps its \<open>F\<close> bit once it is set; it is set only while fast
  interrupts are disabled. The mode has five bits.\<close>

definition psr_wf :: "'z arm_st_scheme \<Rightarrow> bool" where
  "psr_wf s \<longleftrightarrow> armMode s < 32 \<and> (armFiqEnable s \<longrightarrow> \<not> bit (reg s RN_CPSR) 6)"

definition packed :: "'z arm_st_scheme \<Rightarrow> u32" where
  "packed s = reg (CPUUpdateCPSR s) RN_CPSR"

lemma reg_CPUUpdateCPSR: "reg (CPUUpdateCPSR s) i = (if i = RN_CPSR then packed s else reg s i)"
  by (simp add: packed_def)

lemma bit_numeral_pow: "bit (64 :: int) n \<longleftrightarrow> n = 6" "bit (128 :: int) n \<longleftrightarrow> n = 7"
proof -
  have "bit (2 ^ m :: int) n \<longleftrightarrow> n = m" for m by (auto simp: bit_exp_iff)
  from this [of 6] this [of 7] show "bit (64 :: int) n \<longleftrightarrow> n = 6" "bit (128 :: int) n \<longleftrightarrow> n = 7" by simp_all
qed

lemma bit_packed:
  "bit (packed s) n \<longleftrightarrow> n < 32 \<and>
     (if n < 5 then bit (armMode s) n
      else if n = 6 then bit (reg s RN_CPSR) 6 \<or> \<not> armFiqEnable s
      else if n = 7 then \<not> armIrqEnable s
      else 28 \<le> n \<and> bit (reg s RN_PSR_FLAGS) n)"
  unfolding packed_def CPUUpdateCPSR_def Let_def
  by (auto simp: field_bits bit_simps bit_numeral_pow)

lemma less_32_bits: "(m :: u32) < 32 \<longleftrightarrow> take_bit 5 m = m"
proof -
  have "take_bit 5 m = m \<longleftrightarrow> unat (take_bit 5 m) = unat m" by (simp add: word_unat_eq_iff)
  also have "\<dots> \<longleftrightarrow> take_bit 5 (unat m) = unat m" by (simp only: unsigned_take_bit_eq)
  also have "\<dots> \<longleftrightarrow> unat m < 32" by (simp add: take_bit_nat_eq_self_iff)
  finally show ?thesis by (simp add: word_less_nat_alt)
qed

lemma packed_mode: "armMode s < 32 \<Longrightarrow> packed s AND 0x1f = armMode s"
proof -
  assume m: "armMode s < 32"
  have "packed s AND 0x1f = take_bit 5 (packed s)" by (simp add: take_bit_eq_mask mask_eq_exp_minus_1)
  also have "\<dots> = take_bit 5 (armMode s)" by (rule bit_word_eqI) (auto simp: bit_simps bit_packed)
  finally show ?thesis using m by (simp add: less_32_bits)
qed

lemma and_bit: "(w AND 0x40 = 0) = (\<not> bit (w :: u32) 6)" "(w AND 0x80 = 0) = (\<not> bit (w :: u32) 7)"
proof -
  have "(0x40 :: u32) = push_bit 6 1" "(0x80 :: u32) = push_bit 7 1" by simp_all
  then show "(w AND 0x40 = 0) = (\<not> bit w 6)" "(w AND 0x80 = 0) = (\<not> bit w 7)"
    by (simp_all only: bit_iff_and_push_bit_not_eq_0) simp_all
qed

lemma packed_enables:
  "psr_wf s \<Longrightarrow> (packed s AND 0x40 = 0) = armFiqEnable s" "(packed s AND 0x80 = 0) = armIrqEnable s"
  by (auto simp: and_bit bit_packed psr_wf_def)

text \<open>The flags after the status register has been unpacked.\<close>

lemma CPUUpdateFlags_simps [simp]:
  "N_FLAG (CPUUpdateFlags s) = bit (reg s RN_CPSR) 31" "Z_FLAG (CPUUpdateFlags s) = bit (reg s RN_CPSR) 30"
  "C_FLAG (CPUUpdateFlags s) = bit (reg s RN_CPSR) 29" "V_FLAG (CPUUpdateFlags s) = bit (reg s RN_CPSR) 28"
  "armIrqEnable (CPUUpdateFlags s) = (reg s RN_CPSR AND 0x80 = 0)"
  "armFiqEnable (CPUUpdateFlags s) = (reg s RN_CPSR AND 0x40 = 0)"
  by (simp_all add: CPUUpdateFlags_def Let_def flag_defs field_bits)

lemma reg_CPUUpdateFlags [simp]:
  "i \<noteq> RN_PSR_FLAGS \<Longrightarrow> i \<noteq> INTR_PEND \<Longrightarrow> reg (CPUUpdateFlags s) i = reg s i"
  by (simp add: CPUUpdateFlags_def Let_def)

lemma CPUUpdateCPSR_flags [simp]:
  "N_FLAG (CPUUpdateCPSR s) = N_FLAG s" "Z_FLAG (CPUUpdateCPSR s) = Z_FLAG s"
  "C_FLAG (CPUUpdateCPSR s) = C_FLAG s" "V_FLAG (CPUUpdateCPSR s) = V_FLAG s"
  by (simp_all add: flag_defs)

subsection \<open>Fast interrupts\<close>

text \<open>The modes a fast interrupt can arrive in, with the places of their banked registers.\<close>

definition other_modes :: "u32 set" where
  "other_modes = {0x10, 0x12, 0x13, 0x17, 0x1b, 0x1f}"

definition bank13 :: "u32 \<Rightarrow> nat" where
  "bank13 m = (if m = 0x12 then R13_IRQ else if m = 0x13 then R13_SVC else if m = 0x17 then R13_ABT
     else if m = 0x1b then R13_UND else R13_USR)"

definition bank_spsr :: "u32 \<Rightarrow> nat" where
  "bank_spsr m = (if m = 0x12 then SPSR_IRQ else if m = 0x13 then SPSR_SVC else if m = 0x17 then SPSR_ABT
     else SPSR_UND)"

text \<open>Leaving and entering such a mode.\<close>

lemma leave_other:
  assumes "armMode s \<in> other_modes" "l = leave_mode (CPUUpdateCPSR s)"
  shows "i < 16 \<Longrightarrow> reg l i = reg s i" "36 < i \<Longrightarrow> reg l i = reg s i" "reg l RN_CPSR = packed s"
    "reg l (bank13 (armMode s)) = reg s 13" "reg l (Suc (bank13 (armMode s))) = reg s 14"
    "armMode s \<noteq> 0x10 \<Longrightarrow> armMode s \<noteq> 0x1f \<Longrightarrow> reg l (bank_spsr (armMode s)) = reg s RN_SPSR"
  using assms(1) unfolding assms(2) leave_mode_def Let_def other_modes_def bank13_def bank_spsr_def
  by (auto simp: reg_CPUUpdateCPSR)

lemma enter_other:
  assumes "m \<in> other_modes"
  shows "i < 13 \<Longrightarrow> reg (enter_mode m b l) i = reg l i"
    "reg (enter_mode m b l) 13 = reg l (bank13 m)" "reg (enter_mode m b l) 14 = reg l (Suc (bank13 m))"
    "reg (enter_mode m b l) 15 = reg l 15" "reg (enter_mode m b l) RN_CPSR = reg l RN_SPSR"
    "m \<noteq> 0x10 \<Longrightarrow> m \<noteq> 0x1f \<Longrightarrow> reg (enter_mode m b l) RN_SPSR = (if b then reg l RN_CPSR else reg l (bank_spsr m))"
  using assms unfolding enter_mode_def Let_def other_modes_def bank13_def bank_spsr_def by auto

lemma switch_mode: "CPUSwitchMode m b s =
    CPUUpdateCPSR (CPUUpdateFlags (enter_mode m b (leave_mode (CPUUpdateCPSR s))\<lparr>armMode := m\<rparr>))"
  by (simp add: CPUSwitchMode_def Let_def)

lemma enter_fiq:
  "i < 8 \<or> 18 \<le> i \<and> i < 37 \<Longrightarrow> reg (enter_mode 0x11 True l) i = reg l i"
  "reg (enter_mode 0x11 True l) R8_FIQ = reg l 8" "reg (enter_mode 0x11 True l) R9_FIQ = reg l 9"
  "reg (enter_mode 0x11 True l) R10_FIQ = reg l 10" "reg (enter_mode 0x11 True l) R11_FIQ = reg l 11"
  "reg (enter_mode 0x11 True l) R12_FIQ = reg l 12" "reg (enter_mode 0x11 True l) RN_SPSR = reg l RN_CPSR"
  by (auto simp: enter_mode_def Let_def)

lemma reg_CPUFiq:
  "i < 14 \<or> 16 < i \<and> i < 45 \<Longrightarrow> reg (CPUFiq s) i = reg (enter_mode 0x11 True (leave_mode (CPUUpdateCPSR s))) i"
  "reg (CPUFiq s) 14 = reg s R15_ARM_NEXT + 4" "reg (CPUFiq s) R15_ARM_NEXT = 0x1c" "armMode (CPUFiq s) = 0x11"
  "\<not> armFiqEnable (CPUFiq s)" "\<not> armIrqEnable (CPUFiq s)"
  by (auto simp: CPUFiq_def switch_mode Let_def reg_CPUUpdateCPSR)

lemma bank_range: "18 \<le> bank13 m" "bank13 m < 36" "18 \<le> bank_spsr m" "bank_spsr m < 37"
  by (simp_all add: bank13_def bank_spsr_def)

lemma fiq_entry:
  assumes "armMode s \<in> other_modes" "e = CPUFiq s"
  shows "\<forall>i < 8. reg e i = reg s i"
    "reg e R8_FIQ = reg s 8" "reg e R9_FIQ = reg s 9" "reg e R10_FIQ = reg s 10" "reg e R11_FIQ = reg s 11"
    "reg e R12_FIQ = reg s 12"
    "reg e (bank13 (armMode s)) = reg s 13" "reg e (Suc (bank13 (armMode s))) = reg s 14"
    "armMode s \<noteq> 0x10 \<Longrightarrow> armMode s \<noteq> 0x1f \<Longrightarrow> reg e (bank_spsr (armMode s)) = reg s RN_SPSR"
    "reg e RN_SPSR = packed s" "armMode e = 0x11" "reg e 14 = reg s R15_ARM_NEXT + 4" "reg e R15_ARM_NEXT = 0x1c"
    "\<not> armFiqEnable e" "\<not> armIrqEnable e"
  unfolding assms(2) using bank_range [of "armMode s"]
  by (simp_all add: reg_CPUFiq enter_fiq leave_other [OF assms(1) refl])

lemma leave_fiq:
  assumes "armMode h = 0x11" "l = leave_mode (CPUUpdateCPSR h)"
  shows "i < 8 \<or> i = 15 \<Longrightarrow> reg l i = reg h i"
    "reg l 8 = reg h R8_FIQ" "reg l 9 = reg h R9_FIQ" "reg l 10 = reg h R10_FIQ" "reg l 11 = reg h R11_FIQ"
    "reg l 12 = reg h R12_FIQ" "17 \<le> i \<Longrightarrow> i < 37 \<Longrightarrow> reg l i = reg h i"
  using assms(1) unfolding assms(2) leave_mode_def Let_def by (auto simp: reg_CPUUpdateCPSR)

lemma fiq_return:
  assumes "m \<in> other_modes" "armMode h = 0x11" "reg h RN_SPSR AND 0x1f = m" "s' = CPUSwitchMode m False h"
  shows "\<forall>i < 8. reg s' i = reg h i"
    "reg s' 8 = reg h R8_FIQ" "reg s' 9 = reg h R9_FIQ" "reg s' 10 = reg h R10_FIQ" "reg s' 11 = reg h R11_FIQ"
    "reg s' 12 = reg h R12_FIQ" "reg s' 13 = reg h (bank13 m)" "reg s' 14 = reg h (Suc (bank13 m))"
    "reg s' 15 = reg h 15"
    "m \<noteq> 0x10 \<Longrightarrow> m \<noteq> 0x1f \<Longrightarrow> reg s' RN_SPSR = reg h (bank_spsr m)"
    "N_FLAG s' = bit (reg h RN_SPSR) 31" "Z_FLAG s' = bit (reg h RN_SPSR) 30"
    "C_FLAG s' = bit (reg h RN_SPSR) 29" "V_FLAG s' = bit (reg h RN_SPSR) 28"
    "armIrqEnable s' = (reg h RN_SPSR AND 0x80 = 0)" "armFiqEnable s' = (reg h RN_SPSR AND 0x40 = 0)"
    "armMode s' = m"
  unfolding assms(4) switch_mode using bank_range [of m]
  by (simp_all add: reg_CPUUpdateCPSR enter_other [OF assms(1)] leave_fiq [OF assms(2) refl])

text \<open>\<open>SUBS PC, LR, #4\<close>, the return from a fast interrupt.\<close>

lemma subs_pc_lr:
  "arm_execute a 0xE25EF004 h =
     (let s = CPUSwitchMode (reg h RN_SPSR AND 0x1f) False
            (add_ticks 1 (setreg 15 (reg h 14 - 4) (add_ticks 6 h)));
          s = setreg 15 (reg s 15 AND 0xFFFFFFFC) s;
          s = set_next (reg s 15) s
      in setreg 15 (reg s 15 + 4) s)"
proof -
  have "arm_case a 0x250 0xE25EF004 s = ARITHMETIC_DATA_OPCODE OP_SUBS OP_SUB 0x200 0xE25EF004 s" for s
    by (simp add: arm_case_def single_opcode_def data_opcode_def)
  moreover have "opcode_hash 0xE25EF004 = 0x250" by (simp add: opcode_hash_def)
  moreover have "arithmetic_imm 0xE25EF004 = 4" by (simp add: arithmetic_imm_def rotate_imm_def)
  moreover have "Rd 0xE25EF004 = 15" "Rn 0xE25EF004 = 14" by (simp_all add: Rd_def Rn_def)
  ultimately show ?thesis
    by (simp add: arm_execute_def cond_res_def ARITHMETIC_DATA_OPCODE_def finish_data_def OP_SUB_def Let_def)
qed

lemma less_15_cases:
  "i < 15 \<Longrightarrow> i < 8 \<or> i \<in> {8, 9, 10, 11, 12} \<or> i \<in> {13, 14 :: nat}"
  by auto

text \<open>C30: A fast interrupt is transparent. Take any state in a mode other than the fast
  interrupt mode, with a word aligned next instruction and a well formed status register; let a
  handler, entered by \<open>CPUFiq\<close>, use the registers r8 to r13 of its own bank, the flags and the
  memory as it likes, while it keeps r0 to r7, its return address and the other banks. Then
  \<open>SUBS PC, LR, #4\<close> at its end restores r0 to r14, the four flags, the mode, both interrupt
  enables and the saved status register of the mode, and execution goes on at the interrupted
  instruction.\<close>

theorem fiq_transparent:
  assumes "armMode s \<in> other_modes" "psr_wf s" "reg s R15_ARM_NEXT AND 3 = 0"
    and "armMode h = 0x11" "\<forall>i. i < 8 \<or> i = 14 \<or> 16 < i \<and> i < 45 \<longrightarrow> reg h i = reg (CPUFiq s) i"
    and "s' = arm_execute a 0xE25EF004 h"
  shows "(\<forall>i < 15. reg s' i = reg s i) \<and> reg s' R15_ARM_NEXT = reg s R15_ARM_NEXT
    \<and> N_FLAG s' = N_FLAG s \<and> Z_FLAG s' = Z_FLAG s \<and> C_FLAG s' = C_FLAG s \<and> V_FLAG s' = V_FLAG s
    \<and> armMode s' = armMode s \<and> armIrqEnable s' = armIrqEnable s \<and> armFiqEnable s' = armFiqEnable s
    \<and> (armMode s = 0x10 \<or> armMode s = 0x1f \<or> reg s' RN_SPSR = reg s RN_SPSR)"
proof -
  define h1 where "h1 = add_ticks 1 (setreg 15 (reg h 14 - 4) (add_ticks 6 h))"
  define r where "r = CPUSwitchMode (armMode s) False h1"
  note e = fiq_entry [OF assms(1) refl]
  have h1: "reg h1 i = (if i = 15 then reg s R15_ARM_NEXT else reg h i)" "armMode h1 = 0x11" for i
    using assms(4,5) e(12) by (simp_all add: h1_def)
  have hb: "16 < i \<and> i < 45 \<Longrightarrow> reg h i = reg (CPUFiq s) i" "i < 8 \<Longrightarrow> reg h i = reg s i" for i
    using assms(5) e(1) by simp_all
  have spsr: "reg h1 RN_SPSR = packed s" using e(10) by (simp add: h1 hb)
  then have hs: "reg h 17 = packed s" by (simp add: h1)
  have "armMode s < 32" using assms(2) by (simp add: psr_wf_def)
  then have m: "reg h1 RN_SPSR AND 0x1f = armMode s" by (simp add: spsr packed_mode)
  note b = fiq_return [OF assms(1) h1(2) m r_def, unfolded spsr h1(1)]
  note al = aligned_and [OF assms(3)]
  have s': "s' = setreg 15 (reg s R15_ARM_NEXT + 4) (set_next (reg s R15_ARM_NEXT) (setreg 15 (reg s R15_ARM_NEXT) r))"
    using assms(6) m b(9) unfolding subs_pc_lr Let_def h1_def [symmetric] r_def [symmetric]
    by (simp add: h1 r_def [symmetric] al)
  have low: "reg r i = reg s i" if "i < 15" for i
  proof -
    have "reg r i = reg s i" if "i < 8" using b(1) that hb(2) by simp
    moreover have "reg r 8 = reg s 8" "reg r 9 = reg s 9" "reg r 10 = reg s 10" "reg r 11 = reg s 11"
      "reg r 12 = reg s 12" using b(2-6) e(2-6) by (simp_all add: hb(1))
    moreover have "reg r 13 = reg s 13" "reg r 14 = reg s 14"
      using b(7,8) e(7,8) bank_range [of "armMode s"] by (simp_all add: hb(1))
    ultimately show ?thesis using less_15_cases [OF \<open>i < 15\<close>] by auto
  qed
  have sp: "armMode s = 0x10 \<or> armMode s = 0x1f \<or> reg r RN_SPSR = reg s RN_SPSR"
    using b(10) e(9) bank_range [of "armMode s"] by (cases "armMode s = 0x10"; cases "armMode s = 0x1f") (simp_all add: hb(1))
  have fl: "N_FLAG s' = N_FLAG r" "Z_FLAG s' = Z_FLAG r" "C_FLAG s' = C_FLAG r" "V_FLAG s' = V_FLAG r"
    "armMode s' = armMode r" "armIrqEnable s' = armIrqEnable r" "armFiqEnable s' = armFiqEnable r"
    "reg s' R15_ARM_NEXT = reg s R15_ARM_NEXT" "reg s' RN_SPSR = reg r RN_SPSR" "\<forall>i < 15. reg s' i = reg r i"
    unfolding s' by (simp_all add: flag_defs set_next_def)
  have "N_FLAG r = N_FLAG s" "Z_FLAG r = Z_FLAG s" "C_FLAG r = C_FLAG s" "V_FLAG r = V_FLAG s"
    using b(11-14) by (simp_all add: hs bit_packed flag_defs)
  then show ?thesis
    unfolding fl using low fl(10) sp b(15-17) packed_enables(1) [OF assms(2)] packed_enables(2) [of s] by (simp add: hs)
qed

theorem fiq_transparent_witness:
  "let s' = arm_execute silent_aica 0xE25EF004 (CPUFiq arm_zero) in
     armMode (CPUFiq arm_zero) = 0x11 \<and> armMode s' = 0x13 \<and> armFiqEnable s' \<and> reg s' R15_ARM_NEXT = 0"
proof -
  have w: "armMode arm_zero \<in> other_modes" "psr_wf arm_zero" "reg arm_zero R15_ARM_NEXT AND 3 = 0"
    by (simp_all add: other_modes_def psr_wf_def)
  have m: "armMode (CPUFiq arm_zero) = 0x11" by (rule fiq_entry(11) [OF w(1) refl])
  show ?thesis using fiq_transparent [OF w m _ refl, of silent_aica] m by (simp add: Let_def)
qed

subsection \<open>Software interrupts\<close>

lemma reg15_modes: "reg (leave_mode s) 15 = reg s 15" "reg (enter_mode m b s) 15 = reg s 15"
  by (simp_all add: leave_mode_def enter_mode_def Let_def)

text \<open>\<open>MOVS PC, LR\<close>, the return from a software interrupt.\<close>

lemma movs_pc_lr:
  "reg (arm_execute a 0xE1B0F00E h) R15_ARM_NEXT = (reg h 14 AND 0xFFFFFFFC)"
proof -
  have keep: "reg (CPUSwitchMode m False s) 15 = reg s 15" for m and s :: "'a arm_st_scheme"
    by (simp add: switch_mode reg15_modes)
  have "arm_case a 0x1b0 0xE1B0F00E s = LOGICAL_DATA_OPCODE_WITHOUT_base OP_MOVS OP_MOV 0 0xE1B0F00E s" for s
    by (simp add: arm_case_def single_opcode_def data_opcode_def)
  moreover have "opcode_hash 0xE1B0F00E = 0x1b0" by (simp add: opcode_hash_def)
  moreover have "logical_LSL_imm 0xE1B0F00E s = (reg s 14, C_FLAG s)" for s :: "'a arm_st_scheme"
    by (simp add: logical_LSL_imm_def shift_imm_def Rm_def)
  moreover have "Rd 0xE1B0F00E = 15" by (simp add: Rd_def)
  ultimately show ?thesis
    by (simp add: arm_execute_def cond_res_def LOGICAL_DATA_OPCODE_WITHOUT_base_def LOGICAL_DATA_OPCODE_def finish_data_def
        OP_MOV_def keep Let_def)
qed

lemma swi_execute:
  assumes "drop_bit 24 opcode = 0xEF"
  shows "arm_execute a opcode s = CPUSoftwareInterrupt (opcode AND 0x00FFFFFF) (add_ticks 9 s)"
proof -
  have "drop_bit 28 opcode = drop_bit 4 (drop_bit 24 opcode)" by simp
  then have c: "drop_bit 28 opcode = 0xE" unfolding assms by simp
  have "drop_bit 8 (drop_bit 16 opcode AND 0xFF0) = drop_bit 24 opcode AND drop_bit 8 0xFF0" by (simp add: drop_bit_and)
  moreover have "drop_bit 8 (x AND 0x0F) = 0" for x :: u32 by (simp add: drop_bit_and)
  ultimately have "drop_bit 8 ((drop_bit 16 opcode AND 0xFF0) OR (drop_bit 4 opcode AND 0x0F)) = 0xF"
    unfolding drop_bit_or assms by simp
  moreover have "opcode_hash opcode div 256 = unat (drop_bit 8 ((drop_bit 16 opcode AND 0xFF0) OR (drop_bit 4 opcode AND 0x0F)))"
    unfolding opcode_hash_def by (simp only: drop_bit_eq_div unat_div_distrib) simp
  ultimately have h: "0xF0 \<le> opcode_hash opcode div 16" by simp
  then have "arm_case a (opcode_hash opcode) opcode s = Some (SWI opcode s)" for s
    by (simp add: arm_case_def single_high Let_def)
  moreover have "add_ticks 3 (add_ticks 6 s) = add_ticks 9 s" by (simp add: add_ticks_def algebra_simps)
  ultimately show ?thesis by (simp add: arm_execute_def cond_res_def c SWI_def Let_def)
qed

lemma swi_entry:
  assumes "armMode s \<in> other_modes" "e = CPUSoftwareInterrupt c s"
  shows "\<forall>i < 13. reg e i = reg s i" "reg e 14 = reg s R15_ARM_NEXT + 4" "reg e R15_ARM_NEXT = 8"
    "reg e RN_SPSR = packed s" "armMode e = 0x13" "\<not> armIrqEnable e"
proof -
  have "0x13 \<in> other_modes" by (simp add: other_modes_def)
  note m = enter_other [OF this] leave_other [OF assms(1) refl]
  show "\<forall>i < 13. reg e i = reg s i" "reg e 14 = reg s R15_ARM_NEXT + 4" "reg e R15_ARM_NEXT = 8"
    "reg e RN_SPSR = packed s" "armMode e = 0x13" "\<not> armIrqEnable e"
    unfolding assms(2) CPUSoftwareInterrupt_def Let_def switch_mode by (simp_all add: m reg_CPUUpdateCPSR)
qed

text \<open>C37: A software interrupt. When the interpreter fetches a \<open>SWI\<close> at \<open>p\<close>, with no interrupt pending
  and in a mode other than the fast interrupt mode, it enters the supervisor mode at the vector
  \<open>8\<close> with r0 to r12 as they were, the status register packed into the saved one and interrupts
  disabled. The return address it leaves is \<open>p + 8\<close>, not that of the next instruction: with
  \<open>MOVS PC, LR\<close>, the architecture's return from a software interrupt, the instruction at
  \<open>p + 4\<close> is skipped.\<close>

theorem swi_return:
  assumes "armMode s \<in> other_modes" "reg s INTR_PEND = 0" "p = reg s R15_ARM_NEXT" "p AND 3 = 0"
    and "drop_bit 24 (CPUReadMemoryQuick p s) = 0xEF" "e = interpreter_pass a s"
  shows "(\<forall>i < 13. reg e i = reg s i) \<and> reg e R15_ARM_NEXT = 8 \<and> reg e RN_SPSR = packed s \<and> armMode e = 0x13
    \<and> \<not> armIrqEnable e \<and> reg e 14 = p + 8 \<and> reg (arm_execute a 0xE1B0F00E e) R15_ARM_NEXT = p + 8"
proof -
  let ?s = "add_ticks 9 (set_next (p + 4) (setreg 15 (p + 8) s))"
  have "CPUReadMemoryQuick p (setreg 15 (p + 8) s) = CPUReadMemoryQuick p s"
    by (simp add: CPUReadMemoryQuick_def load32_def)
  then have "interpreter_pass a s = CPUSoftwareInterrupt (CPUReadMemoryQuick p s AND 0x00FFFFFF) ?s"
    using assms(2,5) by (simp add: interpreter_pass_def Let_def assms(3) [symmetric] swi_execute)
  then have e: "e = CPUSoftwareInterrupt (CPUReadMemoryQuick p s AND 0x00FFFFFF) ?s" using assms(6) by simp
  have m: "armMode ?s \<in> other_modes" using assms(1) by simp
  note w = swi_entry [OF m e]
  have "packed ?s = packed s" by (simp add: packed_def CPUUpdateCPSR_def Let_def)
  moreover have "(p + 8) AND 0xFFFFFFFC = p + 8"
    using aligned_and [OF aligned_step [OF assms(4), of 2]] by simp
  ultimately show ?thesis using w by (simp add: movs_pc_lr add.assoc)
qed

theorem swi_return_witness:
  "let s = arm_zero\<lparr>aica_ram := (\<lambda>_. 0)(0x103 := 0xEF), arm_Reg := (\<lambda>_. 0)(R15_ARM_NEXT := 0x100)\<rparr>;
       e = interpreter_pass silent_aica s
   in reg e 14 = 0x108 \<and> reg (arm_execute silent_aica 0xE1B0F00E e) R15_ARM_NEXT = 0x108"
proof -
  let ?s = "arm_zero\<lparr>aica_ram := (\<lambda>_. 0)(0x103 := 0xEF), arm_Reg := (\<lambda>_. 0)(R15_ARM_NEXT := 0x100)\<rparr>"
  have r: "reg ?s i = (if i = R15_ARM_NEXT then 0x100 else 0)" for i by (simp add: reg_def)
  have q: "drop_bit 24 (CPUReadMemoryQuick 0x100 ?s) = 0xEF" by (simp add: CPUReadMemoryQuick_def load32_def)
  show ?thesis
    unfolding Let_def using swi_return [of ?s "0x100" "interpreter_pass silent_aica ?s" silent_aica] q
    by (simp add: r other_modes_def)
qed

subsection \<open>The recompiler's access to the status registers\<close>

lemma field_mask:
  assumes "msk = drop_bit 16 opcode AND (0xF :: u32)"
  shows "(msk AND 1 = 0) = (opcode AND 0x00010000 = 0)" "(msk AND 2 = 0) = (opcode AND 0x00020000 = 0)"
    "(msk AND 4 = 0) = (opcode AND 0x00040000 = 0)" "(msk AND 8 = 0) = (opcode AND 0x00080000 = 0)"
proof -
  have p: "(x AND push_bit n 1 = 0) = (\<not> bit x n)" for x :: u32 and n by (simp add: bit_iff_and_push_bit_not_eq_0)
  have q: "(x AND 1 = 0) = (\<not> bit x 0)" "(x AND 2 = 0) = (\<not> bit x 1)" "(x AND 4 = 0) = (\<not> bit x 2)"
    "(x AND 8 = 0) = (\<not> bit x 3)" "(x AND 0x00010000 = 0) = (\<not> bit x 16)" "(x AND 0x00020000 = 0) = (\<not> bit x 17)"
    "(x AND 0x00040000 = 0) = (\<not> bit x 18)" "(x AND 0x00080000 = 0) = (\<not> bit x 19)" for x :: u32
    using p [of x 0] p [of x 1] p [of x 2] p [of x 3] p [of x 16] p [of x 17] p [of x 18] p [of x 19] by simp_all
  have f: "(0xF :: u32) = mask 4" by (simp add: mask_eq_exp_minus_1)
  have b: "bit msk k = (k < 4 \<and> bit opcode (16 + k))" for k
    unfolding assms f by (auto simp: bit_and_iff bit_drop_bit_eq bit_mask_iff dest: bit_imp_le_length)
  show "(msk AND 1 = 0) = (opcode AND 0x00010000 = 0)" "(msk AND 2 = 0) = (opcode AND 0x00020000 = 0)"
    "(msk AND 4 = 0) = (opcode AND 0x00040000 = 0)" "(msk AND 8 = 0) = (opcode AND 0x00080000 = 0)"
    by (simp_all only: q b) simp_all
qed

lemma mask_fields:
  assumes "msk = drop_bit 16 opcode AND (0xF :: u32)"
  shows "mask_control v msk w = msr_control opcode v w" "mask_flags v msk w = msr_flags opcode v w"
  unfolding mask_control_def msr_control_def mask_flags_def msr_flags_def by (simp_all only: field_mask [OF assms])

text \<open>C35: The recompiler's \<open>MSR_do\<close> is the interpreter's \<open>MSR\<close>: for the field mask of the instruction
  and the value of its register (or its rotated immediate), it leaves exactly the same state, for
  the saved status register in every mode, and for the current one in every privileged mode.\<close>

theorem MSR_do_agrees:
  assumes "msk = drop_bit 16 opcode AND 0xF"
  shows "MSR_do True (reg s (Rm opcode)) msk s = MSR_SPSR opcode s
    \<and> MSR_do True (msr_imm_value opcode) msk s = MSR_SPSR_imm opcode s
    \<and> (0x10 < sint (armMode s) \<longrightarrow>
         MSR_do False (reg s (Rm opcode)) msk s = MSR_CPSR opcode s
       \<and> MSR_do False (msr_imm_value opcode) msk s = MSR_CPSR_imm opcode s)"
proof -
  have "Rm opcode \<noteq> RN_CPSR" using Rm_less [of opcode] by simp
  then show ?thesis
    unfolding MSR_do_def MSR_SPSR_def MSR_SPSR_imm_def MSR_CPSR_def MSR_CPSR_imm_def msr_cpsr_def msr_spsr_def Let_def
      mask_fields [OF assms] by simp
qed

theorem MSR_do_agrees_witness:
  "drop_bit 16 (0xE129F001 :: u32) AND 0xF = 9 \<and> 0x10 < sint (armMode arm_zero)
   \<and> MSR_do False (reg arm_zero 1) 9 arm_zero = MSR_CPSR 0xE129F001 arm_zero"
  using MSR_do_agrees [of 9 "0xE129F001" arm_zero] by (simp add: Rm_def)

subsection \<open>The interrupt line\<close>

text \<open>The interrupt line of the sound generator. A request is latched together with its level
  code and reaches the processor as a fast interrupt exactly when those are enabled; while a request is
  latched, a further change of the request (with another level, or its withdrawal) does not disturb
  it; acknowledging takes up a request that is still there, with its latest level, and otherwise
  lowers the line.\<close>

theorem interrupt_latch:
  "(bits \<noteq> 0 \<and> \<not> e68k_out s \<longrightarrow>
      (let s' = interruptChange bits L s in
       e68k_out s' \<and> e68k_reg_L s' = L \<and> (reg s' INTR_PEND \<noteq> 0 \<longleftrightarrow> armFiqEnable s')))
   \<and> (e68k_out s \<longrightarrow>
      (let s' = interruptChange bits L s in
       e68k_out s' \<and> e68k_reg_L s' = e68k_reg_L s \<and> reg s' INTR_PEND = reg s INTR_PEND \<and> aica_interr s' = (bits \<noteq> 0)))
   \<and> (let s' = e68k_AcceptInterrupt s in
       e68k_out s' = aica_interr s \<and> e68k_reg_L s' = (if aica_interr s then aica_reg_L s else e68k_reg_L s)
       \<and> (reg s' INTR_PEND \<noteq> 0 \<longleftrightarrow> aica_interr s \<and> armFiqEnable s))"
  by (simp add: interruptChange_def e68k_AcceptInterrupt_def update_e68k_def Let_def)

theorem interrupt_latch_witness:
  "reg (interruptChange 1 5 arm_zero) INTR_PEND \<noteq> 0 \<and> e68k_reg_L (interruptChange 0 0 (interruptChange 1 5 arm_zero)) = 5"
proof -
  have "e68k_reg_L (interruptChange 1 5 arm_zero) = 5 \<and> e68k_out (interruptChange 1 5 arm_zero)
      \<and> (reg (interruptChange 1 5 arm_zero) INTR_PEND \<noteq> 0 \<longleftrightarrow> armFiqEnable (interruptChange 1 5 arm_zero))"
    using interrupt_latch [of 1 arm_zero 5] by (simp add: Let_def)
  moreover have "armFiqEnable (interruptChange 1 5 arm_zero)" by (simp add: interruptChange_def update_e68k_def Let_def)
  ultimately show ?thesis using interrupt_latch [of 0 "interruptChange 1 5 arm_zero" 0] by (simp add: Let_def)
qed

end
