(* ===== verification/Arm7_Cycles.thy ===== *)
theory Arm7_Cycles
  imports Arm7_Interpreter
begin

section \<open>Cycles of the sound CPU\<close>

text \<open>
  Every instruction takes between 6 and 41 cycles, so the interpreter loop ends: the clock, which
  \<open>runInterpreter\<close> sets back by the cycles of a sample, becomes non-negative again, and
  exceeds zero by less than one instruction. The one thing that can set the clock back while the
  loop runs is \<open>avoidRaceCondition\<close>, which the registers of the sound generator may call; the
  hypothesis \<open>keeps_ticks\<close> says that they do not.
\<close>

definition keeps_ticks :: "'z arm_st_scheme aica \<Rightarrow> bool" where
  "keeps_ticks a \<longleftrightarrow>
     (\<forall>addr s. arm7ClockTicks (snd (readRegInternal8 a addr s)) = arm7ClockTicks s) \<and>
     (\<forall>addr s. arm7ClockTicks (snd (readRegInternal16 a addr s)) = arm7ClockTicks s) \<and>
     (\<forall>addr v s. arm7ClockTicks (writeRegInternal8 a addr v s) = arm7ClockTicks s) \<and>
     (\<forall>addr v s. arm7ClockTicks (writeRegInternal16 a addr v s) = arm7ClockTicks s)"

text \<open>The cycles between two states are at most \<open>n\<close>.\<close>

definition took :: "nat \<Rightarrow> 'z arm_st_scheme \<Rightarrow> 'z arm_st_scheme \<Rightarrow> bool" where
  "took n s s' \<longleftrightarrow> unat (arm7ClockTicks s' - arm7ClockTicks s) \<le> n"

named_theorems ticks \<open>cycles of the operations\<close>

subsection \<open>Composition\<close>

lemma unat_add_le: "unat (x + y :: u32) \<le> unat x + unat y"
  by (simp add: unat_word_ariths)

lemma took_refl [simp]: "took n s s"
  by (simp add: took_def)

lemma took_eq: "arm7ClockTicks s' = arm7ClockTicks s + k \<Longrightarrow> unat k \<le> n \<Longrightarrow> took n s s'"
  by (simp add: took_def)

lemma took_mono: "took m s s' \<Longrightarrow> m \<le> n \<Longrightarrow> took n s s'"
  by (simp add: took_def)

lemma took_trans: "took m s s' \<Longrightarrow> took n s' s'' \<Longrightarrow> took (m + n) s s''"
  unfolding took_def using unat_add_le [of "arm7ClockTicks s'' - arm7ClockTicks s'" "arm7ClockTicks s' - arm7ClockTicks s"]
  by (simp add: algebra_simps)

lemma took_add_ticks: "unat k \<le> n \<Longrightarrow> took n s (add_ticks k s)"
  by (simp add: took_def)

lemma took_cong: "arm7ClockTicks s' = arm7ClockTicks t \<Longrightarrow> took n s t \<Longrightarrow> took n s s'"
  "arm7ClockTicks s = arm7ClockTicks t \<Longrightarrow> took n t s' \<Longrightarrow> took n s s'"
  by (simp_all add: took_def)

subsection \<open>Memory\<close>

lemma ticks_intc [ticks, simp]:
  "arm7ClockTicks (e68k_AcceptInterrupt s) = arm7ClockTicks s"
  "arm7ClockTicks (CPUSoftwareInterrupt c s) = arm7ClockTicks s" "arm7ClockTicks (CPUUndefinedException s) = arm7ClockTicks s"
  "arm7ClockTicks (CPUFiq s) = arm7ClockTicks s"
  by (simp_all add: e68k_AcceptInterrupt_def update_e68k_def CPUSoftwareInterrupt_def CPUUndefinedException_def
      CPUFiq_def Let_def)

lemma ticks_memory [ticks, simp]:
  assumes "keeps_ticks a"
  shows "arm7ClockTicks (snd (CPUReadByte a addr s)) = arm7ClockTicks s"
    "arm7ClockTicks (snd (CPUReadHalfWord a addr s)) = arm7ClockTicks s"
    "arm7ClockTicks (snd (CPUReadMemory a addr s)) = arm7ClockTicks s"
    "arm7ClockTicks (CPUWriteByte a addr b s) = arm7ClockTicks s"
    "arm7ClockTicks (CPUWriteMemory a addr w s) = arm7ClockTicks s"
  using assms
  by (simp_all add: keeps_ticks_def CPUReadByte_def CPUReadHalfWord_def CPUReadMemory_def CPUWriteByte_def
      CPUWriteMemory_def readReg8_def readReg16_def readReg32_def writeReg8_def writeReg32_def store8_def
      store32_def Let_def split_beta)

subsection \<open>Data processing and multiplication\<close>

lemma ticks_flags [ticks, simp]:
  "arm7ClockTicks (logical_flags r c s) = arm7ClockTicks s" "arm7ClockTicks (result_flags r s) = arm7ClockTicks s"
  "arm7ClockTicks (mul_flags r s) = arm7ClockTicks s"
  "arm7ClockTicks (ADDCARRY x y r s) = arm7ClockTicks s" "arm7ClockTicks (ADDOVERFLOW x y r s) = arm7ClockTicks s"
  "arm7ClockTicks (SUBCARRY x y r s) = arm7ClockTicks s" "arm7ClockTicks (SUBOVERFLOW x y r s) = arm7ClockTicks s"
  by (simp_all add: logical_flags_def result_flags_def mul_flags_def ADDCARRY_def ADDOVERFLOW_def SUBCARRY_def
      SUBOVERFLOW_def Let_def)

lemmas op_defs = OP_AND_def OP_ANDS_def OP_EOR_def OP_EORS_def OP_SUB_def OP_SUBS_def OP_RSB_def OP_RSBS_def
  OP_ADD_def OP_ADDS_def OP_ADC_def OP_ADCS_def OP_SBC_def OP_SBCS_def OP_RSC_def OP_RSCS_def OP_CMP_def OP_CMN_def
  OP_TST_def OP_TEQ_def OP_ORR_def OP_ORRS_def OP_MOV_def OP_MOVS_def OP_BIC_def OP_BICS_def OP_MVN_def OP_MVNS_def

definition timeless :: "'z opfn \<Rightarrow> bool" where
  "timeless f \<longleftrightarrow> (\<forall>dest base v c s. arm7ClockTicks (f dest base v c s) = arm7ClockTicks s)"

lemma timeless_ops [ticks]:
  "timeless OP_AND" "timeless OP_ANDS" "timeless OP_EOR" "timeless OP_EORS" "timeless OP_SUB" "timeless OP_SUBS"
  "timeless OP_RSB" "timeless OP_RSBS" "timeless OP_ADD" "timeless OP_ADDS" "timeless OP_ADC" "timeless OP_ADCS"
  "timeless OP_SBC" "timeless OP_SBCS" "timeless OP_RSC" "timeless OP_RSCS" "timeless OP_CMP" "timeless OP_CMN"
  "timeless OP_TST" "timeless OP_TEQ" "timeless OP_ORR" "timeless OP_ORRS" "timeless OP_MOV" "timeless OP_MOVS"
  "timeless OP_BIC" "timeless OP_BICS" "timeless OP_MVN" "timeless OP_MVNS"
  by (simp_all add: timeless_def op_defs Let_def)

lemma took_finish_data:
  assumes "timeless f" "timeless g"
  shows "took 1 s (finish_data f g opcode v c s)"
  using assms by (simp add: finish_data_def timeless_def took_def Let_def)

lemma took_by_register: "by_register opcode s = (n, s') \<Longrightarrow> took 1 s s'"
  by (auto simp: by_register_def took_def Let_def)

text \<open>The cycles of a case of the switch, when there is one.\<close>

definition took_opt :: "nat \<Rightarrow> 'z arm_st_scheme \<Rightarrow> 'z arm_st_scheme option \<Rightarrow> bool" where
  "took_opt n s r \<longleftrightarrow> (case r of None \<Rightarrow> True | Some s' \<Rightarrow> took n s s')"

lemma took_opt_simps [simp]: "took_opt n s None" "took_opt n s (Some s') = took n s s'"
  by (simp_all add: took_opt_def)

lemma took_opt_if: "(b \<Longrightarrow> took_opt n s x) \<Longrightarrow> (\<not> b \<Longrightarrow> took_opt n s y) \<Longrightarrow> took_opt n s (if b then x else y)"
  by simp

lemma took_by_register_finish:
  assumes "timeless f" "timeless g"
  shows "took 2 s (finish_data f g opcode v c (snd (by_register opcode s)))"
  by (rule took_mono [OF took_trans [OF took_by_register [OF prod.collapse [symmetric]] took_finish_data [OF assms]]])
    simp

lemma took_data:
  assumes "timeless f" "timeless g"
  shows "took_opt 2 s (LOGICAL_DATA_OPCODE f g sel opcode s)" "took_opt 2 s (ARITHMETIC_DATA_OPCODE f g sel opcode s)"
    "took_opt 2 s (LOGICAL_DATA_OPCODE_WITHOUT_base f g sel opcode s)"
proof -
  have 1: "took 2 s (finish_data f g opcode v c s)" for v c
    by (rule took_mono [OF took_finish_data [OF assms]]) simp
  note 2 = took_by_register_finish [OF assms, of s opcode]
  show l: "took_opt 2 s (LOGICAL_DATA_OPCODE f g sel opcode s)"
    unfolding LOGICAL_DATA_OPCODE_def Let_def by (simp add: 1 2 split_beta)
  show "took_opt 2 s (ARITHMETIC_DATA_OPCODE f g sel opcode s)"
    unfolding ARITHMETIC_DATA_OPCODE_def Let_def by (simp add: 1 2 split_beta)
  show "took_opt 2 s (LOGICAL_DATA_OPCODE_WITHOUT_base f g sel opcode s)"
    unfolding LOGICAL_DATA_OPCODE_WITHOUT_base_def by (rule l)
qed

lemma took_data_opcode: "took_opt 2 s (data_opcode base sel opcode s)"
  unfolding data_opcode_def by (simp add: took_data timeless_ops)

lemma unat_mul_ticks: "unat n < 100 \<Longrightarrow> unat (mul_ticks n rs) \<le> unat n + 3"
  "unat n < 100 \<Longrightarrow> unat (mul_ticks_signed n rs) \<le> unat n + 3"
  unfolding mul_ticks_signed_def mul_ticks_def
  using unat_add_le [of n 1] unat_add_le [of n 2] unat_add_le [of n 3] by simp_all

lemmas mul_defs = MUL_def MULS_def MLA_def MLAS_def UMULL_def UMULLS_def UMLAL_def UMLALS_def SMULL_def SMULLS_def
  SMLAL_def SMLALS_def

lemma took_mul:
  "took 7 s (MUL opcode s)" "took 7 s (MULS opcode s)" "took 7 s (MLA opcode s)" "took 7 s (MLAS opcode s)"
  "took 7 s (UMULL opcode s)" "took 7 s (UMULLS opcode s)" "took 7 s (UMLAL opcode s)" "took 7 s (UMLALS opcode s)"
  "took 7 s (SMULL opcode s)" "took 7 s (SMULLS opcode s)" "took 7 s (SMLAL opcode s)" "took 7 s (SMLALS opcode s)"
  unfolding mul_defs Let_def took_def
  by (simp_all add: order_trans [OF unat_mul_ticks(1)] order_trans [OF unat_mul_ticks(2)])

subsection \<open>Status and memory instructions\<close>

lemma ticks_status [ticks, simp]:
  "arm7ClockTicks (MRS_CPSR opcode s) = arm7ClockTicks s" "arm7ClockTicks (MRS_SPSR opcode s) = arm7ClockTicks s"
  "arm7ClockTicks (MSR_CPSR opcode s) = arm7ClockTicks s" "arm7ClockTicks (MSR_SPSR opcode s) = arm7ClockTicks s"
  "arm7ClockTicks (MSR_CPSR_imm opcode s) = arm7ClockTicks s" "arm7ClockTicks (MSR_SPSR_imm opcode s) = arm7ClockTicks s"
  by (simp_all add: MRS_CPSR_def MRS_SPSR_def MSR_CPSR_def MSR_SPSR_def MSR_CPSR_imm_def MSR_SPSR_imm_def msr_cpsr_def
      msr_spsr_def Let_def)

lemma ticks_swap [ticks, simp]:
  assumes "keeps_ticks a"
  shows "arm7ClockTicks (SWP a opcode s) = arm7ClockTicks s" "arm7ClockTicks (SWPB a opcode s) = arm7ClockTicks s"
  using assms by (simp_all add: SWP_def SWPB_def Let_def split_beta)

lemma took_signed_load:
  assumes "keeps_ticks a"
  shows "took 6 s (LDRSB a hi opcode s)" "took 6 s (LDRSH a hi opcode s)"
  using assms by (simp_all add: LDRSB_def LDRSH_def signed_load_def took_def Let_def split_beta)

lemma ticks_load_pc: "arm7ClockTicks (load_pc dest s) = arm7ClockTicks s + (if dest = 15 then 2 else 0)"
  by (simp add: load_pc_def Let_def)

lemmas transfer_defs =
  STR_post_minus_def STR_post_plus_def STR_pre_minus_def STR_pre_wb_minus_def STR_pre_plus_def
  STR_pre_wb_plus_def LDR_post_minus_def LDR_post_plus_def LDR_pre_minus_def LDR_pre_wb_minus_def
  LDR_pre_plus_def LDR_pre_wb_plus_def STRB_post_minus_def STRB_post_plus_def STRB_pre_minus_def
  STRB_pre_wb_minus_def STRB_pre_plus_def STRB_pre_wb_plus_def LDRB_post_minus_def LDRB_post_plus_def
  LDRB_pre_minus_def LDRB_pre_wb_minus_def LDRB_pre_plus_def LDRB_pre_wb_plus_def LDR_imm_post_minus_def
  LDRT_imm_post_minus_def LDRB_imm_post_minus_def LDR_imm_post_plus_def LDRT_imm_post_plus_def
  LDRB_imm_post_plus_def

lemma took_transfer:
  assumes "keeps_ticks a"
  shows
    "took 6 s (STR_post_minus a offset opcode s)" "took 6 s (STR_post_plus a offset opcode s)"
    "took 6 s (STR_pre_minus a offset opcode s)" "took 6 s (STR_pre_wb_minus a offset opcode s)"
    "took 6 s (STR_pre_plus a offset opcode s)" "took 6 s (STR_pre_wb_plus a offset opcode s)"
    "took 6 s (LDR_post_minus a offset opcode s)" "took 6 s (LDR_post_plus a offset opcode s)"
    "took 6 s (LDR_pre_minus a offset opcode s)" "took 6 s (LDR_pre_wb_minus a offset opcode s)"
    "took 6 s (LDR_pre_plus a offset opcode s)" "took 6 s (LDR_pre_wb_plus a offset opcode s)"
    "took 6 s (STRB_post_minus a offset opcode s)" "took 6 s (STRB_post_plus a offset opcode s)"
    "took 6 s (STRB_pre_minus a offset opcode s)" "took 6 s (STRB_pre_wb_minus a offset opcode s)"
    "took 6 s (STRB_pre_plus a offset opcode s)" "took 6 s (STRB_pre_wb_plus a offset opcode s)"
    "took 6 s (LDRB_post_minus a offset opcode s)" "took 6 s (LDRB_post_plus a offset opcode s)"
    "took 6 s (LDRB_pre_minus a offset opcode s)" "took 6 s (LDRB_pre_wb_minus a offset opcode s)"
    "took 6 s (LDRB_pre_plus a offset opcode s)" "took 6 s (LDRB_pre_wb_plus a offset opcode s)"
    "took 6 s (LDR_imm_post_minus a offset opcode s)" "took 6 s (LDRT_imm_post_minus a offset opcode s)"
    "took 6 s (LDRB_imm_post_minus a offset opcode s)" "took 6 s (LDR_imm_post_plus a offset opcode s)"
    "took 6 s (LDRT_imm_post_plus a offset opcode s)" "took 6 s (LDRB_imm_post_plus a offset opcode s)"
  using assms unfolding transfer_defs Let_def took_def by (simp_all add: ticks_load_pc split_beta)

lemma took_imm_transfer: "keeps_ticks a \<Longrightarrow> took_opt 6 s (imm_transfer a hi opcode s)"
  unfolding imm_transfer_def
  by (auto simp: STR_imm_def LDR_imm_def STRB_imm_def LDRB_imm_def took_transfer Let_def split: option.splits)

lemma took_reg_transfer: "keeps_ticks a \<Longrightarrow> took_opt 6 s (reg_transfer a h opcode s)"
  unfolding reg_transfer_def by (auto simp: transfer_reg_def took_transfer split: option.splits if_splits)

subsection \<open>Block transfers\<close>

text \<open>A transfer of one register takes two cycles at most.\<close>

definition two_ticks :: "(nat \<times> nat \<Rightarrow> u32 \<times> bool \<times> 'z arm_st_scheme \<Rightarrow> u32 \<times> bool \<times> 'z arm_st_scheme) \<Rightarrow> bool" where
  "two_ticks g \<longleftrightarrow> (\<forall>x st. took 2 (snd (snd st)) (snd (snd (g x st))))"

lemma took_fold:
  assumes "two_ticks g"
  shows "took (2 * length xs) (snd (snd st)) (snd (snd (fold g xs st)))"
proof (induction xs arbitrary: st)
  case (Cons x xs)
  have "took 2 (snd (snd st)) (snd (snd (g x st)))" using assms unfolding two_ticks_def by blast
  from took_trans [OF this Cons.IH] show ?case by simp
qed simp

lemma two_ticks_regs:
  assumes "keeps_ticks a"
  shows "two_ticks (STM_REG a opcode)" "two_ticks (STMW_REG a base temp opcode)" "two_ticks (LDM_REG a opcode)"
  using assms by (simp_all add: two_ticks_def STM_REG_def STMW_REG_def LDM_REG_def took_def Let_def split_beta)

lemma length_regs [simp]: "length current_regs = 15" "length (user_regs s) = 15"
  by (simp_all add: current_regs_def user_regs_def)

lemma took_block_fold:
  assumes "two_ticks g" "length regs = 15"
  shows "took 32 s (snd (snd (fold g regs (address, False, add_ticks 2 s))))"
proof -
  have "took 30 (add_ticks 2 s) (snd (snd (fold g regs (address, False, add_ticks 2 s))))"
    using took_fold [OF assms(1), of regs "(address, False, add_ticks 2 s)"] assms(2) by simp
  from took_trans [OF took_add_ticks this, of 2] show ?thesis by simp
qed

lemma took_store_block:
  assumes "keeps_ticks a" "length regs = 15"
  shows "took 34 s (store_block a regs address opcode s)"
    "took 34 s (store_block_down a regs address temp opcode s)"
    "took 34 s (store_block_up a regs address temp opcode s)"
proof -
  note f = took_block_fold [OF two_ticks_regs(1) [OF assms(1), of opcode] assms(2), of s address]
    took_block_fold [OF two_ticks_regs(2) [OF assms(1), of "Rn opcode" temp opcode] assms(2), of s address]
  have last: "took 34 s s''" if "took 32 s s'" "took 2 s' s''" for s' s'' using took_trans [OF that] by simp
  have t: "took 2 s' (add_ticks 2 (CPUWriteMemory a x v s'))" "took 2 s' (setreg b w (add_ticks 2 (CPUWriteMemory a x v s')))"
    "took 2 s' (add_ticks 2 (setreg b w (CPUWriteMemory a x v s')))" for s' x v b w
    using assms(1) by (simp_all add: took_def)
  note r = took_mono [OF f(1), of 34] took_mono [OF f(2), of 34] last [OF f(1)] last [OF f(2)] t
  show "took 34 s (store_block a regs address opcode s)"
    "took 34 s (store_block_down a regs address temp opcode s)"
    "took 34 s (store_block_up a regs address temp opcode s)"
    unfolding store_block_def store_block_down_def store_block_up_def Let_def by (simp_all add: split_beta r)
qed

lemma took_load_block:
  assumes "keeps_ticks a"
  shows "took 35 s (load_block a address opcode s)" "took 35 s (load_block_user a address tmp opcode s)"
    "took 35 s (base_back opcode temp (load_block a address opcode s))"
proof -
  note f = took_block_fold [OF two_ticks_regs(3) [OF assms, of opcode] length_regs(1), of s address]
    took_block_fold [OF two_ticks_regs(3) [OF assms, of opcode] length_regs(2) [of s], of s address]
  have last: "took 35 s s''" if "took 32 s s'" "arm7ClockTicks s'' = arm7ClockTicks s' + 3" for s' s''
    using took_trans [OF that(1) took_eq [OF that(2), of 3]] by simp
  have same: "took 35 s s''" if "took 32 s s'" "arm7ClockTicks s'' = arm7ClockTicks s'" for s' s''
    using took_cong(1) [OF that(2) took_mono [OF that(1), of 35]] by simp
  have base [simp]: "arm7ClockTicks (base_back opcode t s') = arm7ClockTicks s'" for t s' by (simp add: base_back_def)
  note r = took_mono [OF f(1), of 35] took_mono [OF f(2), of 35] last [OF f(1)] same [OF f(2)]
  show l: "took 35 s (load_block a address opcode s)"
    using assms unfolding load_block_def Let_def by (simp add: split_beta r)
  show "took 35 s (base_back opcode temp (load_block a address opcode s))"
    by (rule took_cong(1) [OF base l])
  show "took 35 s (load_block_user a address tmp opcode s)"
    using assms unfolding load_block_user_def Let_def by (cases tmp) (simp_all add: split_beta r)
qed

lemmas block_defs =
  STMDA_def STMDA_wb_def STMDA_user_def STMDA_user_wb_def LDMDA_def LDMDA_wb_def LDMDA_user_def
  LDMDA_user_wb_def STMIA_def STMIA_wb_def STMIA_user_def STMIA_user_wb_def LDMIA_def LDMIA_wb_def
  LDMIA_user_def LDMIA_user_wb_def STMDB_def STMDB_wb_def STMDB_user_def STMDB_user_wb_def LDMDB_def
  LDMDB_wb_def LDMDB_user_def LDMDB_user_wb_def STMIB_def STMIB_wb_def STMIB_user_def STMIB_user_wb_def
  LDMIB_def LDMIB_wb_def LDMIB_user_def LDMIB_user_wb_def

lemma took_block:
  assumes "keeps_ticks a" "block_opcode hi = Some f"
  shows "took 35 s (f a opcode s)"
proof -
  have st: "took 35 s (store_block a regs address opcode s)" "took 35 s (store_block_down a regs address temp opcode s)"
    "took 35 s (store_block_up a regs address temp opcode s)" if "length regs = 15" for regs address temp
    by (rule took_store_block [OF assms(1) that, THEN took_mono], simp)+
  show ?thesis
    using assms(2) unfolding block_opcode_def
    by (auto simp: block_defs st took_load_block [OF assms(1)] Let_def split: if_splits)
qed

subsection \<open>The switch and one instruction\<close>

lemma took_single:
  assumes "keeps_ticks a"
  shows "took_opt 35 s (single_opcode a h opcode s)"
proof -
  have mul: "took 35 s s'" if "took 7 s s'" for s' by (rule took_mono [OF that]) simp
  have load: "took 35 s s'" if "took 6 s s'" for s' by (rule took_mono [OF that]) simp
  have same: "took 35 s s'" if "arm7ClockTicks s' = arm7ClockTicks s" for s' by (simp add: took_def that)
  show ?thesis
    unfolding single_opcode_def
    by (simp add: took_mul [THEN mul] took_signed_load [OF assms, THEN load] same assms)
qed

lemma took_branch: "took 35 s (B opcode s)" "took 35 s (BL opcode s)" "took 35 s (SWI opcode s)"
  by (simp_all add: B_def BL_def SWI_def took_def Let_def)

lemma took_opt_mono: "took_opt m s r \<Longrightarrow> m \<le> n \<Longrightarrow> took_opt n s r"
  by (auto simp: took_opt_def split: option.splits intro: took_mono)

lemma took_arm_case:
  assumes "keeps_ticks a"
  shows "took_opt 35 s (arm_case a h opcode s)"
proof (cases "single_opcode a h opcode s")
  case None
  have same: "took 35 s s'" if "arm7ClockTicks s' = arm7ClockTicks s" for s' by (simp add: took_def that)
  have block: "took_opt 35 s (map_option (\<lambda>f. f a opcode s) (block_opcode hi))" for hi
    using took_block [OF assms] by (cases "block_opcode hi :: ('a arm_st_scheme aica \<Rightarrow> _) option") auto
  show ?thesis
    unfolding arm_case_def None Let_def
    by (simp add: took_opt_mono [OF took_data_opcode] took_opt_mono [OF took_imm_transfer [OF assms]]
        took_opt_mono [OF took_reg_transfer [OF assms]] block took_branch same)
next
  case (Some s')
  then show ?thesis using took_single [OF assms, of s h opcode] by (simp add: arm_case_def)
qed

lemma instruction_ticks:
  assumes "keeps_ticks a"
  shows "\<exists>k. 6 \<le> k \<and> k \<le> 41 \<and> arm7ClockTicks (arm_execute a opcode s) = arm7ClockTicks s + word_of_nat k"
proof -
  let ?s = "add_ticks 6 s" and ?r = "arm_execute a opcode s"
  have "took 35 ?s ?r"
    using took_arm_case [OF assms, of ?s "opcode_hash opcode" opcode]
    by (auto simp: arm_execute_def Let_def took_def took_opt_def split: option.splits)
  then have "6 + unat (arm7ClockTicks ?r - arm7ClockTicks ?s) \<le> 41" unfolding took_def by simp
  moreover have "arm7ClockTicks ?r = arm7ClockTicks s + word_of_nat (6 + unat (arm7ClockTicks ?r - arm7ClockTicks ?s))"
    by (simp add: algebra_simps)
  ultimately show ?thesis using le_add1 [of 6] by blast
qed

lemma pass_ticks:
  assumes "keeps_ticks a"
  shows "\<exists>k. 6 \<le> k \<and> k \<le> 41 \<and> arm7ClockTicks (interpreter_pass a s) = arm7ClockTicks s + word_of_nat k"
proof -
  have "\<exists>opcode s'. interpreter_pass a s = arm_execute a opcode s' \<and> arm7ClockTicks s' = arm7ClockTicks s"
    unfolding interpreter_pass_def Let_def by (intro exI conjI, rule refl) simp
  then obtain opcode s' where "interpreter_pass a s = arm_execute a opcode s'" "arm7ClockTicks s' = arm7ClockTicks s"
    by blast
  then show ?thesis using instruction_ticks [OF assms, of opcode s'] by simp
qed

subsection \<open>The loop\<close>

lemma sint_add_ticks: "sint (t :: u32) < 0 \<Longrightarrow> k \<le> 41 \<Longrightarrow> sint (t + word_of_nat k) = sint t + int k"
proof -
  assume t: "sint t < 0" and k: "k \<le> 41"
  have n: "sint (word_of_nat k :: u32) = int k" using k by (simp add: signed_of_nat signed_take_bit_int_eq_self)
  show ?thesis using sint_add32 [of t "word_of_nat k"] t k sint32_bounds(1) [of t] by (simp add: n)
qed

lemma loop_returns:
  assumes "keeps_ticks a" "sint (arm7ClockTicks s) \<le> 40"
  shows "\<exists>s'. interpreter_loop a s = Some s' \<and> 0 \<le> sint (arm7ClockTicks s') \<and> sint (arm7ClockTicks s') \<le> 40"
  using assms(2)
proof (induction "nat (- sint (arm7ClockTicks s))" arbitrary: s rule: less_induct)
  case less
  show ?case
  proof (cases "sint (arm7ClockTicks s) < 0")
    case True
    obtain k where k: "6 \<le> k" "k \<le> 41" "arm7ClockTicks (interpreter_pass a s) = arm7ClockTicks s + word_of_nat k"
      using pass_ticks [OF assms(1)] by blast
    then have "sint (arm7ClockTicks (interpreter_pass a s)) = sint (arm7ClockTicks s) + int k"
      using sint_add_ticks [OF True k(2)] by simp
    then show ?thesis using less.hyps [of "interpreter_pass a s"] True k(1,2) by (subst interpreter_loop.simps) simp
  next
    case False
    then show ?thesis using less.prems by (subst interpreter_loop.simps) simp
  qed
qed

lemma runInterpreter_returns:
  assumes "keeps_ticks a" "0 \<le> sint (arm7ClockTicks s)" "sint (arm7ClockTicks s) \<le> 40" "0 \<le> sint cycles"
  shows "\<exists>s'. runInterpreter a cycles s = Some s' \<and> 0 \<le> sint (arm7ClockTicks s') \<and> sint (arm7ClockTicks s') \<le> 40"
proof -
  have "sint (arm7ClockTicks s - cycles) = sint (arm7ClockTicks s) - sint cycles"
    using assms(2-4) sint32_bounds [of cycles] by (intro sint_sub32) simp_all
  then show ?thesis
    using assms loop_returns [OF assms(1), of "s\<lparr>arm7ClockTicks := arm7ClockTicks s - cycles\<rparr>"]
    by (simp add: runInterpreter_def)
qed

subsection \<open>Properties\<close>



lemma silent_keeps_ticks: "keeps_ticks silent_aica"
  by (simp add: keeps_ticks_def silent_aica_def)



end
