(* ===== verification/Mem_Chip.thy ===== *)
theory Mem_Chip
  imports Prelude
begin

section \<open>Memory chips\<close>

text \<open>
  The base of the Dreamcast's and the arcade boards' memory chips
  (\<open>core/hw/flashrom/flashrom.h\<close>): \<open>MemChip\<close> with its byte-wise \<open>Read\<close> over the virtual
  \<open>Read8\<close>, and the battery backed \<open>SRamChip\<close>. The byte array is a function of the address; an
  access outside of the array is the error \<open>Out_of_bounds\<close>, a \<open>die\<close> is \<open>Die\<close> and a failed
  \<open>verify\<close> is \<open>Verify_failed\<close>. Loading from and saving to host files is left out.

  The virtual call is an argument of \<open>Read\<close>; the locale \<open>byte_source\<close> states what a chip's
  \<open>Read8\<close> promises, and gives the value of a multi-byte read once for all chips.
\<close>

datatype chip_error = Die | Verify_failed | Out_of_bounds

record mem_chip =
  chip_data :: "u32 \<Rightarrow> u8"
  chip_size :: u32
  chip_mask :: u32
  write_protect_size :: u32

subsection \<open>Operations\<close>

definition MemChip :: "u32 \<Rightarrow> u32 \<Rightarrow> mem_chip" where
  "MemChip sz protect = \<lparr>chip_data = (\<lambda>a. 0), chip_size = sz, chip_mask = sz - 1, write_protect_size = protect\<rparr>"

definition MemChip_Read8 :: "u32 \<Rightarrow> 'z mem_chip_scheme \<Rightarrow> u8" where
  "MemChip_Read8 addr c = chip_data c (addr AND chip_mask c)"

text \<open>The loop of \<open>Read\<close>; \<open>read8\<close> is the virtual method and may change the chip's state.\<close>

primrec read_loop :: "(u32 \<Rightarrow> 's \<Rightarrow> u8 \<times> 's) \<Rightarrow> u32 \<Rightarrow> nat \<Rightarrow> 's \<Rightarrow> u32 \<times> 's" where
  "read_loop read8 addr 0 c = (0, c)"
| "read_loop read8 addr (Suc i) c =
     (case read_loop read8 addr i c of (rv, c) \<Rightarrow>
      case read8 (addr + of_nat i) c of (b, c) \<Rightarrow> (rv OR push_bit (i * 8) (ucast b), c))"

definition MemChip_Read ::
  "(u32 \<Rightarrow> 'z mem_chip_scheme \<Rightarrow> u8 \<times> 'z mem_chip_scheme) \<Rightarrow> u32 \<Rightarrow> u32 \<Rightarrow> 'z mem_chip_scheme \<Rightarrow> u32 \<times> 'z mem_chip_scheme" where
  "MemChip_Read read8 addr sz c = read_loop read8 (addr AND chip_mask c) (unat sz) c"

text \<open>Storing \<open>n\<close> bytes at an address of the array, least significant byte first.\<close>

definition poke :: "u32 \<Rightarrow> nat \<Rightarrow> u32 \<Rightarrow> 'z mem_chip_scheme \<Rightarrow> chip_error + 'z mem_chip_scheme" where
  "poke addr n val c =
     (if unat (chip_size c) < unat addr + n then Inl Out_of_bounds
      else Inr (c\<lparr>chip_data := \<lambda>a. if unat addr \<le> unat a \<and> unat a < unat addr + n
                                     then ucast (drop_bit (8 * (unat a - unat addr)) val) else chip_data c a\<rparr>))"

definition SRamChip_Write :: "u32 \<Rightarrow> u32 \<Rightarrow> u32 \<Rightarrow> 'z mem_chip_scheme \<Rightarrow> chip_error + 'z mem_chip_scheme" where
  "SRamChip_Write addr val sz c =
     (let addr = addr AND chip_mask c
      in if addr < write_protect_size c then Inr c
         else if sz = 1 then poke addr 1 val c
         else if sz = 2 then poke addr 2 val c
         else if sz = 4 then poke addr 4 val c
         else Inl Die)"

definition MemChip_Load :: "(u32 \<Rightarrow> u8) \<Rightarrow> u32 \<Rightarrow> 'z mem_chip_scheme \<Rightarrow> chip_error + 'z mem_chip_scheme" where
  "MemChip_Load src sz c =
     (if sz \<noteq> chip_size c - write_protect_size c then Inl Verify_failed
      else Inr (c\<lparr>chip_data := \<lambda>a. if write_protect_size c \<le> a \<and> a < chip_size c
                                     then src (a - write_protect_size c) else chip_data c a\<rparr>))"

subsection \<open>What a multi-byte read returns\<close>

lemma and_mask_id: "unat (x :: u32) < 2 ^ n \<Longrightarrow> x AND mask n = x"
  by (simp add: word_unat_eq_iff unsigned_take_bit_eq take_bit_nat_eq_self flip: take_bit_eq_mask)

text \<open>The little-endian value of the first \<open>n\<close> bytes.\<close>

primrec le_value :: "(nat \<Rightarrow> u8) \<Rightarrow> nat \<Rightarrow> u32" where
  "le_value f 0 = 0"
| "le_value f (Suc n) = le_value f n OR push_bit (n * 8) (ucast (f n))"

lemma le_value_2: "le_value f 2 = ucast (f 0) OR push_bit 8 (ucast (f 1))"
  by (simp add: numeral_2_eq_2)

lemma le_value_cong: "(\<And>i. i < n \<Longrightarrow> f i = g i) \<Longrightarrow> le_value f n = le_value g n"
  by (induction n) simp_all

lemma le_value_bytes: "le_value (\<lambda>i. ucast (drop_bit (8 * i) v)) n = take_bit (8 * n) v"
proof (induction n)
  case (Suc n)
  have "take_bit (8 * n) v OR push_bit (n * 8) (ucast (ucast (drop_bit (8 * n) v) :: u8)) = take_bit (8 * Suc n) v"
    by (rule bit_word_eqI) (auto simp: bit_simps mult.commute)
  with Suc show ?case by simp
qed simp

text \<open>\<open>bytes\<close> are the bytes a client sees, \<open>ready\<close> the states in which a byte read has no effect.\<close>

locale byte_source =
  fixes read8 :: "u32 \<Rightarrow> 's \<Rightarrow> u8 \<times> 's"
    and bytes :: "'s \<Rightarrow> u32 \<Rightarrow> u8"
    and ready :: "'s \<Rightarrow> bool"
  assumes read8: "ready s \<Longrightarrow> read8 a s = (bytes s a, s)"
begin

lemma read_loop_state [simp]: "ready s \<Longrightarrow> snd (read_loop read8 a n s) = s"
  by (induction n) (simp_all add: case_prod_beta read8)

lemma read_loop_value: "ready s \<Longrightarrow> fst (read_loop read8 a n s) = le_value (\<lambda>i. bytes s (a + of_nat i)) n"
  by (induction n) (simp_all add: case_prod_beta read8)

end

interpretation mem: byte_source "\<lambda>a c. (MemChip_Read8 a c, c)" "\<lambda>c a. MemChip_Read8 a c" "\<lambda>c. True"
  by unfold_locales simp

text \<open>A value written to the static memory reads back, and the protected part never changes.\<close>

lemma poke_range: "poke a n v c = Inr c' \<Longrightarrow> unat a + n \<le> unat (chip_size c)
    \<and> c' = c\<lparr>chip_data := \<lambda>x. if unat a \<le> unat x \<and> unat x < unat a + n
        then ucast (drop_bit (8 * (unat x - unat a)) v) else chip_data c x\<rparr>"
  by (auto simp: poke_def split: if_splits)

lemma sram_protected:
  assumes "SRamChip_Write addr val sz c = Inr c'" "a < write_protect_size c"
  shows "chip_data c' a = chip_data c a"
  using assms by (auto simp: SRamChip_Write_def Let_def poke_def word_less_nat_alt split: if_splits)

subsection \<open>Bits on a wire\<close>

text \<open>Collecting bits, most significant first.\<close>

definition shift_in :: "bool list \<Rightarrow> 'a::len word" where
  "shift_in bs = foldl (\<lambda>v b. push_bit 1 v OR of_bool b) 0 bs"

definition msb_first :: "nat \<Rightarrow> 'a::len word \<Rightarrow> bool list" where
  "msb_first n w = map (bit w) (rev [0..<n])"

lemma foldl_bits:
  "foldl (\<lambda>v b. push_bit 1 v OR of_bool b) u (msb_first n (w :: 'a::len word))
    = (push_bit n u OR ucast (take_bit n w) :: 'b::len word)"
proof (induction n arbitrary: u)
  case (Suc n)
  have "push_bit n (push_bit 1 u OR of_bool (bit w n)) OR ucast (take_bit n w)
      = push_bit (Suc n) u OR (ucast (take_bit (Suc n) w) :: 'b word)"
    by (rule bit_word_eqI) (auto simp: bit_simps less_Suc_eq not_less Suc_diff_le)
  with Suc show ?case by (simp add: msb_first_def)
qed (simp add: msb_first_def)

lemma shift_in_bits: "shift_in (msb_first n (w :: 'a::len word)) = (ucast (take_bit n w) :: 'b::len word)"
  unfolding shift_in_def foldl_bits by simp

lemma length_msb_first [simp]: "length (msb_first n w) = n"
  by (simp add: msb_first_def)

end
