(* ===== verification/Serial_Eeprom.thy ===== *)
theory Serial_Eeprom
  imports Mem_Chip
begin

section \<open>Three-wire serial EEPROM\<close>

text \<open>
  The AT93C46 of the arcade boards (\<open>core/hw/flashrom/at93cxx.h\<close> and \<open>at93cxx.cpp\<close>): 64 words
  of 16 bits behind a chip select, a clock and a data pin. \<open>writeCLK\<close> is the whole state
  machine: it collects the bits of an instruction and executes it when the last one has come.

  The abstract chip below has only the words and the write enable, and its operations are the
  chip's instructions. The properties: clocking in the bits of any instruction does what the
  instruction says; a word written can be clocked out again.
\<close>

record eeprom = mem_chip +
  cs :: bool
  clk :: bool
  di :: bool
  command :: "bool list"
  expected :: nat
  writeEnable :: bool
  dataOut :: u16
  dataOutBits :: u8

subsection \<open>Operations\<close>

definition AT93C46SerialEeprom :: "eeprom" where
  "AT93C46SerialEeprom = \<lparr>chip_data = (\<lambda>a. 0xff), chip_size = 128, chip_mask = 127, write_protect_size = 0,
     cs = False, clk = False, di = False, command = [], expected = 0, writeEnable = False,
     dataOut = 0, dataOutBits = 0\<rparr>"

definition readDO :: "'z eeprom_scheme \<Rightarrow> bool" where
  "readDO s = (if 0 < dataOutBits s then drop_bit (unat (dataOutBits s - 1)) (dataOut s) AND 1 \<noteq> 0 else True)"

definition writeCS :: "bool \<Rightarrow> 'z eeprom_scheme \<Rightarrow> 'z eeprom_scheme" where
  "writeCS state s = s\<lparr>cs := state\<rparr>"

definition writeDI :: "bool \<Rightarrow> 'z eeprom_scheme \<Rightarrow> 'z eeprom_scheme" where
  "writeDI state s = s\<lparr>di := state\<rparr>"

definition getCommandAddress :: "'z eeprom_scheme \<Rightarrow> chip_error + u8" where
  "getCommandAddress s =
     (if length (command s) < 9 then Inl Verify_failed
      else Inr (shift_in (map (\<lambda>i. command s ! i) [3..<9])))"

definition getCommandData :: "'z eeprom_scheme \<Rightarrow> chip_error + u16" where
  "getCommandData s =
     (if length (command s) < 25 then Inl Verify_failed
      else Inr (shift_in (map (\<lambda>i. command s ! i) [9..<25])))"

text \<open>The store of a 16-bit word at \<open>data[addr & mask]\<close>.\<close>

definition store_word :: "u32 \<Rightarrow> u16 \<Rightarrow> 'z eeprom_scheme \<Rightarrow> chip_error + 'z eeprom_scheme" where
  "store_word addr v s = poke (addr AND chip_mask s) 2 (ucast v) s"

primrec store_all :: "nat \<Rightarrow> u16 \<Rightarrow> 'z eeprom_scheme \<Rightarrow> chip_error + 'z eeprom_scheme" where
  "store_all 0 v s = Inr s"
| "store_all (Suc n) v s = sum_bind (store_all n v s) (store_word (of_nat (2 * n)) v)"

definition clear_command :: "'z eeprom_scheme \<Rightarrow> 'z eeprom_scheme" where
  "clear_command s = s\<lparr>command := []\<rparr>"

definition erase_all :: "'z eeprom_scheme \<Rightarrow> 'z eeprom_scheme" where
  "erase_all s = s\<lparr>chip_data := \<lambda>a. if a < chip_size s then 0xff else chip_data s a\<rparr>"

definition opCode :: "bool list \<Rightarrow> nat" where
  "opCode c = of_bool (c ! 1) * 2 + of_bool (c ! 2)"

definition subCode :: "bool list \<Rightarrow> nat" where
  "subCode c = of_bool (c ! 3) * 2 + of_bool (c ! 4)"

text \<open>The two switches of \<open>writeCLK\<close>: with the ninth bit, and with the last bit of the data.\<close>

definition short_command :: "'z eeprom_scheme \<Rightarrow> chip_error + 'z eeprom_scheme" where
  "short_command s =
     (if opCode (command s) = 0
      then (if subCode (command s) = 0 then Inr (clear_command (s\<lparr>writeEnable := False\<rparr>))
            else if subCode (command s) = 1 then Inr (s\<lparr>expected := 3 + 6 + 16\<rparr>)
            else if subCode (command s) = 2
            then Inr (clear_command (if writeEnable s then erase_all s else s))
            else Inr (clear_command (s\<lparr>writeEnable := True\<rparr>)))
      else if opCode (command s) = 1 then Inr (s\<lparr>expected := 3 + 6 + 16\<rparr>)
      else if opCode (command s) = 2
      then sum_bind (getCommandAddress s) (\<lambda>a.
           case MemChip_Read (\<lambda>a c. (MemChip_Read8 a c, c)) (ucast a * 2) 2 s of (v, s) \<Rightarrow>
           Inr (clear_command (s\<lparr>dataOut := ucast v, dataOutBits := 17\<rparr>)))
      else if writeEnable s
      then sum_bind (getCommandAddress s) (\<lambda>a. sum_bind (store_word (ucast a * 2) 0xffff s) (Inr \<circ> clear_command))
      else Inr (clear_command s))"

definition long_command :: "'z eeprom_scheme \<Rightarrow> chip_error + 'z eeprom_scheme" where
  "long_command s =
     sum_bind
       (if opCode (command s) = 0
        then sum_bind (getCommandData s) (\<lambda>v.
             if writeEnable s then store_all ((unat (chip_size s) + 1) div 2) v s else Inr s)
        else if opCode (command s) = 1 \<and> writeEnable s
        then sum_bind (getCommandAddress s) (\<lambda>a. sum_bind (getCommandData s) (\<lambda>v. store_word (ucast a * 2) v s))
        else Inr s)
       (\<lambda>s. Inr ((clear_command s)\<lparr>expected := 0\<rparr>))"

definition collect_bit :: "'z eeprom_scheme \<Rightarrow> chip_error + 'z eeprom_scheme" where
  "collect_bit s =
     (let s = s\<lparr>command := command s @ [di s]\<rparr>
      in if length (command s) = 9 then short_command s
         else if 0 < expected s \<and> length (command s) = expected s then long_command s
         else Inr s)"

definition writeCLK :: "bool \<Rightarrow> 'z eeprom_scheme \<Rightarrow> chip_error + 'z eeprom_scheme" where
  "writeCLK state s =
     sum_bind
       (if \<not> clk s \<and> state \<and> cs s
        then let s = (if 0 < dataOutBits s then s\<lparr>dataOutBits := dataOutBits s - 1\<rparr> else s)
             in if dataOutBits s = 0 \<and> \<not> (command s = [] \<and> \<not> di s) then collect_bit s else Inr s
        else Inr s)
       (\<lambda>s. Inr (s\<lparr>clk := state\<rparr>))"

subsection \<open>The state is well formed\<close>

text \<open>Fewer than nine bits have been collected, or between nine and 24 of an instruction with data.\<close>

definition eeprom_ok :: "'z eeprom_scheme \<Rightarrow> bool" where
  "eeprom_ok s \<longleftrightarrow> chip_size s = 128 \<and> chip_mask s = 127 \<and> dataOutBits s \<le> 17
     \<and> (length (command s) < 9 \<and> expected s = 0 \<or> 9 \<le> length (command s) \<and> length (command s) < 25 \<and> expected s = 25)"

lemma and_127_less: "unat ((a :: u32) AND 127) < 128"
proof -
  have "a AND 127 \<le> 127" by (rule word_and_le1)
  then show ?thesis by (simp add: word_le_nat_alt)
qed

lemma even_and_127: "even (a :: u32) \<Longrightarrow> unat (a AND 127) + 2 \<le> 128"
proof -
  assume "even a"
  then have "even (a AND 127)" by (simp add: even_and_iff)
  moreover have "odd (unat (a AND 127)) = odd (a AND 127)" by (simp add: bit_unsigned_iff flip: bit_0)
  ultimately have "even (unat (a AND 127))" by simp
  with and_127_less [of a] show ?thesis by presburger
qed

definition set_word :: "u32 \<Rightarrow> u16 \<Rightarrow> 'z eeprom_scheme \<Rightarrow> 'z eeprom_scheme" where
  "set_word addr v s = s\<lparr>chip_data := \<lambda>a.
     if unat (addr AND 127) \<le> unat a \<and> unat a < unat (addr AND 127) + 2
     then ucast (drop_bit (8 * (unat a - unat (addr AND 127))) (ucast v :: u32)) else chip_data s a\<rparr>"

lemma store_word_ok:
  assumes "chip_size s = 128" "chip_mask s = 127" "even addr"
  shows "store_word addr v s = Inr (set_word addr v s)"
  using assms(1,2) even_and_127 [OF assms(3)] by (simp add: store_word_def poke_def set_word_def)

lemma set_word_simps [simp]:
  "chip_size (set_word a v s) = chip_size s" "chip_mask (set_word a v s) = chip_mask s"
  "cs (set_word a v s) = cs s" "clk (set_word a v s) = clk s" "di (set_word a v s) = di s"
  "command (set_word a v s) = command s" "expected (set_word a v s) = expected s"
  "writeEnable (set_word a v s) = writeEnable s" "dataOut (set_word a v s) = dataOut s"
  "dataOutBits (set_word a v s) = dataOutBits s"
  by (simp_all add: set_word_def)

primrec set_all :: "nat \<Rightarrow> u16 \<Rightarrow> 'z eeprom_scheme \<Rightarrow> 'z eeprom_scheme" where
  "set_all 0 v s = s"
| "set_all (Suc n) v s = set_word (of_nat (2 * n)) v (set_all n v s)"

lemma set_all_simps [simp]:
  "chip_size (set_all n v s) = chip_size s" "chip_mask (set_all n v s) = chip_mask s"
  "cs (set_all n v s) = cs s" "clk (set_all n v s) = clk s" "di (set_all n v s) = di s"
  "command (set_all n v s) = command s" "expected (set_all n v s) = expected s"
  "writeEnable (set_all n v s) = writeEnable s" "dataOut (set_all n v s) = dataOut s"
  "dataOutBits (set_all n v s) = dataOutBits s"
  by (induction n) simp_all

lemma even_double_of_nat: "even (of_nat (2 * n) :: u32)"
  by simp

lemma store_all_ok:
  "chip_size s = 128 \<Longrightarrow> chip_mask s = 127 \<Longrightarrow> store_all n v s = Inr (set_all n v s)"
  by (induction n) (simp_all add: store_word_ok)

lemma read_data_simps [simp]:
  "snd (MemChip_Read (\<lambda>a c. (MemChip_Read8 a c, c)) a n s) = s"
  by (simp add: MemChip_Read_def)

lemma clear_command_simps [simp]:
  "command (clear_command s) = []" "expected (clear_command s) = expected s"
  "chip_size (clear_command s) = chip_size s" "chip_mask (clear_command s) = chip_mask s"
  "dataOutBits (clear_command s) = dataOutBits s" "dataOut (clear_command s) = dataOut s"
  "cs (clear_command s) = cs s" "clk (clear_command s) = clk s" "di (clear_command s) = di s"
  "writeEnable (clear_command s) = writeEnable s" "chip_data (clear_command s) = chip_data s"
  by (simp_all add: clear_command_def)

lemma erase_all_simps [simp]:
  "chip_size (erase_all s) = chip_size s" "chip_mask (erase_all s) = chip_mask s"
  "cs (erase_all s) = cs s" "clk (erase_all s) = clk s" "di (erase_all s) = di s"
  "command (erase_all s) = command s" "expected (erase_all s) = expected s"
  "writeEnable (erase_all s) = writeEnable s" "dataOut (erase_all s) = dataOut s"
  "dataOutBits (erase_all s) = dataOutBits s"
  by (simp_all add: erase_all_def)

lemma short_command_ok:
  assumes "length (command s) = 9" "chip_size s = 128" "chip_mask s = 127" "dataOutBits s \<le> 17" "expected s = 0"
  obtains s' where "short_command s = Inr s'" "eeprom_ok s'"
proof -
  have "\<exists>s'. short_command s = Inr s' \<and> eeprom_ok s'"
    using assms
    by (auto simp: short_command_def getCommandAddress_def store_word_ok eeprom_ok_def case_prod_beta)
  then show thesis using that by blast
qed

lemma long_command_ok:
  assumes "length (command s) = 25" "chip_size s = 128" "chip_mask s = 127" "dataOutBits s \<le> 17"
  obtains s' where "long_command s = Inr s'" "eeprom_ok s'"
proof -
  have "\<exists>s'. long_command s = Inr s' \<and> eeprom_ok s'"
    using assms
    by (auto simp: long_command_def getCommandAddress_def getCommandData_def store_word_ok store_all_ok eeprom_ok_def)
  then show thesis using that by blast
qed

lemma eeprom_ok_frame [simp]:
  "eeprom_ok (s\<lparr>clk := b\<rparr>) = eeprom_ok s" "eeprom_ok (s\<lparr>cs := b\<rparr>) = eeprom_ok s" "eeprom_ok (s\<lparr>di := b\<rparr>) = eeprom_ok s"
  by (simp_all add: eeprom_ok_def)

lemma collect_bit_ok:
  assumes "eeprom_ok u"
  shows "\<exists>s'. collect_bit u = Inr s' \<and> eeprom_ok s'"
proof -
  define w where "w = u\<lparr>command := command u @ [di u]\<rparr>"
  have w: "chip_size w = 128" "chip_mask w = 127" "dataOutBits w \<le> 17"
    using assms by (simp_all add: w_def eeprom_ok_def)
  have "length (command w) = 9 \<and> expected w = 0 \<or> length (command w) = 25 \<and> expected w = 25
      \<or> length (command w) \<noteq> 9 \<and> length (command w) \<noteq> expected w \<and> eeprom_ok w"
    using assms by (auto simp: w_def eeprom_ok_def)
  then show ?thesis
  proof (elim disjE conjE)
    assume 1: "length (command w) = 9" "expected w = 0"
    obtain s' where "short_command w = Inr s'" "eeprom_ok s'" by (rule short_command_ok [OF 1(1) w 1(2)])
    with 1 show ?thesis by (simp add: collect_bit_def Let_def flip: w_def)
  next
    assume 2: "length (command w) = 25" "expected w = 25"
    obtain s' where "long_command w = Inr s'" "eeprom_ok s'" by (rule long_command_ok [OF 2(1) w])
    with 2 show ?thesis by (simp add: collect_bit_def Let_def flip: w_def)
  next
    assume "length (command w) \<noteq> 9" "length (command w) \<noteq> expected w" "eeprom_ok w"
    then show ?thesis by (simp add: collect_bit_def Let_def flip: w_def)
  qed
qed

text \<open>C22: No sequence of pin changes makes the chip's state machine trip an assertion or write
  outside of its memory: from a well formed state every clock edge succeeds and leaves a well formed state.\<close>

theorem eeprom_never_asserts:
  assumes "eeprom_ok s"
  shows "\<exists>s'. writeCLK b (writeDI d (writeCS c s)) = Inr s' \<and> eeprom_ok s'"
proof -
  define t where "t = writeDI d (writeCS c s)"
  define u where "u = (if 0 < dataOutBits t then t\<lparr>dataOutBits := dataOutBits t - 1\<rparr> else t)"
  have t: "eeprom_ok t" using assms by (simp add: t_def writeDI_def writeCS_def)
  have dec: "dataOutBits t - 1 \<le> 17" if "0 < dataOutBits t" "dataOutBits t \<le> 17"
    using that by unat_arith
  have u: "eeprom_ok u" using t dec by (auto simp: u_def eeprom_ok_def)
  obtain v where v: "collect_bit u = Inr v" "eeprom_ok v" using collect_bit_ok [OF u] by blast
  have "writeCLK b t = Inr ((if \<not> clk t \<and> b \<and> cs t
      then if dataOutBits u = 0 \<and> \<not> (command u = [] \<and> \<not> di u) then v else u else t)\<lparr>clk := b\<rparr>)"
    by (auto simp: writeCLK_def Let_def v simp flip: u_def)
  then show ?thesis using t u v(2) unfolding t_def by simp
qed

theorem eeprom_never_asserts_witness:
  "\<exists>s'. writeCLK True (writeDI True (writeCS True AT93C46SerialEeprom)) = Inr s' \<and> eeprom_ok s'"
  by (rule eeprom_never_asserts) (simp add: eeprom_ok_def AT93C46SerialEeprom_def)

subsection \<open>The abstract chip\<close>

text \<open>The instructions of the data sheet, with their unused address bits, and how they are sent.\<close>

datatype eeprom_instr =
  EWDS "4 word" | WRAL "4 word" u16 | ERAL "4 word" | EWEN "4 word"
  | WRITE "6 word" u16 | READ "6 word" | ERASE "6 word"

primrec encode :: "eeprom_instr \<Rightarrow> bool list" where
  "encode (EWDS x) = [True, False, False, False, False] @ msb_first 4 x"
| "encode (WRAL x v) = [True, False, False, False, True] @ msb_first 4 x @ msb_first 16 v"
| "encode (ERAL x) = [True, False, False, True, False] @ msb_first 4 x"
| "encode (EWEN x) = [True, False, False, True, True] @ msb_first 4 x"
| "encode (WRITE a v) = [True, False, True] @ msb_first 6 a @ msb_first 16 v"
| "encode (READ a) = [True, True, False] @ msb_first 6 a"
| "encode (ERASE a) = [True, True, True] @ msb_first 6 a"

text \<open>What they do to the words and the write enable.\<close>

fun chip_spec :: "eeprom_instr \<Rightarrow> (6 word \<Rightarrow> u16) \<times> bool \<Rightarrow> (6 word \<Rightarrow> u16) \<times> bool" where
  "chip_spec (EWDS x) (w, en) = (w, False)"
| "chip_spec (EWEN x) (w, en) = (w, True)"
| "chip_spec (WRAL x v) (w, en) = (if en then (\<lambda>a. v) else w, en)"
| "chip_spec (ERAL x) (w, en) = (if en then (\<lambda>a. 0xffff) else w, en)"
| "chip_spec (WRITE a v) (w, en) = (if en then w(a := v) else w, en)"
| "chip_spec (ERASE a) (w, en) = (if en then w(a := 0xffff) else w, en)"
| "chip_spec (READ a) (w, en) = (w, en)"

text \<open>The host's side: a bit is put on the data pin and clocked in.\<close>

definition clock_bit :: "bool \<Rightarrow> 'z eeprom_scheme \<Rightarrow> chip_error + 'z eeprom_scheme" where
  "clock_bit b s = sum_bind (writeCLK False (writeDI b s)) (writeCLK True)"

primrec send :: "bool list \<Rightarrow> 'z eeprom_scheme \<Rightarrow> chip_error + 'z eeprom_scheme" where
  "send [] s = Inr s"
| "send (b # bs) s = sum_bind (clock_bit b s) (send bs)"

text \<open>The word at an address, as \<open>READ\<close> sees it.\<close>

definition word_at :: "'z eeprom_scheme \<Rightarrow> 6 word \<Rightarrow> u16" where
  "word_at s a = ucast (fst (MemChip_Read (\<lambda>a c. (MemChip_Read8 a c, c)) (ucast a * 2) 2 s))"

definition abs_chip :: "'z eeprom_scheme \<Rightarrow> (6 word \<Rightarrow> u16) \<times> bool" where
  "abs_chip s = (word_at s, writeEnable s)"

subsection \<open>Words of the memory\<close>

lemma unat_addr: "unat (ucast (a :: 6 word) * 2 :: u32) = 2 * unat a"
proof -
  have "unat a < 64" using unsigned_less [of a] by simp
  then show ?thesis by (simp add: unat_word_ariths(2) unsigned_ucast_eq take_bit_nat_eq_self)
qed

lemma and_127_id: "unat (x :: u32) < 128 \<Longrightarrow> x AND 127 = x"
  using and_mask_id [of x 7] by (simp add: mask_eq_exp_minus_1)

lemma addr_simps [simp]:
  "(ucast (a :: 6 word) * 2 :: u32) AND 127 = ucast a * 2"
  "(ucast (a :: 6 word) * 2 + 1 :: u32) AND 127 = ucast a * 2 + 1"
  "unat (ucast (a :: 6 word) * 2 + 1 :: u32) = 2 * unat a + 1"
proof -
  have a: "unat a < 64" using unsigned_less [of a] by simp
  have u: "unat (ucast a * 2 + 1 :: u32) = 2 * unat a + 1"
    using a unat_addr [of a] by (simp add: unat_word_ariths(1))
  then show "unat (ucast a * 2 + 1 :: u32) = 2 * unat a + 1" .
  show "(ucast a * 2 :: u32) AND 127 = ucast a * 2" using a by (intro and_127_id) (simp add: unat_addr)
  show "(ucast a * 2 + 1 :: u32) AND 127 = ucast a * 2 + 1" using a u by (intro and_127_id) simp
qed

lemma word_at_bytes:
  assumes "chip_mask s = 127"
  shows "word_at s a = ucast (chip_data s (ucast a * 2)) OR push_bit 8 (ucast (chip_data s (ucast a * 2 + 1)))"
proof -
  have "fst (MemChip_Read (\<lambda>a c. (MemChip_Read8 a c, c)) (ucast a * 2) 2 s)
      = ucast (chip_data s (ucast a * 2)) OR push_bit 8 (ucast (chip_data s (ucast a * 2 + 1)))"
    unfolding MemChip_Read_def using assms
    by (simp add: mem.read_loop_value le_value_2) (simp add: MemChip_Read8_def assms)
  then show ?thesis unfolding word_at_def by (intro bit_word_eqI) (auto simp: bit_simps)
qed

lemma split_u16: "ucast (ucast (ucast (v :: u16) :: u32) :: u8)
    OR push_bit 8 (ucast (ucast (drop_bit 8 (ucast v :: u32)) :: u8)) = v"
  by (rule bit_word_eqI) (auto simp: bit_simps)

lemma word_at_set_word:
  assumes "chip_mask s = 127"
  shows "word_at (set_word (ucast a * 2) v s) b = (if b = a then v else word_at s b)"
proof -
  have "chip_mask (set_word (ucast a * 2) v s) = 127" using assms by simp
  then have w: "word_at (set_word (ucast a * 2) v s) b
      = ucast (chip_data (set_word (ucast a * 2) v s) (ucast b * 2))
        OR push_bit 8 (ucast (chip_data (set_word (ucast a * 2) v s) (ucast b * 2 + 1)))"
    by (rule word_at_bytes)
  show ?thesis
  proof (cases "b = a")
    case True
    then show ?thesis unfolding w by (simp add: set_word_def unat_addr split_u16)
  next
    case False
    then have "unat b \<noteq> unat a" by (simp add: word_unat_eq_iff)
    then have "chip_data (set_word (ucast a * 2) v s) (ucast b * 2) = chip_data s (ucast b * 2)"
      "chip_data (set_word (ucast a * 2) v s) (ucast b * 2 + 1) = chip_data s (ucast b * 2 + 1)"
      by (auto simp: set_word_def unat_addr)
    with False show ?thesis unfolding w by (simp add: word_at_bytes assms)
  qed
qed

lemma word_at_set_all:
  assumes "chip_mask s = 127" "n \<le> 64"
  shows "word_at (set_all n v s) b = (if unat b < n then v else word_at s b)"
  using assms(2)
proof (induction n)
  case (Suc n)
  have n: "unat (of_nat n :: 6 word) = n" using Suc.prems by (simp add: unat_of_nat)
  have eq: "of_nat (2 * n) = (ucast (of_nat n :: 6 word) * 2 :: u32)"
    using Suc.prems n unat_addr [of "of_nat n"] unat_of_nat [of "2 * n", where 'a = 32]
    by (simp add: word_unat_eq_iff)
  have "b = of_nat n \<longleftrightarrow> unat b = n" using n by (auto simp: word_unat_eq_iff)
  then show ?case using Suc assms(1) unfolding set_all.simps eq by (auto simp: word_at_set_word)
qed simp

subsection \<open>Sending an instruction\<close>

lemma map_nth_upt: "j \<le> length xs \<Longrightarrow> map (\<lambda>i. xs ! i) [i..<j] = take (j - i) (drop i xs)"
  by (rule nth_equalityI) auto

lemma rising_edge:
  assumes "\<not> clk s" "cs s" "dataOutBits s \<le> 1" "command s \<noteq> [] \<or> di s"
  shows "writeCLK True s = sum_bind (collect_bit (s\<lparr>dataOutBits := 0\<rparr>)) (\<lambda>s. Inr (s\<lparr>clk := True\<rparr>))"
proof -
  have "unat (dataOutBits s) = 0 \<or> unat (dataOutBits s) = 1"
    using assms(3) by (simp only: word_le_nat_alt) (simp, linarith)
  then have "dataOutBits s = 0 \<or> dataOutBits s = 1" by (simp add: word_unat_eq_iff)
  then have "(if 0 < dataOutBits s then s\<lparr>dataOutBits := dataOutBits s - 1\<rparr> else s) = s\<lparr>dataOutBits := 0\<rparr>"
    by (cases s) auto
  with assms show ?thesis by (simp add: writeCLK_def Let_def)
qed

lemma clock_bit_collect:
  assumes "cs s" "dataOutBits s \<le> 1" "command s \<noteq> [] \<or> b"
  shows "clock_bit b s = sum_bind (collect_bit (s\<lparr>di := b, clk := False, dataOutBits := 0\<rparr>)) (\<lambda>s. Inr (s\<lparr>clk := True\<rparr>))"
proof -
  have "writeCLK False (writeDI b s) = Inr (s\<lparr>di := b, clk := False\<rparr>)"
    by (simp add: writeCLK_def writeDI_def)
  with assms show ?thesis by (simp add: clock_bit_def rising_edge)
qed

lemma send_append: "send (xs @ ys) s = sum_bind (send xs s) (send ys)"
proof (induction xs arbitrary: s)
  case (Cons b xs)
  then show ?case by (cases "clock_bit b s") simp_all
qed simp

lemma send_collect:
  assumes "bs \<noteq> []" "cs s" "dataOutBits s \<le> 1" "command s \<noteq> [] \<or> hd bs"
    and "length (command s) + length bs < 9 \<and> expected s = 0
      \<or> 9 \<le> length (command s) \<and> length (command s) + length bs < expected s"
  shows "send bs s = Inr (s\<lparr>di := last bs, clk := True, dataOutBits := 0, command := command s @ bs\<rparr>)"
  using assms
proof (induction bs arbitrary: s rule: list_nonempty_induct)
  case (single b)
  then show ?case by (auto simp: clock_bit_collect collect_bit_def Let_def)
next
  case (cons b bs)
  let ?t = "s\<lparr>di := b, clk := True, dataOutBits := 0, command := command s @ [b]\<rparr>"
  have "clock_bit b s = Inr ?t"
    using cons.prems cons.hyps by (auto simp: clock_bit_collect collect_bit_def Let_def)
  moreover have "send bs ?t = Inr (?t\<lparr>di := last bs, clk := True, dataOutBits := 0, command := command ?t @ bs\<rparr>)"
    using cons.prems by (intro cons.IH) auto
  ultimately show ?case using cons.hyps by simp
qed

definition idle :: "'z eeprom_scheme \<Rightarrow> bool" where
  "idle s \<longleftrightarrow> eeprom_ok s \<and> cs s \<and> command s = [] \<and> dataOutBits s \<le> 1"

lemma idle_expected: "idle s \<Longrightarrow> expected s = 0"
  by (auto simp: idle_def eeprom_ok_def)

lemma send_short:
  assumes "idle s" "length bs = 9" "hd bs"
  shows "send bs s = sum_bind (short_command (s\<lparr>di := last bs, clk := False, dataOutBits := 0, command := bs\<rparr>))
    (\<lambda>s. Inr (s\<lparr>clk := True\<rparr>))"
proof -
  have ne: "bs \<noteq> []" using assms(2) by auto
  then have bs: "bs = butlast bs @ [last bs]" by simp
  let ?t = "s\<lparr>di := last (butlast bs), clk := True, dataOutBits := 0, command := butlast bs\<rparr>"
  have b: "butlast bs \<noteq> []" "hd (butlast bs)" using assms(2,3) by (auto simp: butlast_conv_take hd_conv_nth)
  have "send (butlast bs) s = Inr ?t"
    using assms b idle_expected [OF assms(1)] by (subst send_collect) (auto simp: idle_def)
  then have "send bs s = sum_bind (clock_bit (last bs) ?t) (send [])"
    by (subst bs) (simp only: send_append sum_bind.simps send.simps)
  also have "clock_bit (last bs) ?t
      = sum_bind (collect_bit (?t\<lparr>di := last bs, clk := False, dataOutBits := 0\<rparr>)) (\<lambda>s. Inr (s\<lparr>clk := True\<rparr>))"
    using assms(1) b by (intro clock_bit_collect) (auto simp: idle_def)
  also have "collect_bit (?t\<lparr>di := last bs, clk := False, dataOutBits := 0\<rparr>)
      = short_command (s\<lparr>di := last bs, clk := False, dataOutBits := 0, command := bs\<rparr>)"
    using assms(2) bs by (simp add: collect_bit_def Let_def)
  finally show ?thesis
    by (cases "short_command (s\<lparr>di := last bs, clk := False, dataOutBits := 0, command := bs\<rparr>)") simp_all
qed

lemma send_long:
  assumes "idle s" "length hs = 9" "hd hs" "length ds = 16" "opCode hs = 0 \<and> subCode hs = 1 \<or> opCode hs = 1"
  shows "send (hs @ ds) s
    = sum_bind (long_command (s\<lparr>expected := 25, di := last ds, clk := False, dataOutBits := 0, command := hs @ ds\<rparr>))
        (\<lambda>s. Inr (s\<lparr>clk := True\<rparr>))"
proof -
  have ne: "hs \<noteq> []" "ds \<noteq> []" using assms by auto
  then have ds: "ds = butlast ds @ [last ds]" by simp
  let ?t = "s\<lparr>di := last hs, clk := True, dataOutBits := 0, command := hs, expected := 25\<rparr>"
  let ?u = "?t\<lparr>di := last (butlast ds), clk := True, dataOutBits := 0, command := hs @ butlast ds\<rparr>"
  have "send hs s = Inr ?t"
    using assms send_short [OF assms(1-3)] by (auto simp: short_command_def)
  moreover have "send (butlast ds) ?t = Inr ?u"
    using assms ne by (subst send_collect) (auto simp: idle_def butlast_conv_take)
  moreover have "send (hs @ ds) s = sum_bind (send hs s) (\<lambda>t. sum_bind (send (butlast ds) t) (send [last ds]))"
    by (subst ds, cases "send hs s") (simp_all only: send_append sum_bind.simps)
  ultimately have "send (hs @ ds) s = sum_bind (clock_bit (last ds) ?u) (send [])"
    by (simp only: sum_bind.simps send.simps)
  also have "clock_bit (last ds) ?u
      = sum_bind (collect_bit (?u\<lparr>di := last ds, clk := False, dataOutBits := 0\<rparr>)) (\<lambda>s. Inr (s\<lparr>clk := True\<rparr>))"
    using assms(1) ne by (intro clock_bit_collect) (auto simp: idle_def)
  also have "collect_bit (?u\<lparr>di := last ds, clk := False, dataOutBits := 0\<rparr>)
      = long_command (s\<lparr>expected := 25, di := last ds, clk := False, dataOutBits := 0, command := hs @ ds\<rparr>)"
    using assms(2,4) ds by (simp add: collect_bit_def Let_def)
  finally show ?thesis
    by (cases "long_command (s\<lparr>expected := 25, di := last ds, clk := False, dataOutBits := 0, command := hs @ ds\<rparr>)")
      simp_all
qed

text \<open>The memory depends on no pin and no counter.\<close>

lemma word_at_cong:
  "chip_mask s = 127 \<Longrightarrow> chip_mask t = 127 \<Longrightarrow> chip_data s = chip_data t \<Longrightarrow> word_at s = word_at t"
  by (rule ext) (simp add: word_at_bytes)

lemma command_fields:
  "length hs = 9 \<Longrightarrow> getCommandAddress (s\<lparr>command := hs\<rparr>) = Inr (shift_in (take 6 (drop 3 hs)))"
  "length hs = 9 \<Longrightarrow> length ds = 16 \<Longrightarrow> getCommandData (s\<lparr>command := hs @ ds\<rparr>) = Inr (shift_in ds)"
  "length hs = 9 \<Longrightarrow> length ds = 16 \<Longrightarrow> getCommandAddress (s\<lparr>command := hs @ ds\<rparr>) = Inr (shift_in (take 6 (drop 3 hs)))"
  using map_nth_upt [of 9 hs 3] map_nth_upt [of 25 "hs @ ds" 9] map_nth_upt [of 9 "hs @ ds" 3]
  by (simp_all add: getCommandAddress_def getCommandData_def)

definition after_instr :: "eeprom_instr \<Rightarrow> 'z eeprom_scheme \<Rightarrow> 'z eeprom_scheme \<Rightarrow> bool" where
  "after_instr i s s' \<longleftrightarrow> abs_chip s' = chip_spec i (abs_chip s)
     \<and> (case i of READ a \<Rightarrow> eeprom_ok s' \<and> cs s' \<and> command s' = [] \<and> dataOutBits s' = 17 \<and> dataOut s' = word_at s a
                | _ \<Rightarrow> idle s')"

lemma word_at_erase_all:
  assumes "chip_size s = 128" "chip_mask s = 127"
  shows "word_at (erase_all s) = (\<lambda>a. 0xffff)"
proof
  fix a :: "6 word"
  have "unat a < 64" using unsigned_less [of a] by simp
  then have "(ucast a * 2 :: u32) < 128" "(ucast a * 2 + 1 :: u32) < 128"
    by (simp_all add: word_less_nat_alt unat_addr)
  then show "word_at (erase_all s) a = 0xffff"
    using assms by (simp add: word_at_bytes) (simp add: erase_all_def)
qed

lemma sent_fields [simp]:
  "opCode (a # b # c # bs) = of_bool b * 2 + of_bool c"
  "subCode (a # b # c # d # e # bs) = of_bool d * 2 + of_bool e"
  by (simp_all add: opCode_def subCode_def)

lemma after_instr_short:
  assumes "idle s" "length (encode i) = 9" "hd (encode i)"
    and "short_command (s\<lparr>di := last (encode i), clk := False, dataOutBits := 0, command := encode i\<rparr>) = Inr t"
    and "after_instr i s (t\<lparr>clk := True\<rparr>)"
  shows "\<exists>s'. send (encode i) s = Inr s' \<and> after_instr i s s'"
  using send_short [OF assms(1-3)] assms(4,5) by simp

lemma word_at_value:
  "word_at s a = ucast (le_value (\<lambda>i. MemChip_Read8 ((ucast a * 2 AND chip_mask s) + of_nat i) s) 2)"
  by (simp add: word_at_def MemChip_Read_def mem.read_loop_value)

lemma word_at_frame [simp]:
  "word_at (s\<lparr>di := b\<rparr>) = word_at s" "word_at (s\<lparr>clk := b\<rparr>) = word_at s" "word_at (s\<lparr>cs := b\<rparr>) = word_at s"
  "word_at (s\<lparr>command := c\<rparr>) = word_at s" "word_at (s\<lparr>expected := e\<rparr>) = word_at s"
  "word_at (s\<lparr>writeEnable := b\<rparr>) = word_at s" "word_at (s\<lparr>dataOut := d\<rparr>) = word_at s"
  "word_at (s\<lparr>dataOutBits := n\<rparr>) = word_at s" "word_at (clear_command s) = word_at s"
  by (auto simp: fun_eq_iff word_at_value MemChip_Read8_def clear_command_def)

lemmas instr_defs = short_command_def after_instr_def abs_chip_def idle_def eeprom_ok_def

lemma eeprom_EWDS: "idle s \<Longrightarrow> \<exists>s'. send (encode (EWDS x)) s = Inr s' \<and> after_instr (EWDS x) s s'"
  by (rule after_instr_short) (auto simp: instr_defs)

lemma eeprom_EWEN: "idle s \<Longrightarrow> \<exists>s'. send (encode (EWEN x)) s = Inr s' \<and> after_instr (EWEN x) s s'"
  by (rule after_instr_short) (auto simp: instr_defs)

lemma ucast6: "ucast (ucast (take_bit 6 (a :: 6 word)) :: u8) = (ucast a :: u32)"
  by (rule bit_word_eqI) (auto simp: bit_simps dest: bit_imp_le_length)

lemma idle_sizes: "idle s \<Longrightarrow> chip_size s = 128" "idle s \<Longrightarrow> chip_mask s = 127"
  by (auto simp: idle_def eeprom_ok_def)

lemma eeprom_READ: "idle s \<Longrightarrow> \<exists>s'. send (encode (READ a)) s = Inr s' \<and> after_instr (READ a) s s'"
proof (rule after_instr_short)
  assume s: "idle s"
  let ?s = "s\<lparr>di := last (encode (READ a)), clk := False, dataOutBits := 0, command := encode (READ a)\<rparr>"
  have ad: "getCommandAddress ?s = Inr (ucast (take_bit 6 a))"
    by (simp add: command_fields shift_in_bits)
  have "short_command ?s = Inr (clear_command (?s\<lparr>dataOut := word_at ?s a, dataOutBits := 17\<rparr>))"
    by (simp add: short_command_def ad [simplified] ucast6 case_prod_beta flip: word_at_def)
  then show "short_command ?s = Inr (clear_command (?s\<lparr>dataOut := word_at s a, dataOutBits := 17\<rparr>))"
    by simp
  show "after_instr (READ a) s (clear_command (?s\<lparr>dataOut := word_at s a, dataOutBits := 17\<rparr>)\<lparr>clk := True\<rparr>)"
    using s by (auto simp: after_instr_def abs_chip_def idle_def eeprom_ok_def)
qed simp_all

lemma eeprom_ERASE: "idle s \<Longrightarrow> \<exists>s'. send (encode (ERASE a)) s = Inr s' \<and> after_instr (ERASE a) s s'"
proof (rule after_instr_short)
  assume s: "idle s"
  let ?s = "s\<lparr>di := last (encode (ERASE a)), clk := False, dataOutBits := 0, command := encode (ERASE a)\<rparr>"
  let ?t = "clear_command (if writeEnable s then set_word (ucast a * 2) 0xffff ?s else ?s)"
  have ad: "getCommandAddress ?s = Inr (ucast (take_bit 6 a))"
    by (simp add: command_fields shift_in_bits)
  show "short_command ?s = Inr ?t"
    using idle_sizes [OF s] by (simp add: short_command_def ad [simplified] ucast6 store_word_ok)
  show "after_instr (ERASE a) s (?t\<lparr>clk := True\<rparr>)"
    using s idle_sizes [OF s] by (auto simp: after_instr_def abs_chip_def idle_def eeprom_ok_def word_at_set_word fun_eq_iff)
qed simp_all

lemma eeprom_ERAL: "idle s \<Longrightarrow> \<exists>s'. send (encode (ERAL x)) s = Inr s' \<and> after_instr (ERAL x) s s'"
proof (rule after_instr_short)
  assume s: "idle s"
  let ?s = "s\<lparr>di := last (encode (ERAL x)), clk := False, dataOutBits := 0, command := encode (ERAL x)\<rparr>"
  let ?t = "clear_command (if writeEnable s then erase_all ?s else ?s)"
  show "short_command ?s = Inr ?t" by (simp add: short_command_def)
  show "after_instr (ERAL x) s (?t\<lparr>clk := True\<rparr>)"
    using s idle_sizes [OF s] by (auto simp: after_instr_def abs_chip_def idle_def eeprom_ok_def word_at_erase_all)
qed simp_all

lemma after_instr_long:
  assumes "idle s" "encode i = hs @ ds" "length hs = 9" "hd hs" "length ds = 16" "opCode hs = 0 \<and> subCode hs = 1 \<or> opCode hs = 1"
    and "long_command (s\<lparr>expected := 25, di := last ds, clk := False, dataOutBits := 0, command := hs @ ds\<rparr>) = Inr t"
    and "after_instr i s (t\<lparr>clk := True\<rparr>)"
  shows "\<exists>s'. send (encode i) s = Inr s' \<and> after_instr i s s'"
  using send_long [OF assms(1,3-6)] assms(2,7,8) by simp

lemma take_bit_16: "take_bit 16 (v :: u16) = v"
  by (rule bit_word_eqI) (auto simp: bit_simps dest: bit_imp_le_length)

lemma eeprom_WRITE: "idle s \<Longrightarrow> \<exists>s'. send (encode (WRITE a v)) s = Inr s' \<and> after_instr (WRITE a v) s s'"
proof (rule after_instr_long [where hs = "[True, False, True] @ msb_first 6 a" and ds = "msb_first 16 v"])
  assume s: "idle s"
  let ?c = "([True, False, True] @ msb_first 6 a) @ msb_first 16 v"
  let ?s = "s\<lparr>expected := 25, di := last (msb_first 16 v), clk := False, dataOutBits := 0, command := ?c\<rparr>"
  let ?t = "if writeEnable s then set_word (ucast a * 2) v ?s else ?s"
  have "getCommandAddress ?s = Inr (ucast (take_bit 6 a))" "getCommandData ?s = Inr (ucast (take_bit 16 v))"
    by (simp_all only: command_fields length_append length_msb_first list.size) (simp_all add: shift_in_bits)
  then show "long_command ?s = Inr ((clear_command ?t)\<lparr>expected := 0\<rparr>)"
    using idle_sizes [OF s] by (simp add: long_command_def take_bit_16 ucast6 store_word_ok)
  show "after_instr (WRITE a v) s (((clear_command ?t)\<lparr>expected := 0\<rparr>)\<lparr>clk := True\<rparr>)"
    using s idle_sizes [OF s] by (auto simp: after_instr_def abs_chip_def idle_def eeprom_ok_def word_at_set_word fun_eq_iff)
qed simp_all

lemma eeprom_WRAL: "idle s \<Longrightarrow> \<exists>s'. send (encode (WRAL x v)) s = Inr s' \<and> after_instr (WRAL x v) s s'"
proof (rule after_instr_long [where hs = "[True, False, False, False, True] @ msb_first 4 x" and ds = "msb_first 16 v"])
  assume s: "idle s"
  let ?c = "([True, False, False, False, True] @ msb_first 4 x) @ msb_first 16 v"
  let ?s = "s\<lparr>expected := 25, di := last (msb_first 16 v), clk := False, dataOutBits := 0, command := ?c\<rparr>"
  let ?t = "if writeEnable s then set_all 64 v ?s else ?s"
  have "getCommandData ?s = Inr (ucast (take_bit 16 v))"
    by (simp only: command_fields length_append length_msb_first list.size) (simp add: shift_in_bits)
  then show "long_command ?s = Inr ((clear_command ?t)\<lparr>expected := 0\<rparr>)"
    using idle_sizes [OF s] by (simp add: long_command_def take_bit_16 store_all_ok del: store_all.simps set_all.simps)
  have "unat b < 64" for b :: "6 word" using unsigned_less [of b] by simp
  then show "after_instr (WRAL x v) s (((clear_command ?t)\<lparr>expected := 0\<rparr>)\<lparr>clk := True\<rparr>)"
    using s idle_sizes [OF s]
    by (auto simp: after_instr_def abs_chip_def idle_def eeprom_ok_def word_at_set_all fun_eq_iff)
qed simp_all

text \<open>C21: Clocking in the bits of any instruction of the chip does what the instruction says, to the
  64 words and to the write enable, and leaves the chip ready for the next one; after \<open>READ\<close> the
  word is in the output register. While writes are disabled no instruction changes a word.\<close>

theorem eeprom_refines:
  assumes "idle s"
  shows "\<exists>s'. send (encode i) s = Inr s' \<and> after_instr i s s'"
  using assms
  by (cases i) (blast intro: eeprom_EWDS eeprom_WRAL eeprom_ERAL eeprom_EWEN eeprom_WRITE eeprom_READ eeprom_ERASE)+

theorem eeprom_refines_witness:
  "\<exists>s'. send (encode (WRITE 5 0x1234)) (writeCS True AT93C46SerialEeprom) = Inr s'
     \<and> after_instr (WRITE 5 0x1234) (writeCS True AT93C46SerialEeprom) s'"
  by (rule eeprom_refines) (simp add: idle_def eeprom_ok_def AT93C46SerialEeprom_def writeCS_def)

subsection \<open>Reading a word out\<close>

text \<open>After \<open>READ\<close> the host clocks, with the data pin low, and samples the output after every edge.\<close>

primrec read_out :: "nat \<Rightarrow> 'z eeprom_scheme \<Rightarrow> chip_error + bool list \<times> 'z eeprom_scheme" where
  "read_out 0 s = Inr ([], s)"
| "read_out (Suc n) s = sum_bind (clock_bit False s) (\<lambda>s.
     sum_bind (read_out n s) (\<lambda>r. Inr (readDO s # fst r, snd r)))"

lemma clock_out_bit:
  assumes "cs s" "command s = []" "unat (dataOutBits s) = n + 2"
  shows "clock_bit False s = Inr (s\<lparr>di := False, clk := True, dataOutBits := dataOutBits s - 1\<rparr>)"
    and "unat (dataOutBits s - 1) = n + 1"
proof -
  have "dataOutBits s \<noteq> 0" using assms(3) by auto
  then show d: "unat (dataOutBits s - 1) = n + 1" using assms(3) by (simp add: unat_minus_one)
  then have "dataOutBits s - 1 \<noteq> 0" "0 < dataOutBits s" using assms(3) by (auto simp: word_less_nat_alt)
  with assms(1,2) show "clock_bit False s = Inr (s\<lparr>di := False, clk := True, dataOutBits := dataOutBits s - 1\<rparr>)"
    by (simp add: clock_bit_def writeCLK_def writeDI_def Let_def)
qed

lemma readDO_bit:
  assumes "unat (dataOutBits s) = n + 1"
  shows "readDO s = bit (dataOut s) n"
proof -
  have "0 < dataOutBits s" using assms by (simp add: word_less_nat_alt)
  moreover from this have "unat (dataOutBits s - 1) = n" using assms by (simp add: unat_minus_one)
  ultimately have "readDO s \<longleftrightarrow> drop_bit n (dataOut s) AND 1 \<noteq> 0" by (simp add: readDO_def)
  also have "\<dots> \<longleftrightarrow> bit (dataOut s) n" by (simp add: and_one_eq mod_2_eq_odd bit_iff_odd_drop_bit)
  finally show ?thesis .
qed

lemma read_out_bits:
  assumes "eeprom_ok s" "cs s" "command s = []" "unat (dataOutBits s) = n + 1"
  shows "\<exists>s'. read_out n s = Inr (msb_first n (dataOut s), s') \<and> idle s' \<and> abs_chip s' = abs_chip s"
  using assms
proof (induction n arbitrary: s)
  case 0
  then show ?case by (auto simp: idle_def msb_first_def word_le_nat_alt)
next
  case (Suc n)
  let ?t = "s\<lparr>di := False, clk := True, dataOutBits := dataOutBits s - 1\<rparr>"
  have c: "clock_bit False s = Inr ?t" and d: "unat (dataOutBits s - 1) = n + 1"
    using clock_out_bit [of s n] Suc.prems by simp_all
  have "dataOutBits s - 1 \<le> 17"
    using Suc.prems(1,4) d by (simp add: eeprom_ok_def word_le_nat_alt)
  then have "\<exists>s'. read_out n ?t = Inr (msb_first n (dataOut ?t), s') \<and> idle s' \<and> abs_chip s' = abs_chip ?t"
    using Suc.prems d by (intro Suc.IH) (auto simp: eeprom_ok_def)
  moreover have "readDO ?t = bit (dataOut s) n" using readDO_bit [of ?t n] d by simp
  ultimately show ?case using c by (auto simp: abs_chip_def msb_first_def)
qed

text \<open>A word written with \<open>WRITE\<close> can be clocked out again, bit by bit, with \<open>READ\<close>; every
  other word keeps its value.\<close>

theorem eeprom_roundtrip:
  assumes "idle s" "writeEnable s"
  shows "\<exists>s1 s2 s3. send (encode (WRITE a v)) s = Inr s1 \<and> send (encode (READ b)) s1 = Inr s2
    \<and> read_out 16 s2 = Inr (msb_first 16 (if b = a then v else word_at s b), s3) \<and> idle s3"
proof -
  obtain s1 where s1: "send (encode (WRITE a v)) s = Inr s1" "after_instr (WRITE a v) s s1"
    using eeprom_WRITE [OF assms(1)] by blast
  then have w: "idle s1" "word_at s1 = (word_at s)(a := v)"
    using assms(2) by (auto simp: after_instr_def abs_chip_def)
  obtain s2 where s2: "send (encode (READ b)) s1 = Inr s2" "after_instr (READ b) s1 s2"
    using eeprom_READ [OF w(1)] by blast
  then have "dataOut s2 = (if b = a then v else word_at s b)" using w(2) by (simp add: after_instr_def)
  moreover obtain s3 where "read_out 16 s2 = Inr (msb_first 16 (dataOut s2), s3)" "idle s3"
    using read_out_bits [of s2 16] s2(2) by (auto simp: after_instr_def)
  ultimately show ?thesis using s1(1) s2(1) by auto
qed

theorem eeprom_roundtrip_witness:
  "\<exists>s1 s2 s3. send (encode (WRITE 5 0x1234)) (writeCS True (AT93C46SerialEeprom\<lparr>writeEnable := True\<rparr>)) = Inr s1
    \<and> send (encode (READ 5)) s1 = Inr s2 \<and> read_out 16 s2 = Inr (msb_first 16 (0x1234 :: u16), s3) \<and> idle s3"
proof -
  let ?s = "writeCS True (AT93C46SerialEeprom\<lparr>writeEnable := True\<rparr>)"
  have "idle ?s" "writeEnable ?s"
    by (simp_all add: idle_def eeprom_ok_def AT93C46SerialEeprom_def writeCS_def)
  from eeprom_roundtrip [OF this, where a = 5 and v = "0x1234" and b = 5]
  show ?thesis by (simp only: simp_thms if_True)
qed

end
