(* ===== verification/Serial_Flash.thy ===== *)
theory Serial_Flash
  imports Mem_Chip
begin

section \<open>X76F100 security flash\<close>

text \<open>
  The password protected serial flash of the Naomi boards and cartridges
  (\<open>core/hw/flashrom/x76f100.h\<close> and \<open>x76f100.cpp\<close>), with the board registers that drive its
  pins (\<open>core/hw/naomi/naomi.cpp\<close>). An array access outside of an array is the error
  \<open>Out_of_bounds\<close>.

  The bytes that go over the two wires are the abstraction: the first lemmas show that clocking
  in the eight bits of a byte and the acknowledge does what \<open>take_byte\<close> does with the byte, and
  that clocking out gives the byte of the array. The properties state what a host's
  transactions then do.
\<close>

datatype x76_state =
  X_STOP | RESPONSE_TO_RESET | LOAD_COMMAND | LOAD_PASSWORD | VERIFY_PASSWORD | READ_DATA | WRITE_DATA

record x76_st =
  x_data :: "nat \<Rightarrow> u8"
  readPassword :: "nat \<Rightarrow> u8"
  writePassword :: "nat \<Rightarrow> u8"
  responseToReset :: "nat \<Rightarrow> u8"
  writeBuffer :: "nat \<Rightarrow> u8"
  lastSCL :: bool
  lastSDA :: bool
  sda :: bool
  lastRST :: bool
  lastCS :: bool
  SCLChanged :: bool
  x_state :: x76_state
  x_command :: u8
  byteOffset :: u8
  x_bit :: u8
  x_shift :: u8

subsection \<open>Operations\<close>

definition X76F100SerialFlash :: x76_st where
  "X76F100SerialFlash = \<lparr>x_data = (\<lambda>i. 0), readPassword = (\<lambda>i. 0), writePassword = (\<lambda>i. 0),
     responseToReset = (!) [0x19, 0x00, 0xaa, 0x55], writeBuffer = (\<lambda>i. 0), lastSCL = False,
     lastSDA = False, sda = False, lastRST = False, lastCS = False, SCLChanged = False,
     x_state = X_STOP, x_command = 0, byteOffset = 0, x_bit = 0, x_shift = 0\<rparr>"

definition x76_reset :: "'z x76_st_scheme \<Rightarrow> 'z x76_st_scheme" where
  "x76_reset s = s\<lparr>lastSCL := False, SCLChanged := False, lastSDA := False, sda := False, lastRST := False,
     lastCS := False, x_state := X_STOP, x_bit := 0, byteOffset := 0, x_command := 0, x_shift := 0,
     writeBuffer := \<lambda>i. 0\<rparr>"

definition readSDA :: "'z x76_st_scheme \<Rightarrow> bool" where
  "readSDA s = (if lastCS s then True else sda s)"

definition x76_writeCS :: "bool \<Rightarrow> 'z x76_st_scheme \<Rightarrow> 'z x76_st_scheme" where
  "x76_writeCS v s =
     (if lastCS s \<and> \<not> v then s\<lparr>x_state := X_STOP\<rparr>
      else if \<not> lastCS s \<and> v then s\<lparr>x_state := X_STOP, sda := False\<rparr>
      else s)\<lparr>lastCS := v\<rparr>"

definition writeRST :: "bool \<Rightarrow> 'z x76_st_scheme \<Rightarrow> 'z x76_st_scheme" where
  "writeRST v s =
     (if v \<and> \<not> lastRST s \<and> \<not> lastCS s then s\<lparr>x_state := RESPONSE_TO_RESET, x_bit := 0, byteOffset := 0\<rparr>
      else s)\<lparr>lastRST := v\<rparr>"

definition setData :: "(nat \<Rightarrow> u8) \<Rightarrow> 'z x76_st_scheme \<Rightarrow> 'z x76_st_scheme" where
  "setData dat s = s\<lparr>responseToReset := \<lambda>i. dat i, writePassword := \<lambda>i. dat (4 + i),
     readPassword := \<lambda>i. dat (12 + i), x_data := \<lambda>i. dat (20 + i)\<rparr>"

definition getProtectedData :: "'z x76_st_scheme \<Rightarrow> nat \<Rightarrow> u8" where
  "getProtectedData s = x_data s"

text \<open>The position in the array, if it is inside.\<close>

definition dataOffset :: "'z x76_st_scheme \<Rightarrow> nat option" where
  "dataOffset s =
     (let block_offset = unat (drop_bit 1 (x_command s) AND 0x0f);
          offset = block_offset * 8 + unat (byteOffset s)
      in if 112 \<le> offset then None else Some offset)"

text \<open>The loop that copies the buffer to the array.\<close>

primrec store_buffer :: "nat \<Rightarrow> 'z x76_st_scheme \<Rightarrow> 'z x76_st_scheme" where
  "store_buffer 0 s = s"
| "store_buffer (Suc n) s =
     (let s = s\<lparr>byteOffset := of_nat (7 - n)\<rparr>
      in case dataOffset s of
           None \<Rightarrow> s
         | Some offset \<Rightarrow> store_buffer n (s\<lparr>x_data := (x_data s)(offset := writeBuffer s (unat (byteOffset s)))\<rparr>))"

text \<open>\<open>writeBuffer[byteOffset++] = shift\<close>\<close>

definition push_buffer :: "'z x76_st_scheme \<Rightarrow> chip_error + 'z x76_st_scheme" where
  "push_buffer s =
     (if 8 \<le> unat (byteOffset s) then Inl Out_of_bounds
      else Inr (s\<lparr>writeBuffer := (writeBuffer s)(unat (byteOffset s) := x_shift s), byteOffset := byteOffset s + 1\<rparr>))"

text \<open>The inner switch: a whole byte has come, and the clock of its acknowledge.\<close>

definition take_byte :: "'z x76_st_scheme \<Rightarrow> chip_error + 'z x76_st_scheme" where
  "take_byte s =
     (case x_state s of
        LOAD_COMMAND \<Rightarrow> Inr (s\<lparr>x_command := x_shift s, x_state := LOAD_PASSWORD\<rparr>)
      | LOAD_PASSWORD \<Rightarrow> sum_bind (push_buffer s) (\<lambda>s.
          Inr (if byteOffset s = 8 then s\<lparr>x_state := VERIFY_PASSWORD\<rparr> else s))
      | VERIFY_PASSWORD \<Rightarrow>
          Inr (if x_shift s = 0x55
               then if x_command s AND 0x81 = 0x81 then s\<lparr>x_state := READ_DATA\<rparr>
                    else if x_command s AND 0x81 = 0x80 then s\<lparr>x_state := WRITE_DATA\<rparr>
                    else s
               else s)
      | WRITE_DATA \<Rightarrow> sum_bind (push_buffer s) (\<lambda>s.
          Inr (if byteOffset s = 8
               then (if x_command s = 0xfc then s\<lparr>writeBuffer := writePassword s\<rparr>
                     else if x_command s = 0xfe then s\<lparr>writeBuffer := readPassword s\<rparr>
                     else store_buffer 8 s)\<lparr>byteOffset := 0\<rparr>
               else s))
      | _ \<Rightarrow> Inr s)"

definition response_edge :: "bool \<Rightarrow> 'z x76_st_scheme \<Rightarrow> chip_error + 'z x76_st_scheme" where
  "response_edge v s =
     (if lastSCL s \<and> \<not> v
      then if x_bit s = 0 \<and> 4 \<le> unat (byteOffset s) then Inl Out_of_bounds
           else let s = (if x_bit s = 0 then s\<lparr>x_shift := responseToReset s (unat (byteOffset s))\<rparr> else s);
                    s = s\<lparr>sda := x_shift s AND 1 \<noteq> 0, x_shift := drop_bit 1 (x_shift s), x_bit := x_bit s + 1\<rparr>
                in Inr (if x_bit s = 8
                        then (let s = s\<lparr>x_bit := 0, byteOffset := byteOffset s + 1\<rparr>
                              in if byteOffset s = 4 then s\<lparr>byteOffset := 0\<rparr> else s)
                        else s)
      else Inr s)"

definition collect_edge :: "bool \<Rightarrow> 'z x76_st_scheme \<Rightarrow> chip_error + 'z x76_st_scheme" where
  "collect_edge v s =
     (if \<not> lastSCL s \<and> v
      then if x_bit s < 8
           then Inr (s\<lparr>x_shift := push_bit 1 (x_shift s) OR of_bool (lastSDA s), x_bit := x_bit s + 1\<rparr>)
           else sum_bind (take_byte (s\<lparr>sda := False\<rparr>)) (\<lambda>s. Inr (s\<lparr>x_bit := 0, x_shift := 0\<rparr>))
      else Inr s)"

definition read_edge :: "bool \<Rightarrow> 'z x76_st_scheme \<Rightarrow> 'z x76_st_scheme" where
  "read_edge v s =
     (if \<not> lastSCL s \<and> v
      then if x_bit s < 8
           then let s = (if x_bit s = 0
                         then s\<lparr>x_shift := (case dataOffset s of Some offset \<Rightarrow> x_data s offset | None \<Rightarrow> 0)\<rparr> else s)
                in s\<lparr>sda := drop_bit 7 (x_shift s) AND 1 \<noteq> 0, x_shift := push_bit 1 (x_shift s), x_bit := x_bit s + 1\<rparr>
           else (if \<not> lastSDA s then s\<lparr>x_bit := 0, sda := False, byteOffset := byteOffset s + 1\<rparr>
                 else s\<lparr>x_bit := 0, sda := False\<rparr>)
      else s)"

definition writeSCL :: "bool \<Rightarrow> 'z x76_st_scheme \<Rightarrow> chip_error + 'z x76_st_scheme" where
  "writeSCL v s =
     sum_bind
       (if \<not> lastCS s
        then (case x_state s of
                X_STOP \<Rightarrow> Inr s
              | RESPONSE_TO_RESET \<Rightarrow> response_edge v s
              | READ_DATA \<Rightarrow> Inr (read_edge v s)
              | _ \<Rightarrow> collect_edge v s)
        else Inr s)
       (\<lambda>s. Inr (s\<lparr>SCLChanged := lastSCL s \<noteq> v, lastSCL := v\<rparr>))"

definition writeSDA :: "bool \<Rightarrow> 'z x76_st_scheme \<Rightarrow> 'z x76_st_scheme" where
  "writeSDA v s =
     (if lastSCL s \<and> \<not> SCLChanged s \<and> \<not> lastCS s
      then let s = (if \<not> lastSDA s \<and> v then s\<lparr>x_state := X_STOP, sda := False\<rparr> else s)
           in if lastSDA s \<and> \<not> v
              then (if x_state s = X_STOP then s\<lparr>x_state := LOAD_COMMAND\<rparr> else s)
                     \<lparr>x_bit := 0, byteOffset := 0, x_shift := 0, sda := False\<rparr>
              else s
      else s)\<lparr>lastSDA := v\<rparr>"

subsection \<open>The board registers\<close>

definition NaomiBoardIDWrite :: "u16 \<Rightarrow> 'z x76_st_scheme \<Rightarrow> chip_error + 'z x76_st_scheme" where
  "NaomiBoardIDWrite dat s =
     sum_bind (writeSCL (dat AND 4 \<noteq> 0) (writeRST (dat AND 0x10 \<noteq> 0) (x76_writeCS (dat AND 0x20 \<noteq> 0) s)))
       (\<lambda>s. Inr (writeSDA (dat AND 8 \<noteq> 0) s))"

definition NaomiBoardIDRead :: "'z x76_st_scheme \<Rightarrow> u16" where
  "NaomiBoardIDRead s = push_bit 3 (of_bool (readSDA s)) OR 1"

definition NaomiGameIDWrite :: "u16 \<Rightarrow> 'z x76_st_scheme \<Rightarrow> chip_error + 'z x76_st_scheme" where
  "NaomiGameIDWrite dat s =
     sum_bind (writeSCL (dat AND 2 \<noteq> 0) (writeRST (dat AND 8 \<noteq> 0) (x76_writeCS (dat AND 4 \<noteq> 0) s)))
       (\<lambda>s. Inr (writeSDA (dat AND 1 \<noteq> 0) s))"

definition NaomiGameIDRead :: "'z x76_st_scheme \<Rightarrow> u16" where
  "NaomiGameIDRead s = push_bit 15 (of_bool (readSDA s))"

subsection \<open>Bytes on the wires\<close>

text \<open>The host changes the two pins with one register write; the chip is selected, its reset pin low.\<close>

definition pins :: "bool \<Rightarrow> bool \<Rightarrow> 'z x76_st_scheme \<Rightarrow> chip_error + 'z x76_st_scheme" where
  "pins scl d s = sum_bind (writeSCL scl s) (\<lambda>s. Inr (writeSDA d s))"

lemma pins_board:
  assumes "\<not> lastCS s" "\<not> lastRST s"
  shows "NaomiBoardIDWrite (of_bool d * 8 OR of_bool scl * 4) s = pins scl d s"
    "NaomiGameIDWrite (of_bool d OR of_bool scl * 2) s = pins scl d s"
proof -
  have c: "x76_writeCS False s = s" "writeRST False s = s"
    using assms by (simp_all add: x76_writeCS_def writeRST_def)
  show "NaomiBoardIDWrite (of_bool d * 8 OR of_bool scl * 4) s = pins scl d s"
    "NaomiGameIDWrite (of_bool d OR of_bool scl * 2) s = pins scl d s"
    by (cases d; cases scl; simp add: NaomiBoardIDWrite_def NaomiGameIDWrite_def pins_def c)+
qed

definition wire_bit :: "bool \<Rightarrow> 'z x76_st_scheme \<Rightarrow> chip_error + 'z x76_st_scheme" where
  "wire_bit b s = sum_bind (pins False b s) (\<lambda>s. sum_bind (pins True b s) (pins False b))"

primrec wire_bits :: "bool list \<Rightarrow> 'z x76_st_scheme \<Rightarrow> chip_error + 'z x76_st_scheme" where
  "wire_bits [] s = Inr s"
| "wire_bits (b # bs) s = sum_bind (wire_bit b s) (wire_bits bs)"

definition wire_byte :: "u8 \<Rightarrow> 'z x76_st_scheme \<Rightarrow> chip_error + 'z x76_st_scheme" where
  "wire_byte v s = sum_bind (wire_bits (msb_first 8 v) s) (wire_bit True)"

definition wire_start :: "'z x76_st_scheme \<Rightarrow> chip_error + 'z x76_st_scheme" where
  "wire_start s = sum_bind (pins False True s) (\<lambda>s. sum_bind (pins True True s) (\<lambda>s.
     sum_bind (pins True False s) (pins False False)))"

definition wire_stop :: "'z x76_st_scheme \<Rightarrow> chip_error + 'z x76_st_scheme" where
  "wire_stop s = sum_bind (pins False False s) (\<lambda>s. sum_bind (pins True False s) (\<lambda>s.
     sum_bind (pins True True s) (pins False True)))"

text \<open>What a transaction is about, without the pins.\<close>

definition collecting :: "x76_state \<Rightarrow> bool" where
  "collecting st \<longleftrightarrow> st = LOAD_COMMAND \<or> st = LOAD_PASSWORD \<or> st = VERIFY_PASSWORD \<or> st = WRITE_DATA"

definition low :: "'z x76_st_scheme \<Rightarrow> bool" where
  "low s \<longleftrightarrow> \<not> lastCS s \<and> \<not> lastSCL s"

lemma pins_low:
  "low s \<Longrightarrow> pins False d s = Inr (s\<lparr>SCLChanged := False, lastSDA := d\<rparr>)"
  by (cases "x_state s")
    (simp_all add: low_def pins_def writeSCL_def writeSDA_def collect_edge_def read_edge_def response_edge_def)

lemma pins_fall:
  "\<not> lastCS s \<Longrightarrow> lastSCL s \<Longrightarrow> x_state s \<noteq> RESPONSE_TO_RESET \<Longrightarrow> 
    pins False d s = Inr (s\<lparr>SCLChanged := True, lastSCL := False, lastSDA := d\<rparr>)"
  by (cases "x_state s")
    (simp_all add: pins_def writeSCL_def writeSDA_def collect_edge_def read_edge_def)

lemma collecting_case:
  "collecting st \<Longrightarrow> (case st of X_STOP \<Rightarrow> a | RESPONSE_TO_RESET \<Rightarrow> b | READ_DATA \<Rightarrow> c | _ \<Rightarrow> d) = d"
  by (auto simp: collecting_def)

lemma wire_bit_collect:
  assumes "low s" "collecting (x_state s)" "x_bit s < 8"
  shows "wire_bit b s = Inr (s\<lparr>lastSDA := b, x_shift := push_bit 1 (x_shift s) OR of_bool b, x_bit := x_bit s + 1,
    SCLChanged := True, lastSCL := False\<rparr>)"
proof -
  let ?t = "s\<lparr>SCLChanged := False, lastSDA := b\<rparr>"
  let ?u = "s\<lparr>lastSDA := b, x_shift := push_bit 1 (x_shift s) OR of_bool b, x_bit := x_bit s + 1, SCLChanged := True, lastSCL := True\<rparr>"
  have "pins True b ?t = Inr ?u"
    using assms by (simp add: low_def pins_def writeSCL_def writeSDA_def collecting_case collect_edge_def)
  moreover have "pins False b ?u = Inr (?u\<lparr>SCLChanged := True, lastSCL := False, lastSDA := b\<rparr>)"
    using assms by (intro pins_fall) (auto simp: low_def collecting_def)
  ultimately show ?thesis using pins_low [OF assms(1)] by (simp add: wire_bit_def)
qed

lemma wire_bits_collect:
  assumes "low s" "collecting (x_state s)" "unat (x_bit s) + length bs \<le> 8" "bs \<noteq> []"
  shows "wire_bits bs s = Inr (s\<lparr>lastSDA := last bs, x_shift := foldl (\<lambda>v b. push_bit 1 v OR of_bool b) (x_shift s) bs,
    x_bit := x_bit s + of_nat (length bs), SCLChanged := True, lastSCL := False\<rparr>)"
  using assms
proof (induction bs arbitrary: s)
  case (Cons b bs)
  let ?t = "s\<lparr>lastSDA := b, x_shift := push_bit 1 (x_shift s) OR of_bool b, x_bit := x_bit s + 1,
    SCLChanged := True, lastSCL := False\<rparr>"
  have "unat (x_bit s) < 8" using Cons.prems(3) by simp
  then have w: "wire_bit b s = Inr ?t" using Cons.prems by (intro wire_bit_collect) (simp_all add: word_less_nat_alt)
  show ?case
  proof (cases "bs = []")
    case False
    have "unat (x_bit s + 1) = unat (x_bit s) + 1" using Cons.prems(3) by (simp add: unat_word_ariths(1))
    then have "wire_bits bs ?t = Inr (?t\<lparr>lastSDA := last bs, x_shift := foldl (\<lambda>v b. push_bit 1 v OR of_bool b) (x_shift ?t) bs,
        x_bit := x_bit ?t + of_nat (length bs), SCLChanged := True, lastSCL := False\<rparr>)"
      using Cons.prems False by (intro Cons.IH) (simp_all add: low_def)
    with w False show ?thesis by (simp add: algebra_simps)
  qed (use w in simp)
qed simp

lemma store_buffer_frame [simp]:
  "lastCS (store_buffer n s) = lastCS s" "lastSCL (store_buffer n s) = lastSCL s" "lastSDA (store_buffer n s) = lastSDA s"
  "SCLChanged (store_buffer n s) = SCLChanged s" "x_state (store_buffer n s) = x_state s" "x_command (store_buffer n s) = x_command s"
  "writeBuffer (store_buffer n s) = writeBuffer s" "sda (store_buffer n s) = sda s" "x_bit (store_buffer n s) = x_bit s"
  "x_shift (store_buffer n s) = x_shift s" "readPassword (store_buffer n s) = readPassword s"
  "writePassword (store_buffer n s) = writePassword s" "lastRST (store_buffer n s) = lastRST s"
  by (induction n arbitrary: s) (simp_all add: Let_def split: option.split)

lemma take_byte_frame:
  assumes "take_byte s = Inr s'" "collecting (x_state s)"
  shows "lastCS s' = lastCS s" "lastSCL s' = lastSCL s" "lastSDA s' = lastSDA s" "SCLChanged s' = SCLChanged s"
    "x_state s' \<noteq> RESPONSE_TO_RESET" "x_state s' \<noteq> X_STOP"
  using assms by (auto simp: take_byte_def push_buffer_def collecting_def Let_def split: if_splits)

text \<open>A byte and its acknowledge on the wires do what the inner switch does with the byte.\<close>

lemma wire_byte_takes:
  assumes "low s" "collecting (x_state s)" "x_bit s = 0"
  shows "wire_byte v s = sum_bind (take_byte (s\<lparr>lastSDA := True, x_shift := v, x_bit := 8, SCLChanged := False, lastSCL := False, sda := False\<rparr>))
    (\<lambda>s. Inr (s\<lparr>x_bit := 0, x_shift := 0, SCLChanged := True, lastSCL := False, lastSDA := True\<rparr>))"
proof -
  let ?a = "s\<lparr>lastSDA := last (msb_first 8 v), x_shift := v, x_bit := 8, SCLChanged := True, lastSCL := False\<rparr>"
  let ?b = "s\<lparr>lastSDA := True, x_shift := v, x_bit := 8, SCLChanged := False, lastSCL := False\<rparr>"
  have ne: "msb_first 8 v \<noteq> []" using length_msb_first [of 8 v] by (metis list.size(3) zero_neq_numeral)
  have "push_bit 8 (x_shift s) OR ucast (take_bit 8 v) = v"
    by (rule bit_word_eqI) (auto simp: bit_simps dest: bit_imp_le_length)
  then have "wire_bits (msb_first 8 v) s = Inr ?a"
    using wire_bits_collect [OF assms(1,2) _ ne] assms(3) by (simp only: foldl_bits length_msb_first) simp
  moreover have "pins False True ?a = Inr ?b"
    using assms(1) by (subst pins_low) (simp_all add: low_def)
  moreover have "sum_bind (pins True True ?b) (pins False True)
      = sum_bind (take_byte (?b\<lparr>sda := False\<rparr>))
          (\<lambda>s. Inr (s\<lparr>x_bit := 0, x_shift := 0, SCLChanged := True, lastSCL := False, lastSDA := True\<rparr>))"
  proof (cases "take_byte (?b\<lparr>sda := False\<rparr>)")
    case (Inl e)
    with assms show ?thesis
      by (simp add: low_def pins_def writeSCL_def collecting_case collect_edge_def)
  next
    case (Inr t)
    note f = take_byte_frame [OF Inr]
    have "pins True True ?b = Inr (t\<lparr>x_bit := 0, x_shift := 0, SCLChanged := True, lastSCL := True, lastSDA := True\<rparr>)"
      using assms f Inr by (simp add: low_def pins_def writeSCL_def writeSDA_def collecting_case collect_edge_def)
    moreover have "\<not> lastCS t" "x_state t \<noteq> RESPONSE_TO_RESET" using f assms by (simp_all add: low_def)
    ultimately show ?thesis using Inr by (simp add: pins_fall)
  qed
  ultimately show ?thesis by (simp add: wire_byte_def wire_bit_def)
qed

lemma wire_start_from:
  assumes "low s" "pins True True (s\<lparr>SCLChanged := False, lastSDA := True\<rparr>) = Inr t"
    and "\<not> lastCS t" "lastSCL t" "lastSDA t" "x_state t = X_STOP \<or> x_state t = VERIFY_PASSWORD"
  shows "wire_start s = Inr (t\<lparr>x_state := (if x_state t = X_STOP then LOAD_COMMAND else x_state t), x_bit := 0, byteOffset := 0,
    x_shift := 0, sda := False, SCLChanged := True, lastSCL := False, lastSDA := False\<rparr>)"
proof -
  let ?c = "t\<lparr>x_state := (if x_state t = X_STOP then LOAD_COMMAND else x_state t), x_bit := 0, byteOffset := 0,
    x_shift := 0, sda := False, SCLChanged := False, lastSDA := False\<rparr>"
  have scl: "writeSCL True t = Inr (t\<lparr>SCLChanged := False\<rparr>)"
    using assms(3-6) by (auto simp: writeSCL_def collect_edge_def)
  have "pins True False t = Inr ?c"
    using assms(3-6) unfolding pins_def scl by (auto simp: writeSDA_def Let_def)
  moreover have "pins False False ?c = Inr (?c\<lparr>SCLChanged := True, lastSCL := False, lastSDA := False\<rparr>)"
    using assms(3-6) by (intro pins_fall) auto
  ultimately show ?thesis using pins_low [OF assms(1), of True] assms(2) by (simp add: wire_start_def)
qed

lemma wire_start_stop:
  assumes "low s" "x_state s = X_STOP"
  shows "wire_start s = Inr (s\<lparr>lastSDA := False, SCLChanged := True, lastSCL := False, sda := False, x_bit := 0, byteOffset := 0,
    x_shift := 0, x_state := LOAD_COMMAND\<rparr>)"
proof -
  let ?t = "s\<lparr>SCLChanged := True, lastSDA := True, lastSCL := True\<rparr>"
  have "pins True True (s\<lparr>SCLChanged := False, lastSDA := True\<rparr>) = Inr ?t"
    using assms by (simp add: low_def pins_def writeSCL_def writeSDA_def)
  then have "wire_start s = Inr (?t\<lparr>x_state := (if x_state ?t = X_STOP then LOAD_COMMAND else x_state ?t), x_bit := 0, byteOffset := 0,
    x_shift := 0, sda := False, SCLChanged := True, lastSCL := False, lastSDA := False\<rparr>)"
    using assms by (intro wire_start_from) (simp_all add: low_def)
  then show ?thesis using assms(2) by simp
qed

lemma wire_start_verify:
  assumes "low s" "x_state s = VERIFY_PASSWORD" "x_bit s = 0"
  shows "wire_start s = Inr (s\<lparr>lastSDA := False, SCLChanged := True, lastSCL := False, sda := False, x_bit := 0, byteOffset := 0,
    x_shift := 0\<rparr>)"
proof -
  let ?t = "s\<lparr>SCLChanged := True, lastSDA := True, lastSCL := True, x_shift := push_bit 1 (x_shift s) OR 1, x_bit := 1\<rparr>"
  have "pins True True (s\<lparr>SCLChanged := False, lastSDA := True\<rparr>) = Inr ?t"
    using assms by (simp add: low_def pins_def writeSCL_def writeSDA_def collect_edge_def)
  then have "wire_start s = Inr (?t\<lparr>x_state := (if x_state ?t = X_STOP then LOAD_COMMAND else x_state ?t), x_bit := 0, byteOffset := 0,
    x_shift := 0, sda := False, SCLChanged := True, lastSCL := False, lastSDA := False\<rparr>)"
    using assms by (intro wire_start_from) (simp_all add: low_def)
  then show ?thesis using assms(2) by (cases s) simp
qed

subsection \<open>Transactions\<close>

primrec wire_bytes :: "u8 list \<Rightarrow> 'z x76_st_scheme \<Rightarrow> chip_error + 'z x76_st_scheme" where
  "wire_bytes [] s = Inr s"
| "wire_bytes (v # vs) s = sum_bind (wire_byte v s) (wire_bytes vs)"

text \<open>Between two bytes: the clock is low and no bit of the next byte has come.\<close>

definition between :: "x76_state \<Rightarrow> nat \<Rightarrow> 'z x76_st_scheme \<Rightarrow> bool" where
  "between st k s \<longleftrightarrow> low s \<and> x_bit s = 0 \<and> x_state s = st \<and> unat (byteOffset s) = k"

text \<open>What the password phase leaves alone.\<close>

definition same_memory :: "'z x76_st_scheme \<Rightarrow> 'z x76_st_scheme \<Rightarrow> bool" where
  "same_memory s s' \<longleftrightarrow> x_data s' = x_data s \<and> x_command s' = x_command s
     \<and> readPassword s' = readPassword s \<and> writePassword s' = writePassword s"

lemma same_memory_refl [simp]: "same_memory s s"
  by (simp add: same_memory_def)

lemma same_memory_trans: "same_memory s t \<Longrightarrow> same_memory t u \<Longrightarrow> same_memory s u"
  by (simp add: same_memory_def)

lemma offset_step: "unat (b :: u8) = k \<Longrightarrow> k < 8 \<Longrightarrow> unat (b + 1) = k + 1" "unat (b :: u8) = k \<Longrightarrow> b = 8 \<longleftrightarrow> k = 8"
  by (auto simp: unat_word_ariths(1) word_unat_eq_iff)

lemma wire_byte_command:
  assumes "between LOAD_COMMAND k s"
  shows "\<exists>s'. wire_byte v s = Inr s' \<and> between LOAD_PASSWORD k s' \<and> x_command s' = v
    \<and> x_data s' = x_data s \<and> readPassword s' = readPassword s \<and> writePassword s' = writePassword s"
  using assms
  by (simp add: between_def wire_byte_takes collecting_def take_byte_def low_def)

lemma wire_byte_buffer:
  assumes "between st k s" "st = LOAD_PASSWORD \<or> st = WRITE_DATA" "k < 7"
  shows "\<exists>s'. wire_byte v s = Inr s' \<and> between st (k + 1) s' \<and> same_memory s s' \<and> writeBuffer s' = (writeBuffer s)(k := v)"
proof -
  have "unat (byteOffset s + 1) = k + 1" "byteOffset s + 1 \<noteq> 8"
    using assms offset_step(1) [of "byteOffset s" k] offset_step(2) [of "byteOffset s + 1" "k + 1"]
    by (auto simp: between_def)
  then show ?thesis
    using assms
    by (auto simp: between_def wire_byte_takes collecting_def take_byte_def push_buffer_def low_def same_memory_def Let_def)
qed

lemma wire_bytes_buffer:
  assumes "between st k s" "st = LOAD_PASSWORD \<or> st = WRITE_DATA" "k + length vs < 8"
  shows "\<exists>s'. wire_bytes vs s = Inr s' \<and> between st (k + length vs) s' \<and> same_memory s s'
    \<and> (\<forall>i. writeBuffer s' i = (if k \<le> i \<and> i < k + length vs then vs ! (i - k) else writeBuffer s i))"
  using assms
proof (induction vs arbitrary: s k)
  case (Cons v vs)
  then obtain t where t: "wire_byte v s = Inr t" "between st (k + 1) t" "same_memory s t" "writeBuffer t = (writeBuffer s)(k := v)"
    using wire_byte_buffer [of st k s v] by auto
  then obtain u where u: "wire_bytes vs t = Inr u" "between st (k + 1 + length vs) u" "same_memory t u"
    "\<forall>i. writeBuffer u i = (if k + 1 \<le> i \<and> i < k + 1 + length vs then vs ! (i - (k + 1)) else writeBuffer t i)"
    using Cons.IH [of "k + 1" t] Cons.prems(2,3) by auto
  have "writeBuffer u i = (if k \<le> i \<and> i < k + length (v # vs) then (v # vs) ! (i - k) else writeBuffer s i)" for i
  proof (cases "k < i")
    case True
    then have "i - k = Suc (i - (k + 1))" by linarith
    with True show ?thesis using u(4) t(4) by auto
  next
    case False
    then show ?thesis using u(4) t(4) by auto
  qed
  moreover have "same_memory s u" using t(3) u(3) by (rule same_memory_trans)
  ultimately show ?case using t(1) u(1,2) by simp
qed auto

lemma wire_byte_last_password:
  assumes "between LOAD_PASSWORD 7 s"
  shows "\<exists>s'. wire_byte v s = Inr s' \<and> between VERIFY_PASSWORD 8 s' \<and> same_memory s s'"
proof -
  have "unat (byteOffset s + 1) = 8" "byteOffset s + 1 = 8"
    using assms offset_step(1) [of "byteOffset s" 7] offset_step(2) [of "byteOffset s + 1" 8] by (auto simp: between_def)
  then show ?thesis
    using assms
    by (auto simp: between_def wire_byte_takes collecting_def take_byte_def push_buffer_def low_def same_memory_def Let_def)
qed

lemma wire_bytes_append: "wire_bytes (xs @ ys) s = sum_bind (wire_bytes xs s) (wire_bytes ys)"
proof (induction xs arbitrary: s)
  case (Cons x xs)
  then show ?case by (cases "wire_byte x s") simp_all
qed simp

lemma wire_bytes_password:
  assumes "between LOAD_PASSWORD 0 s" "length ps = 8"
  shows "\<exists>s'. wire_bytes ps s = Inr s' \<and> between VERIFY_PASSWORD 8 s' \<and> same_memory s s'"
proof -
  have ps: "ps = butlast ps @ [last ps]" "length (butlast ps) = 7" using assms(2) by (auto simp flip: length_greater_0_conv)
  obtain t where t: "wire_bytes (butlast ps) s = Inr t" "between LOAD_PASSWORD 7 t" "same_memory s t"
    using wire_bytes_buffer [OF assms(1), of "butlast ps"] ps(2) by auto
  obtain u where u: "wire_byte (last ps) t = Inr u" "between VERIFY_PASSWORD 8 u" "same_memory t u"
    using wire_byte_last_password [OF t(2)] by blast
  have "wire_bytes ps s = Inr u" using t(1) u(1) by (subst ps(1)) (simp add: wire_bytes_append)
  then show ?thesis using u(2) same_memory_trans [OF t(3) u(3)] by blast
qed

text \<open>Start, command, password; the acknowledge is polled after another start.\<close>

definition open_password :: "u8 \<Rightarrow> u8 list \<Rightarrow> 'z x76_st_scheme \<Rightarrow> chip_error + 'z x76_st_scheme" where
  "open_password cmd ps s = sum_bind (wire_start s) (wire_bytes (cmd # ps))"

definition open_session :: "u8 \<Rightarrow> u8 list \<Rightarrow> 'z x76_st_scheme \<Rightarrow> chip_error + 'z x76_st_scheme" where
  "open_session cmd ps s =
     sum_bind (open_password cmd ps s) (\<lambda>s. sum_bind (wire_start s) (wire_byte 0x55))"

definition granted :: "u8 \<Rightarrow> x76_state" where
  "granted cmd = (if cmd AND 0x81 = 0x81 then READ_DATA else if cmd AND 0x81 = 0x80 then WRITE_DATA else VERIFY_PASSWORD)"

lemma open_password_effect:
  assumes "low s" "x_state s = X_STOP" "length ps = 8"
  shows "\<exists>s'. open_password cmd ps s = Inr s' \<and> between VERIFY_PASSWORD 8 s' \<and> x_command s' = cmd
    \<and> x_data s' = x_data s \<and> readPassword s' = readPassword s \<and> writePassword s' = writePassword s"
proof -
  let ?a = "s\<lparr>lastSDA := False, SCLChanged := True, lastSCL := False, sda := False, x_bit := 0, byteOffset := 0,
    x_shift := 0, x_state := LOAD_COMMAND\<rparr>"
  have "between LOAD_COMMAND 0 ?a" using assms(1) by (simp add: between_def low_def)
  then obtain b where b: "wire_byte cmd ?a = Inr b" "between LOAD_PASSWORD 0 b" "x_command b = cmd"
      "x_data b = x_data s" "readPassword b = readPassword s" "writePassword b = writePassword s"
    using wire_byte_command [of 0 ?a cmd] by auto
  obtain c where "wire_bytes ps b = Inr c" "between VERIFY_PASSWORD 8 c" "same_memory b c"
    using wire_bytes_password [OF b(2) assms(3)] by blast
  then show ?thesis
    using b wire_start_stop [OF assms(1,2)] by (simp add: open_password_def same_memory_def)
qed

lemma wire_byte_ack:
  assumes "between VERIFY_PASSWORD k s"
  shows "\<exists>s'. wire_byte 0x55 s = Inr s' \<and> between (granted (x_command s)) k s' \<and> same_memory s s'"
  using assms
  by (auto simp: between_def wire_byte_takes collecting_def take_byte_def low_def same_memory_def granted_def)

lemma open_session_effect:
  assumes "low s" "x_state s = X_STOP" "length ps = 8"
  shows "\<exists>s'. open_session cmd ps s = Inr s' \<and> between (granted cmd) 0 s' \<and> x_command s' = cmd
    \<and> x_data s' = x_data s \<and> readPassword s' = readPassword s \<and> writePassword s' = writePassword s"
proof -
  obtain a where a: "open_password cmd ps s = Inr a" "between VERIFY_PASSWORD 8 a" "x_command a = cmd"
      "x_data a = x_data s" "readPassword a = readPassword s" "writePassword a = writePassword s"
    using open_password_effect [OF assms] by blast
  let ?b = "a\<lparr>lastSDA := False, SCLChanged := True, lastSCL := False, sda := False, x_bit := 0, byteOffset := 0, x_shift := 0\<rparr>"
  have b: "wire_start a = Inr ?b" using a(2) by (intro wire_start_verify) (auto simp: between_def)
  have "between VERIFY_PASSWORD 0 ?b" using a(2) by (simp add: between_def low_def)
  then obtain c where "wire_byte 0x55 ?b = Inr c" "between (granted cmd) 0 c" "same_memory ?b c"
    using wire_byte_ack [of 0 ?b] a(3) by auto
  then show ?thesis using a b by (simp add: open_session_def same_memory_def)
qed

text \<open>The last byte of a sector: the buffer goes to the array.\<close>

definition sector :: "u8 \<Rightarrow> nat" where
  "sector cmd = unat (drop_bit 1 cmd AND 0x0f)"

lemma store_buffer_data:
  assumes "sector (x_command s) < 14" "n \<le> 8"
  shows "x_data (store_buffer n s) = (\<lambda>i. if sector (x_command s) * 8 + (8 - n) \<le> i \<and> i < sector (x_command s) * 8 + 8
    then writeBuffer s (i - sector (x_command s) * 8) else x_data s i)"
  using assms
proof (induction n arbitrary: s)
  case 0
  then show ?case by (auto simp: fun_eq_iff)
next
  case (Suc n)
  let ?b = "sector (x_command s) * 8"
  let ?s = "s\<lparr>byteOffset := of_nat (7 - n)\<rparr>"
  let ?t = "?s\<lparr>x_data := (x_data s)(?b + (7 - n) := writeBuffer s (7 - n))\<rparr>"
  have n: "unat (of_nat (7 - n) :: u8) = 7 - n" using Suc.prems(2) by (simp add: unat_of_nat del: of_nat_diff)
  have "dataOffset ?s = Some (?b + (7 - n))"
    using Suc.prems n by (simp add: dataOffset_def sector_def Let_def)
  then have "store_buffer (Suc n) s = store_buffer n ?t" using n by (simp add: Let_def)
  moreover have "x_data (store_buffer n ?t) = (\<lambda>i. if ?b + (8 - n) \<le> i \<and> i < ?b + 8
      then writeBuffer s (i - ?b) else ((x_data s)(?b + (7 - n) := writeBuffer s (7 - n))) i)"
    using Suc.IH [of ?t] Suc.prems by (simp cong: if_cong del: fun_upd_apply)
  moreover have "(?b + (8 - n) \<le> i \<and> i < ?b + 8) \<or> i = ?b + (7 - n) \<longleftrightarrow> ?b + (8 - Suc n) \<le> i \<and> i < ?b + 8" for i
    using Suc.prems(2) by linarith
  ultimately show ?case by (auto simp: fun_eq_iff)
qed

lemma wire_byte_last_data:
  assumes "between WRITE_DATA 7 s" "sector (x_command s) < 14" "x_command s \<noteq> 0xfc" "x_command s \<noteq> 0xfe"
  shows "\<exists>s'. wire_byte v s = Inr s' \<and> between WRITE_DATA 0 s' \<and> x_command s' = x_command s
    \<and> x_data s' = (\<lambda>i. if sector (x_command s) * 8 \<le> i \<and> i < sector (x_command s) * 8 + 8
        then ((writeBuffer s)(7 := v)) (i - sector (x_command s) * 8) else x_data s i)"
proof -
  have b: "unat (byteOffset s) = 7" "byteOffset s + 1 = 8"
    using assms(1) offset_step(1) [of "byteOffset s" 7] offset_step(2) [of "byteOffset s + 1" 8] by (auto simp: between_def)
  let ?a = "s\<lparr>lastSDA := True, x_shift := v, x_bit := 8, SCLChanged := False, lastSCL := False, sda := False\<rparr>"
  let ?p = "?a\<lparr>writeBuffer := (writeBuffer s)(7 := v), byteOffset := 8\<rparr>"
  have "take_byte ?a = Inr ((store_buffer 8 ?p)\<lparr>byteOffset := 0\<rparr>)"
    using assms(1,3,4) b
    by (simp add: between_def take_byte_def push_buffer_def del: store_buffer.simps)
  then have w: "wire_byte v s = Inr ((store_buffer 8 ?p)\<lparr>byteOffset := 0, x_bit := 0, x_shift := 0, SCLChanged := True,
      lastSCL := False, lastSDA := True\<rparr>)"
    using assms(1) by (simp add: between_def wire_byte_takes collecting_def del: store_buffer.simps)
  have d: "x_data (store_buffer 8 ?p) = (\<lambda>i. if sector (x_command s) * 8 \<le> i \<and> i < sector (x_command s) * 8 + 8
        then ((writeBuffer s)(7 := v)) (i - sector (x_command s) * 8) else x_data s i)"
    using store_buffer_data [of ?p 8] assms(2) by (simp cong: if_cong)
  show ?thesis unfolding w using assms(1) d
    by (simp add: between_def low_def del: store_buffer.simps)
qed

lemma wire_stop_effect:
  assumes "between st k s" "collecting st \<or> st = READ_DATA" 
  shows "\<exists>s'. wire_stop s = Inr s' \<and> low s' \<and> x_state s' = X_STOP \<and> x_data s' = x_data s"
proof -
  let ?a = "s\<lparr>SCLChanged := False, lastSDA := False\<rparr>"
  have a: "pins False False s = Inr ?a" using assms(1) by (intro pins_low) (simp add: between_def)
  obtain b where b: "pins True False ?a = Inr b" "\<not> lastCS b" "lastSCL b" "x_state b = st" "x_data b = x_data s" "\<not> lastSDA b"
      "unat (x_bit b) < 8"
    using assms
    by (auto simp: between_def low_def pins_def writeSCL_def writeSDA_def collecting_def collect_edge_def read_edge_def Let_def)
  have scl: "writeSCL True b = Inr (b\<lparr>SCLChanged := False\<rparr>)"
    using b assms(2) by (auto simp: writeSCL_def collecting_def collect_edge_def read_edge_def)
  have c: "pins True True b = Inr (b\<lparr>SCLChanged := False, x_state := X_STOP, sda := False, lastSDA := True\<rparr>)"
    unfolding pins_def scl using b by (simp add: writeSDA_def)
  then have "wire_stop s = Inr (b\<lparr>x_state := X_STOP, sda := False, SCLChanged := True, lastSCL := False, lastSDA := True\<rparr>)"
    using a b by (simp add: wire_stop_def pins_fall)
  then show ?thesis using b by (simp add: low_def)
qed

definition write_sector :: "nat \<Rightarrow> u8 list \<Rightarrow> u8 list \<Rightarrow> 'z x76_st_scheme \<Rightarrow> chip_error + 'z x76_st_scheme" where
  "write_sector k ps ws s =
     sum_bind (open_session (0x80 OR of_nat (k * 2)) ps s) (\<lambda>s. sum_bind (wire_bytes ws s) wire_stop)"

lemma sector_command:
  assumes "k < 14"
  shows "sector (0x80 OR of_nat (k * 2)) = k" "sector (0x81 OR of_nat (k * 2)) = k"
    "granted (0x80 OR of_nat (k * 2)) = WRITE_DATA" "granted (0x81 OR of_nat (k * 2)) = READ_DATA"
    "0x80 OR of_nat (k * 2) \<noteq> (0xfc :: u8)" "0x80 OR of_nat (k * 2) \<noteq> (0xfe :: u8)"
proof -
  have "k \<in> {0,1,2,3,4,5,6,7,8,9,10,11,12,13}" using assms by (simp, presburger)
  then show "sector (0x80 OR of_nat (k * 2)) = k" "sector (0x81 OR of_nat (k * 2)) = k"
    "granted (0x80 OR of_nat (k * 2)) = WRITE_DATA" "granted (0x81 OR of_nat (k * 2)) = READ_DATA"
    "0x80 OR of_nat (k * 2) \<noteq> (0xfc :: u8)" "0x80 OR of_nat (k * 2) \<noteq> (0xfe :: u8)"
    by (auto simp: sector_def granted_def)
qed

lemma write_sector_effect:
  assumes "low s" "x_state s = X_STOP" "length ps = 8" "length ws = 8" "k < 14"
  shows "\<exists>s'. write_sector k ps ws s = Inr s' \<and> low s' \<and> x_state s' = X_STOP
    \<and> x_data s' = (\<lambda>i. if k * 8 \<le> i \<and> i < k * 8 + 8 then ws ! (i - k * 8) else x_data s i)"
proof -
  define cmd :: u8 where "cmd = 0x80 OR of_nat (k * 2)"
  have cmd: "sector cmd = k" "granted cmd = WRITE_DATA" "cmd \<noteq> 0xfc" "cmd \<noteq> 0xfe"
    using sector_command [OF assms(5)] unfolding cmd_def by blast+
  obtain a where a: "open_session cmd ps s = Inr a" "between WRITE_DATA 0 a" "x_command a = cmd" "x_data a = x_data s"
    using open_session_effect [OF assms(1-3), of cmd] cmd(2) by auto
  have ws: "ws = butlast ws @ [last ws]" "length (butlast ws) = 7" using assms(4) by (auto simp flip: length_greater_0_conv)
  obtain b where b: "wire_bytes (butlast ws) a = Inr b" "between WRITE_DATA 7 b" "same_memory a b"
      "\<forall>i. writeBuffer b i = (if i < 7 then butlast ws ! i else writeBuffer a i)"
    using wire_bytes_buffer [OF a(2), of "butlast ws"] ws(2) by auto
  have bc: "x_command b = cmd" "x_data b = x_data s" using a(3,4) b(3) by (simp_all add: same_memory_def)
  obtain c where c: "wire_byte (last ws) b = Inr c" "between WRITE_DATA 0 c"
      "x_data c = (\<lambda>i. if k * 8 \<le> i \<and> i < k * 8 + 8 then ((writeBuffer b)(7 := last ws)) (i - k * 8) else x_data s i)"
    using wire_byte_last_data [OF b(2), of "last ws"] cmd assms(5) unfolding bc by auto
  have last: "last ws = ws ! 7" using assms(4) by (simp add: last_conv_nth flip: length_greater_0_conv)
  have buf: "((writeBuffer b)(7 := last ws)) j = ws ! j" if "j < 8" for j
    using that b(4) ws(2) last by (cases "j = 7") (auto simp: nth_butlast)
  have d: "x_data c = (\<lambda>i. if k * 8 \<le> i \<and> i < k * 8 + 8 then ws ! (i - k * 8) else x_data s i)"
  proof
    fix i
    have "k * 8 \<le> i \<Longrightarrow> i < k * 8 + 8 \<Longrightarrow> i - k * 8 < 8" by linarith
    then show "x_data c i = (if k * 8 \<le> i \<and> i < k * 8 + 8 then ws ! (i - k * 8) else x_data s i)"
      unfolding c(3) using buf [of "i - k * 8"] by auto
  qed
  have "wire_bytes ws a = Inr c" using b(1) c(1) by (subst ws(1)) (simp add: wire_bytes_append)
  moreover obtain e where "wire_stop c = Inr e" "low e" "x_state e = X_STOP" "x_data e = x_data c"
    using wire_stop_effect [OF c(2)] by (auto simp: collecting_def)
  ultimately show ?thesis using a(1) d by (simp add: write_sector_def flip: cmd_def del: of_nat_mult)
qed

text \<open>Reading: the host samples the data pin while the clock is high, and acknowledges every byte.\<close>

definition wire_read_bit :: "'z x76_st_scheme \<Rightarrow> chip_error + bool \<times> 'z x76_st_scheme" where
  "wire_read_bit s = sum_bind (pins False True s) (\<lambda>s. sum_bind (pins True True s) (\<lambda>s.
     sum_bind (pins False True s) (\<lambda>s'. Inr (readSDA s, s'))))"

primrec wire_read_bits :: "nat \<Rightarrow> 'z x76_st_scheme \<Rightarrow> chip_error + bool list \<times> 'z x76_st_scheme" where
  "wire_read_bits 0 s = Inr ([], s)"
| "wire_read_bits (Suc n) s = sum_bind (wire_read_bit s) (\<lambda>r.
     sum_bind (wire_read_bits n (snd r)) (\<lambda>q. Inr (fst r # fst q, snd q)))"

definition wire_read_byte :: "'z x76_st_scheme \<Rightarrow> chip_error + u8 \<times> 'z x76_st_scheme" where
  "wire_read_byte s = sum_bind (wire_read_bits 8 s) (\<lambda>r. sum_bind (wire_bit False (snd r)) (\<lambda>s.
     Inr (shift_in (fst r), s)))"

primrec wire_read_bytes :: "nat \<Rightarrow> 'z x76_st_scheme \<Rightarrow> chip_error + u8 list \<times> 'z x76_st_scheme" where
  "wire_read_bytes 0 s = Inr ([], s)"
| "wire_read_bytes (Suc n) s = sum_bind (wire_read_byte s) (\<lambda>r.
     sum_bind (wire_read_bytes n (snd r)) (\<lambda>q. Inr (fst r # fst q, snd q)))"

definition read_sector :: "nat \<Rightarrow> u8 list \<Rightarrow> 'z x76_st_scheme \<Rightarrow> chip_error + u8 list \<times> 'z x76_st_scheme" where
  "read_sector k ps s =
     sum_bind (open_session (0x81 OR of_nat (k * 2)) ps s) (\<lambda>s. sum_bind (wire_read_bytes 8 s) (\<lambda>r.
       sum_bind (wire_stop (snd r)) (\<lambda>s. Inr (fst r, s))))"

definition current_byte :: "'z x76_st_scheme \<Rightarrow> u8" where
  "current_byte s = (case dataOffset s of Some offset \<Rightarrow> x_data s offset | None \<Rightarrow> 0)"

text \<open>Inside of a byte: \<open>n\<close> bits are still to come.\<close>

definition reading :: "nat \<Rightarrow> u8 \<Rightarrow> 'z x76_st_scheme \<Rightarrow> bool" where
  "reading n v s \<longleftrightarrow> low s \<and> x_state s = READ_DATA \<and> unat (x_bit s) = 8 - n \<and> n \<le> 8
     \<and> current_byte s = v \<and> (n < 8 \<longrightarrow> x_shift s = push_bit (8 - n) v)"

definition same_place :: "'z x76_st_scheme \<Rightarrow> 'z x76_st_scheme \<Rightarrow> bool" where
  "same_place s s' \<longleftrightarrow> x_data s' = x_data s \<and> x_command s' = x_command s \<and> byteOffset s' = byteOffset s"

lemma current_byte_cong: "same_place s s' \<Longrightarrow> current_byte s' = current_byte s"
  by (auto simp: same_place_def current_byte_def dataOffset_def Let_def)

lemma top_bit: "n < 8 \<Longrightarrow> drop_bit 7 (push_bit (7 - n) (v :: u8)) AND 1 \<noteq> 0 \<longleftrightarrow> bit v n"
  by (simp add: and_one_eq mod_2_eq_odd bit_iff_odd_drop_bit [symmetric] flip: bit_0)
    (auto simp: bit_simps)

lemma read_edge_bit:
  assumes "\<not> lastSCL s" "x_bit s < 8" "(if x_bit s = 0 then current_byte s else x_shift s) = w"
  shows "read_edge True s = s\<lparr>sda := drop_bit 7 w AND 1 \<noteq> 0, x_shift := push_bit 1 w, x_bit := x_bit s + 1\<rparr>"
  using assms by (cases "x_bit s = 0") (simp_all add: read_edge_def Let_def flip: current_byte_def)

lemma wire_read_bit_effect:
  assumes "reading (Suc n) v s"
  shows "\<exists>s'. wire_read_bit s = Inr (bit v n, s') \<and> reading n v s' \<and> same_place s s'"
proof -
  let ?a = "s\<lparr>SCLChanged := False, lastSDA := True\<rparr>"
  have n: "unat (x_bit s) = 7 - n" "n < 8" using assms by (auto simp: reading_def)
  then have lt: "x_bit s < 8" by (simp add: word_less_nat_alt)
  have sh: "(if x_bit s = 0 then current_byte s else x_shift s) = push_bit (7 - n) v"
    using assms n by (auto simp: reading_def word_unat_eq_iff)
  let ?b = "?a\<lparr>x_shift := push_bit (8 - n) v, sda := bit v n, x_bit := x_bit s + 1, SCLChanged := True, lastSCL := True\<rparr>"
  have "push_bit (Suc 0) (push_bit (7 - n) v) = push_bit (8 - n) v"
  proof -
    have "Suc 0 + (7 - n) = 8 - n" using n(2) by simp
    then show ?thesis by (simp only: push_bit_push_bit)
  qed
  moreover have "current_byte ?a = current_byte s" by (rule current_byte_cong) (simp add: same_place_def)
  then have "(if x_bit ?a = 0 then current_byte ?a else x_shift ?a) = push_bit (7 - n) v"
    using sh by (simp split del: if_split cong: if_cong)
  then have "read_edge True ?a = ?a\<lparr>sda := drop_bit 7 (push_bit (7 - n) v) AND 1 \<noteq> 0,
      x_shift := push_bit 1 (push_bit (7 - n) v), x_bit := x_bit ?a + 1\<rparr>"
    using assms lt by (intro read_edge_bit) (simp_all add: reading_def low_def)
  ultimately have "read_edge True ?a = ?a\<lparr>sda := bit v n, x_shift := push_bit (8 - n) v, x_bit := x_bit s + 1\<rparr>"
    unfolding top_bit [OF n(2)] One_nat_def by simp
  then have "pins True True ?a = Inr ?b"
    using assms by (simp add: reading_def low_def pins_def writeSCL_def writeSDA_def)
  moreover have "readSDA ?b = bit v n" using assms by (simp add: reading_def low_def readSDA_def)
  moreover have "pins False True ?b = Inr (?b\<lparr>SCLChanged := True, lastSCL := False, lastSDA := True\<rparr>)"
    using assms by (intro pins_fall) (simp_all add: reading_def low_def)
  moreover have "pins False True s = Inr ?a" using assms by (intro pins_low) (simp add: reading_def)
  moreover have "current_byte (?b\<lparr>SCLChanged := True, lastSCL := False, lastSDA := True\<rparr>) = current_byte s"
    by (rule current_byte_cong) (simp add: same_place_def)
  then have "reading n v (?b\<lparr>SCLChanged := True, lastSCL := False, lastSDA := True\<rparr>)"
    using assms n by (simp add: reading_def low_def unat_word_ariths(1))
  ultimately show ?thesis by (auto simp: wire_read_bit_def same_place_def)
qed

lemma wire_read_bits_effect:
  "reading n v s \<Longrightarrow> \<exists>s'. wire_read_bits n s = Inr (msb_first n v, s') \<and> reading 0 v s' \<and> same_place s s'"
proof (induction n arbitrary: s)
  case 0
  then show ?case by (simp add: msb_first_def same_place_def)
next
  case (Suc n)
  then obtain t where t: "wire_read_bit s = Inr (bit v n, t)" "reading n v t" "same_place s t"
    using wire_read_bit_effect by blast
  then obtain u where "wire_read_bits n t = Inr (msb_first n v, u)" "reading 0 v u" "same_place t u"
    using Suc.IH by blast
  with t show ?case by (auto simp: msb_first_def same_place_def)
qed

lemma wire_read_byte_effect:
  assumes "between READ_DATA k s" "k < 255"
  shows "\<exists>s'. wire_read_byte s = Inr (current_byte s, s') \<and> between READ_DATA (k + 1) s'
    \<and> x_data s' = x_data s \<and> x_command s' = x_command s"
proof -
  have "reading 8 (current_byte s) s" using assms(1) by (simp add: between_def reading_def)
  then obtain t where t: "wire_read_bits 8 s = Inr (msb_first 8 (current_byte s), t)" "reading 0 (current_byte s) t" "same_place s t"
    using wire_read_bits_effect by blast
  have tb: "low t" "x_state t = READ_DATA" "x_bit t = 8" "unat (byteOffset t) = k"
    using t(2,3) assms(1) by (auto simp: reading_def same_place_def between_def word_unat_eq_iff)
  let ?a = "t\<lparr>SCLChanged := False, lastSDA := False\<rparr>"
  let ?b = "?a\<lparr>x_bit := 0, sda := False, byteOffset := byteOffset t + 1, SCLChanged := True, lastSCL := True\<rparr>"
  have "pins True False ?a = Inr ?b"
    using tb by (simp add: low_def pins_def writeSCL_def writeSDA_def read_edge_def)
  moreover have "pins False False ?b = Inr (?b\<lparr>SCLChanged := True, lastSCL := False, lastSDA := False\<rparr>)"
    using tb by (intro pins_fall) (simp_all add: low_def)
  ultimately have "wire_bit False t = Inr (?b\<lparr>SCLChanged := True, lastSCL := False, lastSDA := False\<rparr>)"
    using pins_low [OF tb(1)] by (simp add: wire_bit_def)
  moreover have "shift_in (msb_first 8 (current_byte s)) = current_byte s"
    unfolding shift_in_bits by (rule bit_word_eqI) (auto simp: bit_simps dest: bit_imp_le_length)
  moreover have "unat (byteOffset t + 1) = k + 1" using tb(4) assms(2) by (simp add: unat_word_ariths(1))
  ultimately show ?thesis
    using t(1,3) tb by (auto simp: wire_read_byte_def between_def low_def same_place_def)
qed

lemma wire_read_bytes_effect:
  assumes "between READ_DATA k s" "k + n \<le> 8" "sector (x_command s) < 14"
  shows "\<exists>s'. wire_read_bytes n s = Inr (map (\<lambda>i. x_data s (sector (x_command s) * 8 + i)) [k..<k + n], s')
    \<and> between READ_DATA (k + n) s' \<and> x_data s' = x_data s"
  using assms
proof (induction n arbitrary: k s)
  case (Suc n)
  then have "k < 255" by simp
  then obtain t where t: "wire_read_byte s = Inr (current_byte s, t)" "between READ_DATA (k + 1) t"
      "x_data t = x_data s" "x_command t = x_command s"
    using wire_read_byte_effect [OF Suc.prems(1)] by blast
  have "current_byte s = x_data s (sector (x_command s) * 8 + k)"
    using Suc.prems by (auto simp: current_byte_def dataOffset_def sector_def between_def Let_def)
  moreover obtain u where "wire_read_bytes n t = Inr (map (\<lambda>i. x_data t (sector (x_command t) * 8 + i)) [k + 1..<k + 1 + n], u)"
      "between READ_DATA (k + 1 + n) u" "x_data u = x_data t"
    using Suc.IH [of "k + 1" t] Suc.prems t by auto
  moreover have "[k..<k + Suc n] = k # [k + 1..<k + 1 + n]" by (simp add: upt_conv_Cons)
  ultimately show ?case using t by simp
qed simp

text \<open>C23: A sector written through the two pins reads back, byte for byte, and no other sector
  changes, whatever passwords the host sends (the code never compares them).\<close>

theorem x76_roundtrip:
  assumes "low s" "x_state s = X_STOP" "k < 14" "k' < 14" "length ws = 8" "length ps = 8" "length ps' = 8"
  shows "\<exists>s1 s2. write_sector k ps ws s = Inr s1
    \<and> read_sector k' ps' s1 = Inr (if k' = k then ws else map (\<lambda>i. x_data s (k' * 8 + i)) [0..<8], s2)"
proof -
  obtain s1 where s1: "write_sector k ps ws s = Inr s1" "low s1" "x_state s1 = X_STOP"
      "x_data s1 = (\<lambda>i. if k * 8 \<le> i \<and> i < k * 8 + 8 then ws ! (i - k * 8) else x_data s i)"
    using write_sector_effect [OF assms(1,2,6,5,3)] by blast
  define cmd :: u8 where "cmd = 0x81 OR of_nat (k' * 2)"
  have cmd: "sector cmd = k'" "granted cmd = READ_DATA"
    using sector_command [OF assms(4)] unfolding cmd_def by blast+
  obtain a where a: "open_session cmd ps' s1 = Inr a" "between READ_DATA 0 a" "x_command a = cmd" "x_data a = x_data s1"
    using open_session_effect [OF s1(2,3) assms(7), of cmd] cmd(2) by auto
  obtain b where b: "wire_read_bytes 8 a = Inr (map (\<lambda>i. x_data s1 (k' * 8 + i)) [0..<8], b)" "between READ_DATA 8 b"
    using wire_read_bytes_effect [OF a(2), of 8] a(3,4) cmd(1) assms(4) by auto
  obtain c where "wire_stop b = Inr c" using wire_stop_effect [OF b(2)] by blast
  then have "read_sector k' ps' s1 = Inr (map (\<lambda>i. x_data s1 (k' * 8 + i)) [0..<8], c)"
    using a(1) b(1) by (simp add: read_sector_def flip: cmd_def del: of_nat_mult upt_rec_numeral)
  moreover have "map (\<lambda>i. x_data s1 (k' * 8 + i)) [0..<8]
      = (if k' = k then ws else map (\<lambda>i. x_data s (k' * 8 + i)) [0..<8])"
  proof (rule nth_equalityI)
    fix i
    assume "i < length (map (\<lambda>i. x_data s1 (k' * 8 + i)) [0..<8])"
    then have "i < 8" by simp
    then show "map (\<lambda>i. x_data s1 (k' * 8 + i)) [0..<8] ! i
        = (if k' = k then ws else map (\<lambda>i. x_data s (k' * 8 + i)) [0..<8]) ! i"
      unfolding s1(4) by (auto simp del: upt_rec_numeral)
  qed (use assms(5) in simp)
  ultimately show ?thesis using s1(1) by auto
qed

theorem x76_roundtrip_witness:
  "\<exists>s1 s2. write_sector 3 (replicate 8 0) [1, 2, 3, 4, 5, 6, 7, 8] X76F100SerialFlash = Inr s1
    \<and> read_sector 3 (replicate 8 0) s1 = Inr ([1, 2, 3, 4, 5, 6, 7, 8], s2)"
proof -
  have "low X76F100SerialFlash" "x_state X76F100SerialFlash = X_STOP"
    by (simp_all add: low_def X76F100SerialFlash_def)
  from x76_roundtrip [OF this, where k = 3 and k' = 3 and ws = "[1, 2, 3, 4, 5, 6, 7, 8]" and ps = "replicate 8 0"
      and ps' = "replicate 8 0"]
  show ?thesis by (simp only: simp_thms if_True) simp
qed

text \<open>C24: A host that sends the acknowledge without a start condition in front of it makes the chip
  write behind its buffer: the byte offset is still 8 from the password, and the next byte of data
  goes to \<open>writeBuffer[8]\<close>.\<close>

theorem x76_buffer_overflow:
  assumes "low s" "x_state s = X_STOP" "length ps = 8" "cmd AND 0x81 = 0x80"
  shows "\<exists>s'. open_password cmd ps s = Inr s' \<and> wire_bytes [0x55, v] s' = Inl Out_of_bounds"
proof -
  obtain a where a: "open_password cmd ps s = Inr a" "between VERIFY_PASSWORD 8 a" "x_command a = cmd"
    using open_password_effect [OF assms(1-3)] by blast
  obtain b where b: "wire_byte 0x55 a = Inr b" "between (granted cmd) 8 b"
    using wire_byte_ack [OF a(2)] a(3) by auto
  have "granted cmd = WRITE_DATA" using assms(4) by (simp add: granted_def)
  then have "wire_byte v b = Inl Out_of_bounds"
    using b(2) by (simp add: between_def wire_byte_takes collecting_def take_byte_def push_buffer_def)
  then show ?thesis using a(1) b(1) by auto
qed

theorem x76_buffer_overflow_witness:
  "\<exists>s'. open_password 0x80 (replicate 8 0) X76F100SerialFlash = Inr s' \<and> wire_bytes [0x55, 1] s' = Inl Out_of_bounds"
  by (rule x76_buffer_overflow) (simp_all add: low_def X76F100SerialFlash_def)

text \<open>The commands that set a new password do not: the copy goes from the password to the
  buffer, so that both passwords stay what they were, whatever the host sends.\<close>

theorem x76_password_never_changes:
  assumes "low s" "x_state s = X_STOP" "length ps = 8" "length ws = 8" "cmd = 0xfc \<or> cmd = 0xfe"
  shows "\<exists>s1 s2. open_session cmd ps s = Inr s1 \<and> wire_bytes ws s1 = Inr s2
    \<and> writePassword s2 = writePassword s \<and> readPassword s2 = readPassword s \<and> x_data s2 = x_data s"
proof -
  have g: "granted cmd = WRITE_DATA" using assms(5) by (auto simp: granted_def)
  obtain a where a: "open_session cmd ps s = Inr a" "between WRITE_DATA 0 a" "x_command a = cmd"
      "x_data a = x_data s" "readPassword a = readPassword s" "writePassword a = writePassword s"
    using open_session_effect [OF assms(1-3), of cmd] g by auto
  have ws: "ws = butlast ws @ [last ws]" "length (butlast ws) = 7" using assms(4) by (auto simp flip: length_greater_0_conv)
  obtain b where b: "wire_bytes (butlast ws) a = Inr b" "between WRITE_DATA 7 b" "same_memory a b"
    using wire_bytes_buffer [OF a(2), of "butlast ws"] ws(2) by auto
  have o: "unat (byteOffset b) = 7" "byteOffset b + 1 = 8"
    using b(2) offset_step(1) [of "byteOffset b" 7] offset_step(2) [of "byteOffset b + 1" 8] by (auto simp: between_def)
  have "x_command b = cmd" using a(3) b(3) by (simp add: same_memory_def)
  then have "\<exists>c. wire_byte (last ws) b = Inr c \<and> same_memory b c"
    using b(2) o assms(5)
    by (auto simp: between_def wire_byte_takes collecting_def take_byte_def push_buffer_def same_memory_def
        simp del: store_buffer.simps)
  then obtain c where c: "wire_byte (last ws) b = Inr c" "same_memory b c" by blast
  have "wire_bytes ws a = Inr c" using b(1) c(1) by (subst ws(1)) (simp add: wire_bytes_append)
  then show ?thesis using a b(3) c(2) by (auto simp: same_memory_def)
qed

theorem x76_password_never_changes_witness:
  "\<exists>s1 s2. open_session 0xfc (replicate 8 0) X76F100SerialFlash = Inr s1 \<and> wire_bytes (replicate 8 7) s1 = Inr s2
    \<and> writePassword s2 = writePassword X76F100SerialFlash \<and> readPassword s2 = readPassword X76F100SerialFlash
    \<and> x_data s2 = x_data X76F100SerialFlash"
  by (rule x76_password_never_changes) (simp_all add: low_def X76F100SerialFlash_def)

end
