(* ===== verification/Dc_Flash.thy ===== *)
theory Dc_Flash
  imports Mem_Chip
begin

section \<open>Dreamcast flash memory\<close>

text \<open>
  \<open>DCFlashChip\<close> (\<open>core/hw/flashrom/flashrom.h\<close> and \<open>flashrom.cpp\<close>): the command state machine
  behind \<open>Write\<close> and \<open>Read8\<close>, and the block store the boot code and the settings use
  (\<open>WriteBlock\<close>, \<open>ReadBlock\<close>, \<open>Validate\<close>).

  First part: what a program on the console can do to the chip. No sequence of accesses changes
  the factory area or the write protected part; programming clears bits, erasing sets them.
  Second part: the block store. The blocks of a partition are allocated in order, a bit per
  block at the end of the partition; the block with the highest address that carries an id
  and a valid checksum is the current one. What \<open>WriteBlock\<close> stores, \<open>ReadBlock\<close> returns.

  All addresses of the block store are below the chip's 128 KB (lemma \<open>block_in_partition\<close>), so
  that the array accesses of \<open>memcpy\<close> stay inside of the chip.
\<close>

datatype flash_state =
  FS_Normal | FS_ReadAMDID1 | FS_ReadAMDID2 | FS_ByteProgram
  | FS_EraseAMD1 | FS_EraseAMD2 | FS_EraseAMD3 | FS_SelectMode

record flash_chip = mem_chip +
  flash_state :: flash_state

subsection \<open>Commands\<close>

definition DCFlashChip :: "u32 \<Rightarrow> u32 \<Rightarrow> flash_chip" where
  "DCFlashChip sz protect = mem_chip.extend (MemChip sz protect) \<lparr>flash_state = FS_Normal\<rparr>"

definition flash_Reset :: "'z flash_chip_scheme \<Rightarrow> 'z flash_chip_scheme" where
  "flash_Reset s = s\<lparr>flash_state := FS_Normal\<rparr>"

text \<open>\<open>memset\<close> and \<open>memcpy\<close> on the chip's array.\<close>

definition memset :: "nat \<Rightarrow> u8 \<Rightarrow> nat \<Rightarrow> 'z mem_chip_scheme \<Rightarrow> 'z mem_chip_scheme" where
  "memset start v len s = s\<lparr>chip_data := \<lambda>a. if start \<le> unat a \<and> unat a < start + len then v else chip_data s a\<rparr>"

definition memcpy :: "nat \<Rightarrow> (nat \<Rightarrow> u8) \<Rightarrow> nat \<Rightarrow> 'z mem_chip_scheme \<Rightarrow> 'z mem_chip_scheme" where
  "memcpy start src len s =
     s\<lparr>chip_data := \<lambda>a. if start \<le> unat a \<and> unat a < start + len then src (unat a - start) else chip_data s a\<rparr>"

definition flash_byte :: "'z mem_chip_scheme \<Rightarrow> nat \<Rightarrow> u8" where
  "flash_byte s n = chip_data s (of_nat n)"

definition program_byte :: "u32 \<Rightarrow> u32 \<Rightarrow> 'z flash_chip_scheme \<Rightarrow> 'z flash_chip_scheme" where
  "program_byte addr val s =
     (if addr AND 0x1e000 \<noteq> 0x1a000 \<and> write_protect_size s \<le> addr
      then s\<lparr>chip_data := (chip_data s)(addr := chip_data s addr AND ucast val)\<rparr> else s)"

definition chip_erase :: "'z flash_chip_scheme \<Rightarrow> 'z flash_chip_scheme" where
  "chip_erase s =
     memcpy 0x1a000 (\<lambda>i. flash_byte s (0x1a000 + i)) 0x2000
       (memset (unat (write_protect_size s)) 0xff (unat (chip_size s - write_protect_size s)) s)"

text \<open>The start and the length of the sector of an address, if the switch knows it.\<close>

definition erase_sector :: "u32 \<Rightarrow> (nat \<times> nat) option" where
  "erase_sector addr =
     (let a = addr AND NOT 0x1FFF
      in if a = 0 then Some (0, 0x10000)
         else if a = 0x10000 then Some (0x10000, 0x8000)
         else if a = 0x18000 then Some (0x18000, 0x2000)
         else if a = 0x1a000 then None
         else if a = 0x1c000 then Some (0x1c000, 0x4000)
         else None)"

definition sector_erase :: "u32 \<Rightarrow> 'z flash_chip_scheme \<Rightarrow> 'z flash_chip_scheme" where
  "sector_erase addr s =
     (if write_protect_size s \<le> addr
      then (case erase_sector addr of None \<Rightarrow> s | Some (start, len) \<Rightarrow> memset start 0xff len s)
      else s)"

definition flash_Write :: "u32 \<Rightarrow> u32 \<Rightarrow> u32 \<Rightarrow> 'z flash_chip_scheme \<Rightarrow> 'z flash_chip_scheme" where
  "flash_Write addr val sz s =
     (if sz \<noteq> 1 then s
      else let addr = addr AND chip_mask s; v = val AND 0xff; lo = addr AND 0xfff; mid = addr AND 0xffff
      in case flash_state s of
        FS_Normal \<Rightarrow>
          if v = 0xf0 \<or> v = 0xff then s\<lparr>flash_state := FS_Normal\<rparr>
          else if v = 0xaa then (if lo = 0x555 \<or> lo = 0xaaa then s\<lparr>flash_state := FS_ReadAMDID1\<rparr> else s)
          else s
      | FS_ReadAMDID1 \<Rightarrow>
          if mid = 0x02aa \<and> v = 0x55 \<or> mid = 0x2aaa \<and> v = 0x55 \<or> lo = 0x555 \<and> v = 0x55
          then s\<lparr>flash_state := FS_ReadAMDID2\<rparr> else s\<lparr>flash_state := FS_Normal\<rparr>
      | FS_ReadAMDID2 \<Rightarrow>
          if mid = 0x0555 \<and> v = 0x80 \<or> mid = 0x5555 \<and> v = 0x80 \<or> lo = 0xaaa \<and> v = 0x80
          then s\<lparr>flash_state := FS_EraseAMD1\<rparr>
          else if mid = 0x0555 \<and> v = 0xa0 \<or> mid = 0x5555 \<and> v = 0xa0 \<or> lo = 0xaaa \<and> v = 0xa0
          then s\<lparr>flash_state := FS_ByteProgram\<rparr>
          else if mid = 0x5555 \<and> v = 0x90 then s\<lparr>flash_state := FS_SelectMode\<rparr>
          else s\<lparr>flash_state := FS_Normal\<rparr>
      | FS_ByteProgram \<Rightarrow> (program_byte addr val s)\<lparr>flash_state := FS_Normal\<rparr>
      | FS_EraseAMD1 \<Rightarrow>
          if lo = 0x555 \<and> v = 0xaa \<or> lo = 0xaaa \<and> v = 0xaa
          then s\<lparr>flash_state := FS_EraseAMD2\<rparr> else s\<lparr>flash_state := FS_Normal\<rparr>
      | FS_EraseAMD2 \<Rightarrow>
          if mid = 0x02aa \<and> v = 0x55 \<or> mid = 0x2aaa \<and> v = 0x55 \<or> lo = 0x555 \<and> v = 0x55
          then s\<lparr>flash_state := FS_EraseAMD3\<rparr> else s\<lparr>flash_state := FS_Normal\<rparr>
      | FS_EraseAMD3 \<Rightarrow>
          (if lo = 0x555 \<and> v = 0x10 \<or> lo = 0xaaa \<and> v = 0x10 then chip_erase s
           else if v = 0x30 then sector_erase addr s
           else s)\<lparr>flash_state := FS_Normal\<rparr>
      | FS_SelectMode \<Rightarrow> s\<lparr>flash_state := FS_Normal\<rparr>)"

definition flash_Read8 :: "u32 \<Rightarrow> 'z flash_chip_scheme \<Rightarrow> u8 \<times> 'z flash_chip_scheme" where
  "flash_Read8 addr s =
     (if flash_state s = FS_SelectMode
      then let s = s\<lparr>flash_state := FS_Normal\<rparr>; a = addr AND 0x43
           in (if a = 0 then 4 else if a = 1 then 0xb0
               else if a = 2 then of_bool (addr AND 0x1e000 = 0x1a000) else 0, s)
      else (MemChip_Read8 addr s, s))"

interpretation flash: byte_source flash_Read8 "\<lambda>s a. MemChip_Read8 a s" "\<lambda>s. flash_state s \<noteq> FS_SelectMode"
  by unfold_locales (simp add: flash_Read8_def)

subsection \<open>Block store\<close>

definition FLASH_BLOCK_SIZE :: nat where "FLASH_BLOCK_SIZE = 0x40"
definition FLASH_BITMAP_BLOCKS :: nat where "FLASH_BITMAP_BLOCKS = FLASH_BLOCK_SIZE * 8"
definition FLASH_BITMAP_BYTES :: nat where "FLASH_BITMAP_BYTES = FLASH_BITMAP_BLOCKS * 64"

definition GetPartitionInfo :: "u32 \<Rightarrow> chip_error + nat \<times> nat" where
  "GetPartitionInfo part_id =
     (if part_id = 0 then Inr (0x1a000, 8 * 1024)
      else if part_id = 1 then Inr (0x18000, 8 * 1024)
      else if part_id = 2 then Inr (0x1c000, 16 * 1024)
      else if part_id = 3 then Inr (0x10000, 32 * 1024)
      else if part_id = 4 then Inr (0x00000, 64 * 1024)
      else Inl Die)"

text \<open>A block is the function of its 64 bytes; \<open>flash_user_block\<close> has a 16-bit id in front, a
  16-bit checksum at the end.\<close>

type_synonym block = "nat \<Rightarrow> u8"

definition block_id_of :: "block \<Rightarrow> u16" where
  "block_id_of b = ucast (b 0) OR push_bit 8 (ucast (b 1))"

definition block_crc :: "block \<Rightarrow> u16" where
  "block_crc b = ucast (b 62) OR push_bit 8 (ucast (b 63))"

definition set_u16 :: "nat \<Rightarrow> u16 \<Rightarrow> block \<Rightarrow> block" where
  "set_u16 i v b = b(i := ucast v, i + 1 := ucast (drop_bit 8 v))"

primrec crc_bits :: "nat \<Rightarrow> u32 \<Rightarrow> u32" where
  "crc_bits 0 n = n"
| "crc_bits (Suc c) n = crc_bits c (if n AND 0x8000 \<noteq> 0 then push_bit 1 n XOR 4129 else push_bit 1 n)"

primrec crc_loop :: "nat \<Rightarrow> block \<Rightarrow> u32" where
  "crc_loop 0 buf = 0xffff"
| "crc_loop (Suc i) buf = crc_bits 8 (crc_loop i buf XOR push_bit 8 (ucast (buf i)))"

definition crc_block :: "block \<Rightarrow> u32" where
  "crc_block buf = NOT (crc_loop 62 buf) AND 0xffff"

definition validate_crc :: "block \<Rightarrow> bool" where
  "validate_crc user \<longleftrightarrow> ucast (block_crc user) = crc_block user"

definition num_physical_blocks :: "nat \<Rightarrow> nat" where
  "num_physical_blocks sz = sz div FLASH_BLOCK_SIZE"

definition num_bitmap_blocks :: "nat \<Rightarrow> nat" where
  "num_bitmap_blocks sz = (sz + FLASH_BITMAP_BYTES - 1) div FLASH_BITMAP_BYTES"

definition num_user_blocks :: "nat \<Rightarrow> nat" where
  "num_user_blocks sz = num_physical_blocks sz - num_bitmap_blocks sz - 1"

definition bitmap_index :: "nat \<Rightarrow> nat" where
  "bitmap_index phys_id = (phys_id - 1) mod FLASH_BITMAP_BLOCKS"

definition is_allocated :: "block \<Rightarrow> nat \<Rightarrow> bool" where
  "is_allocated bitmap phys_id \<longleftrightarrow>
     (let index = bitmap_index phys_id in bitmap (index div 8) AND drop_bit (index mod 8) 0x80 = 0)"

definition set_allocated :: "block \<Rightarrow> nat \<Rightarrow> block" where
  "set_allocated bitmap phys_id =
     (let index = bitmap_index phys_id
      in bitmap(index div 8 := bitmap (index div 8) AND NOT (drop_bit (index mod 8) 0x80)))"

definition write_physical_block :: "nat \<Rightarrow> nat \<Rightarrow> block \<Rightarrow> 'z mem_chip_scheme \<Rightarrow> 'z mem_chip_scheme" where
  "write_physical_block offset phys_id b s = memcpy (offset + phys_id * FLASH_BLOCK_SIZE) b FLASH_BLOCK_SIZE s"

definition read_physical_block :: "nat \<Rightarrow> nat \<Rightarrow> 'z mem_chip_scheme \<Rightarrow> block" where
  "read_physical_block offset phys_id s = (\<lambda>i. flash_byte s (offset + phys_id * FLASH_BLOCK_SIZE + i))"

text \<open>\<open>lookup_block\<close>: the loop reads a new bitmap block at every 512th block.\<close>

function lookup_loop ::
  "nat \<Rightarrow> u32 \<Rightarrow> 'z mem_chip_scheme \<Rightarrow> nat \<Rightarrow> nat \<Rightarrow> nat \<Rightarrow> block \<Rightarrow> nat \<Rightarrow> nat" where
  "lookup_loop offset block_id s phys_end phys_id bitmap_id bitmap result =
     (if phys_id < phys_end
      then let (bitmap, bitmap_id) =
                 (if phys_id mod FLASH_BITMAP_BLOCKS = 1
                  then (read_physical_block offset bitmap_id s, bitmap_id + 1) else (bitmap, bitmap_id))
           in if \<not> is_allocated bitmap phys_id then result
              else let user = read_physical_block offset phys_id s;
                       result = (if ucast (block_id_of user) = block_id \<and> validate_crc user then phys_id else result)
                   in lookup_loop offset block_id s phys_end (phys_id + 1) bitmap_id bitmap result
      else result)"
  by pat_completeness auto
termination
  by (relation "measure (\<lambda>(offset, block_id, s, phys_end, phys_id, bitmap_id, bitmap, result). phys_end - phys_id)")
    auto

declare lookup_loop.simps [simp del]

definition lookup_block :: "nat \<Rightarrow> nat \<Rightarrow> u32 \<Rightarrow> 'z mem_chip_scheme \<Rightarrow> nat" where
  "lookup_block offset sz block_id s =
     (let bitmap_id = 1 + num_user_blocks sz
      in lookup_loop offset block_id s bitmap_id 1 bitmap_id (\<lambda>i. 0) 0)"

text \<open>\<open>alloc_block\<close>: the first block that is free, or holds an id that a later block or no block
  at all carries now. The loop returns the block with the bitmap that covers it.\<close>

function alloc_loop ::
  "nat \<Rightarrow> nat \<Rightarrow> 'z mem_chip_scheme \<Rightarrow> nat \<Rightarrow> nat \<Rightarrow> nat \<Rightarrow> block \<Rightarrow> nat \<times> nat \<times> block" where
  "alloc_loop offset sz s phys_end phys_id bitmap_id bitmap =
     (if phys_id < phys_end
      then let (bitmap, bitmap_id) =
                 (if phys_id mod FLASH_BITMAP_BLOCKS = 1
                  then (read_physical_block offset (bitmap_id + 1) s, bitmap_id + 1) else (bitmap, bitmap_id))
           in if \<not> is_allocated bitmap phys_id then (phys_id, bitmap_id, bitmap)
              else if lookup_block offset sz (ucast (block_id_of (read_physical_block offset phys_id s))) s \<noteq> phys_id
              then (phys_id, bitmap_id, bitmap)
              else alloc_loop offset sz s phys_end (phys_id + 1) bitmap_id bitmap
      else (phys_id, bitmap_id, bitmap))"
  by pat_completeness auto
termination
  by (relation "measure (\<lambda>(offset, sz, s, phys_end, phys_id, bitmap_id, bitmap). phys_end - phys_id)") auto

declare alloc_loop.simps [simp del]

definition alloc_block :: "nat \<Rightarrow> nat \<Rightarrow> 'z mem_chip_scheme \<Rightarrow> nat \<times> 'z mem_chip_scheme" where
  "alloc_block offset sz s =
     (let blocks = num_user_blocks sz; phys_end = 1 + blocks
      in case alloc_loop offset sz s phys_end 1 blocks (\<lambda>i. 0) of (phys_id, bitmap_id, bitmap) \<Rightarrow>
         if phys_end \<le> phys_id then (0, s)
         else (phys_id, write_physical_block offset bitmap_id (set_allocated bitmap phys_id) s))"

definition FLASH_MAGIC_COOKIE :: "u8 list" where
  "FLASH_MAGIC_COOKIE = [0x4b, 0x41, 0x54, 0x41, 0x4e, 0x41, 0x5f, 0x46, 0x4c, 0x41, 0x53, 0x48, 0x5f, 0x5f, 0x5f, 0x5f]"

definition validate_header :: "nat \<Rightarrow> u32 \<Rightarrow> 'z mem_chip_scheme \<Rightarrow> bool" where
  "validate_header offset part_id s \<longleftrightarrow>
     (let header = read_physical_block offset 0 s
      in map header [0..<16] = FLASH_MAGIC_COOKIE \<and> ucast (header 16) = part_id)"

definition WriteBlock :: "u32 \<Rightarrow> u32 \<Rightarrow> block \<Rightarrow> 'z mem_chip_scheme \<Rightarrow> chip_error + bool \<times> 'z mem_chip_scheme" where
  "WriteBlock part_id block_id dat s =
     sum_bind (GetPartitionInfo part_id) (\<lambda>(offset, sz).
       if \<not> validate_header offset part_id s then Inr (False, s)
       else let phys_id = lookup_block offset sz block_id s;
                (phys_id, s) = (if phys_id = 0 then alloc_block offset sz s else (phys_id, s))
            in if phys_id = 0 then Inr (False, s)
               else let user = set_u16 0 (ucast block_id) dat;
                        user = set_u16 62 (ucast (crc_block user)) user
                    in Inr (True, write_physical_block offset phys_id user s))"

definition ReadBlock :: "u32 \<Rightarrow> u32 \<Rightarrow> 'z mem_chip_scheme \<Rightarrow> chip_error + block option" where
  "ReadBlock part_id block_id s =
     sum_bind (GetPartitionInfo part_id) (\<lambda>(offset, sz).
       if \<not> validate_header offset part_id s then Inr None
       else let phys_id = lookup_block offset sz block_id s
            in if phys_id = 0 then Inr None else Inr (Some (read_physical_block offset phys_id s)))"

definition erase_partition :: "u32 \<Rightarrow> 'z mem_chip_scheme \<Rightarrow> chip_error + 'z mem_chip_scheme" where
  "erase_partition part_id s =
     sum_bind (GetPartitionInfo part_id) (\<lambda>(offset, sz). Inr (memset offset 0xff sz s))"

definition write_header :: "u32 \<Rightarrow> 'z mem_chip_scheme \<Rightarrow> chip_error + 'z mem_chip_scheme" where
  "write_header part_id s =
     sum_bind (GetPartitionInfo part_id) (\<lambda>(offset, sz).
       let header = (\<lambda>i. if i < 16 then FLASH_MAGIC_COOKIE ! i else if i = 16 then ucast part_id
                         else if i = 17 then 0 else 0xff)
       in Inr (write_physical_block offset 0 header s))"

definition validate_partition :: "u32 \<Rightarrow> 'z mem_chip_scheme \<Rightarrow> chip_error + 'z mem_chip_scheme" where
  "validate_partition part_id s =
     sum_bind (GetPartitionInfo part_id) (\<lambda>(offset, sz).
       if validate_header offset part_id s then Inr s
       else sum_bind (erase_partition part_id s) (write_header part_id))"

definition Dreamcast_name :: "u8 list" where
  "Dreamcast_name = [0x44, 0x72, 0x65, 0x61, 0x6d, 0x63, 0x61, 0x73, 0x74, 0x20, 0x20]"

definition factory_record :: "u8 list" where
  "factory_record = [0x30, 0x30, 0x30, 0x30, 0x30] @ Dreamcast_name"

fun read_bytes8 :: "u32 \<Rightarrow> nat \<Rightarrow> 'z flash_chip_scheme \<Rightarrow> u8 list \<times> 'z flash_chip_scheme" where
  "read_bytes8 addr 0 s = ([], s)"
| "read_bytes8 addr (Suc n) s =
     (case read_bytes8 addr n s of (bs, s) \<Rightarrow> case flash_Read8 (addr + of_nat n) s of (b, s) \<Rightarrow> (bs @ [b], s))"

definition Validate :: "'z flash_chip_scheme \<Rightarrow> chip_error + 'z flash_chip_scheme" where
  "Validate s =
     (case read_bytes8 0x1a000 16 s of (sysinfo, s) \<Rightarrow>
      let valid = drop 5 sysinfo = Dreamcast_name
      in case read_bytes8 0x1a0a0 16 s of (sysinfo, s) \<Rightarrow>
      let valid = (valid \<and> drop 5 sysinfo = Dreamcast_name)
      in sum_bind
           (if valid then Inr s
            else sum_bind (erase_partition 0 s) (\<lambda>s.
              Inr (memcpy 0x1a0a0 ((!) factory_record) 16 (memcpy 0x1a000 ((!) factory_record) 16 s))))
           (\<lambda>s. sum_bind (erase_partition 1 s) (\<lambda>s.
              sum_bind (validate_partition 2 s) (\<lambda>s.
              sum_bind (validate_partition 3 s) (validate_partition 4)))))"

subsection \<open>Which bytes commands can change\<close>

text \<open>The chips of the consoles: 128 KB, all of it or its upper half writable.\<close>

definition flash_ok :: "'z flash_chip_scheme \<Rightarrow> bool" where
  "flash_ok s \<longleftrightarrow> chip_size s = 0x20000 \<and> chip_mask s = 0x1FFFF
     \<and> (write_protect_size s = 0 \<or> write_protect_size s = 0x10000)"

definition protected :: "'z flash_chip_scheme \<Rightarrow> u32 \<Rightarrow> bool" where
  "protected s a \<longleftrightarrow> a < write_protect_size s \<or> 0x1a000 \<le> a \<and> a < 0x1c000"

inductive flash_access :: "'z flash_chip_scheme \<Rightarrow> 'z flash_chip_scheme \<Rightarrow> bool" where
  write_access: "flash_access s (flash_Write addr val sz s)"
| read_access: "flash_access s (snd (flash_Read8 addr s))"
| reset_access: "flash_access s (flash_Reset s)"

inductive_cases flash_accessE: "flash_access s s'"

lemma unat_and_sector: "(a :: u32) AND NOT 0x1FFF = push_bit 13 (drop_bit 13 a)"
proof -
  have m: "(0x1FFF :: u32) = mask 13" by (simp add: mask_eq_exp_minus_1)
  show ?thesis unfolding m by (rule bit_word_eqI) (auto simp: bit_simps)
qed

lemma and_factory: "(a :: u32) AND 0x1e000 = push_bit 13 (drop_bit 13 a AND 0xf)"
proof -
  have "a AND push_bit 13 k = push_bit 13 (drop_bit 13 a AND k)" for k :: u32
    by (rule bit_word_eqI) (auto simp: bit_simps)
  from this [of 15] show ?thesis by simp
qed

lemma unat_drop13: "unat (drop_bit 13 (a :: u32)) = unat a div 8192"
  by (simp add: drop_bit_eq_div unat_div)

lemma factory_bits: "0x1a000 \<le> a \<Longrightarrow> a < 0x1c000 \<Longrightarrow> (a :: u32) AND 0x1e000 = 0x1a000"
proof -
  assume "0x1a000 \<le> a" "a < 0x1c000"
  then have "unat a div 8192 = 13" by (simp add: word_le_nat_alt word_less_nat_alt)
  then have "drop_bit 13 a = 13" by (simp only: word_unat_eq_iff unat_drop13) simp
  then show ?thesis by (simp add: and_factory)
qed

lemma memset_simps [simp]:
  "chip_size (memset b v n s) = chip_size s" "chip_mask (memset b v n s) = chip_mask s"
  "write_protect_size (memset b v n s) = write_protect_size s"
  by (simp_all add: memset_def)

lemma memcpy_simps [simp]:
  "chip_size (memcpy b f n s) = chip_size s" "chip_mask (memcpy b f n s) = chip_mask s"
  "write_protect_size (memcpy b f n s) = write_protect_size s"
  by (simp_all add: memcpy_def)

lemma program_byte_simps [simp]:
  "chip_size (program_byte a v s) = chip_size s" "chip_mask (program_byte a v s) = chip_mask s"
  "write_protect_size (program_byte a v s) = write_protect_size s"
  by (simp_all add: program_byte_def)

lemma erase_simps [simp]:
  "chip_size (chip_erase s) = chip_size s" "chip_mask (chip_erase s) = chip_mask s"
  "write_protect_size (chip_erase s) = write_protect_size s"
  "chip_size (sector_erase a s) = chip_size s" "chip_mask (sector_erase a s) = chip_mask s"
  "write_protect_size (sector_erase a s) = write_protect_size s"
  by (simp_all add: chip_erase_def sector_erase_def split: option.split)

lemma program_byte_protected: "protected s a \<Longrightarrow> chip_data (program_byte addr val s) a = chip_data s a"
  by (auto simp: program_byte_def protected_def factory_bits)

lemma chip_erase_protected:
  assumes "flash_ok s" "protected s a"
  shows "chip_data (chip_erase s) a = chip_data s a"
proof (cases "0x1a000 \<le> a \<and> a < 0x1c000")
  case True
  then have "0x1a000 \<le> unat a" "unat a < 0x1a000 + 0x2000" by (simp_all add: word_le_nat_alt word_less_nat_alt)
  then show ?thesis by (simp add: chip_erase_def memcpy_def flash_byte_def)
next
  case False
  with assms(2) have "a < write_protect_size s" by (auto simp: protected_def)
  with False show ?thesis
    by (auto simp: chip_erase_def memcpy_def memset_def word_less_nat_alt word_le_nat_alt)
qed

lemma erase_sector_range:
  assumes "erase_sector addr = Some (start, len)"
  shows "start + len \<le> 0x1a000 \<or> 0x1c000 \<le> start" "0x2000 \<le> addr \<Longrightarrow> 0x10000 \<le> start"
proof -
  show "start + len \<le> 0x1a000 \<or> 0x1c000 \<le> start"
    using assms by (auto simp: erase_sector_def Let_def split: if_splits)
  assume "0x2000 \<le> addr"
  then have "1 \<le> unat (drop_bit 13 addr)" by (simp add: unat_drop13 word_le_nat_alt)
  then have "unat addr \<ge> 8192" by (simp add: unat_drop13)
  moreover have "addr AND NOT 0x1FFF = 0 \<Longrightarrow> unat addr < 8192"
  proof -
    assume "addr AND NOT 0x1FFF = 0"
    have m: "(0x1FFF :: u32) = mask 13" by (simp add: mask_eq_exp_minus_1)
    have "addr = (addr AND 0x1FFF) OR (addr AND NOT 0x1FFF)" by (simp add: bit.conj_disj_distrib [symmetric])
    then have "addr = addr AND 0x1FFF" using \<open>addr AND NOT 0x1FFF = 0\<close> by simp
    moreover have "addr AND 0x1FFF \<le> 0x1FFF" by (rule word_and_le1)
    ultimately have "addr \<le> 0x1FFF" by metis
    then show ?thesis by (simp add: word_le_nat_alt)
  qed
  ultimately have "addr AND NOT 0x1FFF \<noteq> 0" by linarith
  with assms show "0x10000 \<le> start" by (auto simp: erase_sector_def Let_def split: if_splits)
qed

lemma sector_erase_protected:
  assumes "flash_ok s" "protected s a"
  shows "chip_data (sector_erase addr s) a = chip_data s a"
proof (cases "erase_sector addr")
  case (Some r)
  obtain start len where r: "r = (start, len)" by (cases r)
  have "\<not> (start \<le> unat a \<and> unat a < start + len)" if "write_protect_size s \<le> addr"
    using assms erase_sector_range [of addr start len] Some that
    by (auto simp: r flash_ok_def protected_def word_le_nat_alt word_less_nat_alt)
  then show ?thesis by (auto simp: sector_erase_def Some r memset_def)
qed (simp add: sector_erase_def)

lemma flash_Write_ok [simp]: "flash_ok (flash_Write addr val sz s) = flash_ok s"
  by (cases "flash_state s") (simp_all add: flash_ok_def flash_Write_def Let_def)

lemma flash_Write_protected:
  assumes "flash_ok s" "protected s a"
  shows "chip_data (flash_Write addr val sz s) a = chip_data s a"
  using assms
  by (cases "flash_state s")
    (simp_all add: flash_Write_def Let_def program_byte_protected chip_erase_protected sector_erase_protected)

lemma flash_Write_protect_size [simp]: "write_protect_size (flash_Write addr val sz s) = write_protect_size s"
  by (cases "flash_state s") (simp_all add: flash_Write_def Let_def)

lemma flash_frame_ok [simp]: "flash_ok (s\<lparr>flash_state := x\<rparr>) = flash_ok s"
  by (simp add: flash_ok_def)

lemma flash_access_protected:
  assumes "flash_access s s'" "flash_ok s" "protected s a"
  shows "flash_ok s' \<and> protected s' a \<and> chip_data s' a = chip_data s a"
  using assms
  by (cases rule: flash_access.cases)
    (auto simp: flash_Write_protected protected_def flash_Reset_def flash_Read8_def Let_def)

text \<open>C19: No program can change the factory settings or the write protected half of the flash
  memory: whatever sequence of reads, writes and resets it performs, those bytes keep their value.\<close>

theorem flash_factory_protected:
  assumes "flash_access\<^sup>*\<^sup>* s s'" "flash_ok s" "protected s a"
  shows "chip_data s' a = chip_data s a"
proof -
  have "flash_ok s' \<and> protected s' a \<and> chip_data s' a = chip_data s a"
    using assms(1)
  proof induction
    case (step t u)
    then show ?case using flash_access_protected [of t u a] by auto
  qed (use assms in simp)
  then show ?thesis by simp
qed

theorem flash_factory_protected_witness:
  "chip_data (flash_Write 0x1a000 0x30 1 ((DCFlashChip 0x20000 0)\<lparr>flash_state := FS_EraseAMD3\<rparr>)) 0x1a000 = 0"
proof -
  let ?s = "(DCFlashChip 0x20000 0)\<lparr>flash_state := FS_EraseAMD3\<rparr>"
  have "chip_data (flash_Write 0x1a000 0x30 1 ?s) 0x1a000 = chip_data ?s 0x1a000"
    by (rule flash_factory_protected)
      (auto intro: flash_access.intros simp: flash_ok_def protected_def DCFlashChip_def MemChip_def mem_chip.defs)
  then show ?thesis by (simp add: DCFlashChip_def MemChip_def mem_chip.defs)
qed

subsection \<open>Erasing and programming\<close>

primrec flash_writes :: "(u32 \<times> u32) list \<Rightarrow> 'z flash_chip_scheme \<Rightarrow> 'z flash_chip_scheme" where
  "flash_writes [] s = s"
| "flash_writes (w # ws) s = flash_writes ws (flash_Write (fst w) (snd w) 1 s)"

text \<open>The command sequences of the chip's data sheet.\<close>

definition erase_command :: "u32 \<Rightarrow> (u32 \<times> u32) list" where
  "erase_command addr = [(0x5555, 0xaa), (0x2aaa, 0x55), (0x5555, 0x80), (0x5555, 0xaa), (0x2aaa, 0x55), (addr, 0x30)]"

definition program_command :: "u32 \<Rightarrow> u32 \<Rightarrow> (u32 \<times> u32) list" where
  "program_command addr val = [(0x5555, 0xaa), (0x2aaa, 0x55), (0x5555, 0xa0), (addr, val)]"

lemma flash_normal_again: "flash_state s = FS_Normal \<Longrightarrow> s\<lparr>flash_state := FS_Normal\<rparr> = s"
  by (cases s) simp

lemma program_command_effect:
  assumes "flash_ok s" "flash_state s = FS_Normal" "addr AND 0x1FFFF = addr"
  shows "flash_writes (program_command addr val) s = (program_byte addr val s)\<lparr>flash_state := FS_Normal\<rparr>"
  using assms by (simp add: program_command_def flash_ok_def flash_Write_def Let_def program_byte_def)

lemma erase_command_effect:
  assumes "flash_ok s" "flash_state s = FS_Normal" "addr AND 0x1FFFF = addr"
  shows "flash_writes (erase_command addr) s = (sector_erase addr s)\<lparr>flash_state := FS_Normal\<rparr>"
  using assms
  by (simp add: erase_command_def flash_ok_def flash_Write_def Let_def sector_erase_def memset_def split: option.split cong: if_cong)

lemma and_chip_id: "unat (x :: u32) < 0x20000 \<Longrightarrow> x AND 0x1FFFF = x"
  using and_mask_id [of x 17] by (simp add: mask_eq_exp_minus_1)

lemma not_factory_bits:
  assumes "unat (a :: u32) < 0x20000" "a AND 0x1e000 = 0x1a000"
  shows "0x1a000 \<le> unat a \<and> unat a < 0x1c000"
proof -
  have "unat (drop_bit 13 a) < 2 ^ 4" using assms(1) unfolding unat_drop13 by (simp add: div_less_iff_less_mult)
  then have "drop_bit 13 a AND 0xf = drop_bit 13 a"
    using and_mask_id [of "drop_bit 13 a" 4] by (simp add: mask_eq_exp_minus_1)
  then have "push_bit 13 (drop_bit 13 a) = 0x1a000" using assms(2) by (simp add: and_factory)
  then have "drop_bit 13 (push_bit 13 (drop_bit 13 a)) = (13 :: u32)" by simp
  moreover have "drop_bit 13 (push_bit 13 (drop_bit 13 a)) = drop_bit 13 a"
    by (rule bit_word_eqI) (auto simp: bit_simps dest: bit_imp_le_length)
  ultimately have "unat a div 8192 = 13" using unat_drop13 [of a] by simp
  then show ?thesis by linarith
qed

lemma program_outside_factory:
  assumes "unat a < 0x20000" "unat a < 0x1a000 \<or> 0x1c000 \<le> unat a" "write_protect_size s \<le> a"
  shows "chip_data (program_byte a v s) = (chip_data s)(a := chip_data s a AND ucast v)"
proof -
  have "a AND 0x1e000 \<noteq> 0x1a000" using not_factory_bits [OF assms(1)] assms(2) by linarith
  with assms(3) show ?thesis by (simp add: program_byte_def)
qed

lemma erase_sector_in_chip: "erase_sector addr = Some (start, len) \<Longrightarrow> start + len \<le> 0x20000"
  by (auto simp: erase_sector_def Let_def split: if_splits)

text \<open>C20: Erasing a sector with the data sheet's command sequence and programming a byte of it reads
  back the byte; the rest of the sector is erased, and no byte outside of it has changed.\<close>

theorem flash_erase_program:
  assumes "flash_ok s" "flash_state s = FS_Normal" "sec AND 0x1FFFF = sec" "write_protect_size s \<le> sec"
    and "erase_sector sec = Some (start, len)" "start \<le> unat a" "unat a < start + len" "write_protect_size s \<le> a"
  shows "let s' = flash_writes (program_command a v) (flash_writes (erase_command sec) s)
    in flash_Read8 a s' = (ucast v, s')
      \<and> (\<forall>b. chip_data s' b = (if b = a then ucast v
           else if start \<le> unat b \<and> unat b < start + len then 0xff else chip_data s b))"
proof -
  define t where "t = flash_writes (erase_command sec) s"
  have t: "t = (memset start 0xff len s)\<lparr>flash_state := FS_Normal\<rparr>"
    using assms by (simp add: t_def erase_command_effect sector_erase_def)
  have lt: "unat a < 0x20000" using erase_sector_in_chip [OF assms(5)] assms(7) by linarith
  have a: "a AND 0x1FFFF = a" using lt by (rule and_chip_id)
  have out: "unat a < 0x1a000 \<or> 0x1c000 \<le> unat a"
    using erase_sector_range(1) [OF assms(5)] assms(6,7) by linarith
  have ok: "flash_ok t" "flash_state t = FS_Normal" "write_protect_size t \<le> a"
    using assms(1,8) by (simp_all add: t flash_ok_def)
  define u where "u = flash_writes (program_command a v) t"
  have u: "u = (program_byte a v t)\<lparr>flash_state := FS_Normal\<rparr>"
    unfolding u_def by (rule program_command_effect [OF ok(1,2) a])
  have "chip_data t a = 0xff" using assms(6,7) by (simp add: t memset_def)
  moreover have "0xff AND x = x" for x :: u8
  proof -
    have "(0xff :: u8) = - 1" by simp
    then show ?thesis by (simp only: and.left_neutral)
  qed
  ultimately have d: "chip_data u = (chip_data t)(a := ucast v)"
    using program_outside_factory [OF lt out ok(3), of v] by (simp add: u)
  have "chip_mask u = 0x1FFFF" using ok(1) by (simp add: u flash_ok_def)
  then have "flash_Read8 a u = (ucast v, u)"
    using a d by (simp add: flash_Read8_def MemChip_Read8_def) (simp add: u)
  moreover have "chip_data u b = (if b = a then ucast v
      else if start \<le> unat b \<and> unat b < start + len then 0xff else chip_data s b)" for b
    by (simp add: d) (simp add: t memset_def)
  ultimately show ?thesis unfolding Let_def t_def [symmetric] u_def [symmetric] by simp
qed

theorem flash_erase_program_witness:
  "fst (flash_Read8 0x1c123 (flash_writes (program_command 0x1c123 0x42)
     (flash_writes (erase_command 0x1c000) (DCFlashChip 0x20000 0)))) = 0x42"
proof -
  let ?s = "DCFlashChip 0x20000 0"
  have "flash_ok ?s" "flash_state ?s = FS_Normal" "write_protect_size ?s \<le> 0x1c000" "write_protect_size ?s \<le> 0x1c123"
    by (simp_all add: flash_ok_def DCFlashChip_def MemChip_def mem_chip.defs)
  moreover have "erase_sector 0x1c000 = Some (0x1c000, 0x4000)" by (simp add: erase_sector_def)
  ultimately show ?thesis
    using flash_erase_program [where s = ?s and sec = "0x1c000" and start = "0x1c000" and len = "0x4000"
        and a = "0x1c123" and v = "0x42"]
    by (simp add: Let_def del: flash_writes.simps)
qed

text \<open>The switch of the sector erase compares the address rounded to 8 KB with the starts of the
  sectors, so that an address in the rest of a bigger sector erases nothing.\<close>

lemma sector_erase_beyond_8K:
  "sector_erase 0x4000 s = s" "sector_erase 0x12000 s = s" "sector_erase 0x1e000 s = s"
  by (simp_all add: sector_erase_def erase_sector_def)

subsection \<open>The block store\<close>

text \<open>Blocks are compared by their 64 bytes.\<close>

definition contents :: "block \<Rightarrow> u8 list" where
  "contents b = map b [0..<64]"

definition same_block :: "block \<Rightarrow> block \<Rightarrow> bool" where
  "same_block b c \<longleftrightarrow> (\<forall>i < 64. b i = c i)"

lemma same_block_refl [simp]: "same_block b b"
  by (simp add: same_block_def)

lemma same_block_trans: "same_block a b \<Longrightarrow> same_block b c \<Longrightarrow> same_block a c"
  by (simp add: same_block_def)

lemma same_block_sym: "same_block a b \<Longrightarrow> same_block b a"
  by (simp add: same_block_def)

lemma same_block_id: "same_block b c \<Longrightarrow> block_id_of b = block_id_of c"
  by (simp add: same_block_def block_id_of_def)

lemma same_block_crc_loop: "same_block b c \<Longrightarrow> n \<le> 62 \<Longrightarrow> crc_loop n b = crc_loop n c"
  by (induction n) (simp_all add: same_block_def)

lemma same_block_validate: "same_block b c \<Longrightarrow> validate_crc b = validate_crc c"
  using same_block_crc_loop [of b c 62]
  by (simp add: validate_crc_def block_crc_def crc_block_def same_block_def)

lemma bitmap_index_less: "bitmap_index p div 8 < 64"
proof -
  have "bitmap_index p < 512" by (simp add: bitmap_index_def FLASH_BITMAP_BLOCKS_def FLASH_BLOCK_SIZE_def)
  then show ?thesis by linarith
qed

lemma same_block_allocated: "same_block b c \<Longrightarrow> is_allocated b p = is_allocated c p"
  using bitmap_index_less [of p] by (simp add: same_block_def is_allocated_def Let_def)

text \<open>The checksum \<open>WriteBlock\<close> stores is the one \<open>lookup_block\<close> checks.\<close>

lemma set_u16_simps:
  "block_id_of (set_u16 62 v b) = block_id_of b"
  "block_crc (set_u16 62 v b) = v"
  "block_id_of (set_u16 0 v b) = v"
proof -
  show "block_id_of (set_u16 62 v b) = block_id_of b" by (simp add: block_id_of_def set_u16_def)
  have "ucast (ucast v :: u8) OR push_bit 8 (ucast (ucast (drop_bit 8 v) :: u8)) = v"
    by (rule bit_word_eqI) (auto simp: bit_simps)
  then show "block_crc (set_u16 62 v b) = v" "block_id_of (set_u16 0 v b) = v"
    by (simp_all add: block_crc_def block_id_of_def set_u16_def)
qed

lemma crc_loop_set_u16: "n \<le> 62 \<Longrightarrow> crc_loop n (set_u16 62 v b) = crc_loop n b"
  by (induction n) (simp_all add: set_u16_def)

lemma crc_block_16: "ucast (ucast (crc_block b) :: u16) = crc_block b"
proof -
  have m: "(0xffff :: u32) = mask 16" by (simp add: mask_eq_exp_minus_1)
  show ?thesis unfolding crc_block_def m by (rule bit_word_eqI) (auto simp: bit_simps)
qed

lemma crc_stored: "validate_crc (set_u16 62 (ucast (crc_block b)) b)"
proof -
  have "crc_block (set_u16 62 (ucast (crc_block b)) b) = crc_block b"
    unfolding crc_block_def by (simp only: crc_loop_set_u16 order_refl)
  then show ?thesis unfolding validate_crc_def set_u16_simps(2) by (simp only: crc_block_16)
qed

text \<open>The bits of a bitmap.\<close>

lemma mask_bit_8: "bit (drop_bit i (0x80 :: u8)) j \<longleftrightarrow> i + j = 7"
proof -
  have p: "(0x80 :: u8) = push_bit 7 1" by simp
  show ?thesis
    unfolding p bit_drop_bit_eq comp_def bit_push_bit_iff bit_1_iff by auto
qed

lemma is_allocated_bit:
  "is_allocated b p \<longleftrightarrow> \<not> bit (b (bitmap_index p div 8)) (7 - bitmap_index p mod 8)"
proof -
  let ?i = "bitmap_index p"
  have j: "?i mod 8 + j = 7 \<longleftrightarrow> j = 7 - ?i mod 8" for j
    using mod_less_divisor [of 8 ?i] by linarith
  have "bit (b (?i div 8) AND drop_bit (?i mod 8) 0x80) j
      \<longleftrightarrow> j = 7 - ?i mod 8 \<and> bit (b (?i div 8)) (7 - ?i mod 8)" for j
    by (auto simp: bit_and_iff mask_bit_8 j)
  then have "b (?i div 8) AND drop_bit (?i mod 8) 0x80 = 0 \<longleftrightarrow> \<not> bit (b (?i div 8)) (7 - ?i mod 8)"
    by (metis (no_types, lifting) bit_0_eq bit_word_eqI bot_apply bot_bool_def)
  then show ?thesis by (simp add: is_allocated_def Let_def)
qed

lemma set_allocated_iff:
  "is_allocated (set_allocated b p) q \<longleftrightarrow> is_allocated b q \<or> bitmap_index q = bitmap_index p"
proof -
  let ?p = "bitmap_index p" and ?q = "bitmap_index q"
  have e: "?p mod 8 + (7 - ?q mod 8) = 7 \<longleftrightarrow> ?q mod 8 = ?p mod 8"
    using mod_less_divisor [of 8 ?q] mod_less_divisor [of 8 ?p] by linarith
  have d: "?q = ?p \<longleftrightarrow> ?q div 8 = ?p div 8 \<and> ?q mod 8 = ?p mod 8"
    by (metis div_mult_mod_eq)
  show ?thesis
    unfolding is_allocated_bit set_allocated_def Let_def d
    using mask_bit_8 [of "?p mod 8" "7 - ?q mod 8"] e
    by (auto simp: bit_and_iff bit_not_iff possible_bit_def)
qed

text \<open>The abstract view: which blocks are in use, and which ones carry an id.\<close>

definition bitmap_block :: "nat \<Rightarrow> nat \<Rightarrow> nat" where
  "bitmap_block sz p = num_user_blocks sz + 1 + (p - 1) div 512"

definition allocated :: "nat \<Rightarrow> nat \<Rightarrow> 'z mem_chip_scheme \<Rightarrow> nat \<Rightarrow> bool" where
  "allocated off sz s p \<longleftrightarrow> is_allocated (read_physical_block off (bitmap_block sz p) s) p"

definition carries :: "nat \<Rightarrow> 'z mem_chip_scheme \<Rightarrow> u32 \<Rightarrow> nat \<Rightarrow> bool" where
  "carries off s bid p \<longleftrightarrow> ucast (block_id_of (read_physical_block off p s)) = bid
     \<and> validate_crc (read_physical_block off p s)"

definition live :: "nat \<Rightarrow> nat \<Rightarrow> 'z mem_chip_scheme \<Rightarrow> nat \<Rightarrow> bool" where
  "live off sz s p \<longleftrightarrow> 1 \<le> p \<and> p \<le> num_user_blocks sz \<and> (\<forall>q. 1 \<le> q \<and> q \<le> p \<longrightarrow> allocated off sz s q)"

definition holders :: "nat \<Rightarrow> nat \<Rightarrow> 'z mem_chip_scheme \<Rightarrow> u32 \<Rightarrow> nat set" where
  "holders off sz s bid = {p. live off sz s p \<and> carries off s bid p}"

text \<open>The last element of a set of block numbers, 0 when there is none.\<close>

definition last_of :: "nat set \<Rightarrow> nat \<Rightarrow> bool" where
  "last_of R r \<longleftrightarrow> R = {} \<and> r = 0 \<or> r \<in> R \<and> (\<forall>q \<in> R. q \<le> r)"

lemma last_of_unique: "last_of R r \<Longrightarrow> last_of R r' \<Longrightarrow> r = r'"
  unfolding last_of_def by (metis empty_iff le_antisym)

text \<open>Which bitmap block belongs to which block, as the loops step through them.\<close>

lemma bitmap_step:
  assumes "1 \<le> (p :: nat)"
  shows "p mod 512 = 1 \<Longrightarrow> (p + 510) div 512 = (p - 1) div 512"
    "p mod 512 = 1 \<Longrightarrow> (p + 1 + 510) div 512 = (p - 1) div 512 + 1"
    "p mod 512 \<noteq> 1 \<Longrightarrow> (p + 1 + 510) div 512 = (p + 510) div 512"
    "p mod 512 \<noteq> 1 \<Longrightarrow> (p + 510) div 512 = (p - 1) div 512 + 1"
    "(p + 1) mod 512 \<noteq> 1 \<Longrightarrow> (p + 1 - 1) div 512 = (p - 1) div 512"
proof -
  obtain k r where p: "p = 512 * k + r + 1" and r: "r < 512"
  proof
    show "p = 512 * ((p - 1) div 512) + (p - 1) mod 512 + 1" using assms by simp
  qed simp
  have d: "(512 * k + c) div 512 = k + c div 512" for c by simp
  have c: "p + 510 = 512 * k + (r + 511)" "p + 1 + 510 = 512 * k + (r + 512)" "p - 1 = 512 * k + r"
    "p + 1 - 1 = 512 * k + (r + 1)" using p by simp_all
  have m: "p mod 512 = (r + 1) mod 512" "(p + 1) mod 512 = (r + 2) mod 512"
  proof -
    have e: "(512 * k + c) mod 512 = c mod 512" for c by simp
    have "p = 512 * k + (r + 1)" "p + 1 = 512 * k + (r + 2)" using p by simp_all
    then show "p mod 512 = (r + 1) mod 512" "(p + 1) mod 512 = (r + 2) mod 512" by (simp_all only: e)
  qed
  have q: "r div 512 = 0" "(r + 512) div 512 = 1" "(r + 511) div 512 = (if r = 0 then 0 else 1)"
    "(r + 1) div 512 = (if r = 511 then 1 else 0)" using r by auto
  have one: "p mod 512 = 1 \<longleftrightarrow> r = 0"
    unfolding m using r by (cases "r = 511") auto
  have zero: "r = 511 \<Longrightarrow> (p + 1) mod 512 = 1" unfolding m by simp
  show "p mod 512 = 1 \<Longrightarrow> (p + 510) div 512 = (p - 1) div 512"
    "p mod 512 = 1 \<Longrightarrow> (p + 1 + 510) div 512 = (p - 1) div 512 + 1"
    "p mod 512 \<noteq> 1 \<Longrightarrow> (p + 1 + 510) div 512 = (p + 510) div 512"
    "p mod 512 \<noteq> 1 \<Longrightarrow> (p + 510) div 512 = (p - 1) div 512 + 1"
    unfolding c d q one by simp_all
  show "(p + 1) mod 512 \<noteq> 1 \<Longrightarrow> (p + 1 - 1) div 512 = (p - 1) div 512"
    using zero unfolding c d q by auto
qed

lemma lookup_step:
  assumes "p < F"
  shows "lookup_loop off bid s F p bi bm r =
    (let bm' = (if p mod 512 = 1 then read_physical_block off bi s else bm);
         bi' = (if p mod 512 = 1 then bi + 1 else bi)
     in if \<not> is_allocated bm' p then r
        else lookup_loop off bid s F (p + 1) bi' bm' (if carries off s bid p then p else r))"
  using assms
  by (subst lookup_loop.simps) (simp add: Let_def FLASH_BITMAP_BLOCKS_def FLASH_BLOCK_SIZE_def carries_def)

lemma lookup_loop_last:
  assumes "1 \<le> p" "p \<le> num_user_blocks sz + 1" "\<forall>q. 1 \<le> q \<and> q < p \<longrightarrow> allocated off sz s q"
    and "bi = num_user_blocks sz + 1 + (p + 510) div 512"
    and "p mod 512 \<noteq> 1 \<longrightarrow> bm = read_physical_block off (bitmap_block sz p) s"
    and "last_of {q \<in> holders off sz s bid. q < p} r"
  shows "last_of (holders off sz s bid) (lookup_loop off bid s (num_user_blocks sz + 1) p bi bm r)"
  using assms
proof (induction "num_user_blocks sz + 1 - p" arbitrary: p bi bm r)
  case 0
  then have "{q \<in> holders off sz s bid. q < p} = holders off sz s bid"
    by (auto simp: holders_def live_def)
  with 0 show ?case by (subst lookup_loop.simps) simp
next
  case (Suc k)
  let ?bm = "if p mod 512 = 1 then read_physical_block off bi s else bm"
  let ?bi = "if p mod 512 = 1 then bi + 1 else bi"
  let ?r = "if carries off s bid p then p else r"
  have p: "p < num_user_blocks sz + 1" using Suc.hyps(2) by linarith
  have bm: "?bm = read_physical_block off (bitmap_block sz p) s"
    using Suc.prems(4,5) bitmap_step(1) [OF Suc.prems(1)] by (auto simp: bitmap_block_def)
  show ?case
  proof (cases "is_allocated ?bm p")
    case False
    then have "\<not> allocated off sz s p" unfolding allocated_def bm .
    then have "{q \<in> holders off sz s bid. q < p} = holders off sz s bid"
      using Suc.prems(1) by (auto simp: holders_def live_def not_less)
    with Suc.prems(6) False show ?thesis by (subst lookup_step [OF p]) (simp add: Let_def)
  next
    case True
    then have "allocated off sz s p" unfolding allocated_def bm .
    then have all: "\<forall>q. 1 \<le> q \<and> q < p + 1 \<longrightarrow> allocated off sz s q" using Suc.prems(3) by (auto simp: less_Suc_eq)
    then have "live off sz s p" using Suc.prems(1) p by (auto simp: live_def)
    then have "p \<in> holders off sz s bid \<longleftrightarrow> carries off s bid p" by (simp add: holders_def)
    then have "{q \<in> holders off sz s bid. q < p + 1}
        = (if carries off s bid p then insert p {q \<in> holders off sz s bid. q < p} else {q \<in> holders off sz s bid. q < p})"
      by (auto simp: less_Suc_eq)
    then have r: "last_of {q \<in> holders off sz s bid. q < p + 1} ?r"
      using Suc.prems(6) by (auto simp: last_of_def)
    have bi: "?bi = num_user_blocks sz + 1 + (p + 1 + 510) div 512"
      using Suc.prems(4) bitmap_step(1-3) [OF Suc.prems(1)] by simp
    have nbm: "(p + 1) mod 512 \<noteq> 1 \<longrightarrow> ?bm = read_physical_block off (bitmap_block sz (p + 1)) s"
      using bm bitmap_step(5) [OF Suc.prems(1)] by (simp add: bitmap_block_def)
    have "last_of (holders off sz s bid) (lookup_loop off bid s (num_user_blocks sz + 1) (p + 1) ?bi ?bm ?r)"
      using Suc.hyps(2) p all bi nbm r by (intro Suc.hyps(1)) auto
    with True show ?thesis by (subst lookup_step [OF p]) (simp add: Let_def)
  qed
qed

lemma lookup_block_last: "last_of (holders off sz s bid) (lookup_block off sz bid s)"
proof -
  have "last_of (holders off sz s bid)
      (lookup_loop off bid s (num_user_blocks sz + 1) 1 (num_user_blocks sz + 1) (\<lambda>i. 0) 0)"
    by (rule lookup_loop_last) (auto simp: last_of_def holders_def live_def)
  then show ?thesis by (simp add: lookup_block_def Let_def)
qed

text \<open>Allocation: the blocks before the result are in use and current; the result is not.\<close>

definition taken :: "nat \<Rightarrow> nat \<Rightarrow> 'z mem_chip_scheme \<Rightarrow> nat \<Rightarrow> bool" where
  "taken off sz s p \<longleftrightarrow> allocated off sz s p
     \<and> lookup_block off sz (ucast (block_id_of (read_physical_block off p s))) s = p"

definition alloc_result :: "nat \<Rightarrow> nat \<Rightarrow> 'z mem_chip_scheme \<Rightarrow> nat \<times> nat \<times> block \<Rightarrow> bool" where
  "alloc_result off sz s res \<longleftrightarrow> (case res of (p, bi, bm) \<Rightarrow>
     1 \<le> p \<and> (\<forall>q. 1 \<le> q \<and> q < p \<longrightarrow> taken off sz s q)
     \<and> (p \<le> num_user_blocks sz \<longrightarrow> \<not> taken off sz s p \<and> bi = bitmap_block sz p \<and> bm = read_physical_block off bi s))"

lemma alloc_step:
  assumes "p < F"
  shows "alloc_loop off sz s F p bi bm =
    (let bm' = (if p mod 512 = 1 then read_physical_block off (bi + 1) s else bm);
         bi' = (if p mod 512 = 1 then bi + 1 else bi)
     in if \<not> is_allocated bm' p \<or> lookup_block off sz (ucast (block_id_of (read_physical_block off p s))) s \<noteq> p
        then (p, bi', bm') else alloc_loop off sz s F (p + 1) bi' bm')"
  using assms
  by (subst alloc_loop.simps) (simp add: Let_def FLASH_BITMAP_BLOCKS_def FLASH_BLOCK_SIZE_def)

lemma alloc_loop_result:
  assumes "1 \<le> p" "p \<le> num_user_blocks sz + 1" "\<forall>q. 1 \<le> q \<and> q < p \<longrightarrow> taken off sz s q"
    and "bi = num_user_blocks sz + (p + 510) div 512"
    and "p mod 512 \<noteq> 1 \<longrightarrow> bm = read_physical_block off (bitmap_block sz p) s"
  shows "alloc_result off sz s (alloc_loop off sz s (num_user_blocks sz + 1) p bi bm)"
  using assms
proof (induction "num_user_blocks sz + 1 - p" arbitrary: p bi bm)
  case 0
  then show ?case by (subst alloc_loop.simps) (auto simp: alloc_result_def)
next
  case (Suc k)
  let ?bm = "if p mod 512 = 1 then read_physical_block off (bi + 1) s else bm"
  let ?bi = "if p mod 512 = 1 then bi + 1 else bi"
  have p: "p < num_user_blocks sz + 1" using Suc.hyps(2) by linarith
  have bi: "?bi = bitmap_block sz p"
    using Suc.prems(4) bitmap_step(1,4) [OF Suc.prems(1)] by (auto simp: bitmap_block_def)
  have bm: "?bm = read_physical_block off (bitmap_block sz p) s"
    using Suc.prems(5) bi by auto
  have tk: "taken off sz s p \<longleftrightarrow> \<not> (\<not> is_allocated ?bm p
      \<or> lookup_block off sz (ucast (block_id_of (read_physical_block off p s))) s \<noteq> p)"
    unfolding taken_def allocated_def bm by simp
  show ?case
  proof (cases "taken off sz s p")
    case False
    then have "alloc_loop off sz s (num_user_blocks sz + 1) p bi bm = (p, ?bi, ?bm)"
      using tk by (subst alloc_step [OF p]) (simp add: Let_def)
    then show ?thesis
      using Suc.prems(1,3) False bi bm by (auto simp: alloc_result_def)
  next
    case True
    have all: "\<forall>q. 1 \<le> q \<and> q < p + 1 \<longrightarrow> taken off sz s q" using Suc.prems(3) True by (auto simp: less_Suc_eq)
    have nbi: "?bi = num_user_blocks sz + (p + 1 + 510) div 512"
      using Suc.prems(4) bitmap_step(1-3) [OF Suc.prems(1)] by simp
    have nbm: "(p + 1) mod 512 \<noteq> 1 \<longrightarrow> ?bm = read_physical_block off (bitmap_block sz (p + 1)) s"
      using bm bitmap_step(5) [OF Suc.prems(1)] by (simp add: bitmap_block_def)
    have "alloc_result off sz s (alloc_loop off sz s (num_user_blocks sz + 1) (p + 1) ?bi ?bm)"
      using Suc.hyps(2) p all nbi nbm by (intro Suc.hyps(1)) auto
    then show ?thesis using True tk by (subst alloc_step [OF p]) (simp add: Let_def)
  qed
qed

lemma alloc_block_result:
  assumes "alloc_block off sz s = (p, s')" "p \<noteq> 0"
  shows "1 \<le> p" "p \<le> num_user_blocks sz" "\<forall>q. 1 \<le> q \<and> q < p \<longrightarrow> taken off sz s q" "\<not> taken off sz s p"
    "s' = write_physical_block off (bitmap_block sz p)
       (set_allocated (read_physical_block off (bitmap_block sz p) s) p) s"
proof -
  obtain q bi bm where l: "alloc_loop off sz s (num_user_blocks sz + 1) 1 (num_user_blocks sz) (\<lambda>i. 0) = (q, bi, bm)"
    by (metis prod_cases3)
  have "alloc_result off sz s (q, bi, bm)"
    using alloc_loop_result [of 1 sz off s "num_user_blocks sz" "\<lambda>i. 0"] l by simp
  moreover have "q = p" "p \<le> num_user_blocks sz" "s' = write_physical_block off bi (set_allocated bm p) s"
    using assms l by (auto simp: alloc_block_def Let_def split: if_splits)
  ultimately show "1 \<le> p" "p \<le> num_user_blocks sz" "\<forall>q. 1 \<le> q \<and> q < p \<longrightarrow> taken off sz s q" "\<not> taken off sz s p"
    "s' = write_physical_block off (bitmap_block sz p)
       (set_allocated (read_physical_block off (bitmap_block sz p) s) p) s"
    by (auto simp: alloc_result_def)
qed

lemma alloc_block_full:
  assumes "alloc_block off sz s = (0, s')"
  shows "s' = s"
proof -
  have "alloc_result off sz s (alloc_loop off sz s (num_user_blocks sz + 1) 1 (num_user_blocks sz) (\<lambda>i. 0))"
    using alloc_loop_result [of 1 sz off s "num_user_blocks sz" "\<lambda>i. 0"] by simp
  with assms show ?thesis
    by (auto simp: alloc_block_def Let_def alloc_result_def split: if_splits prod.splits)
qed

text \<open>What the loops rely on: the user blocks, then their bitmaps, fill the partition.\<close>

locale flash_partition =
  fixes off sz :: nat
  assumes blocks: "num_user_blocks sz + num_bitmap_blocks sz + 1 = num_physical_blocks sz"
    and bitmaps: "num_user_blocks sz \<le> 512 * num_bitmap_blocks sz"
    and in_chip: "off + sz \<le> 0x20000"
begin

lemma block_in_partition: "p < num_physical_blocks sz \<Longrightarrow> off + p * 64 + 64 \<le> 0x20000"
proof -
  assume "p < num_physical_blocks sz"
  then have "p + 1 \<le> sz div 64" by (simp add: num_physical_blocks_def FLASH_BLOCK_SIZE_def)
  then have "(p + 1) * 64 \<le> sz div 64 * 64" by (rule mult_le_mono1)
  moreover have "sz div 64 * 64 \<le> sz" by simp
  ultimately show ?thesis using in_chip by simp
qed

lemma bitmap_block_range:
  assumes "1 \<le> p" "p \<le> num_user_blocks sz"
  shows "num_user_blocks sz < bitmap_block sz p" "bitmap_block sz p < num_physical_blocks sz"
proof -
  have "p - 1 < num_bitmap_blocks sz * 512" using assms bitmaps by linarith
  then have "(p - 1) div 512 < num_bitmap_blocks sz" by (simp add: div_less_iff_less_mult)
  then show "num_user_blocks sz < bitmap_block sz p" "bitmap_block sz p < num_physical_blocks sz"
    using blocks by (simp_all add: bitmap_block_def)
qed

lemma user_block_range: "p \<le> num_user_blocks sz \<Longrightarrow> p < num_physical_blocks sz"
  using blocks by linarith

lemma read_write:
  assumes "p < num_physical_blocks sz" "q < num_physical_blocks sz"
  shows "same_block (read_physical_block off q (write_physical_block off p b s))
    (if q = p then b else read_physical_block off q s)"
  unfolding same_block_def
proof (intro allI impI)
  fix i :: nat
  assume i: "i < 64"
  have u: "unat (of_nat (off + q * 64 + i) :: u32) = off + q * 64 + i"
    using i block_in_partition [OF assms(2)] by (simp only: unat_of_nat) simp
  have "off + p * 64 \<le> off + q * 64 + i \<and> off + q * 64 + i < off + p * 64 + 64 \<longleftrightarrow> q = p"
    using i by linarith
  then show "read_physical_block off q (write_physical_block off p b s) i
      = (if q = p then b else read_physical_block off q s) i"
    unfolding read_physical_block_def write_physical_block_def flash_byte_def memcpy_def FLASH_BLOCK_SIZE_def
    using u by auto
qed

lemma header_kept:
  assumes "1 \<le> p" "p < num_physical_blocks sz"
  shows "validate_header off part (write_physical_block off p b s) = validate_header off part s"
proof -
  have "same_block (read_physical_block off 0 (write_physical_block off p b s)) (read_physical_block off 0 s)"
    using read_write [of p 0 b s] assms by simp
  then have "map (read_physical_block off 0 (write_physical_block off p b s)) [0..<16]
      = map (read_physical_block off 0 s) [0..<16]"
    "read_physical_block off 0 (write_physical_block off p b s) 16 = read_physical_block off 0 s 16"
    by (simp_all add: same_block_def)
  then show ?thesis by (simp only: validate_header_def Let_def)
qed

lemma user_write:
  assumes "1 \<le> p" "p \<le> num_user_blocks sz" "1 \<le> q" "q \<le> num_user_blocks sz"
  shows "allocated off sz (write_physical_block off p b s) q = allocated off sz s q"
    "carries off (write_physical_block off p b s) bid q
      = (if q = p then ucast (block_id_of b) = bid \<and> validate_crc b else carries off s bid q)"
proof -
  have "bitmap_block sz q \<noteq> p" using bitmap_block_range [OF assms(3,4)] assms(2) by linarith
  then have "same_block (read_physical_block off (bitmap_block sz q) (write_physical_block off p b s))
      (read_physical_block off (bitmap_block sz q) s)"
    using read_write [of p "bitmap_block sz q" b s] bitmap_block_range [OF assms(3,4)] user_block_range [OF assms(2)]
    by simp
  then show "allocated off sz (write_physical_block off p b s) q = allocated off sz s q"
    unfolding allocated_def by (rule same_block_allocated)
  have s: "same_block (read_physical_block off q (write_physical_block off p b s))
      (if q = p then b else read_physical_block off q s)"
    by (rule read_write [OF user_block_range [OF assms(2)] user_block_range [OF assms(4)]])
  show "carries off (write_physical_block off p b s) bid q
      = (if q = p then ucast (block_id_of b) = bid \<and> validate_crc b else carries off s bid q)"
    using same_block_id [OF s] same_block_validate [OF s] by (simp add: carries_def)
qed

lemma bitmap_write:
  assumes "1 \<le> p" "p \<le> num_user_blocks sz" "1 \<le> q" "q \<le> num_user_blocks sz"
    and "s' = write_physical_block off (bitmap_block sz p)
      (set_allocated (read_physical_block off (bitmap_block sz p) s) p) s"
  shows "allocated off sz s' q \<longleftrightarrow> allocated off sz s q \<or> q = p"
    "carries off s' bid q = carries off s bid q"
    "same_block (read_physical_block off q s') (read_physical_block off q s)"
proof -
  note bp = bitmap_block_range [OF assms(1,2)] and bq = bitmap_block_range [OF assms(3,4)]
  have "same_block (read_physical_block off (bitmap_block sz q) s')
      (if bitmap_block sz q = bitmap_block sz p then set_allocated (read_physical_block off (bitmap_block sz p) s) p
       else read_physical_block off (bitmap_block sz q) s)"
    unfolding assms(5) by (rule read_write [OF bp(2) bq(2)])
  then have "allocated off sz s' q \<longleftrightarrow> is_allocated
      (if bitmap_block sz q = bitmap_block sz p then set_allocated (read_physical_block off (bitmap_block sz p) s) p
       else read_physical_block off (bitmap_block sz q) s) q"
    unfolding allocated_def by (rule same_block_allocated)
  moreover have "bitmap_index q = bitmap_index p \<longleftrightarrow> q = p" if "bitmap_block sz q = bitmap_block sz p"
  proof -
    have "(q - 1) div 512 = (p - 1) div 512" using that by (simp add: bitmap_block_def)
    then have "(q - 1) mod 512 = (p - 1) mod 512 \<longleftrightarrow> q - 1 = p - 1" by (metis div_mult_mod_eq)
    then show ?thesis
      using assms(1,3) by (auto simp: bitmap_index_def FLASH_BITMAP_BLOCKS_def FLASH_BLOCK_SIZE_def)
  qed
  ultimately show "allocated off sz s' q \<longleftrightarrow> allocated off sz s q \<or> q = p"
    by (auto simp: set_allocated_iff allocated_def)
  show s: "same_block (read_physical_block off q s') (read_physical_block off q s)"
    using read_write [OF bp(2) user_block_range [OF assms(4)]] bp(1) assms(4) unfolding assms(5)
    by (metis not_less)
  show "carries off s' bid q = carries off s bid q"
    using same_block_id [OF s] same_block_validate [OF s] by (simp add: carries_def)
qed

end

lemma partition_geometry: "GetPartitionInfo part = Inr (off, sz) \<Longrightarrow> flash_partition off sz"
  by (auto simp: GetPartitionInfo_def flash_partition_def num_user_blocks_def num_physical_blocks_def
      num_bitmap_blocks_def FLASH_BLOCK_SIZE_def FLASH_BITMAP_BYTES_def FLASH_BITMAP_BLOCKS_def split: if_splits)

interpretation user_part: flash_partition "0x1c000" "16 * 1024"
  by (rule partition_geometry [of 2]) (simp add: GetPartitionInfo_def)

interpretation game_part: flash_partition "0x10000" "32 * 1024"
  by (rule partition_geometry [of 3]) (simp add: GetPartitionInfo_def)

interpretation unknown_part: flash_partition "0" "64 * 1024"
  by (rule partition_geometry [of 4]) (simp add: GetPartitionInfo_def)

text \<open>Blocks are handed out in order: what is in use is a prefix of the partition.\<close>

definition linear :: "nat \<Rightarrow> nat \<Rightarrow> 'z mem_chip_scheme \<Rightarrow> bool" where
  "linear off sz s \<longleftrightarrow> (\<forall>p q. 1 \<le> q \<and> q < p \<and> p \<le> num_user_blocks sz \<and> allocated off sz s p \<longrightarrow> allocated off sz s q)"

text \<open>\<open>p\<close> has become the current block of an id, and no other id has lost its own.\<close>

definition claimed :: "nat \<Rightarrow> nat \<Rightarrow> 'z mem_chip_scheme \<Rightarrow> u32 \<Rightarrow> nat \<Rightarrow> 'z mem_chip_scheme \<Rightarrow> bool" where
  "claimed off sz s bid p s' \<longleftrightarrow> last_of (holders off sz s' bid) p
     \<and> (\<forall>bid' r. bid' \<noteq> bid \<longrightarrow> last_of (holders off sz s bid') r \<longrightarrow> last_of (holders off sz s' bid') r \<and> r \<noteq> p)"

lemma last_of_remove: "last_of R r \<Longrightarrow> r \<noteq> p \<Longrightarrow> last_of (R - {p}) r"
  by (auto simp: last_of_def)

lemma lookup_zero: "lookup_block off sz bid s = 0 \<Longrightarrow> holders off sz s bid = {}"
  using lookup_block_last [of off sz s bid] by (auto simp: last_of_def holders_def live_def)

lemma lookup_holder: "lookup_block off sz bid s = p \<Longrightarrow> p \<noteq> 0 \<Longrightarrow> p \<in> holders off sz s bid"
  using lookup_block_last [of off sz s bid] by (auto simp: last_of_def)

lemma lookup_eq: "last_of (holders off sz s bid) r \<Longrightarrow> lookup_block off sz bid s = r"
  using lookup_block_last last_of_unique by blast

context flash_partition begin

lemma live_user_write:
  assumes "1 \<le> p" "p \<le> num_user_blocks sz"
  shows "live off sz (write_physical_block off p b s) q = live off sz s q"
proof -
  have "allocated off sz (write_physical_block off p b s) k = allocated off sz s k"
    if "1 \<le> k" "k \<le> num_user_blocks sz" for k by (rule user_write(1) [OF assms that])
  then show ?thesis unfolding live_def by (metis le_trans)
qed

lemma update_claims:
  assumes "lookup_block off sz bid s = p" "p \<noteq> 0" "ucast (block_id_of b) = bid" "validate_crc b"
  shows "claimed off sz s bid p (write_physical_block off p b s)"
proof -
  let ?t = "write_physical_block off p b s"
  have h: "p \<in> holders off sz s bid" using lookup_holder [OF assms(1,2)] .
  then have p: "1 \<le> p" "p \<le> num_user_blocks sz" by (auto simp: holders_def live_def)
  have "q \<in> holders off sz ?t b' \<longleftrightarrow> q \<in> holders off sz s b'" for q b'
  proof (cases "1 \<le> q \<and> q \<le> num_user_blocks sz")
    case True
    have "carries off s bid p" using h by (simp add: holders_def)
    then have "carries off s b' p \<longleftrightarrow> b' = bid" by (auto simp: carries_def)
    with True show ?thesis
      using user_write(2) [OF p, of q b s b'] assms(3,4) live_user_write [OF p]
      by (auto simp: holders_def)
  qed (auto simp: holders_def live_def)
  then have eq: "holders off sz ?t b' = holders off sz s b'" for b' by blast
  have "p \<notin> holders off sz s b'" if "b' \<noteq> bid" for b'
    using h that by (auto simp: holders_def carries_def)
  moreover have "last_of (holders off sz s bid) p" using lookup_block_last [of off sz s bid] assms(1) by simp
  ultimately show ?thesis
    using assms(2) by (auto simp: claimed_def eq last_of_def)
qed

lemma alloc_claims:
  assumes "lookup_block off sz bid s = 0" "alloc_block off sz s = (p, s1)" "p \<noteq> 0" "linear off sz s"
    and "ucast (block_id_of b) = bid" "validate_crc b"
  shows "claimed off sz s bid p (write_physical_block off p b s1)" "linear off sz (write_physical_block off p b s1)"
proof -
  let ?t = "write_physical_block off p b s1"
  note r = alloc_block_result [OF assms(2,3)]
  have al: "allocated off sz ?t q \<longleftrightarrow> allocated off sz s q \<or> q = p" if "1 \<le> q" "q \<le> num_user_blocks sz" for q
    using user_write(1) [OF r(1,2) that, of b s1] bitmap_write(1) [OF r(1,2) that r(5)] by simp
  have below: "allocated off sz s q" if "1 \<le> q" "q < p" for q using r(3) that by (auto simp: taken_def)
  have ca: "carries off ?t b' q = (if q = p then b' = bid else carries off s b' q)"
    if "1 \<le> q" "q \<le> num_user_blocks sz" for b' q
    using user_write(2) [OF r(1,2) that, of b s1 b'] bitmap_write(2) [OF r(1,2) that r(5), of b'] assms(5,6) by auto
  have lv: "live off sz ?t q \<longleftrightarrow> live off sz s q \<or> q = p" for q
  proof
    assume t: "live off sz ?t q"
    then have q: "1 \<le> q" "q \<le> num_user_blocks sz" "allocated off sz s q \<or> q = p" using al by (auto simp: live_def)
    show "live off sz s q \<or> q = p"
    proof (cases "allocated off sz s q")
      case True
      then have "allocated off sz s k" if "1 \<le> k" "k \<le> q" for k
        using that q(2) assms(4) unfolding linear_def by (metis le_neq_implies_less)
      with q show ?thesis by (simp add: live_def)
    qed (use q in simp)
  next
    assume "live off sz s q \<or> q = p"
    then have q: "1 \<le> q" "q \<le> num_user_blocks sz" using r(1,2) by (auto simp: live_def)
    have "allocated off sz s k \<or> k = p" if "1 \<le> k" "k \<le> q" for k
      using \<open>live off sz s q \<or> q = p\<close> that below [of k] by (cases "k = p") (auto simp: live_def)
    with al q show "live off sz ?t q" by (auto simp: live_def)
  qed
  have ht: "q \<in> holders off sz ?t b' \<longleftrightarrow> q = p \<and> b' = bid \<or> q \<noteq> p \<and> q \<in> holders off sz s b'" for q b'
  proof (cases "1 \<le> q \<and> q \<le> num_user_blocks sz")
    case True
    then show ?thesis unfolding holders_def mem_Collect_eq lv [of q] using ca [of q b'] by auto
  next
    case False
    then have "\<not> live off sz s q" "\<not> live off sz ?t q" "q \<noteq> p" using r(1,2) by (auto simp: live_def)
    then show ?thesis by (simp add: holders_def)
  qed
  have "holders off sz ?t bid = {p}"
    using ht [where b' = bid] lookup_zero [OF assms(1)] by auto
  moreover have "last_of (holders off sz ?t b') m \<and> m \<noteq> p" if "b' \<noteq> bid" "last_of (holders off sz s b') m" for b' m
  proof -
    have h: "holders off sz ?t b' = holders off sz s b' - {p}" using ht [where b' = b'] that(1) by auto
    have "m \<noteq> p"
    proof
      assume "m = p"
      with that(2) assms(3) have "p \<in> holders off sz s b'" by (auto simp: last_of_def)
      then have "allocated off sz s p" "ucast (block_id_of (read_physical_block off p s)) = b'"
        using r(1) by (auto simp: holders_def live_def carries_def)
      moreover have "lookup_block off sz b' s = p" using that(2) \<open>m = p\<close> by (simp add: lookup_eq)
      ultimately have "taken off sz s p" by (simp add: taken_def)
      with r(4) show False ..
    qed
    then show ?thesis using last_of_remove [OF that(2)] h by simp
  qed
  ultimately show "claimed off sz s bid p ?t" by (simp add: claimed_def last_of_def)
  show "linear off sz ?t"
    unfolding linear_def
  proof (intro allI impI)
    fix p' q
    assume q: "1 \<le> q \<and> q < p' \<and> p' \<le> num_user_blocks sz \<and> allocated off sz ?t p'"
    then have "allocated off sz s p' \<or> p' = p" using al [of p'] by auto
    then have "allocated off sz s q" using q below assms(4) unfolding linear_def by blast
    with q show "allocated off sz ?t q" using al [of q] by auto
  qed
qed

end

text \<open>The store a client sees: the 64 bytes of the current block of each id.\<close>

definition stored :: "u32 \<Rightarrow> 'z mem_chip_scheme \<Rightarrow> u32 \<Rightarrow> u8 list option" where
  "stored part s bid = (case ReadBlock part bid s of Inr (Some b) \<Rightarrow> Some (contents b) | _ \<Rightarrow> None)"

definition stamped :: "u32 \<Rightarrow> block \<Rightarrow> block" where
  "stamped bid dat = (let user = set_u16 0 (ucast bid) dat in set_u16 62 (ucast (crc_block user)) user)"

lemma stamped_simps: "block_id_of (stamped bid dat) = ucast bid" "validate_crc (stamped bid dat)"
  by (simp_all add: stamped_def Let_def set_u16_simps crc_stored)

lemma same_contents: "same_block b c \<Longrightarrow> contents b = contents c"
  by (simp add: contents_def same_block_def)

lemma stored_eq:
  assumes "GetPartitionInfo part = Inr (off, sz)" "validate_header off part s" "last_of (holders off sz s bid) r"
  shows "stored part s bid = (if r = 0 then None else Some (contents (read_physical_block off r s)))"
  using assms lookup_eq [OF assms(3)] by (simp add: stored_def ReadBlock_def Let_def)

context flash_partition begin

text \<open>Writing the claimed block makes it the id's value and keeps the value of every other id.\<close>

lemma claimed_stored:
  assumes part: "GetPartitionInfo part = Inr (off, sz)" and hdr: "validate_header off part s"
    and p: "1 \<le> p" "p \<le> num_user_blocks sz"
    and kept: "\<And>q. 1 \<le> q \<Longrightarrow> q \<le> num_user_blocks sz \<Longrightarrow> same_block (read_physical_block off q s1) (read_physical_block off q s)"
    and hdr1: "validate_header off part s1"
    and cl: "claimed off sz s bid p (write_physical_block off p b s1)"
  shows "stored part (write_physical_block off p b s1) = (stored part s)(bid \<mapsto> contents b)"
proof
  fix bid'
  let ?t = "write_physical_block off p b s1"
  have ht: "validate_header off part ?t"
    using header_kept [OF p(1) user_block_range [OF p(2)], of part b s1] hdr1 by simp
  show "stored part ?t bid' = ((stored part s)(bid \<mapsto> contents b)) bid'"
  proof (cases "bid' = bid")
    case True
    have "same_block (read_physical_block off p ?t) b"
      using read_write [OF user_block_range [OF p(2)] user_block_range [OF p(2)]] by simp
    then have "contents (read_physical_block off p ?t) = contents b" by (rule same_contents)
    moreover have "last_of (holders off sz ?t bid) p" using cl by (simp add: claimed_def)
    ultimately show ?thesis using True p(1) by (simp add: stored_eq [OF part ht])
  next
    case False
    obtain r where r: "last_of (holders off sz s bid') r" using lookup_block_last by blast
    then have rt: "last_of (holders off sz ?t bid') r" "r \<noteq> p" using cl False by (auto simp: claimed_def)
    have "contents (read_physical_block off r ?t) = contents (read_physical_block off r s)" if "r \<noteq> 0"
    proof -
      have q: "1 \<le> r" "r \<le> num_user_blocks sz" using r that by (auto simp: last_of_def holders_def live_def)
      have "same_block (read_physical_block off r ?t) (read_physical_block off r s1)"
        using read_write [OF user_block_range [OF p(2)] user_block_range [OF q(2)], of b s1] rt(2) by simp
      then show ?thesis using kept [OF q] by (intro same_contents) (rule same_block_trans)
    qed
    then show ?thesis
      using False by (simp add: stored_eq [OF part ht rt(1)] stored_eq [OF part hdr r])
  qed
qed

lemma WriteBlock_stored:
  assumes part: "GetPartitionInfo part = Inr (off, sz)" and "linear off sz s" "bid < 65536"
    and w: "WriteBlock part bid dat s = Inr (ok, s')"
  shows "if ok then stored part s' = (stored part s)(bid \<mapsto> contents (stamped bid dat)) \<and> linear off sz s' else s' = s"
proof (cases "validate_header off part s")
  case False
  with w part show ?thesis by (auto simp: WriteBlock_def)
next
  case hdr: True
  let ?b = "stamped bid dat"
  have "bid AND mask 16 = bid" using assms(3) by (intro and_mask_id) (simp add: word_less_nat_alt)
  moreover have "ucast (ucast bid :: u16) = bid AND mask 16" by (rule bit_word_eqI) (auto simp: bit_simps)
  ultimately have b: "ucast (block_id_of ?b) = bid" "validate_crc ?b" by (simp_all add: stamped_simps)
  show ?thesis
  proof (cases "lookup_block off sz bid s = 0")
    case False
    let ?p = "lookup_block off sz bid s"
    have p: "1 \<le> ?p" "?p \<le> num_user_blocks sz"
      using lookup_holder [OF refl False] by (auto simp: holders_def live_def)
    have "ok" "s' = write_physical_block off ?p ?b s"
      using w part hdr False by (simp_all add: WriteBlock_def Let_def stamped_def)
    moreover have "linear off sz (write_physical_block off ?p ?b s)"
      using assms(2) user_write(1) [OF p] unfolding linear_def by (metis le_trans less_imp_le_nat)
    ultimately show ?thesis
      using claimed_stored [OF part hdr p same_block_refl hdr update_claims [OF refl False b]] by simp
  next
    case True
    obtain p s1 where al: "alloc_block off sz s = (p, s1)" by (cases "alloc_block off sz s")
    show ?thesis
    proof (cases "p = 0")
      case True
      then show ?thesis
        using w part hdr \<open>lookup_block off sz bid s = 0\<close> al alloc_block_full [of off sz s s1]
        by (simp add: WriteBlock_def Let_def)
    next
      case False
      note r = alloc_block_result [OF al False]
      have "ok" "s' = write_physical_block off p ?b s1"
        using w part hdr True al False by (simp_all add: WriteBlock_def Let_def stamped_def)
      moreover have "validate_header off part s1"
        using header_kept [of "bitmap_block sz p"] bitmap_block_range [OF r(1,2)] hdr unfolding r(5)
        by (subst header_kept) simp_all
      ultimately show ?thesis
        using claimed_stored [OF part hdr r(1,2) bitmap_write(3) [OF r(1,2) _ _ r(5)] _ alloc_claims(1) [OF True al False assms(2) b]]
          alloc_claims(2) [OF True al False assms(2) b] by simp
    qed
  qed
qed

end

text \<open>C18: The block store is a map from ids to blocks. A \<open>WriteBlock\<close> that succeeds stores the
  block, with its id and checksum filled in, under the id and changes no other id's block, as
  \<open>ReadBlock\<close> sees them; one that fails changes nothing. The blocks in use stay a prefix of the partition.\<close>

theorem block_store_refines:
  assumes "GetPartitionInfo part = Inr (off, sz)" "linear off sz s" "bid < 65536"
    and "WriteBlock part bid dat s = Inr (ok, s')"
  shows "if ok then stored part s' = (stored part s)(bid \<mapsto> contents (stamped bid dat)) \<and> linear off sz s' else s' = s"
  by (rule flash_partition.WriteBlock_stored [OF partition_geometry [OF assms(1)] assms])

subsection \<open>Formatting\<close>

definition format_header :: "u32 \<Rightarrow> block" where
  "format_header part = (\<lambda>i. if i < 16 then FLASH_MAGIC_COOKIE ! i else if i = 16 then ucast part
     else if i = 17 then 0 else 0xff)"

definition formatted :: "nat \<Rightarrow> nat \<Rightarrow> u32 \<Rightarrow> 'z mem_chip_scheme \<Rightarrow> 'z mem_chip_scheme" where
  "formatted off sz part s = write_physical_block off 0 (format_header part) (memset off 0xff sz s)"

lemma validate_partition_eq:
  assumes "GetPartitionInfo part = Inr (off, sz)"
  shows "validate_partition part s = Inr (if validate_header off part s then s else formatted off sz part s)"
  using assms
  by (simp add: validate_partition_def erase_partition_def write_header_def formatted_def format_header_def Let_def)

context flash_partition begin

lemma erased_block:
  assumes "p < num_physical_blocks sz" "i < 64"
  shows "read_physical_block off p (memset off 0xff sz s) i = 0xff"
proof -
  have "off + p * 64 + i < off + sz"
  proof -
    have "p + 1 \<le> sz div 64" using assms(1) by (simp add: num_physical_blocks_def FLASH_BLOCK_SIZE_def)
    then have "(p + 1) * 64 \<le> sz div 64 * 64" by (rule mult_le_mono1)
    then show ?thesis using assms(2) by simp
  qed
  moreover have "unat (of_nat (off + p * 64 + i) :: u32) = off + p * 64 + i"
    using block_in_partition [OF assms(1)] assms(2) by (simp only: unat_of_nat) simp
  ultimately show ?thesis
    unfolding read_physical_block_def flash_byte_def memset_def FLASH_BLOCK_SIZE_def by simp
qed

lemma formatted_block:
  assumes "1 \<le> p" "p < num_physical_blocks sz" "i < 64"
  shows "read_physical_block off p (formatted off sz part s) i = 0xff"
  using read_write [of 0 p "format_header part" "memset off 0xff sz s"] assms erased_block [OF assms(2,3)]
  by (simp add: same_block_def formatted_def)

lemma formatted_free:
  assumes "1 \<le> p" "p \<le> num_user_blocks sz"
  shows "\<not> allocated off sz (formatted off sz part s) p"
proof -
  have "bit (0xff :: u8) (7 - bitmap_index p mod 8)"
  proof -
    have "(0xff :: u8) = - 1" by simp
    then show ?thesis by (simp only: bit_minus_1_iff possible_bit_word) simp
  qed
  moreover have "read_physical_block off (bitmap_block sz p) (formatted off sz part s) (bitmap_index p div 8) = 0xff"
    using bitmap_block_range [OF assms] bitmap_index_less by (intro formatted_block) auto
  ultimately show ?thesis by (simp add: allocated_def is_allocated_bit)
qed

lemma formatted_header:
  assumes "GetPartitionInfo part = Inr (off, sz)"
  shows "validate_header off part (formatted off sz part s)"
proof -
  let ?t = "formatted off sz part s"
  have "same_block (read_physical_block off 0 ?t) (format_header part)"
    using read_write [of 0 0 "format_header part" "memset off 0xff sz s"] blocks by (simp add: formatted_def)
  then have h: "read_physical_block off 0 ?t i = format_header part i" if "i < 64" for i
    using that by (simp add: same_block_def)
  have "map (read_physical_block off 0 ?t) [0..<16] = map (format_header part) [0..<16]"
    using h by simp
  also have "\<dots> = map ((!) FLASH_MAGIC_COOKIE) [0..<16]" by (simp add: format_header_def)
  also have "\<dots> = FLASH_MAGIC_COOKIE"
  proof -
    have "length FLASH_MAGIC_COOKIE = 16" by (simp add: FLASH_MAGIC_COOKIE_def)
    with map_nth [of FLASH_MAGIC_COOKIE] show ?thesis by (simp only:)
  qed
  finally have "map (read_physical_block off 0 ?t) [0..<16] = FLASH_MAGIC_COOKIE" .
  moreover have "ucast (read_physical_block off 0 ?t 16) = part"
    using assms h [of 16] by (auto simp: format_header_def GetPartitionInfo_def split: if_splits)
  ultimately show ?thesis by (simp add: validate_header_def Let_def)
qed

lemma formatted_empty:
  assumes "GetPartitionInfo part = Inr (off, sz)"
  shows "linear off sz (formatted off sz part s)" "stored part (formatted off sz part s) = Map.empty"
proof -
  show "linear off sz (formatted off sz part s)"
    using formatted_free [of _ part s] unfolding linear_def by (metis le_trans less_imp_le_nat)
  have "holders off sz (formatted off sz part s) bid = {}" for bid
    using formatted_free [of 1 part s] by (auto simp: holders_def live_def)
  then have "last_of (holders off sz (formatted off sz part s) bid) 0" for bid by (simp add: last_of_def)
  then show "stored part (formatted off sz part s) = Map.empty"
    using stored_eq [OF assms formatted_header [OF assms], of s _ 0] by (intro ext) simp
qed

lemma first_write:
  assumes "GetPartitionInfo part = Inr (off, sz)" "1 \<le> num_user_blocks sz"
  shows "\<exists>s'. WriteBlock part bid dat (formatted off sz part s) = Inr (True, s')"
proof -
  let ?s = "formatted off sz part s"
  obtain p s1 where al: "alloc_block off sz ?s = (p, s1)" by (cases "alloc_block off sz ?s")
  have "holders off sz ?s bid = {}"
    using formatted_free [of 1 part s] by (auto simp: holders_def live_def)
  then have z: "lookup_block off sz bid ?s = 0" by (intro lookup_eq) (simp add: last_of_def)
  have "alloc_result off sz ?s (alloc_loop off sz ?s (num_user_blocks sz + 1) 1 (num_user_blocks sz) (\<lambda>i. 0))"
    using alloc_loop_result [of 1 sz off ?s "num_user_blocks sz" "\<lambda>i. 0"] by simp
  moreover have "\<not> taken off sz ?s 1" using formatted_free [of 1 part s] assms(2) by (simp add: taken_def)
  ultimately have "p \<noteq> 0"
    using al assms(2) by (auto simp: alloc_block_def Let_def alloc_result_def split: if_splits prod.splits)
  then show ?thesis
    using assms(1) formatted_header [OF assms(1)] z al by (simp add: WriteBlock_def Let_def)
qed

end

theorem block_store_refines_witness:
  "\<exists>s'. WriteBlock 2 5 (\<lambda>i. of_nat i) (formatted 0x1c000 (16 * 1024) 2 (DCFlashChip 0x20000 0)) = Inr (True, s')
     \<and> stored 2 s' = [5 \<mapsto> contents (stamped 5 (\<lambda>i. of_nat i))]"
proof -
  let ?s = "formatted 0x1c000 (16 * 1024) 2 (DCFlashChip 0x20000 0)"
  have part: "GetPartitionInfo 2 = Inr (0x1c000, 16 * 1024)" by (simp add: GetPartitionInfo_def)
  have "1 \<le> num_user_blocks (16 * 1024)"
    by (simp add: num_user_blocks_def num_physical_blocks_def num_bitmap_blocks_def FLASH_BLOCK_SIZE_def
        FLASH_BITMAP_BYTES_def FLASH_BITMAP_BLOCKS_def)
  then obtain s' where s': "WriteBlock 2 5 (\<lambda>i. of_nat i) ?s = Inr (True, s')"
    using user_part.first_write [OF part] by blast
  have "stored 2 s' = (stored 2 ?s)(5 \<mapsto> contents (stamped 5 (\<lambda>i. of_nat i)))"
    using block_store_refines [OF part user_part.formatted_empty(1) [OF part] _ s'] by simp
  then show ?thesis using s' user_part.formatted_empty(2) [OF part, of "DCFlashChip 0x20000 0"] by simp
qed

end
