(* ===== verification/Addr_Space.thy ===== *)
theory Addr_Space
  imports Prelude
begin

section \<open>SH4 address space\<close>

text \<open>
  \<open>core/hw/mem/addrspace.cpp\<close>: the table of the 256 pages of 16 MB that every access of the SH4
  goes through, the handlers registered for device pages and the blocks of host memory mapped for
  the others, and \<open>readt\<close> and \<open>writet\<close> for the four access sizes.

  An entry of \<open>memInfo_ptr\<close> is a 64-bit host word. Below 32 it is a handler number; otherwise its
  low five bits are a shift count and the rest is the host address of the block. Host memory is a
  function of the host address, little endian, without bounds: the code checks none, and that an
  access stays in its block is a theorem. The shift of an address by an entry uses the low five
  bits of the count, as the hosts' shift instructions do.

  A registered function is a HOL function on the \<open>machine\<close>: host memory and the devices. A failed
  \<open>assert\<close>, a \<open>die\<close>, a call through a null pointer and a shift by 32 or more in \<open>FindMask\<close> are
  error values.
\<close>

datatype as_error = Assert_failed | Null_call | Die_size | Shift_undefined

record 'd machine =
  host :: "u64 \<Rightarrow> u8"
  dev :: 'd

datatype 'f fptr = Nullptr | NotMapped | Fun 'f

type_synonym ('t, 'm) read_fun = "(u32 \<Rightarrow> 'm \<Rightarrow> 't \<times> 'm) fptr"
type_synonym ('t, 'm) write_fun = "(u32 \<Rightarrow> 't \<Rightarrow> 'm \<Rightarrow> 'm) fptr"

record 'm tables =
  lastRegisteredHandler :: u32
  RF8 :: "u32 \<Rightarrow> (u8, 'm) read_fun"
  WF8 :: "u32 \<Rightarrow> (u8, 'm) write_fun"
  RF16 :: "u32 \<Rightarrow> (u16, 'm) read_fun"
  WF16 :: "u32 \<Rightarrow> (u16, 'm) write_fun"
  RF32 :: "u32 \<Rightarrow> (u32, 'm) read_fun"
  WF32 :: "u32 \<Rightarrow> (u32, 'm) write_fun"
  memInfo_ptr :: "u32 \<Rightarrow> u64"

definition HANDLER_MAX :: u64 where "HANDLER_MAX = 0x1F"

definition HANDLER_COUNT :: u32 where "HANDLER_COUNT = 0x20"

subsection \<open>Host memory\<close>

primrec host_load :: "(u64 \<Rightarrow> u8) \<Rightarrow> u64 \<Rightarrow> nat \<Rightarrow> u64" where
  "host_load h p 0 = 0"
| "host_load h p (Suc n) = host_load h p n OR push_bit (8 * n) (ucast (h (p + of_nat n)))"

definition host_store :: "u64 \<Rightarrow> nat \<Rightarrow> u64 \<Rightarrow> (u64 \<Rightarrow> u8) \<Rightarrow> u64 \<Rightarrow> u8" where
  "host_store p n v h = (\<lambda>q. if unat (q - p) < n then ucast (drop_bit (8 * unat (q - p)) v) else h q)"

definition host_memcpy :: "u64 \<Rightarrow> u64 \<Rightarrow> u32 \<Rightarrow> (u64 \<Rightarrow> u8) \<Rightarrow> u64 \<Rightarrow> u8" where
  "host_memcpy d s n h = (\<lambda>q. if unat (q - d) < unat n then h (s + (q - d)) else h q)"

subsection \<open>Accesses\<close>

definition entry_ptr :: "u64 \<Rightarrow> u64" where
  "entry_ptr iirf = iirf AND NOT HANDLER_MAX"

text \<open>\<open>addr <<= iirf; addr >>= iirf;\<close>\<close>

definition entry_offset :: "u64 \<Rightarrow> u32 \<Rightarrow> u32" where
  "entry_offset iirf addr = drop_bit (unat (iirf AND 0x1F)) (push_bit (unat (iirf AND 0x1F)) addr)"

definition page_entry :: "('m, 'z) tables_scheme \<Rightarrow> u32 \<Rightarrow> u64" where
  "page_entry t addr = memInfo_ptr t (drop_bit 24 addr)"

fun call_read :: "('w::len word, 'm) read_fun \<Rightarrow> u32 \<Rightarrow> 'm \<Rightarrow> as_error + 'w word \<times> 'm" where
  "call_read Nullptr addr m = Inl Null_call"
| "call_read NotMapped addr m = Inr (0, m)"
| "call_read (Fun f) addr m = Inr (f addr m)"

fun call_write :: "('w::len word, 'm) write_fun \<Rightarrow> u32 \<Rightarrow> 'w word \<Rightarrow> 'm \<Rightarrow> as_error + 'm" where
  "call_write Nullptr addr data m = Inl Null_call"
| "call_write NotMapped addr data m = Inr m"
| "call_write (Fun f) addr data m = Inr (f addr data m)"

definition widen :: "as_error + 'w::len word \<times> 'm \<Rightarrow> as_error + u64 \<times> 'm" where
  "widen x = sum_bind x (\<lambda>(v, m). Inr (ucast v, m))"

text \<open>\<open>readt<T>\<close>, with \<open>sz\<close> the size of \<open>T\<close> in bytes and the value in the low bits.\<close>

definition readt :: "nat \<Rightarrow> ('d machine, 'z) tables_scheme \<Rightarrow> u32 \<Rightarrow> 'd machine \<Rightarrow> as_error + u64 \<times> 'd machine" where
  "readt sz t addr m =
     (let iirf = page_entry t addr; ptr = entry_ptr iirf
      in if ptr \<noteq> 0
         then Inr (host_load (host m) (ptr + ucast (entry_offset iirf addr)) sz, m)
         else let index = (ucast iirf :: u32)
              in if sz = 1 then widen (call_read (RF8 t index) addr m)
                 else if sz = 2 then widen (call_read (RF16 t index) addr m)
                 else if sz = 4 then widen (call_read (RF32 t index) addr m)
                 else if sz = 8
                 then sum_bind (call_read (RF32 t index) addr m) (\<lambda>(lo, m).
                      sum_bind (call_read (RF32 t index) (addr + 4) m) (\<lambda>(hi, m).
                        Inr (ucast lo OR push_bit 32 (ucast hi), m)))
                 else Inl Die_size)"

definition writet :: "nat \<Rightarrow> ('d machine, 'z) tables_scheme \<Rightarrow> u32 \<Rightarrow> u64 \<Rightarrow> 'd machine \<Rightarrow> as_error + 'd machine" where
  "writet sz t addr data m =
     (let iirf = page_entry t addr; ptr = entry_ptr iirf
      in if ptr \<noteq> 0
         then Inr (m\<lparr>host := host_store (ptr + ucast (entry_offset iirf addr)) sz data (host m)\<rparr>)
         else let index = (ucast iirf :: u32)
              in if sz = 1 then call_write (WF8 t index) addr (ucast data) m
                 else if sz = 2 then call_write (WF16 t index) addr (ucast data) m
                 else if sz = 4 then call_write (WF32 t index) addr (ucast data) m
                 else if sz = 8
                 then sum_bind (call_write (WF32 t index) addr (ucast data) m)
                        (call_write (WF32 t index) (addr + 4) (ucast (drop_bit 32 data)))
                 else Inl Die_size)"

text \<open>The eight accessors.\<close>

definition narrow :: "as_error + u64 \<times> 'm \<Rightarrow> as_error + 'w::len word \<times> 'm" where
  "narrow x = sum_bind x (\<lambda>(v, m). Inr (ucast v, m))"

definition read8 :: "('d machine, 'z) tables_scheme \<Rightarrow> u32 \<Rightarrow> 'd machine \<Rightarrow> as_error + u8 \<times> 'd machine" where
  "read8 t addr m = narrow (readt 1 t addr m)"

definition read16 :: "('d machine, 'z) tables_scheme \<Rightarrow> u32 \<Rightarrow> 'd machine \<Rightarrow> as_error + u16 \<times> 'd machine" where
  "read16 t addr m = narrow (readt 2 t addr m)"

definition read32 :: "('d machine, 'z) tables_scheme \<Rightarrow> u32 \<Rightarrow> 'd machine \<Rightarrow> as_error + u32 \<times> 'd machine" where
  "read32 t addr m = narrow (readt 4 t addr m)"

definition read64 :: "('d machine, 'z) tables_scheme \<Rightarrow> u32 \<Rightarrow> 'd machine \<Rightarrow> as_error + u64 \<times> 'd machine" where
  "read64 t addr m = readt 8 t addr m"

definition write8 :: "('d machine, 'z) tables_scheme \<Rightarrow> u32 \<Rightarrow> u8 \<Rightarrow> 'd machine \<Rightarrow> as_error + 'd machine" where
  "write8 t addr data = writet 1 t addr (ucast data)"

definition write16 :: "('d machine, 'z) tables_scheme \<Rightarrow> u32 \<Rightarrow> u16 \<Rightarrow> 'd machine \<Rightarrow> as_error + 'd machine" where
  "write16 t addr data = writet 2 t addr (ucast data)"

definition write32 :: "('d machine, 'z) tables_scheme \<Rightarrow> u32 \<Rightarrow> u32 \<Rightarrow> 'd machine \<Rightarrow> as_error + 'd machine" where
  "write32 t addr data = writet 4 t addr (ucast data)"

definition write64 :: "('d machine, 'z) tables_scheme \<Rightarrow> u32 \<Rightarrow> u64 \<Rightarrow> 'd machine \<Rightarrow> as_error + 'd machine" where
  "write64 t addr data = writet 8 t addr data"

definition read8SX32 :: "('d machine, 'z) tables_scheme \<Rightarrow> u32 \<Rightarrow> 'd machine \<Rightarrow> as_error + u32 \<times> 'd machine" where
  "read8SX32 t addr m = sum_bind (read8 t addr m) (\<lambda>(v, m). Inr (scast v, m))"

definition read16SX32 :: "('d machine, 'z) tables_scheme \<Rightarrow> u32 \<Rightarrow> 'd machine \<Rightarrow> as_error + u32 \<times> 'd machine" where
  "read16SX32 t addr m = sum_bind (read16 t addr m) (\<lambda>(v, m). Inr (scast v, m))"

text \<open>\<open>readConst\<close> and \<open>writeConst\<close>: the host address of a memory page (\<open>ismem\<close>), or the function of
  a handler page.\<close>

datatype 'm read_target = Read_mem u64 | Read_fun8 "(u8, 'm) read_fun" | Read_fun16 "(u16, 'm) read_fun"
  | Read_fun32 "(u32, 'm) read_fun"

datatype 'm write_target = Write_mem u64 | Write_fun8 "(u8, 'm) write_fun" | Write_fun16 "(u16, 'm) write_fun"
  | Write_fun32 "(u32, 'm) write_fun"

definition readConst :: "('m, 'z) tables_scheme \<Rightarrow> u32 \<Rightarrow> nat \<Rightarrow> as_error + 'm read_target" where
  "readConst t addr sz =
     (let iirf = page_entry t addr; ptr = entry_ptr iirf
      in if ptr = 0
         then let index = (ucast iirf :: u32)
              in if sz = 1 then Inr (Read_fun8 (RF8 t index))
                 else if sz = 2 then Inr (Read_fun16 (RF16 t index))
                 else if sz = 4 then Inr (Read_fun32 (RF32 t index))
                 else Inl Die_size
         else Inr (Read_mem (ptr + ucast (entry_offset iirf addr))))"

definition writeConst :: "('m, 'z) tables_scheme \<Rightarrow> u32 \<Rightarrow> nat \<Rightarrow> as_error + 'm write_target" where
  "writeConst t addr sz =
     (let iirf = page_entry t addr; ptr = entry_ptr iirf
      in if ptr = 0
         then let index = (ucast iirf :: u32)
              in if sz = 1 then Inr (Write_fun8 (WF8 t index))
                 else if sz = 2 then Inr (Write_fun16 (WF16 t index))
                 else if sz = 4 then Inr (Write_fun32 (WF32 t index))
                 else Inl Die_size
         else Inr (Write_mem (ptr + ucast (entry_offset iirf addr))))"

subsection \<open>Registering and mapping\<close>

definition put_at :: "u32 \<Rightarrow> 'a \<Rightarrow> (u32 \<Rightarrow> 'a) \<Rightarrow> u32 \<Rightarrow> 'a" where
  "put_at i v f = f(i := v)"

fun default_fun :: "'f fptr \<Rightarrow> 'f fptr" where
  "default_fun Nullptr = NotMapped"
| "default_fun f = f"

definition registerHandler ::
  "(u8, 'm) read_fun \<Rightarrow> (u16, 'm) read_fun \<Rightarrow> (u32, 'm) read_fun \<Rightarrow>
   (u8, 'm) write_fun \<Rightarrow> (u16, 'm) write_fun \<Rightarrow> (u32, 'm) write_fun \<Rightarrow>
   ('m, 'z) tables_scheme \<Rightarrow> as_error + u32 \<times> ('m, 'z) tables_scheme" where
  "registerHandler r8 r16 r32 w8 w16 w32 t =
     (let rv = lastRegisteredHandler t; t = t\<lparr>lastRegisteredHandler := rv + 1\<rparr>
      in if \<not> rv < HANDLER_COUNT then Inl Assert_failed
         else Inr (rv, t\<lparr>RF8 := put_at rv (default_fun r8) (RF8 t),
                         RF16 := put_at rv (default_fun r16) (RF16 t),
                         RF32 := put_at rv (default_fun r32) (RF32 t),
                         WF8 := put_at rv (default_fun w8) (WF8 t),
                         WF16 := put_at rv (default_fun w16) (WF16 t),
                         WF32 := put_at rv (default_fun w32) (WF32 t)\<rparr>))"

text \<open>\<open>while (msk != s >> rv) rv++;\<close> The shift count 32 is undefined in C++.\<close>

function FindMask_loop :: "u32 \<Rightarrow> nat \<Rightarrow> as_error + u32" where
  "FindMask_loop msk rv =
     (if 32 \<le> rv then Inl Shift_undefined
      else if msk \<noteq> drop_bit rv (- 1) then FindMask_loop msk (rv + 1)
      else Inr (of_nat rv))"
  by auto
termination by (relation "measure (\<lambda>(msk, rv). 32 - rv)") auto

declare FindMask_loop.simps [simp del]

definition FindMask :: "u32 \<Rightarrow> as_error + u32" where
  "FindMask msk = FindMask_loop msk 0"

text \<open>The pages \<open>i\<close> of a loop \<open>for (u32 i = start; i <= end; i++)\<close> whose bounds are below 0x100.\<close>

definition pages :: "u32 \<Rightarrow> u32 \<Rightarrow> u32 list" where
  "pages first stop = map of_nat [unat first ..< Suc (unat stop)]"

definition map_asserts :: "u32 \<Rightarrow> u32 \<Rightarrow> bool" where
  "map_asserts first stop \<longleftrightarrow> first < 0x100 \<and> stop < 0x100 \<and> first \<le> stop"

definition mapHandler :: "u32 \<Rightarrow> u32 \<Rightarrow> u32 \<Rightarrow> ('m, 'z) tables_scheme \<Rightarrow> as_error + ('m, 'z) tables_scheme" where
  "mapHandler Handler first stop t =
     (if \<not> map_asserts first stop then Inl Assert_failed
      else Inr (t\<lparr>memInfo_ptr := fold (\<lambda>i. put_at i (ucast Handler)) (pages first stop) (memInfo_ptr t)\<rparr>))"

text \<open>The body of the loop of \<open>mapBlock\<close> with its counter \<open>j\<close>; \<open>fm\<close> is \<open>FindMask(mask)\<close>.\<close>

definition mapBlock_step :: "u64 \<Rightarrow> u32 \<Rightarrow> u32 \<Rightarrow> u32 \<Rightarrow> (u32 \<Rightarrow> u64) \<times> u32 \<Rightarrow> (u32 \<Rightarrow> u64) \<times> u32" where
  "mapBlock_step base msk fm i = (\<lambda>(info, j).
     (put_at i (base + ucast (j AND msk) + ucast fm - ucast (j AND msk)) info, j + 0x1000000))"

definition mapBlock :: "u64 \<Rightarrow> u32 \<Rightarrow> u32 \<Rightarrow> u32 \<Rightarrow> ('m, 'z) tables_scheme \<Rightarrow> as_error + ('m, 'z) tables_scheme" where
  "mapBlock base first stop msk t =
     (if \<not> map_asserts first stop \<or> 0xFF AND base \<noteq> 0 \<or> base = 0 then Inl Assert_failed
      else sum_bind (FindMask msk) (\<lambda>fm.
        Inr (t\<lparr>memInfo_ptr := fst (fold (mapBlock_step base msk fm) (pages first stop) (memInfo_ptr t, 0))\<rparr>)))"

definition mirrorMapping :: "u32 \<Rightarrow> u32 \<Rightarrow> u32 \<Rightarrow> ('m, 'z) tables_scheme \<Rightarrow> as_error + ('m, 'z) tables_scheme" where
  "mirrorMapping new_region start sz t =
     (let stop = start + sz - 1
      in if \<not> map_asserts start stop \<or> (new_region \<le> start \<and> stop \<le> new_region) then Inl Assert_failed
         else Inr (t\<lparr>memInfo_ptr := fst (fold (\<lambda>i (info, j). (put_at (j AND 0xFF) (info (i AND 0xFF)) info, j + 1))
                                           (pages start stop) (memInfo_ptr t, new_region))\<rparr>))"

text \<open>The loop of \<open>mapBlockMirror\<close>: it ends because a call of \<open>mapBlock\<close> with an empty or
  out of range page interval fails its assertions.\<close>

lemma mapBlock_asserts: "mapBlock base first stop msk t = Inr t' \<Longrightarrow> map_asserts first stop"
  by (auto simp: mapBlock_def split: if_splits)

lemma mirror_step_decreases:
  assumes "mapBlock base pg (pg + n - 1) msk t = Inr t'"
  shows "0x101 - unat (pg + n) < 0x101 - unat pg"
proof -
  have a: "pg < 0x100" "pg + n - 1 < 0x100" "pg \<le> pg + n - 1"
    using mapBlock_asserts [OF assms] by (simp_all add: map_asserts_def)
  define e where "e = pg + n - 1"
  have e: "unat e < 256" "unat pg \<le> unat e" using a by (simp_all add: e_def word_less_nat_alt word_le_nat_alt)
  have "pg + n = e + 1" by (simp add: e_def)
  then have "unat (pg + n) = unat e + 1" using e by (simp add: unat_word_ariths(1))
  with e show ?thesis by simp
qed

function mapBlockMirror_loop ::
  "u64 \<Rightarrow> u32 \<Rightarrow> u32 \<Rightarrow> u32 \<Rightarrow> u32 \<Rightarrow> ('m, 'z) tables_scheme \<Rightarrow> as_error + ('m, 'z) tables_scheme" where
  "mapBlockMirror_loop base pg stop block_size blck_size t =
     (if pg \<le> stop
      then case mapBlock base pg (pg + block_size - 1) (blck_size - 1) t of
             Inl e \<Rightarrow> Inl e
           | Inr t' \<Rightarrow> mapBlockMirror_loop base (pg + block_size) stop block_size blck_size t'
      else Inr t)"
  by auto
termination
  by (relation "measure (\<lambda>(base, pg, stop, block_size, blck_size, t). 0x101 - unat pg)")
    (use mirror_step_decreases in auto)

declare mapBlockMirror_loop.simps [simp del]

definition mapBlockMirror :: "u64 \<Rightarrow> u32 \<Rightarrow> u32 \<Rightarrow> u32 \<Rightarrow> ('m, 'z) tables_scheme \<Rightarrow> as_error + ('m, 'z) tables_scheme" where
  "mapBlockMirror base start stop blck_size = mapBlockMirror_loop base start stop (drop_bit 24 blck_size) blck_size"

definition addrspace_init :: "('m, 'z) tables_scheme \<Rightarrow> as_error + ('m, 'z) tables_scheme" where
  "addrspace_init t =
     (let t = t\<lparr>RF8 := \<lambda>_. Nullptr, RF16 := \<lambda>_. Nullptr, RF32 := \<lambda>_. Nullptr,
                WF8 := \<lambda>_. Nullptr, WF16 := \<lambda>_. Nullptr, WF32 := \<lambda>_. Nullptr,
                memInfo_ptr := \<lambda>_. 0, lastRegisteredHandler := 0\<rparr>
      in sum_bind (registerHandler Nullptr Nullptr Nullptr Nullptr Nullptr Nullptr t) (\<lambda>(defaultHandler, t).
           if defaultHandler \<noteq> 0 then Inl Assert_failed else Inr t))"

subsection \<open>Host memory as bits\<close>

lemma bit_host_load:
  "bit (host_load h p n) i \<longleftrightarrow> i < 64 \<and> i < 8 * n \<and> bit (h (p + of_nat (i div 8))) (i mod 8)"
proof (induction n)
  case (Suc n)
  show ?case
  proof (cases "8 * n \<le> i \<and> i < 8 * n + 8")
    case True
    then have d: "i div 8 = n" by (intro div_nat_eqI) simp_all
    then have "i - 8 * n = i mod 8" by (simp add: minus_mult_div_eq_mod flip: d)
    with d True Suc show ?thesis by (auto simp: bit_simps)
  next
    case False
    moreover have "bit (h (p + of_nat n)) (i - 8 * n) \<Longrightarrow> i - 8 * n < 8"
      using bit_imp_le_length [of "h (p + of_nat n)" "i - 8 * n"] by simp
    ultimately show ?thesis using Suc by (auto simp: bit_simps)
  qed
qed simp

lemma unat_of_nat_small: "k < 2 ^ 32 \<Longrightarrow> unat (of_nat k :: u64) = k"
  by (simp add: unat_of_nat)

lemma host_load_store:
  assumes "n \<le> 8"
  shows "host_load (host_store p n v h) p n = take_bit (8 * n) v"
proof (rule bit_word_eqI)
  fix i assume "i < LENGTH(64)"
  then have i: "i < 64" "i div 8 < 8" by simp_all
  then have u: "unat (of_nat (i div 8) :: u64) = i div 8" by (intro unat_of_nat_small) simp
  have "i div 8 < n \<longleftrightarrow> i < 8 * n" by auto
  moreover have "8 * (i div 8) + i mod 8 = i" by simp
  ultimately show "bit (host_load (host_store p n v h) p n) i = bit (take_bit (8 * n) v) i"
    using i by (auto simp: bit_host_load host_store_def u bit_simps)
qed

lemma host_load_cong:
  "(\<And>k. k < n \<Longrightarrow> h (p + of_nat k) = h' (p + of_nat k)) \<Longrightarrow> host_load h p n = host_load h' p n"
  by (induction n) simp_all

lemma host_load_store_other:
  assumes "\<And>k. k < n \<Longrightarrow> n' \<le> unat (p + of_nat k - p')"
  shows "host_load (host_store p' n' v h) p n = host_load h p n"
  using assms by (intro host_load_cong) (force simp: host_store_def)

lemma host_store_load: "n \<le> 8 \<Longrightarrow> unat (q - d) < n \<Longrightarrow>
    host_store d n (host_load h p n) h' q = h (p + (q - d))"
proof -
  assume n: "n \<le> 8" and k: "unat (q - d) < n"
  have "ucast (drop_bit (8 * unat (q - d)) (host_load h p n)) = h (p + (q - d))"
  proof (rule bit_word_eqI)
    fix i assume "i < LENGTH(8)"
    then have "(i + 8 * unat (q - d)) div 8 = unat (q - d)" "(i + 8 * unat (q - d)) mod 8 = i" by simp_all
    with \<open>i < LENGTH(8)\<close> n k show "bit (ucast (drop_bit (8 * unat (q - d)) (host_load h p n)) :: u8) i = bit (h (p + (q - d))) i"
      by (simp add: bit_simps bit_host_load algebra_simps)
  qed
  with k show ?thesis by (simp add: host_store_def)
qed

subsection \<open>What the mapping operations do\<close>

lemma FindMask_loop_mask:
  assumes "1 \<le> k" "k \<le> 32" "rv \<le> 32 - k"
  shows "FindMask_loop (mask k) rv = Inr (of_nat (32 - k))"
  using assms(3)
proof (induction "32 - k - rv" arbitrary: rv)
  case 0
  then have "rv = 32 - k" by simp
  moreover have "drop_bit (32 - k) (- 1 :: u32) = mask k"
    using assms by (intro bit_word_eqI) (auto simp: bit_simps)
  ultimately show ?case using assms by (subst FindMask_loop.simps) simp
next
  case (Suc d)
  then have "bit (drop_bit rv (- 1 :: u32)) k" "\<not> bit (mask k :: u32) k" using assms by (auto simp: bit_simps)
  then have "mask k \<noteq> drop_bit rv (- 1 :: u32)" by metis
  with Suc assms show ?case by (subst FindMask_loop.simps) simp
qed

lemma FindMask_loop_sound: "FindMask_loop m rv = Inr x \<Longrightarrow> \<exists>k. 1 \<le> k \<and> k \<le> 32 \<and> m = mask k"
proof (induction m rv rule: FindMask_loop.induct)
  case (1 m rv)
  show ?case
  proof (cases "m = drop_bit rv (- 1) \<and> rv < 32")
    case True
    then have "m = mask (32 - rv)" by (auto intro!: bit_word_eqI simp: bit_simps)
    with True show ?thesis by (intro exI [of _ "32 - rv"]) simp
  next
    case False
    with 1 show ?thesis by (subst (asm) (2) FindMask_loop.simps) (auto split: if_splits)
  qed
qed

lemma FindMask_mask: "1 \<le> k \<Longrightarrow> k \<le> 32 \<Longrightarrow> FindMask (mask k) = Inr (of_nat (32 - k))"
  by (simp add: FindMask_def FindMask_loop_mask)

lemma set_pages: "map_asserts a b \<Longrightarrow> i \<in> set (pages a b) \<longleftrightarrow> a \<le> i \<and> i \<le> b"
proof -
  assume "map_asserts a b"
  then have "unat b < 256" by (simp add: map_asserts_def word_less_nat_alt)
  then have n: "unat (of_nat n :: u32) = n" if "n \<le> unat b" for n using that by (simp add: unat_of_nat)
  show ?thesis
  proof
    assume "i \<in> set (pages a b)"
    then obtain n where "i = of_nat n" "unat a \<le> n" "n \<le> unat b" by (auto simp: pages_def)
    with n [of n] show "a \<le> i \<and> i \<le> b" by (simp add: word_le_nat_alt)
  next
    assume "a \<le> i \<and> i \<le> b"
    then have "unat i \<in> set [unat a ..< Suc (unat b)]" by (simp add: word_le_nat_alt del: upt_Suc)
    then have "(of_nat (unat i) :: u32) \<in> set (pages a b)" by (simp only: pages_def list.set_map imageI)
    then show "i \<in> set (pages a b)" by simp
  qed
qed

lemma fold_put_at: "fold (\<lambda>i. put_at i v) xs f = (\<lambda>i. if i \<in> set xs then v else f i)"
  by (induction xs arbitrary: f) (auto simp: put_at_def fun_eq_iff)

lemma fold_mapBlock_step:
  "fst (fold (mapBlock_step base msk fm) xs (f, j)) = (\<lambda>i. if i \<in> set xs then base + ucast fm else f i)"
  by (induction xs arbitrary: f j) (auto simp: mapBlock_step_def put_at_def fun_eq_iff)

definition set_pages_to :: "u32 \<Rightarrow> u32 \<Rightarrow> u64 \<Rightarrow> (u32 \<Rightarrow> u64) \<Rightarrow> u32 \<Rightarrow> u64" where
  "set_pages_to a b e f = (\<lambda>i. if a \<le> i \<and> i \<le> b then e else f i)"

lemma mapHandler_spec:
  "map_asserts a b \<Longrightarrow> mapHandler H a b t = Inr (t\<lparr>memInfo_ptr := set_pages_to a b (ucast H) (memInfo_ptr t)\<rparr>)"
  by (simp add: mapHandler_def fold_put_at set_pages set_pages_to_def)

lemma mapBlock_spec:
  "map_asserts a b \<Longrightarrow> 0xFF AND base = 0 \<Longrightarrow> base \<noteq> 0 \<Longrightarrow> FindMask msk = Inr fm
     \<Longrightarrow> mapBlock base a b msk t = Inr (t\<lparr>memInfo_ptr := set_pages_to a b (base + ucast fm) (memInfo_ptr t)\<rparr>)"
  by (simp add: mapBlock_def fold_mapBlock_step set_pages set_pages_to_def)

lemma pages_two: "a < 0xFF \<Longrightarrow> pages a (a + 1) = [a, a + 1]"
proof -
  assume "a < 0xFF"
  then have u: "unat (a + 1) = Suc (unat a)" by (simp add: unat_word_ariths(1) word_less_nat_alt)
  then show ?thesis by (simp add: pages_def add.commute)
qed

lemma and_page: "a < 0x100 \<Longrightarrow> a AND 0xFF = (a :: u32)"
proof -
  assume "a < 0x100"
  then have "take_bit 8 (unat a) = unat a" by (simp add: take_bit_nat_eq_self word_less_nat_alt)
  then have "take_bit 8 a = a" by (simp add: word_unat_eq_iff unsigned_take_bit_eq)
  then show ?thesis by (simp add: take_bit_eq_mask mask_eq_exp_minus_1)
qed

lemma mirrorMapping_two:
  assumes "start < 0xFF" "new + 1 < 0x100" "start + 2 \<le> new" "new < 0xFF"
  shows "mirrorMapping new start 2 t = Inr (t\<lparr>memInfo_ptr := (memInfo_ptr t)
           (new := memInfo_ptr t start, new + 1 := memInfo_ptr t (start + 1))\<rparr>)"
proof -
  have u: "unat start < 255" "unat new < 255" using assms by (simp_all add: word_less_nat_alt)
  then have u2: "unat (start + 1) = unat start + 1" "unat (start + 2) = unat start + 2" "unat (new + 1) = unat new + 1"
    by (simp_all add: unat_word_ariths(1))
  have lt: "unat start + 2 \<le> unat new" using assms(3) u2 by (simp add: word_le_nat_alt)
  have s: "start + 2 - 1 = start + 1" by simp
  have a: "map_asserts start (start + 1)" "\<not> (new \<le> start \<and> start + 1 \<le> new)"
    using u u2 lt by (simp_all add: map_asserts_def word_less_nat_alt word_le_nat_alt)
  have "start AND 0xFF = start" "(start + 1) AND 0xFF = start + 1" "new AND 0xFF = new" "(new + 1) AND 0xFF = new + 1"
    using u u2 by (simp_all add: and_page word_less_nat_alt)
  moreover have "start + 1 \<noteq> new" using u2 lt by auto
  ultimately show ?thesis
    using a by (simp add: mirrorMapping_def Let_def s pages_two [OF assms(1)] put_at_def)
qed

lemma set_pages_to_join:
  assumes "unat b + 1 = unat c" "a \<le> b" "c \<le> d"
  shows "set_pages_to c d e (set_pages_to a b e f) = set_pages_to a d e f"
  using assms by (auto simp: set_pages_to_def fun_eq_iff word_le_nat_alt)

text \<open>A mirrored block of \<open>n\<close> pages fills a region whose size is a multiple of \<open>n\<close>.\<close>

lemma mapBlockMirror_loop_spec:
  assumes "1 \<le> unat n" "unat stop < 0x100" "unat pg + Suc c * unat n = unat stop + 1"
    and base: "0xFF AND base = 0" "base \<noteq> 0" "FindMask (sz - 1) = Inr fm"
  shows "mapBlockMirror_loop base pg stop n sz t
    = Inr (t\<lparr>memInfo_ptr := set_pages_to pg stop (base + ucast fm) (memInfo_ptr t)\<rparr>)"
  using assms(3)
proof (induction c arbitrary: pg t)
  case 0
  then have s: "pg + n - 1 = stop"
    by (simp add: word_unat_eq_iff unat_word_ariths(1) unat_sub_if_size word_size) (use assms(1,2) in simp)
  have n: "pg + n = stop + 1" using s by (simp add: algebra_simps)
  have u: "unat (stop + 1) = unat stop + 1" using assms(2) by (simp add: unat_word_ariths(1))
  have a: "map_asserts pg stop" using 0 assms(1,2) by (simp add: map_asserts_def word_less_nat_alt word_le_nat_alt)
  have stop: "mapBlockMirror_loop base (stop + 1) stop n sz t' = Inr t'" for t' :: "('a, 'b) tables_scheme"
    using u by (subst mapBlockMirror_loop.simps) (simp add: word_le_nat_alt)
  from a show ?case using base
    by (subst mapBlockMirror_loop.simps) (simp add: s n stop mapBlock_spec map_asserts_def)
next
  case (Suc c)
  then have le: "unat pg + unat n + unat n \<le> unat stop + 1" by simp
  then have u: "unat (pg + n) = unat pg + unat n" using assms(2) by (simp add: unat_word_ariths(1))
  moreover have "1 \<le> pg + n" using u assms(1) by (simp add: word_le_nat_alt)
  ultimately have v: "unat (pg + n - 1) + 1 = unat (pg + n)" using assms(1) by (simp add: unat_sub_if_size word_size)
  have a: "map_asserts pg (pg + n - 1)" "pg \<le> stop" "pg \<le> pg + n - 1" "pg + n \<le> stop"
    using u v le assms(1,2) by (simp_all add: map_asserts_def word_less_nat_alt word_le_nat_alt)
  have "unat (pg + n) + Suc c * unat n = unat stop + 1" using Suc.prems u by simp
  note IH = Suc.IH [OF this]
  show ?case
    using a v base by (subst mapBlockMirror_loop.simps) (simp add: mapBlock_spec IH set_pages_to_join)
qed

subsection \<open>Accesses to mapped blocks\<close>

text \<open>Page of \<open>addr\<close> belongs to a block of \<open>2 ^ k\<close> bytes at \<open>base\<close>.\<close>

definition block_page :: "('m, 'z) tables_scheme \<Rightarrow> u64 \<Rightarrow> nat \<Rightarrow> u32 \<Rightarrow> bool" where
  "block_page t base k addr \<longleftrightarrow> 1 \<le> k \<and> k \<le> 32 \<and> 0xFF AND base = 0 \<and> base \<noteq> 0
     \<and> page_entry t addr = base + ucast (of_nat (32 - k) :: u32)"

lemma bit_0xFF: "bit (0xFF :: nat) i \<longleftrightarrow> i < 8" "bit (0xFF :: int) i \<longleftrightarrow> i < 8"
  and bit_0x1F: "bit (0x1F :: nat) i \<longleftrightarrow> i < 5" "bit (0x1F :: int) i \<longleftrightarrow> i < 5"
proof -
  have m: "(0xFF :: nat) = mask 8" "(0xFF :: int) = mask 8" "(0x1F :: nat) = mask 5" "(0x1F :: int) = mask 5"
    by (simp_all add: mask_eq_exp_minus_1)
  show "bit (0xFF :: nat) i \<longleftrightarrow> i < 8" "bit (0xFF :: int) i \<longleftrightarrow> i < 8"
    "bit (0x1F :: nat) i \<longleftrightarrow> i < 5" "bit (0x1F :: int) i \<longleftrightarrow> i < 5"
    unfolding m by (auto simp: bit_mask_iff)
qed

lemma aligned_low_bits: "0xFF AND (base :: u64) = 0 \<Longrightarrow> i < 8 \<Longrightarrow> \<not> bit base i"
proof -
  assume "0xFF AND base = 0" and "i < 8"
  then have "\<not> bit (0xFF AND base) i" by simp
  with \<open>i < 8\<close> show ?thesis by (auto simp: bit_and_iff bit_0xFF dest: bit_imp_le_length)
qed

lemma bit_small64: "bit (of_nat n :: u64) i \<Longrightarrow> n < 32 \<Longrightarrow> i < 5"
proof (rule ccontr)
  assume b: "bit (of_nat n :: u64) i" and n: "n < 32" and "\<not> i < 5"
  then have "2 ^ 5 \<le> (2::nat) ^ i" by (intro power_increasing) simp_all
  with n have "n div 2 ^ i = 0" by simp
  moreover have "bit n i" using b by (simp add: bit_of_nat_iff)
  ultimately show False by (simp add: bit_iff_odd)
qed

lemma block_entry:
  assumes "0xFF AND base = 0" "n < 32"
  shows "entry_ptr (base + of_nat n) = base" "(base + of_nat n) AND 0x1F = of_nat n"
proof -
  have "base AND of_nat n = 0"
    by (rule bit_word_eqI) (use aligned_low_bits [OF assms(1)] bit_small64 [OF _ assms(2)] in \<open>force simp: bit_and_iff\<close>)
  then have s: "base + of_nat n = base OR of_nat n" by (rule disjunctive_add_eq_or)
  have b: "\<not> bit base i" "bit (of_nat n :: u64) i \<Longrightarrow> i < 5" if "i < 5" for i
    using aligned_low_bits [OF assms(1)] that by simp_all
  show "entry_ptr (base + of_nat n) = base"
    by (rule bit_word_eqI)
      (use b bit_small64 [OF _ assms(2)] in \<open>auto simp: entry_ptr_def HANDLER_MAX_def s bit_simps bit_0x1F\<close>)
  show "(base + of_nat n) AND 0x1F = of_nat n"
    by (rule bit_word_eqI)
      (use b bit_small64 [OF _ assms(2)] in \<open>auto simp: s bit_simps bit_0x1F\<close>)
qed

lemma block_page_entry:
  assumes "block_page t base k addr"
  shows "entry_ptr (page_entry t addr) = base" "entry_offset (page_entry t addr) addr = addr AND mask k"
proof -
  have k: "1 \<le> k" "k \<le> 32" "0xFF AND base = 0" using assms by (simp_all add: block_page_def)
  have "ucast (of_nat j :: u32) = (of_nat j :: u64)" if "j \<le> 32" for j
    using that by (simp add: word_unat_eq_iff unsigned_ucast_eq unat_of_nat take_bit_nat_eq_self)
  from this [of "32 - k"] have e: "page_entry t addr = base + of_nat (32 - k)" using assms by (simp add: block_page_def)
  then show "entry_ptr (page_entry t addr) = base" using block_entry [of base "32 - k"] k by simp
  have "page_entry t addr AND 0x1F = of_nat (32 - k)" unfolding e by (rule block_entry(2)) (use k in auto)
  moreover have "unat (of_nat (32 - k) :: u64) = 32 - k" by (rule unat_of_nat_small) simp
  ultimately have "unat (page_entry t addr AND 0x1F) = 32 - k" by (simp only:)
  then show "entry_offset (page_entry t addr) addr = addr AND mask k"
    using k by (auto intro!: bit_word_eqI simp: entry_offset_def bit_simps)
qed

lemma readt_block:
  "block_page t base k addr \<Longrightarrow>
     readt sz t addr m = Inr (host_load (host m) (base + ucast (addr AND mask k)) sz, m)"
  using block_page_entry [of t base k addr] by (simp add: readt_def Let_def block_page_def)

lemma writet_block:
  "block_page t base k addr \<Longrightarrow>
     writet sz t addr v m = Inr (m\<lparr>host := host_store (base + ucast (addr AND mask k)) sz v (host m)\<rparr>)"
  using block_page_entry [of t base k addr] by (simp add: writet_def Let_def block_page_def)

lemma Const_block:
  "block_page t base k addr \<Longrightarrow> readConst t addr sz = Inr (Read_mem (base + ucast (addr AND mask k)))"
  "block_page t base k addr \<Longrightarrow> writeConst t addr sz = Inr (Write_mem (base + ucast (addr AND mask k)))"
  using block_page_entry [of t base k addr] by (simp_all add: readConst_def writeConst_def Let_def block_page_def)

text \<open>An aligned access stays inside of its block.\<close>

lemma aligned_in_block:
  assumes "addr AND (2 ^ j - 1) = (0 :: u32)" "j \<le> k" "k \<le> 32" "n < 2 ^ j"
  shows "unat (addr AND mask k) + n < 2 ^ k"
proof -
  have "addr AND mask j = 0" using assms(1) by (simp add: mask_eq_exp_minus_1)
  then have "take_bit j (unat addr) = 0" by (metis take_bit_eq_mask unsigned_0 unsigned_take_bit_eq)
  then have a: "2 ^ j dvd unat addr" by (simp add: take_bit_eq_0_iff)
  have e: "unat (addr AND mask k) = unat addr mod 2 ^ k"
    by (simp only: unsigned_take_bit_eq take_bit_eq_mod [of k "unat addr"] flip: take_bit_eq_mask)
  have d: "(2::nat) ^ j dvd 2 ^ k" using assms(2) by (simp add: le_imp_power_dvd)
  then have "2 ^ j dvd unat addr mod 2 ^ k" using a by (simp add: dvd_mod)
  moreover have "unat addr mod 2 ^ k < 2 ^ k" by simp
  ultimately obtain q r where "unat addr mod 2 ^ k = 2 ^ j * q" "2 ^ k = 2 ^ j * (r::nat)" "2 ^ j * q < 2 ^ j * r"
    using d by (metis dvd_def)
  moreover from this have "2 ^ j * (q + 1) \<le> 2 ^ j * r" by (intro mult_le_mono2) simp
  ultimately show ?thesis using assms(4) e by simp
qed

subsection \<open>Properties\<close>

lemma unat_ucast64: "unat (ucast (x :: u32) :: u64) = unat x"
proof -
  have "unat x < 2 ^ 64" using unsigned_less [of x, where 'a = nat] by simp
  then show ?thesis by (simp add: unsigned_ucast_eq take_bit_nat_eq_self)
qed

text \<open>What is stored through one address of a mapped block is read back, for each of the four
  sizes, through every address whose page maps the same block and which is equal to the first under the
  block's mask: the mirrors of a memory are one memory. The load changes nothing.\<close>

theorem mirror_roundtrip:
  assumes "block_page t base k a" "block_page t base k b" "a AND mask k = b AND mask k"
    and "sz \<in> {1, 2, 4, 8}"
  shows "\<exists>m'. writet sz t a v m = Inr m' \<and> dev m' = dev m
    \<and> readt sz t b m' = Inr (take_bit (8 * sz) v, m')"
proof -
  have "sz \<le> 8" using assms(4) by auto
  then show ?thesis
    by (simp add: writet_block [OF assms(1)] readt_block [OF assms(2)] assms(3) host_load_store)
qed

text \<open>A table with one block of 16 MB mapped at pages 0x0C and 0x0D, for the examples.\<close>

definition example_tables :: "'m tables" where
  "example_tables = \<lparr>lastRegisteredHandler = 1, RF8 = \<lambda>_. NotMapped, WF8 = \<lambda>_. NotMapped,
     RF16 = \<lambda>_. NotMapped, WF16 = \<lambda>_. NotMapped, RF32 = \<lambda>_. NotMapped, WF32 = \<lambda>_. NotMapped,
     memInfo_ptr = (\<lambda>_. 0)(0x0C := 0x1008, 0x0D := 0x1008)\<rparr>"

lemma example_block:
  "block_page example_tables 0x1000 24 0x0C000010" "block_page example_tables 0x1000 24 0x0D000010"
  by (simp_all add: block_page_def page_entry_def example_tables_def drop_bit_eq_div)

theorem mirror_roundtrip_witness:
  "\<exists>m'. writet 4 example_tables 0x0C000010 0x1122334455667788 \<lparr>host = \<lambda>_. 0, dev = (0::nat)\<rparr> = Inr m'
     \<and> dev m' = 0 \<and> readt 4 example_tables 0x0D000010 m' = Inr (0x55667788, m')"
  using mirror_roundtrip [OF example_block, of 4 "0x1122334455667788" "\<lparr>host = \<lambda>_. 0, dev = (0::nat)\<rparr>"]
  by (simp add: mask_eq_exp_minus_1 take_bit_eq_mod)

text \<open>C26: an aligned store to a mapped block changes host bytes of that block only, although no bounds
  are checked.\<close>

theorem aligned_store_in_block:
  assumes "block_page t base k a" "3 \<le> k" "sz = 2 ^ j" "j \<le> 3" "a AND (2 ^ j - 1) = 0"
    and "2 ^ k \<le> unat (q - base)" and "writet sz t a v m = Inr m'"
  shows "host m' q = host m q"
proof -
  have k: "j \<le> k" "k \<le> 32" using assms(1,2,4) by (simp_all add: block_page_def)
  define o' where "o' = a AND mask k"
  have le: "sz \<le> unat (q - (base + ucast o'))"
  proof (rule ccontr)
    assume n: "\<not> sz \<le> unat (q - (base + ucast o'))"
    define d where "d = q - (base + ucast o')"
    have d: "unat d < 2 ^ j" using n assms(3) by (simp add: d_def)
    have b: "unat o' + unat d < 2 ^ k" unfolding o'_def by (rule aligned_in_block [OF assms(5) k d])
    have "(2::nat) ^ k \<le> 2 ^ 32" using k by (intro power_increasing) simp_all
    moreover have "unat (ucast o' :: u64) = unat o'" by (rule unat_ucast64)
    ultimately have "unat (ucast o' + d) = unat o' + unat d" using b by (simp add: unat_word_ariths(1))
    moreover have "ucast o' + d = q - base" by (simp add: d_def)
    ultimately show False using b assms(6) by simp
  qed
  then show ?thesis using assms(7) by (auto simp: writet_block [OF assms(1)] host_store_def o'_def)
qed

theorem aligned_store_in_block_witness:
  "\<exists>m'. writet 8 example_tables 0x0C000010 1 \<lparr>host = \<lambda>_. 7, dev = (0::nat)\<rparr> = Inr m'
     \<and> host m' 0x2000000 = 7"
proof -
  obtain m' where m': "writet 8 example_tables 0x0C000010 1 \<lparr>host = \<lambda>_. 7, dev = (0::nat)\<rparr> = Inr m'"
    by (simp add: writet_block [OF example_block(1)])
  show ?thesis
    using aligned_store_in_block [OF example_block(1) _ _ _ _ _ m', of 3 "0x2000000"] m' by auto
qed

text \<open>After \<open>init\<close> no page is mapped: it succeeds, every load of a size of the SH4 returns 0, every
  store is dropped, and neither changes the machine.\<close>

theorem fresh_map_is_empty:
  "\<exists>t'. addrspace_init t = Inr t'
     \<and> (\<forall>sz \<in> {1, 2, 4, 8}. \<forall>addr v m. readt sz t' addr m = Inr (0, m) \<and> writet sz t' addr v m = Inr m)"
  by (auto simp: addrspace_init_def registerHandler_def Let_def HANDLER_COUNT_def put_at_def readt_def
      writet_def page_entry_def entry_ptr_def widen_def)

theorem fresh_map_is_empty_witness:
  "\<exists>t'. addrspace_init example_tables = Inr t' \<and> readt 8 t' 0x8C000000 \<lparr>host = \<lambda>_. 7, dev = (0::nat)\<rparr>
     = Inr (0, \<lparr>host = \<lambda>_. 7, dev = 0\<rparr>)"
proof -
  obtain t' :: "nat machine tables" where "addrspace_init example_tables = Inr t'"
    and all: "\<forall>sz \<in> {1, 2, 4, 8}. \<forall>addr v m. readt sz t' addr m = Inr (0, m) \<and> writet sz t' addr v m = Inr m"
    using fresh_map_is_empty [of example_tables] by blast
  moreover have "readt 8 t' 0x8C000000 \<lparr>host = \<lambda>_. 7, dev = 0\<rparr> = Inr (0, \<lparr>host = \<lambda>_. 7, dev = 0\<rparr>)"
    using all by blast
  ultimately show ?thesis by blast
qed

end
