(* ===== verification/Memory_Map.thy ===== *)
theory Memory_Map
  imports Addr_Space
begin

section \<open>SH4 memory map\<close>

text \<open>
  The pages of the SH4 address space as \<open>mem_map_default\<close> of \<open>core/hw/sh4/sh4_mem.cpp\<close> fills them:
  the areas 0 to 7 with the functions of \<open>sh4_mem.cpp\<close>, \<open>core/hw/holly/sb_mem.cpp\<close>,
  \<open>core/hw/pvr/elan.cpp\<close> and \<open>core/hw/sh4/sh4_mmr.cpp\<close> that register and map their handlers; the
  memory sizes of \<open>setPlatform\<close> in \<open>core/emulator.cpp\<close>.

  The functions of the devices (system bus, PowerVR, Elan, registers) are the argument \<open>d\<close> and the
  places of the memories in the host the argument \<open>b\<close>; the static variables that hold the handler
  numbers extend the tables. \<open>decode_page\<close> is the reference memory map, and \<open>memory_map_refines\<close> states
  that the tables realise it.
\<close>

datatype platform = DC_PLATFORM_DREAMCAST | DC_PLATFORM_NAOMI | DC_PLATFORM_NAOMI2
  | DC_PLATFORM_ATOMISWAVE | DC_PLATFORM_SYSTEMSP

subsection \<open>Platforms\<close>

record settings =
  system :: platform
  ram_size :: u32
  ram_mask :: u32
  vram_size :: u32
  vram_mask :: u32
  aram_size :: u32
  aram_mask :: u32
  bios_size :: u32
  flash_size :: u32
  ERAM_SIZE :: u32

definition MB :: "u32 \<Rightarrow> u32" where "MB n = n * 0x100000"

definition KB :: "u32 \<Rightarrow> u32" where "KB n = n * 0x400"

text \<open>\<open>setPlatform\<close>, without the release of the write protected pages.\<close>

definition setPlatform :: "bool \<Rightarrow> platform \<Rightarrow> settings \<Rightarrow> settings" where
  "setPlatform RamMod32MB plat s =
     (let s = s\<lparr>ERAM_SIZE := 0\<rparr>;
          s = (case plat of
                 DC_PLATFORM_DREAMCAST \<Rightarrow> s\<lparr>ram_size := (if RamMod32MB then MB 32 else MB 16), vram_size := MB 8,
                   aram_size := MB 2, bios_size := MB 2, flash_size := KB 128\<rparr>
               | DC_PLATFORM_NAOMI \<Rightarrow> s\<lparr>ram_size := MB 32, vram_size := MB 16, aram_size := MB 8,
                   bios_size := MB 2, flash_size := KB 32\<rparr>
               | DC_PLATFORM_NAOMI2 \<Rightarrow> s\<lparr>ram_size := MB 32, vram_size := MB 16, aram_size := MB 8,
                   bios_size := MB 2, flash_size := KB 32, ERAM_SIZE := MB 32\<rparr>
               | DC_PLATFORM_ATOMISWAVE \<Rightarrow> s\<lparr>ram_size := MB 16, vram_size := MB 8, aram_size := MB 2,
                   bios_size := KB 128, flash_size := KB 128\<rparr>
               | DC_PLATFORM_SYSTEMSP \<Rightarrow> s\<lparr>ram_size := MB 32, vram_size := MB 16, aram_size := MB 8,
                   bios_size := MB 2, flash_size := KB 128\<rparr>)
      in s\<lparr>system := plat, ram_mask := ram_size s - 1, vram_mask := vram_size s - 1,
           aram_mask := aram_size s - 1\<rparr>)"

definition ELAN_RAM_MASK :: u32 where "ELAN_RAM_MASK = MB 32 - 1"

subsection \<open>Devices and handlers\<close>

record 'm iface =
  if_read8 :: "(u8, 'm) read_fun"
  if_read16 :: "(u16, 'm) read_fun"
  if_read32 :: "(u32, 'm) read_fun"
  if_write8 :: "(u8, 'm) write_fun"
  if_write16 :: "(u16, 'm) write_fun"
  if_write32 :: "(u32, 'm) write_fun"

record 'm devices =
  area0_dev :: "platform \<Rightarrow> bool \<Rightarrow> 'm iface"
  pvr32_dev :: "'m iface"
  area4_dev :: "bool \<Rightarrow> 'm iface"
  read_elanreg :: "(u32, 'm) read_fun"
  write_elanreg :: "(u32, 'm) write_fun"
  write_elancmd :: "(u32, 'm) write_fun"
  elanram_dev :: "'m iface"
  ocr_dev :: "'m iface"
  p4arrays_dev :: "'m iface"
  p4mmr_dev :: "'m iface"

record 'm board =
  plat_settings :: settings
  vram_ptr :: u64
  mem_b_ptr :: u64
  elan_RAM :: u64
  sq_buffer :: u64
  devs :: "'m devices"

record 'm mem_map = "'m tables" +
  area0_handler :: u32
  area0_mirror_handler :: u32
  area1_32b :: u32
  elanRegHandler :: u32
  elanCmdHandler :: u32
  elanRamHandler :: u32
  area4_handler_lower :: u32
  area4_handler_upper :: u32
  area5_handler :: u32

definition register_iface :: "'m iface \<Rightarrow> 'm mem_map \<Rightarrow> as_error + u32 \<times> 'm mem_map" where
  "register_iface f = registerHandler (if_read8 f) (if_read16 f) (if_read32 f)
                                      (if_write8 f) (if_write16 f) (if_write32 f)"

text \<open>Area 5: loads return 0, stores do nothing.\<close>

definition extdev_iface :: "'m iface" where
  "extdev_iface = \<lparr>if_read8 = Fun (\<lambda>addr m. (0, m)), if_read16 = Fun (\<lambda>addr m. (0, m)), if_read32 = Fun (\<lambda>addr m. (0, m)),
     if_write8 = Fun (\<lambda>addr data m. m), if_write16 = Fun (\<lambda>addr data m. m), if_write32 = Fun (\<lambda>addr data m. m)\<rparr>"

definition elanreg_iface :: "'m devices \<Rightarrow> 'm iface" where
  "elanreg_iface d = \<lparr>if_read8 = Nullptr, if_read16 = Nullptr, if_read32 = read_elanreg d,
     if_write8 = Nullptr, if_write16 = Nullptr, if_write32 = write_elanreg d\<rparr>"

definition elancmd_iface :: "'m devices \<Rightarrow> 'm iface" where
  "elancmd_iface d = \<lparr>if_read8 = Nullptr, if_read16 = Nullptr, if_read32 = Nullptr,
     if_write8 = Nullptr, if_write16 = Nullptr, if_write32 = write_elancmd d\<rparr>"

subsection \<open>The areas\<close>

definition map_area0_init :: "'m board \<Rightarrow> 'm mem_map \<Rightarrow> as_error + 'm mem_map" where
  "map_area0_init b t =
     (let sys = system (plat_settings b)
      in sum_bind (register_iface (area0_dev (devs b) sys False) t) (\<lambda>(hnd, t).
         sum_bind (register_iface (area0_dev (devs b) sys True) (t\<lparr>area0_handler := hnd\<rparr>)) (\<lambda>(hnd, t).
           Inr (t\<lparr>area0_mirror_handler := hnd\<rparr>))))"

definition map_area0 :: "u32 \<Rightarrow> 'm mem_map \<Rightarrow> as_error + 'm mem_map" where
  "map_area0 base t =
     sum_bind (mapHandler (area0_handler t) (0x00 OR base) (0x01 OR base) t) (\<lambda>t.
       mapHandler (area0_mirror_handler t) (0x02 OR base) (0x03 OR base) t)"

definition map_area1_init :: "'m board \<Rightarrow> 'm mem_map \<Rightarrow> as_error + 'm mem_map" where
  "map_area1_init b t =
     sum_bind (register_iface (pvr32_dev (devs b)) t) (\<lambda>(hnd, t). Inr (t\<lparr>area1_32b := hnd\<rparr>))"

definition map_area1 :: "'m board \<Rightarrow> u32 \<Rightarrow> 'm mem_map \<Rightarrow> as_error + 'm mem_map" where
  "map_area1 b base t =
     sum_bind (mapBlock (vram_ptr b) (0x04 OR base) (0x04 OR base) (vram_mask (plat_settings b)) t) (\<lambda>t.
     sum_bind (mapHandler (area1_32b t) (0x05 OR base) (0x05 OR base) t) (\<lambda>t.
       mirrorMapping (0x06 OR base) (0x04 OR base) 0x02 t))"

definition elan_vmem_init :: "'m board \<Rightarrow> 'm mem_map \<Rightarrow> as_error + 'm mem_map" where
  "elan_vmem_init b t =
     sum_bind (register_iface (elanreg_iface (devs b)) t) (\<lambda>(hnd, t).
     sum_bind (register_iface (elancmd_iface (devs b)) (t\<lparr>elanRegHandler := hnd\<rparr>)) (\<lambda>(hnd, t).
     sum_bind (register_iface (elanram_dev (devs b)) (t\<lparr>elanCmdHandler := hnd\<rparr>)) (\<lambda>(hnd, t).
       Inr (t\<lparr>elanRamHandler := hnd\<rparr>))))"

definition elan_vmem_map :: "'m board \<Rightarrow> u32 \<Rightarrow> 'm mem_map \<Rightarrow> as_error + 'm mem_map" where
  "elan_vmem_map b base t =
     (if system (plat_settings b) \<noteq> DC_PLATFORM_NAOMI2 then Inr t
      else sum_bind (mapHandler (elanRegHandler t) (base OR 8) (base OR 8) t) (\<lambda>t.
           sum_bind (mapHandler (elanCmdHandler t) (base OR 9) (base OR 9) t) (\<lambda>t.
           sum_bind (mapHandler (elanRamHandler t) (base OR 0xA) (base OR 0xB) t) (\<lambda>t.
             mapBlock (elan_RAM b) (base OR 0xA) (base OR 0xB) ELAN_RAM_MASK t))))"

definition map_area3 :: "'m board \<Rightarrow> u32 \<Rightarrow> 'm mem_map \<Rightarrow> as_error + 'm mem_map" where
  "map_area3 b base t = mapBlockMirror (mem_b_ptr b) (0x0C OR base) (0x0F OR base) (ram_size (plat_settings b)) t"

definition map_area4_init :: "'m board \<Rightarrow> 'm mem_map \<Rightarrow> as_error + 'm mem_map" where
  "map_area4_init b t =
     sum_bind (register_iface (area4_dev (devs b) False) t) (\<lambda>(hnd, t).
     sum_bind (register_iface (area4_dev (devs b) True) (t\<lparr>area4_handler_lower := hnd\<rparr>)) (\<lambda>(hnd, t).
       Inr (t\<lparr>area4_handler_upper := hnd\<rparr>)))"

definition map_area4 :: "u32 \<Rightarrow> 'm mem_map \<Rightarrow> as_error + 'm mem_map" where
  "map_area4 base t =
     sum_bind (mapHandler (area4_handler_lower t) (0x11 OR base) (0x11 OR base) t) (\<lambda>t.
       mapHandler (area4_handler_upper t) (0x13 OR base) (0x13 OR base) t)"

definition map_area5_init :: "'m mem_map \<Rightarrow> as_error + 'm mem_map" where
  "map_area5_init t = sum_bind (register_iface extdev_iface t) (\<lambda>(hnd, t). Inr (t\<lparr>area5_handler := hnd\<rparr>))"

definition map_area5 :: "u32 \<Rightarrow> 'm mem_map \<Rightarrow> as_error + 'm mem_map" where
  "map_area5 base t = mapHandler (area5_handler t) (base OR 0x14) (base OR 0x17) t"

definition map_area7 :: "'m board \<Rightarrow> 'm mem_map \<Rightarrow> as_error + 'm mem_map" where
  "map_area7 b t = sum_bind (register_iface (ocr_dev (devs b)) t) (\<lambda>(hnd, t). mapHandler hnd 0x7C 0x7F t)"

definition map_p4 :: "'m board \<Rightarrow> 'm mem_map \<Rightarrow> as_error + 'm mem_map" where
  "map_p4 b t =
     sum_bind (mapBlock (sq_buffer b) 0xE0 0xE0 63 t) (\<lambda>t.
     sum_bind (mapBlock (sq_buffer b) 0xE1 0xE1 63 t) (\<lambda>t.
     sum_bind (mapBlock (sq_buffer b) 0xE2 0xE2 63 t) (\<lambda>t.
     sum_bind (mapBlock (sq_buffer b) 0xE3 0xE3 63 t) (\<lambda>t.
     sum_bind (register_iface (p4arrays_dev (devs b)) t) (\<lambda>(hnd, t).
     sum_bind (mapHandler hnd 0xF0 0xF7 t) (\<lambda>t.
     sum_bind (register_iface (p4mmr_dev (devs b)) t) (\<lambda>(hnd, t).
       mapHandler hnd 0xFF 0xFF t)))))))"

text \<open>\<open>map_area3_init\<close>, \<open>map_area6_init\<close> and \<open>map_area6\<close> are empty.\<close>

definition map_segment :: "'m board \<Rightarrow> u32 \<Rightarrow> 'm mem_map \<Rightarrow> as_error + 'm mem_map" where
  "map_segment b base t =
     sum_bind (map_area0 base t) (\<lambda>t.
     sum_bind (map_area1 b base t) (\<lambda>t.
     sum_bind (elan_vmem_map b base t) (\<lambda>t.
     sum_bind (map_area3 b base t) (\<lambda>t.
     sum_bind (map_area4 base t) (map_area5 base)))))"

definition mem_map_default :: "'m board \<Rightarrow> 'm mem_map \<Rightarrow> as_error + 'm mem_map" where
  "mem_map_default b t =
     sum_bind (addrspace_init t) (\<lambda>t.
     sum_bind (map_area0_init b t) (\<lambda>t.
     sum_bind (map_area1_init b t) (\<lambda>t.
     sum_bind (elan_vmem_init b t) (\<lambda>t.
     sum_bind (map_area4_init b t) (\<lambda>t.
     sum_bind (map_area5_init t) (\<lambda>t.
     sum_bind (fold (\<lambda>i r. sum_bind r (map_segment b (push_bit 5 (of_nat i)))) [0..<8] (Inr t)) (\<lambda>t.
     sum_bind (map_area7 b t) (map_p4 b))))))))"

subsection \<open>Running the map\<close>

definition add_iface :: "u32 \<Rightarrow> 'm iface \<Rightarrow> ('m, 'z) tables_scheme \<Rightarrow> ('m, 'z) tables_scheme" where
  "add_iface n f t = t\<lparr>lastRegisteredHandler := n + 1,
     RF8 := put_at n (default_fun (if_read8 f)) (RF8 t),
     RF16 := put_at n (default_fun (if_read16 f)) (RF16 t),
     RF32 := put_at n (default_fun (if_read32 f)) (RF32 t),
     WF8 := put_at n (default_fun (if_write8 f)) (WF8 t),
     WF16 := put_at n (default_fun (if_write16 f)) (WF16 t),
     WF32 := put_at n (default_fun (if_write32 f)) (WF32 t)\<rparr>"

lemma register_iface_add:
  "lastRegisteredHandler t < 0x20 \<Longrightarrow>
     register_iface f t = Inr (lastRegisteredHandler t, add_iface (lastRegisteredHandler t) f t)"
  by (simp add: register_iface_def registerHandler_def HANDLER_COUNT_def add_iface_def Let_def)

lemma add_iface_sels [simp]:
  "lastRegisteredHandler (add_iface n f t) = n + 1"
  "memInfo_ptr (add_iface n f t) = memInfo_ptr t"
  by (simp_all add: add_iface_def)

lemma add_iface_handles [simp]:
  "area0_handler (add_iface n f t) = area0_handler t"
  "area0_mirror_handler (add_iface n f t) = area0_mirror_handler t"
  "area1_32b (add_iface n f t) = area1_32b t"
  "elanRegHandler (add_iface n f t) = elanRegHandler t"
  "elanCmdHandler (add_iface n f t) = elanCmdHandler t"
  "elanRamHandler (add_iface n f t) = elanRamHandler t"
  "area4_handler_lower (add_iface n f t) = area4_handler_lower t"
  "area4_handler_upper (add_iface n f t) = area4_handler_upper t"
  "area5_handler (add_iface n f t) = area5_handler t"
  by (simp_all add: add_iface_def)

text \<open>Handler \<open>n\<close> of the tables is the interface \<open>f\<close>.\<close>

definition handler_is :: "('m, 'z) tables_scheme \<Rightarrow> u32 \<Rightarrow> 'm iface \<Rightarrow> bool" where
  "handler_is t n f \<longleftrightarrow> RF8 t n = default_fun (if_read8 f) \<and> RF16 t n = default_fun (if_read16 f)
     \<and> RF32 t n = default_fun (if_read32 f) \<and> WF8 t n = default_fun (if_write8 f)
     \<and> WF16 t n = default_fun (if_write16 f) \<and> WF32 t n = default_fun (if_write32 f)"

lemma handler_is_add [simp]:
  "handler_is (add_iface n f t) n f"
  "m \<noteq> n \<Longrightarrow> handler_is (add_iface n f t) m g = handler_is t m g"
  by (simp_all add: handler_is_def add_iface_def put_at_def)

lemma handler_is_updates [simp]:
  "handler_is (t\<lparr>memInfo_ptr := i\<rparr>) n f = handler_is t n f"
  "handler_is (m\<lparr>area0_handler := h\<rparr>) n f = handler_is m n f"
  "handler_is (m\<lparr>area0_mirror_handler := h\<rparr>) n f = handler_is m n f"
  "handler_is (m\<lparr>area1_32b := h\<rparr>) n f = handler_is m n f"
  "handler_is (m\<lparr>elanRegHandler := h\<rparr>) n f = handler_is m n f"
  "handler_is (m\<lparr>elanCmdHandler := h\<rparr>) n f = handler_is m n f"
  "handler_is (m\<lparr>elanRamHandler := h\<rparr>) n f = handler_is m n f"
  "handler_is (m\<lparr>area4_handler_lower := h\<rparr>) n f = handler_is m n f"
  "handler_is (m\<lparr>area4_handler_upper := h\<rparr>) n f = handler_is m n f"
  "handler_is (m\<lparr>area5_handler := h\<rparr>) n f = handler_is m n f"
  by (simp_all add: handler_is_def)

definition null_iface :: "'m iface" where
  "null_iface = \<lparr>if_read8 = Nullptr, if_read16 = Nullptr, if_read32 = Nullptr,
     if_write8 = Nullptr, if_write16 = Nullptr, if_write32 = Nullptr\<rparr>"

lemma addrspace_init_spec:
  "\<exists>t0. addrspace_init t = Inr t0 \<and> lastRegisteredHandler t0 = 1 \<and> memInfo_ptr t0 = (\<lambda>_. 0)
     \<and> handler_is t0 0 null_iface"
  by (simp add: addrspace_init_def registerHandler_def HANDLER_COUNT_def Let_def handler_is_def null_iface_def
      put_at_def)

text \<open>The handler numbers the static variables hold once everything is registered, and the
  interfaces behind them.\<close>

definition handles :: "'m mem_map \<Rightarrow> bool" where
  "handles t \<longleftrightarrow> area0_handler t = 1 \<and> area0_mirror_handler t = 2 \<and> area1_32b t = 3 \<and> elanRegHandler t = 4
     \<and> elanCmdHandler t = 5 \<and> elanRamHandler t = 6 \<and> area4_handler_lower t = 7 \<and> area4_handler_upper t = 8
     \<and> area5_handler t = 9"

definition registered :: "'m board \<Rightarrow> ('m, 'z) tables_scheme \<Rightarrow> bool" where
  "registered b t \<longleftrightarrow> handler_is t 0 null_iface
     \<and> handler_is t 1 (area0_dev (devs b) (system (plat_settings b)) False)
     \<and> handler_is t 2 (area0_dev (devs b) (system (plat_settings b)) True)
     \<and> handler_is t 3 (pvr32_dev (devs b)) \<and> handler_is t 4 (elanreg_iface (devs b))
     \<and> handler_is t 5 (elancmd_iface (devs b)) \<and> handler_is t 6 (elanram_dev (devs b))
     \<and> handler_is t 7 (area4_dev (devs b) False) \<and> handler_is t 8 (area4_dev (devs b) True)
     \<and> handler_is t 9 extdev_iface"

lemma init_phase:
  assumes "lastRegisteredHandler t0 = 1" "memInfo_ptr t0 = (\<lambda>_. 0)" "handler_is t0 0 null_iface"
  shows "\<exists>t1. sum_bind (map_area0_init b t0) (\<lambda>t. sum_bind (map_area1_init b t) (\<lambda>t.
      sum_bind (elan_vmem_init b t) (\<lambda>t. sum_bind (map_area4_init b t) map_area5_init))) = Inr t1
    \<and> lastRegisteredHandler t1 = 10 \<and> memInfo_ptr t1 = (\<lambda>_. 0) \<and> handles t1 \<and> registered b t1"
  using assms
  by (simp add: map_area0_init_def map_area1_init_def elan_vmem_init_def map_area4_init_def map_area5_init_def
      register_iface_add Let_def handles_def registered_def del: sum_bind_Inr)

text \<open>Each memory is 256 byte aligned in the host, and the sizes are those of a platform.\<close>

definition host_aligned :: "u64 \<Rightarrow> bool" where
  "host_aligned p \<longleftrightarrow> 0xFF AND p = 0 \<and> p \<noteq> 0"

definition board_ok :: "'m board \<Rightarrow> bool" where
  "board_ok b \<longleftrightarrow> host_aligned (vram_ptr b) \<and> host_aligned (mem_b_ptr b) \<and> host_aligned (elan_RAM b)
     \<and> host_aligned (sq_buffer b) \<and> (\<exists>mod32 plat s. plat_settings b = setPlatform mod32 plat s)"

definition ram_bits :: "settings \<Rightarrow> nat" where
  "ram_bits s = (if ram_size s = MB 32 then 25 else 24)"

definition vram_bits :: "settings \<Rightarrow> nat" where
  "vram_bits s = (if vram_size s = MB 16 then 24 else 23)"

lemma platform_sizes:
  assumes "board_ok b"
  defines "s \<equiv> plat_settings b"
  shows "ram_size s = MB 16 \<and> ram_bits s = 24 \<or> ram_size s = MB 32 \<and> ram_bits s = 25"
    "ram_mask s = mask (ram_bits s)" "ram_size s - 1 = mask (ram_bits s)" "vram_mask s = mask (vram_bits s)"
    "vram_bits s = 23 \<or> vram_bits s = 24"
proof -
  obtain m p s0 where s: "s = setPlatform m p s0" using assms by (auto simp: board_ok_def)
  note d = s setPlatform_def Let_def ram_bits_def vram_bits_def MB_def KB_def mask_eq_exp_minus_1
  show "ram_size s = MB 16 \<and> ram_bits s = 24 \<or> ram_size s = MB 32 \<and> ram_bits s = 25"
    by (cases p) (simp_all add: d)
  show "ram_mask s = mask (ram_bits s)" by (cases p) (simp_all add: d)
  show "ram_size s - 1 = mask (ram_bits s)" by (cases p) (simp_all add: d)
  show "vram_mask s = mask (vram_bits s)" by (cases p) (simp_all add: d)
  show "vram_bits s = 23 \<or> vram_bits s = 24" by (cases p) (simp_all add: d)
qed

definition entry_of :: "u64 \<Rightarrow> nat \<Rightarrow> u64" where
  "entry_of base k = base + ucast (of_nat (32 - k) :: u32)"

lemma mapBlock_mask:
  "map_asserts a c \<Longrightarrow> host_aligned base \<Longrightarrow> 1 \<le> k \<Longrightarrow> k \<le> 32 \<Longrightarrow>
     mapBlock base a c (mask k) t = Inr (t\<lparr>memInfo_ptr := set_pages_to a c (entry_of base k) (memInfo_ptr t)\<rparr>)"
  by (simp add: mapBlock_spec host_aligned_def FindMask_mask entry_of_def del: of_nat_diff)

lemma mapBlockMirror_ram:
  assumes "board_ok b" "unat a + 4 = unat c + 1" "unat c < 0x100"
  shows "mapBlockMirror (mem_b_ptr b) a c (ram_size (plat_settings b)) t = Inr (t\<lparr>memInfo_ptr :=
    set_pages_to a c (entry_of (mem_b_ptr b) (ram_bits (plat_settings b))) (memInfo_ptr t)\<rparr>)"
proof -
  let ?s = "plat_settings b"
  obtain p where p: "unat (drop_bit 24 (ram_size ?s)) = p" "p = 1 \<or> p = 2"
    using platform_sizes(1) [OF assms(1)] by (auto simp: MB_def drop_bit_eq_div)
  have al: "0xFF AND mem_b_ptr b = 0" "mem_b_ptr b \<noteq> 0" using assms(1) by (simp_all add: board_ok_def host_aligned_def)
  have k: "1 \<le> ram_bits ?s" "ram_bits ?s \<le> 32" by (simp_all add: ram_bits_def)
  have fm: "FindMask (ram_size ?s - 1) = Inr (of_nat (32 - ram_bits ?s))"
    unfolding platform_sizes(3) [OF assms(1)] by (rule FindMask_mask [OF k])
  have "unat a + Suc (4 div p - 1) * p = unat c + 1" "1 \<le> p" using assms(2) p by auto
  then show ?thesis
    using mapBlockMirror_loop_spec [of "drop_bit 24 (ram_size ?s)" c a "4 div p - 1", OF _ assms(3) _ al fm] p(1)
    by (simp add: mapBlockMirror_def entry_of_def del: of_nat_diff)
qed

text \<open>The entries of the 32 pages of a segment.\<close>

definition seg_info :: "'m board \<Rightarrow> u32 \<Rightarrow> (u32 \<Rightarrow> u64) \<Rightarrow> u32 \<Rightarrow> u64" where
  "seg_info b base f =
     (let vram = entry_of (vram_ptr b) (vram_bits (plat_settings b));
          f = set_pages_to (0x02 OR base) (0x03 OR base) 2 (set_pages_to (0x00 OR base) (0x01 OR base) 1 f);
          f = set_pages_to (0x05 OR base) (0x05 OR base) 3 (set_pages_to (0x04 OR base) (0x04 OR base) vram f);
          f = f(0x06 OR base := vram, 0x07 OR base := 3);
          f = (if system (plat_settings b) \<noteq> DC_PLATFORM_NAOMI2 then f
               else set_pages_to (base OR 0xA) (base OR 0xB) (entry_of (elan_RAM b) 25)
                 (set_pages_to (base OR 9) (base OR 9) 5 (set_pages_to (base OR 8) (base OR 8) 4 f)));
          f = set_pages_to (0x0C OR base) (0x0F OR base) (entry_of (mem_b_ptr b) (ram_bits (plat_settings b))) f;
          f = set_pages_to (0x13 OR base) (0x13 OR base) 8 (set_pages_to (0x11 OR base) (0x11 OR base) 7 f)
      in set_pages_to (base OR 0x14) (base OR 0x17) 9 f)"

definition segments :: "u32 list" where
  "segments = [0x00, 0x20, 0x40, 0x60, 0x80, 0xA0, 0xC0, 0xE0]"

lemma seg_asserts:
  assumes "base \<in> set segments"
  shows "map_asserts (0x00 OR base) (0x01 OR base)" "map_asserts (0x02 OR base) (0x03 OR base)"
    "map_asserts (0x04 OR base) (0x04 OR base)" "map_asserts (0x05 OR base) (0x05 OR base)"
    "map_asserts (base OR 8) (base OR 8)" "map_asserts (base OR 9) (base OR 9)"
    "map_asserts (base OR 0xA) (base OR 0xB)" "map_asserts (0x11 OR base) (0x11 OR base)"
    "map_asserts (0x13 OR base) (0x13 OR base)" "map_asserts (base OR 0x14) (base OR 0x17)"
    "0x04 OR base < 0xFF" "(0x06 OR base) + 1 < 0x100" "(0x04 OR base) + 2 \<le> 0x06 OR base" "0x06 OR base < 0xFF"
    "(0x04 OR base) + 1 = 0x05 OR base" "(0x06 OR base) + 1 = 0x07 OR base"
    "unat (0x0C OR base) + 4 = unat (0x0F OR base) + 1" "unat (0x0F OR base) < 0x100"
    "0x05 OR base \<noteq> 0x04 OR base" "0x05 OR base \<noteq> 0x06 OR base" "0x04 OR base \<noteq> 0x06 OR base"
  using assms by (auto simp: segments_def map_asserts_def)

lemma seg_mirror:
  assumes "base \<in> set segments"
  shows "mirrorMapping (0x06 OR base) (0x04 OR base) 2 t = Inr (t\<lparr>memInfo_ptr := (memInfo_ptr t)
    (0x06 OR base := memInfo_ptr t (0x04 OR base), 0x07 OR base := memInfo_ptr t (0x05 OR base))\<rparr>)"
  using mirrorMapping_two [OF seg_asserts(11-14) [OF assms]] by (simp add: seg_asserts(15,16) [OF assms])

lemma board_aligned:
  "board_ok b \<Longrightarrow> host_aligned (vram_ptr b)" "board_ok b \<Longrightarrow> host_aligned (elan_RAM b)"
  "board_ok b \<Longrightarrow> host_aligned (sq_buffer b)" "board_ok b \<Longrightarrow> host_aligned (mem_b_ptr b)"
  by (simp_all add: board_ok_def)

lemma handles_updates [simp]: "handles (t\<lparr>memInfo_ptr := i\<rparr>) = handles t"
  by (simp add: handles_def)

lemma elan_mask: "ELAN_RAM_MASK = mask 25"
  by (simp add: ELAN_RAM_MASK_def MB_def mask_eq_exp_minus_1)

lemma set_pages_one: "set_pages_to a a e f = f(a := e)"
  by (auto simp: set_pages_to_def fun_eq_iff)

lemma map_segment_run:
  assumes "board_ok b" "handles t" "base \<in> set segments"
  shows "map_segment b base t = Inr (t\<lparr>memInfo_ptr := seg_info b base (memInfo_ptr t)\<rparr>)"
proof -
  note A = seg_asserts [OF assms(3)]
  note hnd = assms(2) [unfolded handles_def]
  let ?v = "entry_of (vram_ptr b) (vram_bits (plat_settings b))"
  have vb: "1 \<le> vram_bits (plat_settings b)" "vram_bits (plat_settings b) \<le> 32" by (simp_all add: vram_bits_def)
  have a0: "map_area0 base t' = Inr (t'\<lparr>memInfo_ptr := set_pages_to (0x02 OR base) (0x03 OR base) 2
      (set_pages_to (0x00 OR base) (0x01 OR base) 1 (memInfo_ptr t'))\<rparr>)" if "handles t'" for t'
    using that by (simp add: map_area0_def mapHandler_spec A(1,2) [simplified] handles_def)
  have a1: "map_area1 b base t' = Inr (t'\<lparr>memInfo_ptr := (set_pages_to (0x05 OR base) (0x05 OR base) 3
      (set_pages_to (0x04 OR base) (0x04 OR base) ?v (memInfo_ptr t')))(0x06 OR base := ?v, 0x07 OR base := 3)\<rparr>)"
    if "handles t'" for t'
    using that A(19-21) by (simp add: map_area1_def mapHandler_spec A(3,4) handles_def seg_mirror [OF assms(3)]
        platform_sizes(4) [OF assms(1)] mapBlock_mask [OF A(3) board_aligned(1) [OF assms(1)] vb] set_pages_one)
  have a2: "elan_vmem_map b base t' = Inr (t'\<lparr>memInfo_ptr :=
      (if system (plat_settings b) \<noteq> DC_PLATFORM_NAOMI2 then memInfo_ptr t'
       else set_pages_to (base OR 0xA) (base OR 0xB) (entry_of (elan_RAM b) 25)
         (set_pages_to (base OR 9) (base OR 9) 5 (set_pages_to (base OR 8) (base OR 8) 4 (memInfo_ptr t'))))\<rparr>)"
    if "handles t'" for t'
  proof -
    have "set_pages_to (base OR 0xA) (base OR 0xB) e (set_pages_to (base OR 0xA) (base OR 0xB) e' f)
      = set_pages_to (base OR 0xA) (base OR 0xB) e f" for e e' f by (auto simp: set_pages_to_def)
    then show ?thesis using that
      by (simp add: elan_vmem_map_def mapHandler_spec A(5-7) handles_def elan_mask
          mapBlock_mask [OF A(7) board_aligned(2) [OF assms(1)]])
  qed
  have a3: "map_area3 b base t' = Inr (t'\<lparr>memInfo_ptr := set_pages_to (0x0C OR base) (0x0F OR base)
      (entry_of (mem_b_ptr b) (ram_bits (plat_settings b))) (memInfo_ptr t')\<rparr>)" for t'
    unfolding map_area3_def by (rule mapBlockMirror_ram [OF assms(1) A(17,18)])
  have a4: "map_area4 base t' = Inr (t'\<lparr>memInfo_ptr := set_pages_to (0x13 OR base) (0x13 OR base) 8
      (set_pages_to (0x11 OR base) (0x11 OR base) 7 (memInfo_ptr t'))\<rparr>)" if "handles t'" for t'
    using that by (simp add: map_area4_def mapHandler_spec A(8,9) handles_def)
  have a5: "map_area5 base t' = Inr (t'\<lparr>memInfo_ptr := set_pages_to (base OR 0x14) (base OR 0x17) 9 (memInfo_ptr t')\<rparr>)"
    if "handles t'" for t'
    using that by (simp add: map_area5_def mapHandler_spec A(10) handles_def)
  show ?thesis
    using assms(2) by (simp add: map_segment_def a0 a1 a2 a3 a4 a5 seg_info_def Let_def del: sum_bind_Inr cong: if_cong)
qed

lemma map_segments_run:
  assumes "board_ok b" "handles t"
  shows "fold (\<lambda>i r. sum_bind r (map_segment b (push_bit 5 (of_nat i)))) [0..<8] (Inr t)
    = Inr (t\<lparr>memInfo_ptr := fold (seg_info b) segments (memInfo_ptr t)\<rparr>)"
proof -
  have run: "set xs \<subseteq> set segments \<Longrightarrow> handles t' \<Longrightarrow>
      fold (\<lambda>base r. sum_bind r (map_segment b base)) xs (Inr t') = Inr (t'\<lparr>memInfo_ptr := fold (seg_info b) xs (memInfo_ptr t')\<rparr>)"
    for xs t'
    by (induction xs arbitrary: t') (simp_all add: map_segment_run [OF assms(1)])
  have "fold (\<lambda>i r. sum_bind r (map_segment b (push_bit 5 (of_nat i)))) [0..<8] (Inr t)
      = fold (\<lambda>base r. sum_bind r (map_segment b base)) (map (\<lambda>i. push_bit 5 (of_nat i)) [0..<8]) (Inr t)"
    by (simp add: fold_map comp_def)
  also have "map (\<lambda>i. push_bit 5 (of_nat i)) [0..<8] = segments"
    by (simp add: segments_def upt_rec push_bit_eq_mult)
  finally show ?thesis using run [of segments t] assms(2) by simp
qed

definition final_info :: "'m board \<Rightarrow> u32 \<Rightarrow> u64" where
  "final_info b =
     (let f = set_pages_to 0x7C 0x7F 10 (fold (seg_info b) segments (\<lambda>_. 0));
          f = f(0xE0 := entry_of (sq_buffer b) 6, 0xE1 := entry_of (sq_buffer b) 6,
                0xE2 := entry_of (sq_buffer b) 6, 0xE3 := entry_of (sq_buffer b) 6)
      in (set_pages_to 0xF0 0xF7 11 f)(0xFF := 12))"

lemma mask_63: "(63 :: u32) = mask 6"
  by (simp add: mask_eq_exp_minus_1)

lemma map_p4_run:
  assumes "board_ok b" "lastRegisteredHandler t = 11"
  shows "map_p4 b t = Inr ((add_iface 12 (p4mmr_dev (devs b)) (add_iface 11 (p4arrays_dev (devs b)) t))\<lparr>memInfo_ptr :=
    (set_pages_to 0xF0 0xF7 11 ((memInfo_ptr t)(0xE0 := entry_of (sq_buffer b) 6, 0xE1 := entry_of (sq_buffer b) 6,
       0xE2 := entry_of (sq_buffer b) 6, 0xE3 := entry_of (sq_buffer b) 6)))(0xFF := 12)\<rparr>)"
proof -
  have m: "map_asserts 0xE0 0xE0" "map_asserts 0xE1 0xE1" "map_asserts 0xE2 0xE2" "map_asserts 0xE3 0xE3"
    "map_asserts 0xF0 0xF7" "map_asserts 0xFF 0xFF" by (simp_all add: map_asserts_def)
  have sq: "map_asserts p p \<Longrightarrow> mapBlock (sq_buffer b) p p 63 t'
      = Inr (t'\<lparr>memInfo_ptr := (memInfo_ptr t')(p := entry_of (sq_buffer b) 6)\<rparr>)" for p and t' :: "'a mem_map"
    unfolding mask_63 by (simp add: mapBlock_mask board_aligned(3) [OF assms(1)] set_pages_one)
  have reg: "register_iface f (t'\<lparr>memInfo_ptr := i\<rparr>) = Inr (lastRegisteredHandler t',
      (add_iface (lastRegisteredHandler t') f t')\<lparr>memInfo_ptr := i\<rparr>)"
    if "lastRegisteredHandler t' < 0x20" for f i and t' :: "'a mem_map"
    using that by (simp add: register_iface_add add_iface_def)
  show ?thesis
    by (simp add: map_p4_def sq m reg assms(2) mapHandler_spec set_pages_one del: sum_bind_Inr)
qed

lemma mem_map_run:
  assumes "board_ok b"
  shows "\<exists>t'. mem_map_default b t = Inr t' \<and> memInfo_ptr t' = final_info b \<and> registered b t'
    \<and> handler_is t' 10 (ocr_dev (devs b)) \<and> handler_is t' 11 (p4arrays_dev (devs b))
    \<and> handler_is t' 12 (p4mmr_dev (devs b))"
proof -
  obtain t0 where t0: "addrspace_init t = Inr t0" "lastRegisteredHandler t0 = 1" "memInfo_ptr t0 = (\<lambda>_. 0)"
      "handler_is t0 0 null_iface" using addrspace_init_spec by blast
  obtain t1 where t1: "sum_bind (map_area0_init b t0) (\<lambda>t. sum_bind (map_area1_init b t) (\<lambda>t.
      sum_bind (elan_vmem_init b t) (\<lambda>t. sum_bind (map_area4_init b t) map_area5_init))) = Inr t1"
      "lastRegisteredHandler t1 = 10" "memInfo_ptr t1 = (\<lambda>_. 0)" "handles t1" "registered b t1"
    using init_phase [OF t0(2-4)] by blast
  have "mem_map_default b t = sum_bind (sum_bind (map_area0_init b t0) (\<lambda>t. sum_bind (map_area1_init b t) (\<lambda>t.
      sum_bind (elan_vmem_init b t) (\<lambda>t. sum_bind (map_area4_init b t) map_area5_init))))
     (\<lambda>t. sum_bind (fold (\<lambda>i r. sum_bind r (map_segment b (push_bit 5 (of_nat i)))) [0..<8] (Inr t)) (\<lambda>t.
        sum_bind (map_area7 b t) (map_p4 b)))"
    using t1(1) by (auto simp: mem_map_default_def t0(1))
  also have "\<dots> = sum_bind (map_area7 b (t1\<lparr>memInfo_ptr := fold (seg_info b) segments (\<lambda>_. 0)\<rparr>)) (map_p4 b)"
    unfolding t1(1) by (simp only: sum_bind.simps map_segments_run [OF assms t1(4)] t1(3))
  finally show ?thesis
    using t1(2,5) by (simp add: map_area7_def register_iface_add mapHandler_spec map_asserts_def map_p4_run [OF assms]
        final_info_def Let_def registered_def del: sum_bind_Inr)
qed

subsection \<open>The entries, page by page\<close>

lemma bits_below_32: "(a :: u32) < 0x20 \<Longrightarrow> bit a i \<Longrightarrow> i < 5"
proof (rule ccontr)
  assume "a < 0x20" "bit a i" "\<not> i < 5"
  then have "take_bit 5 (unat a) = unat a" by (simp add: word_less_nat_alt take_bit_nat_eq_self)
  then have "take_bit 5 a = a" by (simp add: word_unat_eq_iff unsigned_take_bit_eq)
  with \<open>bit a i\<close> \<open>\<not> i < 5\<close> show False by (metis bit_take_bit_iff)
qed

lemma segment_base: "base \<in> set segments \<Longrightarrow> \<exists>n < 8. base = push_bit 5 (of_nat n)"
proof -
  have s: "segments = map (\<lambda>n. push_bit 5 (of_nat n)) [0..<8]"
    by (simp add: segments_def upt_rec push_bit_eq_mult)
  assume "base \<in> set segments"
  then show ?thesis unfolding s by (simp only: set_map set_upt) auto
qed

lemma segment_low: "base \<in> set segments \<Longrightarrow> a < 0x20 \<Longrightarrow> a AND base = 0"
proof -
  assume b: "base \<in> set segments" and a: "a < 0x20"
  have nb: "5 \<le> i \<Longrightarrow> \<not> bit a i" for i using bits_below_32 [OF a, of i] by auto
  obtain n where "base = push_bit 5 (of_nat n)" using segment_base [OF b] by blast
  then show ?thesis by (auto intro!: bit_word_eqI simp: nb bit_and_iff bit_push_bit_iff)
qed

lemma unat_page:
  assumes "base \<in> set segments" "a < 0x20"
  shows "unat (a OR base) = unat a + unat base"
proof -
  have "unat base < 256" using assms(1) by (auto simp: segments_def)
  moreover have "unat a < 32" using assms(2) by (simp add: word_less_nat_alt)
  moreover have "a + base = a OR base" by (rule disjunctive_add_eq_or [OF segment_low [OF assms]])
  ultimately show ?thesis by (simp add: unat_word_ariths(1) flip: \<open>a + base = a OR base\<close>)
qed

lemma page_le:
  "base \<in> set segments \<Longrightarrow> a < 0x20 \<Longrightarrow> c < 0x20 \<Longrightarrow> a OR base \<le> c OR base \<longleftrightarrow> a \<le> c"
  by (simp add: word_le_nat_alt unat_page)

lemma page_eq:
  "base \<in> set segments \<Longrightarrow> a < 0x20 \<Longrightarrow> c < 0x20 \<Longrightarrow> a OR base = c OR base \<longleftrightarrow> a = c"
  by (simp add: word_unat_eq_iff unat_page)

text \<open>The entry of page \<open>a\<close> of a segment, over what was there before.\<close>

definition seg_val :: "'m board \<Rightarrow> u32 \<Rightarrow> u64 \<Rightarrow> u64" where
  "seg_val b a old =
     (if 0x14 \<le> a \<and> a \<le> 0x17 then 9 else if a = 0x13 then 8 else if a = 0x11 then 7
      else if 0x0C \<le> a \<and> a \<le> 0x0F then entry_of (mem_b_ptr b) (ram_bits (plat_settings b))
      else if system (plat_settings b) = DC_PLATFORM_NAOMI2 \<and> 0x08 \<le> a \<and> a \<le> 0x0B
      then (if a = 0x08 then 4 else if a = 0x09 then 5 else entry_of (elan_RAM b) 25)
      else if a = 0x05 \<or> a = 0x07 then 3
      else if a = 0x04 \<or> a = 0x06 then entry_of (vram_ptr b) (vram_bits (plat_settings b))
      else if 0x02 \<le> a \<and> a \<le> 0x03 then 2 else if a < 0x02 then 1 else old)"

lemma set_pages_seg:
  assumes "base \<in> set segments" "a < 0x20"
  shows "c < 0x20 \<Longrightarrow> c' < 0x20 \<Longrightarrow>
      set_pages_to (c OR base) (c' OR base) e f (a OR base) = (if c \<le> a \<and> a \<le> c' then e else f (a OR base))"
    "c < 0x20 \<Longrightarrow> c' < 0x20 \<Longrightarrow>
      set_pages_to (base OR c) (base OR c') e f (a OR base) = (if c \<le> a \<and> a \<le> c' then e else f (a OR base))"
    "c' < 0x20 \<Longrightarrow> set_pages_to base (c' OR base) e f (a OR base) = (if a \<le> c' then e else f (a OR base))"
  using assms page_le [OF assms(1), of 0 a] by (simp_all add: set_pages_to_def page_le or.commute [of base])

lemma u32_le_1: "(a :: u32) \<le> 1 \<longleftrightarrow> a < 2"
  by (auto simp: word_le_nat_alt word_less_nat_alt)

lemma u32_le_cases: "8 \<le> (a :: u32) \<and> a \<le> 0xB \<longleftrightarrow> a = 8 \<or> a = 9 \<or> 0xA \<le> a \<and> a \<le> 0xB"
  by (auto simp: word_le_nat_alt word_unat_eq_iff)

lemma seg_info_in:
  assumes "base \<in> set segments" "a < 0x20"
  shows "seg_info b base f (a OR base) = seg_val b a (f (a OR base))"
proof -
  have v: "seg_info b base f (a OR base) =
     (if 0x14 \<le> a \<and> a \<le> 0x17 then 9 else if 0x13 \<le> a \<and> a \<le> 0x13 then 8 else if 0x11 \<le> a \<and> a \<le> 0x11 then 7
      else if 0x0C \<le> a \<and> a \<le> 0x0F then entry_of (mem_b_ptr b) (ram_bits (plat_settings b))
      else if system (plat_settings b) = DC_PLATFORM_NAOMI2 \<and> 0xA \<le> a \<and> a \<le> 0xB then entry_of (elan_RAM b) 25
      else if system (plat_settings b) = DC_PLATFORM_NAOMI2 \<and> 9 \<le> a \<and> a \<le> 9 then 5
      else if system (plat_settings b) = DC_PLATFORM_NAOMI2 \<and> 8 \<le> a \<and> a \<le> 8 then 4
      else if a = 7 then 3 else if a = 6 then entry_of (vram_ptr b) (vram_bits (plat_settings b))
      else if 5 \<le> a \<and> a \<le> 5 then 3
      else if 4 \<le> a \<and> a \<le> 4 then entry_of (vram_ptr b) (vram_bits (plat_settings b))
      else if 2 \<le> a \<and> a \<le> 3 then 2 else if a < 2 then 1 else f (a OR base))"
    by (cases "system (plat_settings b) = DC_PLATFORM_NAOMI2")
      (simp_all add: seg_info_def Let_def set_pages_seg [OF assms] page_eq [OF assms] u32_le_1 del: if_split cong: if_cong)
  have c: "8 \<le> a \<and> a \<le> 0xB \<longleftrightarrow> a = 8 \<or> a = 9 \<or> 0xA \<le> a \<and> a \<le> 0xB" by (rule u32_le_cases)
  have one: "x \<le> a \<and> a \<le> x \<longleftrightarrow> a = x" for x by auto
  have "a = 8 \<longrightarrow> \<not> 0xA \<le> a" "a = 9 \<longrightarrow> \<not> 0xA \<le> a" "a = 9 \<longrightarrow> a \<noteq> 8" by simp_all
  then show ?thesis unfolding v seg_val_def one c by (cases "system (plat_settings b) = DC_PLATFORM_NAOMI2") simp_all
qed

lemma segments_apart:
  "base \<in> set segments \<Longrightarrow> base' \<in> set segments \<Longrightarrow> base \<noteq> base' \<Longrightarrow>
     unat base + 32 \<le> unat base' \<or> unat base' + 32 \<le> unat base"
  by (auto simp: segments_def)

lemma page_other:
  assumes "base \<in> set segments" "base' \<in> set segments" "base \<noteq> base'" "a < 0x20"
  shows "c < 0x20 \<Longrightarrow> c' < 0x20 \<Longrightarrow> set_pages_to (c OR base') (c' OR base') e f (a OR base) = f (a OR base)"
    "c < 0x20 \<Longrightarrow> c' < 0x20 \<Longrightarrow> set_pages_to (base' OR c) (base' OR c') e f (a OR base) = f (a OR base)"
    "c' < 0x20 \<Longrightarrow> set_pages_to base' (c' OR base') e f (a OR base) = f (a OR base)"
    "c < 0x20 \<Longrightarrow> a OR base \<noteq> c OR base'"
proof -
  have le: "\<not> (c OR base' \<le> a OR base \<and> a OR base \<le> c' OR base')" if "c < 0x20" "c' < 0x20" for c c'
    using segments_apart [OF assms(1-3)] that assms
    by (auto simp: word_le_nat_alt unat_page word_less_nat_alt)
  show "c < 0x20 \<Longrightarrow> c' < 0x20 \<Longrightarrow> set_pages_to (c OR base') (c' OR base') e f (a OR base) = f (a OR base)"
    "c < 0x20 \<Longrightarrow> c' < 0x20 \<Longrightarrow> set_pages_to (base' OR c) (base' OR c') e f (a OR base) = f (a OR base)"
    using le [of c c'] by (auto simp: set_pages_to_def or.commute [of base'])
  show "c' < 0x20 \<Longrightarrow> set_pages_to base' (c' OR base') e f (a OR base) = f (a OR base)"
    using le [of 0 c'] by (auto simp: set_pages_to_def)
  show "c < 0x20 \<Longrightarrow> a OR base \<noteq> c OR base'" using le [of c c] by auto
qed

lemma seg_info_out:
  assumes "base \<in> set segments" "base' \<in> set segments" "base \<noteq> base'" "a < 0x20"
  shows "seg_info b base' f (a OR base) = f (a OR base)"
  by (simp add: seg_info_def Let_def page_other [OF assms] cong: if_cong)

lemma fold_segments:
  assumes "base \<in> set segments" "a < 0x20"
  shows "distinct xs \<Longrightarrow> set xs \<subseteq> set segments \<Longrightarrow> fold (seg_info b) xs f (a OR base)
    = (if base \<in> set xs then seg_val b a (f (a OR base)) else f (a OR base))"
proof (induction xs arbitrary: f)
  case (Cons x xs)
  then show ?case
    by (cases "x = base") (simp_all add: seg_info_in [OF assms] seg_info_out [OF assms(1) _ _ assms(2)])
qed simp

lemma segment_map: "base \<in> set segments \<Longrightarrow> a < 0x20 \<Longrightarrow> fold (seg_info b) segments (\<lambda>_. 0) (a OR base) = seg_val b a 0"
  using fold_segments [of base a segments] by (simp add: segments_def)

lemma page_split:
  assumes "p < 0x100"
  obtains base a where "base \<in> set segments" "a < 0x20" "p = a OR base" "a = p AND 0x1F"
proof -
  define n where "n = unat p div 32"
  define base where "base = (push_bit 5 (of_nat n) :: u32)"
  define a where "a = p AND 0x1F"
  have p: "unat p < 256" using assms by (simp add: word_less_nat_alt)
  then have n: "n < 8" by (simp add: n_def)
  have s: "segments = map (\<lambda>n. push_bit 5 (of_nat n)) [0..<8]"
    by (simp add: segments_def upt_rec push_bit_eq_mult)
  have base: "base \<in> set segments" unfolding s base_def using n by (simp only: set_map set_upt) auto
  have "a = take_bit 5 p" by (simp add: a_def take_bit_eq_mask mask_eq_exp_minus_1)
  then have ua: "unat a = unat p mod 32" by (simp only: unsigned_take_bit_eq) (simp add: take_bit_eq_mod)
  then have a: "a < 0x20" by (simp add: word_less_nat_alt)
  have "unat base = 32 * n" using n by (simp add: base_def push_bit_eq_mult unat_word_ariths unat_of_nat)
  then have "unat (a OR base) = unat p" using unat_page [OF base a] ua by (simp add: n_def)
  then have "p = a OR base" by (simp add: word_unat_eq_iff)
  with base a a_def show thesis by (intro that)
qed

lemma final_info_val:
  assumes "p < 0x100"
  shows "final_info b p = (if p = 0xFF then 12 else if 0xF0 \<le> p \<and> p \<le> 0xF7 then 11
    else if p = 0xE0 \<or> p = 0xE1 \<or> p = 0xE2 \<or> p = 0xE3 then entry_of (sq_buffer b) 6
    else if 0x7C \<le> p \<and> p \<le> 0x7F then 10 else seg_val b (p AND 0x1F) 0)"
proof -
  obtain base a where "base \<in> set segments" "a < 0x20" "p = a OR base" "a = p AND 0x1F"
    by (rule page_split [OF assms])
  then have "fold (seg_info b) segments (\<lambda>_. 0) p = seg_val b (p AND 0x1F) 0" using segment_map by metis
  then show ?thesis by (simp add: final_info_def Let_def set_pages_to_def)
qed

subsection \<open>The reference map\<close>

text \<open>What a page is: a block of \<open>2 ^ k\<close> bytes of host memory, mirrored, or a device.\<close>

datatype 'm region = Mem u64 nat | Dev "'m iface"

definition defaulted :: "'m iface \<Rightarrow> 'm iface" where
  "defaulted f = \<lparr>if_read8 = default_fun (if_read8 f), if_read16 = default_fun (if_read16 f),
     if_read32 = default_fun (if_read32 f), if_write8 = default_fun (if_write8 f),
     if_write16 = default_fun (if_write16 f), if_write32 = default_fun (if_write32 f)\<rparr>"

text \<open>What the accesses to page \<open>p\<close> see, read off the tables.\<close>

definition region_of :: "('m, 'z) tables_scheme \<Rightarrow> u32 \<Rightarrow> 'm region" where
  "region_of t p =
     (let e = memInfo_ptr t p; n = ucast e
      in if entry_ptr e \<noteq> 0 then Mem (entry_ptr e) (32 - unat (e AND 0x1F))
         else Dev \<lparr>if_read8 = RF8 t n, if_read16 = RF16 t n, if_read32 = RF32 t n,
                   if_write8 = WF8 t n, if_write16 = WF16 t n, if_write32 = WF32 t n\<rparr>)"

definition decode_area :: "'m board \<Rightarrow> u32 \<Rightarrow> 'm region" where
  "decode_area b a =
     (let s = plat_settings b; d = devs b; dv = (\<lambda>f. Dev (defaulted f))
      in if a < 0x02 then dv (area0_dev d (system s) False)
         else if a \<le> 0x03 then dv (area0_dev d (system s) True)
         else if a = 0x04 \<or> a = 0x06 then Mem (vram_ptr b) (vram_bits s)
         else if a = 0x05 \<or> a = 0x07 then dv (pvr32_dev d)
         else if system s = DC_PLATFORM_NAOMI2 \<and> a = 0x08 then dv (elanreg_iface d)
         else if system s = DC_PLATFORM_NAOMI2 \<and> a = 0x09 then dv (elancmd_iface d)
         else if system s = DC_PLATFORM_NAOMI2 \<and> (a = 0x0A \<or> a = 0x0B) then Mem (elan_RAM b) 25
         else if 0x0C \<le> a \<and> a \<le> 0x0F then Mem (mem_b_ptr b) (ram_bits s)
         else if a = 0x11 then dv (area4_dev d False)
         else if a = 0x13 then dv (area4_dev d True)
         else if 0x14 \<le> a \<and> a \<le> 0x17 then dv extdev_iface
         else dv null_iface)"

definition decode_page :: "'m board \<Rightarrow> u32 \<Rightarrow> 'm region" where
  "decode_page b p =
     (if 0xE0 \<le> p \<and> p \<le> 0xE3 then Mem (sq_buffer b) 6
      else if 0xF0 \<le> p \<and> p \<le> 0xF7 then Dev (defaulted (p4arrays_dev (devs b)))
      else if p = 0xFF then Dev (defaulted (p4mmr_dev (devs b)))
      else if 0x7C \<le> p \<and> p \<le> 0x7F then Dev (defaulted (ocr_dev (devs b)))
      else decode_area b (p AND 0x1F))"

lemma region_Mem:
  assumes "host_aligned base" "1 \<le> k" "k \<le> 32" "memInfo_ptr t p = entry_of base k"
  shows "region_of t p = Mem base k"
proof -
  have "ucast (of_nat j :: u32) = (of_nat j :: u64)" if "j \<le> 32" for j
    using that by (simp add: word_unat_eq_iff unsigned_ucast_eq unat_of_nat take_bit_nat_eq_self)
  then have e: "memInfo_ptr t p = base + of_nat (32 - k)" using assms(4) unfolding entry_of_def by simp
  have al: "0xFF AND base = 0" "base \<noteq> 0" "32 - k < 32" using assms(1,2,3) by (auto simp: host_aligned_def)
  have u: "unat (of_nat (32 - k) :: u64) = 32 - k" by (rule unat_of_nat_small) simp
  show ?thesis
    unfolding region_of_def Let_def e block_entry [OF al(1,3)] u using al(2) assms(3) by simp
qed

lemma region_Dev:
  assumes "handler_is t n f" "memInfo_ptr t p = ucast n" "n < 0x20"
  shows "region_of t p = Dev (defaulted f)"
proof -
  have "unat n < 2 ^ 5" using assms(3) by (simp add: word_less_nat_alt)
  then have "take_bit 5 n = n" by (simp add: word_unat_eq_iff unsigned_take_bit_eq take_bit_nat_eq_self)
  then have "bit n i \<Longrightarrow> i < 5" for i by (metis bit_take_bit_iff)
  then have "entry_ptr (ucast n) = 0"
    by (auto intro!: bit_word_eqI simp: entry_ptr_def HANDLER_MAX_def bit_simps bit_0x1F)
  moreover have "ucast (ucast n :: u64) = n" by (auto intro!: bit_word_eqI simp: bit_simps)
  ultimately show ?thesis using assms(1) by (simp add: region_of_def assms(2) Let_def defaulted_def handler_is_def)
qed

definition pages32 :: "u32 list" where
  "pages32 = [0x00, 0x01, 0x02, 0x03, 0x04, 0x05, 0x06, 0x07, 0x08, 0x09, 0x0A, 0x0B, 0x0C, 0x0D, 0x0E, 0x0F,
              0x10, 0x11, 0x12, 0x13, 0x14, 0x15, 0x16, 0x17, 0x18, 0x19, 0x1A, 0x1B, 0x1C, 0x1D, 0x1E, 0x1F]"

lemma pages32_in: "a < 0x20 \<Longrightarrow> a \<in> set pages32"
proof -
  have s: "pages32 = map of_nat [0..<32]" by (simp add: pages32_def upt_rec)
  assume "a < 0x20"
  then have "unat a \<in> set [0..<32]" by (simp add: word_less_nat_alt)
  then have "of_nat (unat a) \<in> set pages32" unfolding s by (simp only: set_map imageI)
  then show ?thesis by simp
qed

text \<open>The areas in the order in which the code's later calls overwrite its earlier ones.\<close>

definition decode_by_entry :: "'m board \<Rightarrow> u32 \<Rightarrow> 'm region" where
  "decode_by_entry b a =
     (let s = plat_settings b; d = devs b; dv = (\<lambda>f. Dev (defaulted f))
      in if 0x14 \<le> a \<and> a \<le> 0x17 then dv extdev_iface
         else if a = 0x13 then dv (area4_dev d True) else if a = 0x11 then dv (area4_dev d False)
         else if 0x0C \<le> a \<and> a \<le> 0x0F then Mem (mem_b_ptr b) (ram_bits s)
         else if system s = DC_PLATFORM_NAOMI2 \<and> 0x08 \<le> a \<and> a \<le> 0x0B
         then (if a = 0x08 then dv (elanreg_iface d) else if a = 0x09 then dv (elancmd_iface d) else Mem (elan_RAM b) 25)
         else if a = 0x05 \<or> a = 0x07 then dv (pvr32_dev d)
         else if a = 0x04 \<or> a = 0x06 then Mem (vram_ptr b) (vram_bits s)
         else if 0x02 \<le> a \<and> a \<le> 0x03 then dv (area0_dev d (system s) True)
         else if a < 0x02 then dv (area0_dev d (system s) False) else dv null_iface)"

lemma decode_by_entry_ok: "a < 0x20 \<Longrightarrow> decode_by_entry b a = decode_area b a"
proof -
  have "\<forall>a \<in> set pages32. decode_by_entry b a = decode_area b a"
    by (cases "system (plat_settings b) = DC_PLATFORM_NAOMI2")
      (simp_all add: pages32_def decode_by_entry_def decode_area_def Let_def u32_le_1)
  then show "a < 0x20 \<Longrightarrow> decode_by_entry b a = decode_area b a" using pages32_in by blast
qed

text \<open>An entry and the region it denotes.\<close>

definition denotes :: "('m, 'z) tables_scheme \<Rightarrow> u32 \<Rightarrow> u64 \<Rightarrow> 'm region \<Rightarrow> bool" where
  "denotes t p e rg \<longleftrightarrow> (memInfo_ptr t p = e \<longrightarrow> region_of t p = rg)"

lemma denotes_if:
  "(c \<Longrightarrow> denotes t p e rg) \<Longrightarrow> (\<not> c \<Longrightarrow> denotes t p e' rg') \<Longrightarrow>
     denotes t p (if c then e else e') (if c then rg else rg')"
  by simp

lemma seg_val_region:
  assumes ok: "board_ok b" and reg: "registered b t" and a: "a < 0x20" and e: "memInfo_ptr t p = seg_val b a 0"
  shows "region_of t p = decode_area b a"
proof -
  let ?s = "plat_settings b"
  note al = board_aligned [OF ok]
  have B: "host_aligned base \<Longrightarrow> 1 \<le> k \<Longrightarrow> k \<le> 32 \<Longrightarrow> denotes t p (entry_of base k) (Mem base k)" for base k
    using region_Mem [of base k t p] by (simp add: denotes_def)
  have M: "denotes t p (entry_of (vram_ptr b) (vram_bits ?s)) (Mem (vram_ptr b) (vram_bits ?s))"
    "denotes t p (entry_of (mem_b_ptr b) (ram_bits ?s)) (Mem (mem_b_ptr b) (ram_bits ?s))"
    "denotes t p (entry_of (elan_RAM b) 25) (Mem (elan_RAM b) 25)"
    by (rule B; simp add: al vram_bits_def ram_bits_def)+
  have D: "handler_is t n f \<Longrightarrow> n < 0x20 \<Longrightarrow> denotes t p (ucast n) (Dev (defaulted f))" for n f
    using region_Dev [of t n f p] by (simp add: denotes_def)
  have H: "denotes t p 0 (Dev (defaulted null_iface))"
    "denotes t p 1 (Dev (defaulted (area0_dev (devs b) (system ?s) False)))"
    "denotes t p 2 (Dev (defaulted (area0_dev (devs b) (system ?s) True)))"
    "denotes t p 3 (Dev (defaulted (pvr32_dev (devs b))))"
    "denotes t p 4 (Dev (defaulted (elanreg_iface (devs b))))"
    "denotes t p 5 (Dev (defaulted (elancmd_iface (devs b))))"
    "denotes t p 7 (Dev (defaulted (area4_dev (devs b) False)))"
    "denotes t p 8 (Dev (defaulted (area4_dev (devs b) True)))"
    "denotes t p 9 (Dev (defaulted extdev_iface))"
    using D [of 0] D [of 1] D [of 2] D [of 3] D [of 4] D [of 5] D [of 7] D [of 8] D [of 9] reg
    by (simp_all add: registered_def)
  have "denotes t p (seg_val b a 0) (decode_by_entry b a)"
    unfolding seg_val_def decode_by_entry_def Let_def by (intro denotes_if M H)
  with e decode_by_entry_ok [OF a] show ?thesis by (simp add: denotes_def)
qed

text \<open>C1: the tables that \<open>mem_map_default\<close> builds realise the reference memory map: on every platform it
  succeeds, no assertion fails, and each of the 256 pages of 16 MB is the block of memory or the device that
  \<open>decode_page\<close> names, whatever was in the tables before.\<close>

theorem memory_map_refines:
  assumes "board_ok b"
  shows "\<exists>t'. mem_map_default b t = Inr t' \<and> (\<forall>p < 0x100. region_of t' p = decode_page b p)"
proof -
  obtain t' where run: "mem_map_default b t = Inr t'" and info: "memInfo_ptr t' = final_info b"
    and reg: "registered b t'" and h: "handler_is t' 10 (ocr_dev (devs b))"
      "handler_is t' 11 (p4arrays_dev (devs b))" "handler_is t' 12 (p4mmr_dev (devs b))"
    using mem_map_run [OF assms] by blast
  have "region_of t' p = decode_page b p" if p: "p < 0x100" for p
  proof -
    note v = final_info_val [OF p, of b, folded info]
    have a: "p AND 0x1F < 0x20" using page_split [OF p] by metis
    have sq: "p = 0xE0 \<or> p = 0xE1 \<or> p = 0xE2 \<or> p = 0xE3 \<longleftrightarrow> 0xE0 \<le> p \<and> p \<le> 0xE3"
      by (auto simp: word_le_nat_alt word_unat_eq_iff)
    consider "p = 0xFF" | "0xF0 \<le> p" "p \<le> 0xF7" | "0xE0 \<le> p" "p \<le> 0xE3" | "0x7C \<le> p" "p \<le> 0x7F"
      | "p \<noteq> 0xFF" "\<not> (0xF0 \<le> p \<and> p \<le> 0xF7)" "\<not> (0xE0 \<le> p \<and> p \<le> 0xE3)" "\<not> (0x7C \<le> p \<and> p \<le> 0x7F)"
      by blast
    then show ?thesis
    proof cases
      case 1
      then show ?thesis using region_Dev [OF h(3), of p] v by (simp add: decode_page_def)
    next
      case 2
      then have "p \<noteq> 0xFF" "\<not> p \<le> 0xE3" by (auto simp: word_le_nat_alt)
      then show ?thesis using 2 region_Dev [OF h(2), of p] v by (simp add: decode_page_def)
    next
      case 3
      then have "p \<noteq> 0xFF" "\<not> 0xF0 \<le> p" by (auto simp: word_le_nat_alt)
      then have "region_of t' p = Mem (sq_buffer b) 6"
        by (intro region_Mem) (use 3 v in \<open>simp_all add: sq board_aligned(3) [OF assms]\<close>)
      then show ?thesis using 3 by (simp add: decode_page_def)
    next
      case 4
      then have "p \<noteq> 0xFF" "\<not> 0xF0 \<le> p" "\<not> 0xE0 \<le> p" by (auto simp: word_le_nat_alt)
      then show ?thesis using 4 region_Dev [OF h(1), of p] v by (simp add: sq decode_page_def)
    next
      case 5
      then have "memInfo_ptr t' p = seg_val b (p AND 0x1F) 0" using v by (simp only: sq if_False)
      then have "region_of t' p = decode_area b (p AND 0x1F)" by (rule seg_val_region [OF assms reg a])
      then show ?thesis using 5 by (simp only: decode_page_def if_False)
    qed
  qed
  with run show ?thesis by blast
qed

subsection \<open>Main memory\<close>

lemma area3_page:
  assumes "drop_bit 26 (addr :: u32) AND 7 = 3"
  shows "drop_bit 24 addr < 0x100" "0x0C \<le> drop_bit 24 addr AND 0x1F" "drop_bit 24 addr AND 0x1F \<le> 0x0F"
proof -
  have tb: "take_bit 32 (unat addr) = unat addr"
    by (rule take_bit_nat_eq_self) (use unsigned_less [of addr, where 'a = nat] in simp)
  have "unat addr div 2 ^ 24 < 256" using unsigned_less [of addr, where 'a = nat] by simp
  moreover have "unat (drop_bit 24 addr) = unat addr div 2 ^ 24"
    unfolding unsigned_drop_bit_eq by (simp add: drop_bit_eq_div tb)
  ultimately have "unat (drop_bit 24 addr) < 256" by (simp only:)
  then show p: "drop_bit 24 addr < 0x100" by (simp add: word_less_nat_alt)
  define a where "a = drop_bit 24 addr AND 0x1F"
  have m: "(7 :: u32) = mask 3" "(0x1F :: u32) = mask 5" by (simp_all add: mask_eq_exp_minus_1)
  have "drop_bit 2 a = drop_bit 26 addr AND 7"
    unfolding a_def m by (rule bit_word_eqI) (auto simp: bit_simps)
  then have three: "drop_bit 2 a = 3" using assms by simp
  obtain a' where "a' < 0x20" "a' = drop_bit 24 addr AND 0x1F" by (rule page_split [OF p])
  then have "a < 0x20" by (simp only: a_def)
  then have "a \<in> set pages32" by (rule pages32_in)
  moreover have "\<forall>a \<in> set pages32. drop_bit 2 a = 3 \<longrightarrow> 0x0C \<le> a \<and> a \<le> 0x0F"
    by (simp add: pages32_def drop_bit_eq_div)
  ultimately show "0x0C \<le> drop_bit 24 addr AND 0x1F" "drop_bit 24 addr AND 0x1F \<le> 0x0F"
    using three unfolding a_def by blast+
qed

lemma ram_page:
  assumes "board_ok b" "memInfo_ptr t = final_info b" "drop_bit 26 addr AND 7 = 3"
  shows "block_page t (mem_b_ptr b) (ram_bits (plat_settings b)) addr"
proof -
  let ?p = "drop_bit 24 addr" and ?a = "drop_bit 24 addr AND 0x1F"
  note a3 = area3_page [OF assms(3)]
  have low: "?p = q \<Longrightarrow> q AND 0x1F = ?a" for q by simp
  have ne: "?p \<noteq> 0xFF" "?p \<noteq> 0xE0" "?p \<noteq> 0xE1" "?p \<noteq> 0xE2" "?p \<noteq> 0xE3"
    using a3(2,3) low [of "0xFF"] low [of "0xE0"] low [of "0xE1"] low [of "0xE2"] low [of "0xE3"] by (auto simp: u32_le_1)
  obtain base a where seg: "base \<in> set segments" "a < 0x20" "?p = a OR base" "a = ?a" by (rule page_split [OF a3(1)])
  have u: "unat ?p = unat ?a + unat base" using unat_page [OF seg(1,2)] seg(3,4) by metis
  have le: "12 \<le> unat ?a" "unat ?a \<le> 15" using a3(2,3) by (simp_all add: word_le_nat_alt)
  have "unat base \<in> {0, 32, 64, 96, 128, 160, 192, 224}" using seg(1) by (auto simp: segments_def)
  then have rng: "\<not> (240 \<le> unat ?p \<and> unat ?p \<le> 247)" "\<not> (124 \<le> unat ?p \<and> unat ?p \<le> 127)"
    unfolding u using le by auto
  have na: "\<not> (0x14 \<le> ?a \<and> ?a \<le> 0x17)" "?a \<noteq> 0x13" "?a \<noteq> 0x11" using le by (auto simp: word_le_nat_alt)
  have "memInfo_ptr t ?p = entry_of (mem_b_ptr b) (ram_bits (plat_settings b))"
    using rng ne na a3(2,3) by (auto simp: assms(2) final_info_val [OF a3(1)] seg_val_def word_le_nat_alt)
  then show ?thesis
    using board_aligned(4) [OF assms(1)]
    by (simp add: block_page_def page_entry_def host_aligned_def entry_of_def ram_bits_def)
qed

text \<open>C2: on every platform the map gives one main memory: what is stored in area 3 of any of the eight
  segments is read back, with each access size, from every area 3 address that is equal to the first
  under \<open>RAM_MASK\<close>, and it lies at that offset of the memory's host block.\<close>

theorem main_memory_mirrors:
  assumes "board_ok b" "drop_bit 26 a AND 7 = 3" "drop_bit 26 a' AND 7 = 3"
    and "a AND ram_mask (plat_settings b) = a' AND ram_mask (plat_settings b)" "sz \<in> {1, 2, 4, 8}"
  shows "\<exists>t' m'. mem_map_default b t = Inr t' \<and> writet sz t' a v m = Inr m'
    \<and> readt sz t' a' m' = Inr (take_bit (8 * sz) v, m')
    \<and> host_load (host m') (mem_b_ptr b + ucast (a AND ram_mask (plat_settings b))) sz = take_bit (8 * sz) v"
proof -
  obtain t' where t': "mem_map_default b t = Inr t'" "memInfo_ptr t' = final_info b"
    using mem_map_run [OF assms(1)] by blast
  note pg = ram_page [OF assms(1) t'(2) assms(2)] ram_page [OF assms(1) t'(2) assms(3)]
  have "sz \<le> 8" using assms(5) by auto
  then show ?thesis
    using assms(4) unfolding platform_sizes(2) [OF assms(1)]
    by (simp add: t'(1) writet_block [OF pg(1)] readt_block [OF pg(2)] host_load_store)
qed

definition example_devices :: "'m devices" where
  "example_devices = \<lparr>area0_dev = \<lambda>_ _. null_iface, pvr32_dev = null_iface, area4_dev = \<lambda>_. null_iface,
     read_elanreg = NotMapped, write_elanreg = NotMapped, write_elancmd = NotMapped, elanram_dev = null_iface,
     ocr_dev = null_iface, p4arrays_dev = null_iface, p4mmr_dev = null_iface\<rparr>"

definition example_settings :: settings where
  "example_settings = \<lparr>system = DC_PLATFORM_DREAMCAST, ram_size = 0, ram_mask = 0, vram_size = 0, vram_mask = 0,
     aram_size = 0, aram_mask = 0, bios_size = 0, flash_size = 0, ERAM_SIZE = 0\<rparr>"

text \<open>A Dreamcast with 16 MB of memory, for the examples.\<close>

definition example_board :: "'m board" where
  "example_board = \<lparr>plat_settings = setPlatform False DC_PLATFORM_DREAMCAST example_settings, vram_ptr = 0x10000000,
     mem_b_ptr = 0x20000000, elan_RAM = 0x30000000, sq_buffer = 0x40000000, devs = example_devices\<rparr>"

definition example_map :: "'m mem_map" where
  "example_map = \<lparr>lastRegisteredHandler = 0, RF8 = \<lambda>_. Nullptr, WF8 = \<lambda>_. Nullptr, RF16 = \<lambda>_. Nullptr,
     WF16 = \<lambda>_. Nullptr, RF32 = \<lambda>_. Nullptr, WF32 = \<lambda>_. Nullptr, memInfo_ptr = \<lambda>_. 0,
     area0_handler = 0, area0_mirror_handler = 0, area1_32b = 0, elanRegHandler = 0, elanCmdHandler = 0,
     elanRamHandler = 0, area4_handler_lower = 0, area4_handler_upper = 0, area5_handler = 0\<rparr>"

lemma example_board_ok: "board_ok example_board"
  by (auto simp: board_ok_def example_board_def host_aligned_def)

theorem memory_map_refines_witness:
  "\<exists>t'. mem_map_default example_board (example_map :: nat machine mem_map) = Inr t' \<and> region_of t' 0xAC = Mem 0x20000000 24"
proof -
  have "decode_page (example_board :: nat machine board) 0xAC = Mem 0x20000000 24"
    by (simp add: decode_page_def decode_area_def Let_def example_board_def ram_bits_def setPlatform_def MB_def KB_def)
  moreover have "(0xAC :: u32) < 0x100" by simp
  ultimately show ?thesis
    using memory_map_refines [OF example_board_ok, of example_map] by metis
qed

theorem main_memory_mirrors_witness:
  "\<exists>t' m'. mem_map_default example_board (example_map :: nat machine mem_map) = Inr t'
     \<and> writet 4 t' 0x8C000100 0x12345678 \<lparr>host = \<lambda>_. 0, dev = 0\<rparr> = Inr m'
     \<and> readt 4 t' 0x0D000100 m' = Inr (0x12345678, m')
     \<and> host_load (host m') 0x20000100 4 = 0x12345678"
proof -
  have "ram_mask (plat_settings (example_board :: nat machine board)) = 0xFFFFFF"
    by (simp add: example_board_def setPlatform_def Let_def MB_def)
  then show ?thesis
    using main_memory_mirrors [OF example_board_ok, of "0x8C000100" "0x0D000100" 4 "example_map :: nat machine mem_map"
        "0x12345678" "\<lparr>host = \<lambda>_. 0, dev = 0\<rparr>"]
    by (simp add: example_board_def drop_bit_eq_div take_bit_eq_mod)
qed

end
