(* ===== verification/Mem_Block.thy ===== *)
theory Mem_Block
  imports Memory_Map
begin

section \<open>Block copies\<close>

text \<open>
  \<open>GetMemPtr\<close> and the block copies \<open>WriteMemBlock_nommu_ptr\<close>, \<open>_dma\<close> and \<open>_sq\<close> of
  \<open>core/hw/sh4/sh4_mem.cpp\<close>. A copy between mapped memories is one \<open>memcpy\<close>; the other cases are loops
  of SH4 accesses. \<open>host_words\<close> is the loop as a reference for the \<open>memcpy\<close>.
\<close>

datatype copy_error = Access as_error | Verify_failed

definition lift_access :: "as_error + 'a \<Rightarrow> copy_error + 'a" where
  "lift_access x = (case x of Inl e \<Rightarrow> Inl (Access e) | Inr y \<Rightarrow> Inr y)"

subsection \<open>Pointers into main memory\<close>

definition GetMemPtr :: "'m board \<Rightarrow> u32 \<Rightarrow> u32 \<Rightarrow> u64 option" where
  "GetMemPtr b addr sz =
     (let s = plat_settings b
      in if drop_bit 29 addr AND 7 = 7 then None
         else if drop_bit 26 addr AND 7 = 3
         then if ram_size s < (addr AND ram_mask s) + sz then None
              else Some (mem_b_ptr b + ucast (addr AND ram_mask s))
         else None)"

subsection \<open>Copies from host memory\<close>

lemma left_decreases:
  assumes "i < sz" "k \<le> sz - i" "0 < k"
  shows "unat (sz - (i + k)) < unat (sz - i :: u32)"
proof -
  have e: "sz - (i + k) = (sz - i) - k" by simp
  have "unat ((sz - i) - k) = unat (sz - i) - unat k" using assms(2) by (rule unat_sub)
  moreover have "0 < unat k" "unat k \<le> unat (sz - i)"
    using assms(2,3) by (simp_all add: word_le_nat_alt word_less_nat_alt)
  ultimately show ?thesis unfolding e by linarith
qed

lemma one_left: "i < sz \<Longrightarrow> 1 \<le> sz - (i :: u32)"
proof -
  assume "i < sz"
  then have "sz - i \<noteq> 0" by auto
  then show ?thesis by (simp add: word_le_nat_alt unat_gt_0 Suc_leI)
qed

function ptr_loop :: "('d machine, 'z) tables_scheme \<Rightarrow> u32 \<Rightarrow> u64 \<Rightarrow> u32 \<Rightarrow> u32 \<Rightarrow> 'd machine \<Rightarrow> as_error + 'd machine" where
  "ptr_loop t dst src sz i m =
     (if i < sz
      then let left = sz - i
           in if 4 \<le> left
              then sum_bind (write32 t (dst + i) (ucast (host_load (host m) (src + 4 * ucast (drop_bit 2 i)) 4)) m)
                     (ptr_loop t dst src sz (i + 4))
              else if 2 \<le> left
              then sum_bind (write16 t (dst + i) (ucast (host_load (host m) (src + 2 * ucast (drop_bit 1 i)) 2)) m)
                     (ptr_loop t dst src sz (i + 2))
              else sum_bind (write8 t (dst + i) (host m (src + ucast i)) m)
                     (ptr_loop t dst src sz (i + 1))
      else Inr m)"
  by auto
termination
  by (relation "measure (\<lambda>(t, dst, src, sz, i, m). unat (sz - i))")
    (auto intro: left_decreases one_left)

declare ptr_loop.simps [simp del]

definition WriteMemBlock_nommu_ptr ::
  "('d machine, 'z) tables_scheme \<Rightarrow> u32 \<Rightarrow> u64 \<Rightarrow> u32 \<Rightarrow> 'd machine \<Rightarrow> copy_error + 'd machine" where
  "WriteMemBlock_nommu_ptr t dst src sz m =
     lift_access (sum_bind (writeConst t dst 4) (\<lambda>target.
       case target of
         Write_mem dst_ptr \<Rightarrow> Inr (m\<lparr>host := host_memcpy dst_ptr src sz (host m)\<rparr>)
       | _ \<Rightarrow> ptr_loop t dst src sz 0 m))"

subsection \<open>Copies between addresses\<close>

primrec word_loop :: "('d machine, 'z) tables_scheme \<Rightarrow> u32 \<Rightarrow> u32 \<Rightarrow> nat \<Rightarrow> u32 \<Rightarrow> 'd machine \<Rightarrow> as_error + 'd machine" where
  "word_loop t dst src 0 i m = Inr m"
| "word_loop t dst src (Suc n) i m =
     sum_bind (read32 t (src + i) m) (\<lambda>(v, m).
     sum_bind (write32 t (dst + i) v m) (word_loop t dst src n (i + 4)))"

definition WriteMemBlock_nommu_dma ::
  "('d machine, 'z) tables_scheme \<Rightarrow> u32 \<Rightarrow> u32 \<Rightarrow> u32 \<Rightarrow> 'd machine \<Rightarrow> copy_error + 'd machine" where
  "WriteMemBlock_nommu_dma t dst src sz m =
     (case (writeConst t dst 4, readConst t src 4) of
        (Inl e, _) \<Rightarrow> Inl (Access e)
      | (_, Inl e) \<Rightarrow> Inl (Access e)
      | (Inr (Write_mem dst_ptr), Inr (Read_mem src_ptr)) \<Rightarrow> Inr (m\<lparr>host := host_memcpy dst_ptr src_ptr sz (host m)\<rparr>)
      | (_, Inr (Read_mem src_ptr)) \<Rightarrow> WriteMemBlock_nommu_ptr t dst src_ptr sz m
      | _ \<Rightarrow> if sz mod 4 \<noteq> 0 then Inl Verify_failed
             else lift_access (word_loop t dst src (unat sz div 4) 0 m))"

text \<open>A store queue is 32 bytes of host memory at \<open>src\<close>.\<close>

primrec sq_loop :: "('d machine, 'z) tables_scheme \<Rightarrow> u32 \<Rightarrow> u64 \<Rightarrow> nat \<Rightarrow> u32 \<Rightarrow> 'd machine \<Rightarrow> as_error + 'd machine" where
  "sq_loop t dst src 0 i m = Inr m"
| "sq_loop t dst src (Suc n) i m =
     sum_bind (write32 t (dst + i) (ucast (host_load (host m) (src + ucast i) 4)) m) (sq_loop t dst src n (i + 4))"

definition WriteMemBlock_nommu_sq ::
  "'d machine board \<Rightarrow> ('d machine, 'z) tables_scheme \<Rightarrow> u32 \<Rightarrow> u64 \<Rightarrow> 'd machine \<Rightarrow> as_error + 'd machine" where
  "WriteMemBlock_nommu_sq b t dst src m =
     (case GetMemPtr b dst 32 of
        Some pdst \<Rightarrow> Inr (m\<lparr>host := host_memcpy pdst src 32 (host m)\<rparr>)
      | None \<Rightarrow> sq_loop t dst src 8 0 m)"

subsection \<open>A copy by elements\<close>

text \<open>\<open>n\<close> elements of \<open>sz\<close> bytes, from offset \<open>i\<close> on.\<close>

primrec host_elems :: "nat \<Rightarrow> u64 \<Rightarrow> u64 \<Rightarrow> nat \<Rightarrow> nat \<Rightarrow> (u64 \<Rightarrow> u8) \<Rightarrow> u64 \<Rightarrow> u8" where
  "host_elems sz d s 0 i h = h"
| "host_elems sz d s (Suc n) i h =
     host_elems sz d s n (i + sz) (host_store (d + of_nat i) sz (host_load h (s + of_nat i) sz) h)"

definition apart :: "u64 \<Rightarrow> u64 \<Rightarrow> nat \<Rightarrow> bool" where
  "apart d s n \<longleftrightarrow> (\<forall>j < n. \<forall>k < n. s + of_nat j \<noteq> d + of_nat k)"

lemma unat_diff_window:
  assumes "i + sz \<le> (2::nat) ^ 32"
  shows "unat (x - of_nat i :: u64) < sz \<longleftrightarrow> i \<le> unat x \<and> unat x < i + sz"
proof -
  have u: "unat (of_nat i :: u64) = i" using assms by (simp add: unat_of_nat)
  have "unat x < 2 ^ 64" using unsigned_less [of x, where 'a = nat] by simp
  then show ?thesis using assms u by (auto simp: unat_sub_if_size word_size)
qed

lemma host_elems_spec:
  assumes "apart d s N" "N \<le> 2 ^ 32" "sz \<le> 8" "i + sz * n \<le> N"
  shows "host_elems sz d s n i h q = (if i \<le> unat (q - d) \<and> unat (q - d) < i + sz * n then h (s + (q - d)) else h q)"
  using assms(4)
proof (induction n arbitrary: i h)
  case (Suc n)
  define h' where "h' = host_store (d + of_nat i) sz (host_load h (s + of_nat i) sz) h"
  have i4: "i + sz \<le> 2 ^ 32" using Suc.prems assms(2) by simp
  have w: "unat (q' - (d + of_nat i)) < sz \<longleftrightarrow> i \<le> unat (q' - d) \<and> unat (q' - d) < i + sz" for q'
    using unat_diff_window [OF i4, of "q' - d"] by (simp add: algebra_simps)
  have h: "h' q' = (if i \<le> unat (q' - d) \<and> unat (q' - d) < i + sz then h (s + (q' - d)) else h q')" for q'
  proof (cases "unat (q' - (d + of_nat i)) < sz")
    case True
    then show ?thesis
      using host_store_load [OF assms(3), of q' "d + of_nat i" h "s + of_nat i" h] w by (simp add: h'_def algebra_simps)
  next
    case False
    then show ?thesis using w [of q'] by (auto simp: host_store_def h'_def)
  qed
  have src: "h' (s + (q - d)) = h (s + (q - d))" if "unat (q - d) < N"
  proof -
    have "\<not> unat (s + (q - d) - d) < N"
    proof
      assume "unat (s + (q - d) - d) < N"
      then have "s + of_nat (unat (q - d)) \<noteq> d + of_nat (unat (s + (q - d) - d))"
        using assms(1) that unfolding apart_def by blast
      then show False by simp
    qed
    then show ?thesis using h Suc.prems by simp
  qed
  have "host_elems sz d s (Suc n) i h q = host_elems sz d s n (i + sz) h' q" by (simp add: h'_def)
  also have "\<dots> = (if i + sz \<le> unat (q - d) \<and> unat (q - d) < i + sz * Suc n then h' (s + (q - d)) else h' q)"
    using Suc.IH [of "i + sz" h'] Suc.prems by (simp add: add.assoc)
  finally show ?case using Suc.prems src h [of q] by (cases "i \<le> unat (q - d)"; cases "unat (q - d) < i + sz") simp_all
qed auto

lemma host_memcpy_is_host_elems:
  assumes "apart d s (unat sz)" "unat sz = e * n" "e \<le> 8"
  shows "host_memcpy d s sz h = host_elems e d s n 0 h"
proof
  fix q
  have "unat sz \<le> 2 ^ 32" using unsigned_less [of sz, where 'a = nat] by simp
  then show "host_memcpy d s sz h q = host_elems e d s n 0 h q"
    using host_elems_spec [OF assms(1) _ assms(3), of 0 n h q] assms(2) by (simp add: host_memcpy_def)
qed

abbreviation host_words :: "u64 \<Rightarrow> u64 \<Rightarrow> nat \<Rightarrow> nat \<Rightarrow> (u64 \<Rightarrow> u8) \<Rightarrow> u64 \<Rightarrow> u8" where
  "host_words \<equiv> host_elems 4"

lemma host_memcpy_is_host_words:
  assumes "apart d s (unat sz)" "unat sz = 4 * n"
  shows "host_memcpy d s sz h = host_words d s n 0 h"
  by (rule host_memcpy_is_host_elems [OF assms]) simp

subsection \<open>Ranges inside of a block\<close>

lemma no_carry:
  assumes "k \<le> 32" "unat (a AND mask k) + i < 2 ^ k"
  shows "unat ((a + of_nat i) AND mask k) = unat (a AND mask k) + i"
    "drop_bit k (a + of_nat i) = drop_bit k (a :: u32)"
proof -
  have m: "unat (x AND mask k) = unat x mod 2 ^ k" for x :: u32
    by (simp only: unsigned_take_bit_eq take_bit_eq_mod [of k "unat x"] flip: take_bit_eq_mask)
  define q where "q = unat a div 2 ^ k"
  have a: "unat a = 2 ^ k * q + unat a mod 2 ^ k" by (simp add: q_def)
  have i: "unat a mod 2 ^ k + i < 2 ^ k" using assms(2) m by simp
  have p: "(2::nat) ^ 32 = 2 ^ k * 2 ^ (32 - k)" using assms(1) by (simp flip: power_add)
  have "unat a < 2 ^ 32" using unsigned_less [of a, where 'a = nat] by simp
  then have "2 ^ k * q < 2 ^ k * 2 ^ (32 - k)" using a p by linarith
  then have "q + 1 \<le> 2 ^ (32 - k)" by simp
  then have "2 ^ k * (q + 1) \<le> 2 ^ 32" unfolding p by (rule mult_le_mono2)
  then have lt: "unat a + i < 2 ^ 32" using a i by simp
  then have "i < 2 ^ 32" by simp
  then have u: "unat (a + of_nat i) = unat a + i" using lt by (simp add: unat_word_ariths(1) unat_of_nat)
  have e: "unat a + i = 2 ^ k * q + (unat a mod 2 ^ k + i)" using a by simp
  have "(unat a + i) mod 2 ^ k = unat a mod 2 ^ k + i" unfolding e using i by simp
  then show "unat ((a + of_nat i) AND mask k) = unat (a AND mask k) + i" by (simp only: m u)
  have "(unat a + i) div 2 ^ k = q" unfolding e using i by simp
  then have d: "drop_bit k (unat a + i) = drop_bit k (unat a)" by (simp add: drop_bit_eq_div q_def)
  have tb: "take_bit LENGTH(32) (unat x) = unat x" for x :: u32
    by (rule take_bit_nat_eq_self) (use unsigned_less [of x, where 'a = nat] in simp)
  show "drop_bit k (a + of_nat i) = drop_bit k a"
    unfolding word_unat_eq_iff unsigned_drop_bit_eq tb unfolding u by (rule d)
qed

definition linear_range :: "('m, 'z) tables_scheme \<Rightarrow> u64 \<Rightarrow> nat \<Rightarrow> u32 \<Rightarrow> nat \<Rightarrow> bool" where
  "linear_range t base k addr n \<longleftrightarrow> (\<forall>i < n. block_page t base k (addr + of_nat i)
     \<and> ucast ((addr + of_nat i) AND mask k) = (ucast (addr AND mask k) + of_nat i :: u64))"

lemma ucast_no_carry:
  assumes "k \<le> 32" "unat ((a :: u32) AND mask k) + i < 2 ^ k"
  shows "ucast ((a + of_nat i) AND mask k) = (ucast (a AND mask k) + of_nat i :: u64)"
proof -
  have "(2::nat) ^ k \<le> 2 ^ 32" using assms(1) by (intro power_increasing) simp_all
  then have i: "i < 2 ^ 32" "unat (a AND mask k) + i < 2 ^ 64" using assms(2) by simp_all
  then have "unat (ucast (a AND mask k) + of_nat i :: u64) = unat (a AND mask k) + i"
    by (simp add: unat_word_ariths(1) unat_of_nat unat_ucast64)
  then show ?thesis by (simp add: word_unat_eq_iff unat_ucast64 no_carry(1) [OF assms])
qed

lemma linear_ram:
  assumes "board_ok b" "memInfo_ptr t = final_info b" "drop_bit 26 a AND 7 = 3"
    and "unat (a AND ram_mask (plat_settings b)) + n \<le> 2 ^ ram_bits (plat_settings b)"
  shows "linear_range t (mem_b_ptr b) (ram_bits (plat_settings b)) a n"
  unfolding linear_range_def
proof (intro allI impI conjI)
  fix i assume "i < n"
  let ?k = "ram_bits (plat_settings b)"
  have k: "?k \<le> 26" "?k \<le> 32" by (simp_all add: ram_bits_def)
  have lt: "unat (a AND mask ?k) + i < 2 ^ ?k"
    using assms(4) \<open>i < n\<close> unfolding platform_sizes(2) [OF assms(1)] by linarith
  have "drop_bit 26 x = drop_bit (26 - ?k) (drop_bit ?k x)" for x :: u32 using k by simp
  then have "drop_bit 26 (a + of_nat i) = drop_bit 26 a" using no_carry(2) [OF k(2) lt] by metis
  then show "block_page t (mem_b_ptr b) ?k (a + of_nat i)"
    using ram_page [OF assms(1,2), of "a + of_nat i"] assms(3) by simp
  show "ucast ((a + of_nat i) AND mask ?k) = (ucast (a AND mask ?k) + of_nat i :: u64)"
    by (rule ucast_no_carry [OF k(2) lt])
qed

text \<open>A range in one page.\<close>

lemma linear_page:
  assumes "block_page t base k a" "k \<le> 24" "unat (a AND mask k) + n \<le> 2 ^ k"
  shows "linear_range t base k a n"
  unfolding linear_range_def
proof (intro allI impI conjI)
  fix i assume "i < n"
  then have lt: "unat (a AND mask k) + i < 2 ^ k" using assms(3) by linarith
  have k: "k \<le> 32" using assms(2) by simp
  have "drop_bit 24 x = drop_bit (24 - k) (drop_bit k x)" for x :: u32 using assms(2) by simp
  then have "drop_bit 24 (a + of_nat i) = drop_bit 24 a" using no_carry(2) [OF k lt] by metis
  then show "block_page t base k (a + of_nat i)" using assms(1) by (simp add: block_page_def page_entry_def)
  show "ucast ((a + of_nat i) AND mask k) = (ucast (a AND mask k) + of_nat i :: u64)"
    by (rule ucast_no_carry [OF k lt])
qed

subsection \<open>The loops on mapped memory\<close>

lemma load_word_fits: "ucast (ucast (host_load h p 4) :: u32) = host_load h p 4"
  by (rule bit_word_eqI) (auto simp: bit_simps bit_host_load)

lemma ucast_of_nat_index: "i < 2 ^ 32 \<Longrightarrow> ucast (of_nat i :: u32) = (of_nat i :: u64)"
  by (simp add: word_unat_eq_iff unat_ucast64 unat_of_nat take_bit_nat_eq_self)

lemma write32_linear:
  assumes "linear_range t base k dst N" "i < N"
  shows "write32 t (dst + of_nat i) v m
    = Inr (m\<lparr>host := host_store (base + ucast (dst AND mask k) + of_nat i) 4 (ucast v) (host m)\<rparr>)"
proof -
  have "block_page t base k (dst + of_nat i)"
    "ucast ((dst + of_nat i) AND mask k) = (ucast (dst AND mask k) + of_nat i :: u64)"
    using assms by (auto simp: linear_range_def)
  then show ?thesis by (simp add: write32_def writet_block add.assoc)
qed

lemma read32_linear:
  assumes "linear_range t base k src N" "i < N"
  shows "read32 t (src + of_nat i) m = Inr (ucast (host_load (host m) (base + ucast (src AND mask k) + of_nat i) 4), m)"
proof -
  have "block_page t base k (src + of_nat i)"
    "ucast ((src + of_nat i) AND mask k) = (ucast (src AND mask k) + of_nat i :: u64)"
    using assms by (auto simp: linear_range_def)
  then show ?thesis by (simp add: read32_def narrow_def readt_block add.assoc)
qed

lemma sq_loop_linear:
  assumes "linear_range t base k dst N" "N \<le> 2 ^ 32"
  shows "i + 4 * n \<le> N \<Longrightarrow> sq_loop t dst src n (of_nat i) m
    = Inr (m\<lparr>host := host_words (base + ucast (dst AND mask k)) src n i (host m)\<rparr>)"
proof (induction n arbitrary: i m)
  case (Suc n)
  then have i: "i < N" "i < 2 ^ 32" "i + 4 + 4 * n \<le> N" using assms(2) by simp_all
  have "sq_loop t dst src n (of_nat i + 4) m' = sq_loop t dst src n (of_nat (i + 4)) m'" for m' by simp
  then show ?case
    using Suc.IH [OF i(3)] by (simp add: write32_linear [OF assms(1) i(1)] ucast_of_nat_index [OF i(2)] load_word_fits)
qed simp

lemma word_loop_linear:
  assumes "linear_range t base k dst N" "linear_range t base' k' src N" "N \<le> 2 ^ 32"
  shows "i + 4 * n \<le> N \<Longrightarrow> word_loop t dst src n (of_nat i) m
    = Inr (m\<lparr>host := host_words (base + ucast (dst AND mask k)) (base' + ucast (src AND mask k')) n i (host m)\<rparr>)"
proof (induction n arbitrary: i m)
  case (Suc n)
  then have i: "i < N" "i + 4 + 4 * n \<le> N" by simp_all
  have "word_loop t dst src n (of_nat i + 4) m' = word_loop t dst src n (of_nat (i + 4)) m'" for m' by simp
  then show ?case
    using Suc.IH [OF i(2)]
    by (simp add: read32_linear [OF assms(2) i(1)] write32_linear [OF assms(1) i(1)] load_word_fits)
qed simp

lemma default_info: "board_ok b \<Longrightarrow> mem_map_default b t0 = Inr t \<Longrightarrow> memInfo_ptr t = final_info b"
  using mem_map_run [of b t0] by auto

lemma GetMemPtr_range:
  assumes "board_ok b" "GetMemPtr b addr sz = Some p" "sz \<le> ram_size (plat_settings b)"
  shows "drop_bit 26 addr AND 7 = 3" "p = mem_b_ptr b + ucast (addr AND ram_mask (plat_settings b))"
    "unat (addr AND ram_mask (plat_settings b)) + unat sz \<le> 2 ^ ram_bits (plat_settings b)"
proof -
  let ?s = "plat_settings b"
  have g: "drop_bit 26 addr AND 7 = 3" "p = mem_b_ptr b + ucast (addr AND ram_mask ?s)"
    "\<not> ram_size ?s < (addr AND ram_mask ?s) + sz"
    using assms(2) by (simp_all add: GetMemPtr_def Let_def split: if_splits)
  then show "drop_bit 26 addr AND 7 = 3" "p = mem_b_ptr b + ucast (addr AND ram_mask ?s)" by simp_all
  have rs: "unat (ram_size ?s) = 2 ^ ram_bits ?s" "ram_bits ?s \<le> 25"
    using platform_sizes(1) [OF assms(1)] by (auto simp: MB_def)
  have "(2::nat) ^ ram_bits ?s \<le> 2 ^ 25" using rs(2) by (intro power_increasing) simp_all
  moreover have "unat (addr AND ram_mask ?s) < 2 ^ ram_bits ?s"
    unfolding platform_sizes(2) [OF assms(1)] using rs(2)
    by (simp only: unsigned_take_bit_eq take_bit_nat_less_exp flip: take_bit_eq_mask)
  moreover have "unat sz \<le> 2 ^ ram_bits ?s" using assms(3) rs(1) by (simp add: word_le_nat_alt)
  ultimately have "unat ((addr AND ram_mask ?s) + sz) = unat (addr AND ram_mask ?s) + unat sz"
    by (simp add: unat_word_ariths(1))
  then show "unat (addr AND ram_mask ?s) + unat sz \<le> 2 ^ ram_bits ?s"
    using g(3) rs(1) by (simp add: word_less_nat_alt)
qed

lemma GetMemPtr_linear:
  assumes "board_ok b" "memInfo_ptr t = final_info b" "GetMemPtr b addr sz = Some p" "sz \<le> ram_size (plat_settings b)"
  shows "linear_range t (mem_b_ptr b) (ram_bits (plat_settings b)) addr (unat sz)"
    "p = mem_b_ptr b + ucast (addr AND mask (ram_bits (plat_settings b)))"
  using linear_ram [OF assms(1,2)] GetMemPtr_range [OF assms(1,3,4)] platform_sizes(2) [OF assms(1)] by simp_all

subsection \<open>Properties\<close>

lemma apartI:
  assumes "unat s + n \<le> unat d \<or> unat d + n \<le> unat s" "unat s + n \<le> 2 ^ 64" "unat d + n \<le> 2 ^ 64"
  shows "apart d s n"
  unfolding apart_def
proof (intro allI impI)
  fix j k assume jk: "j < n" "k < n"
  have u: "unat (x + of_nat i :: u64) = unat x + i" if "unat x + n \<le> 2 ^ 64" "i < n" for x i
    using that by (simp add: unat_word_ariths(1) unat_of_nat)
  show "s + of_nat j \<noteq> d + of_nat k"
    using u [OF assms(2) jk(1)] u [OF assms(3) jk(2)] assms(1) jk by auto
qed

text \<open>C25: flushing a store queue to main memory, done by one structure assignment through \<open>GetMemPtr\<close>, is
  the eight 32-bit stores of the general path: the shortcut changes nothing but the cost. It needs
  no alignment of the address, because \<open>GetMemPtr\<close> refuses a block that leaves the memory.\<close>

theorem sq_shortcut_agrees:
  assumes "board_ok b" "mem_map_default b t0 = Inr t" "GetMemPtr b dst 32 = Some pdst" "apart pdst src 32"
  shows "WriteMemBlock_nommu_sq b t dst src m = sq_loop t dst src 8 0 m"
proof -
  note info = default_info [OF assms(1,2)]
  have "(32 :: u32) \<le> ram_size (plat_settings b)"
    using platform_sizes(1) [OF assms(1)] by (auto simp: MB_def)
  note lin = GetMemPtr_linear [OF assms(1) info assms(3) this]
  have "unat (32 :: u32) \<le> 2 ^ 32" "0 + 4 * 8 \<le> unat (32 :: u32)" by simp_all
  from sq_loop_linear [OF lin(1) this, of src m]
  have "sq_loop t dst src 8 0 m = Inr (m\<lparr>host := host_words pdst src 8 0 (host m)\<rparr>)" by (simp add: lin(2))
  moreover have "host_memcpy pdst src 32 (host m) = host_words pdst src 8 0 (host m)"
    by (rule host_memcpy_is_host_words) (use assms(4) in simp_all)
  ultimately show ?thesis using assms(3) by (simp add: WriteMemBlock_nommu_sq_def)
qed

lemma example_run: "\<exists>t. mem_map_default example_board example_map = Inr (t :: nat machine mem_map)"
  using mem_map_run [OF example_board_ok, of example_map] by auto

lemma example_mask: "ram_mask (plat_settings example_board) = 0xFFFFFF" "ram_size (plat_settings example_board) = 0x1000000"
  by (simp_all add: example_board_def setPlatform_def Let_def MB_def)

theorem sq_shortcut_agrees_witness:
  "\<exists>t. mem_map_default example_board example_map = Inr (t :: nat machine mem_map)
     \<and> WriteMemBlock_nommu_sq example_board t 0x8C000020 0x40000000 \<lparr>host = \<lambda>_. 7, dev = 0\<rparr>
       = sq_loop t 0x8C000020 0x40000000 8 0 \<lparr>host = \<lambda>_. 7, dev = 0\<rparr>"
proof -
  obtain t :: "nat machine mem_map" where t: "mem_map_default example_board example_map = Inr t"
    using example_run by blast
  have "GetMemPtr (example_board :: nat machine board) 0x8C000020 32 = Some 0x20000020"
    by (simp add: GetMemPtr_def Let_def example_mask drop_bit_eq_div) (simp add: example_board_def)
  moreover have "apart 0x20000020 0x40000000 32" by (rule apartI) simp_all
  ultimately show ?thesis using t sq_shortcut_agrees [OF example_board_ok t] by blast
qed

text \<open>The block copy of a DMA between two ranges of mapped memory, done by one \<open>memcpy\<close>, is the loop of
  32-bit loads and stores it replaces, when each range stays in its block and the two are apart in the
  host: the caller sees the same memory on both paths.\<close>

theorem dma_copy_agrees:
  assumes "linear_range t bd kd dst (unat sz)" "linear_range t bs ks src (unat sz)" "0 < sz" "4 dvd unat sz"
    and "apart (bd + ucast (dst AND mask kd)) (bs + ucast (src AND mask ks)) (unat sz)"
  shows "WriteMemBlock_nommu_dma t dst src sz m = lift_access (word_loop t dst src (unat sz div 4) 0 m)"
proof -
  define n where "n = unat sz div 4"
  have n: "unat sz = 4 * n" using assms(4) by (simp add: n_def)
  have pg: "block_page t bd kd dst" "block_page t bs ks src"
    using assms(1-3) by (auto simp: linear_range_def word_less_nat_alt)
  have "unat sz \<le> 2 ^ 32" "0 + 4 * n \<le> unat sz" using unsigned_less [of sz, where 'a = nat] n by simp_all
  from word_loop_linear [OF assms(1,2) this, of m]
  have "word_loop t dst src n 0 m = Inr (m\<lparr>host := host_words (bd + ucast (dst AND mask kd))
      (bs + ucast (src AND mask ks)) n 0 (host m)\<rparr>)" by simp
  then show ?thesis
    using host_memcpy_is_host_words [OF assms(5) n, of "host m"]
    by (simp add: WriteMemBlock_nommu_dma_def Const_block [OF pg(1)] Const_block [OF pg(2)] lift_access_def flip: n_def)
qed

lemma linear_example:
  "linear_range example_tables 0x1000 24 0x0C000000 (unat (0x20 :: u32))"
  "linear_range example_tables 0x1000 24 0x0D000040 (unat (0x20 :: u32))"
  by (rule linear_page; simp add: block_page_def page_entry_def example_tables_def drop_bit_eq_div mask_eq_exp_minus_1)+

theorem dma_copy_agrees_witness:
  "WriteMemBlock_nommu_dma example_tables 0x0C000000 0x0D000040 0x20 \<lparr>host = \<lambda>_. 7, dev = (0::nat)\<rparr>
     = lift_access (word_loop example_tables 0x0C000000 0x0D000040 8 0 \<lparr>host = \<lambda>_. 7, dev = 0\<rparr>)"
proof -
  have "apart (0x1000 + ucast (0x0C000000 AND mask 24 :: u32)) (0x1000 + ucast (0x0D000040 AND mask 24 :: u32))
      (unat (0x20 :: u32))"
    by (rule apartI) (simp_all add: mask_eq_exp_minus_1)
  then show ?thesis using dma_copy_agrees [OF linear_example, of "\<lparr>host = \<lambda>_. 7, dev = (0::nat)\<rparr>"] by simp
qed

end
