(* ===== verification/Sh4_Dmac.thy ===== *)
theory Sh4_Dmac
  imports Holly_Intc Mem_Block
begin

section \<open>DMA controllers\<close>

text \<open>
  The DMA controller of the SH4 (\<open>core/hw/sh4/modules/dmac.cpp\<close>): the four channels' registers, the
  transfer a write of a control register starts, and the channel 2 DMA to the PowerVR; the PowerVR and
  sort DMAs of \<open>core/hw/pvr/pvr_sb_regs.cpp\<close>, which use the same copies. The registers
  extend the state of the interrupt controllers and are the devices of the \<open>machine\<close> of \<open>Addr_Space\<close>,
  so that a transfer to a handler page may change them.

  The tile accelerator's input and the 32-bit access path to VRAM belong to the PowerVR: they are the
  argument \<open>pvr\<close>. The loop of the 32-bit path and the sort DMA's walk over lists in memory may run forever:
  their result is \<open>None\<close> when they do. The observation hooks are left out.
\<close>

record dmac_st = holly_st +
  DMAC_SAR :: "nat \<Rightarrow> u32"
  DMAC_DAR :: "nat \<Rightarrow> u32"
  DMAC_DMATCR :: "nat \<Rightarrow> u32"
  DMAC_CHCR :: "nat \<Rightarrow> u32"
  DMAC_DMAOR :: u32
  SB_C2DSTAT :: u32
  SB_C2DLEN :: u32
  SB_C2DST :: u32
  SB_LMMODE0 :: u32
  SB_LMMODE1 :: u32
  SB_PDSTAP :: u32
  SB_PDSTAR :: u32
  SB_PDLEN :: u32
  SB_PDDIR :: u32
  SB_PDST :: u32
  SB_SDSTAW :: u32
  SB_SDBAAW :: u32
  SB_SDWLT :: u32
  SB_SDLAS :: u32
  SB_SDST :: u32
  SB_SDDIV :: u32

definition upd_dev :: "('d \<Rightarrow> 'd) \<Rightarrow> 'd machine \<Rightarrow> 'd machine" where
  "upd_dev f m = m\<lparr>dev := f (dev m)\<rparr>"

subsection \<open>Control register fields\<close>

definition chcr_DE :: "u32 \<Rightarrow> bool" where "chcr_DE v = bit v 0"
definition chcr_TE :: "u32 \<Rightarrow> bool" where "chcr_TE v = bit v 1"
definition chcr_IE :: "u32 \<Rightarrow> bool" where "chcr_IE v = bit v 2"
definition chcr_TS :: "u32 \<Rightarrow> u32" where "chcr_TS v = get_field 4 3 v"
definition chcr_RS :: "u32 \<Rightarrow> u32" where "chcr_RS v = get_field 8 4 v"
definition chcr_SM :: "u32 \<Rightarrow> u32" where "chcr_SM v = get_field 12 2 v"
definition chcr_DM :: "u32 \<Rightarrow> u32" where "chcr_DM v = get_field 14 2 v"

definition set_chcr :: "nat \<Rightarrow> u32 \<Rightarrow> 'z dmac_st_scheme \<Rightarrow> 'z dmac_st_scheme" where
  "set_chcr ch v s = s\<lparr>DMAC_CHCR := (DMAC_CHCR s)(ch := v)\<rparr>"

definition set_TE :: "nat \<Rightarrow> 'z dmac_st_scheme \<Rightarrow> 'z dmac_st_scheme" where
  "set_TE ch s = set_chcr ch (set_bit 1 (DMAC_CHCR s ch)) s"

definition dmac_itr :: "nat \<Rightarrow> nat" where "dmac_itr ch = [5, 6, 7, 8] ! ch"

subsection \<open>Manual transfers\<close>

definition move8 :: "('d machine, 'z) tables_scheme \<Rightarrow> u32 \<Rightarrow> u32 \<Rightarrow> 'd machine \<Rightarrow> as_error + 'd machine" where
  "move8 t src dst m = sum_bind (read8 t src m) (\<lambda>(data, m). write8 t dst data m)"

definition move16 :: "('d machine, 'z) tables_scheme \<Rightarrow> u32 \<Rightarrow> u32 \<Rightarrow> 'd machine \<Rightarrow> as_error + 'd machine" where
  "move16 t src dst m = sum_bind (read16 t src m) (\<lambda>(data, m). write16 t dst data m)"

definition move32 :: "('d machine, 'z) tables_scheme \<Rightarrow> u32 \<Rightarrow> u32 \<Rightarrow> 'd machine \<Rightarrow> as_error + 'd machine" where
  "move32 t src dst m = sum_bind (read32 t src m) (\<lambda>(data, m). write32 t dst data m)"

definition move64 :: "('d machine, 'z) tables_scheme \<Rightarrow> u32 \<Rightarrow> u32 \<Rightarrow> 'd machine \<Rightarrow> as_error + 'd machine" where
  "move64 t src dst m = sum_bind (read64 t src m) (\<lambda>(data, m). write64 t dst data m)"

text \<open>The loop \<open>for (; len != 0; len--)\<close>, with \<open>len\<close> as a natural number.\<close>

primrec move_loop :: "(u32 \<Rightarrow> u32 \<Rightarrow> 'm \<Rightarrow> as_error + 'm) \<Rightarrow> u32 \<Rightarrow> u32 \<Rightarrow> nat \<Rightarrow> u32 \<Rightarrow> u32 \<Rightarrow> 'm
    \<Rightarrow> as_error + u32 \<times> u32 \<times> 'm" where
  "move_loop mv srcIncr dstIncr 0 src dst m = Inr (src, dst, m)"
| "move_loop mv srcIncr dstIncr (Suc len) src dst m =
     sum_bind (mv src dst m) (move_loop mv srcIncr dstIncr len (src + srcIncr) (dst + dstIncr))"

definition mode_incr :: "u32 \<Rightarrow> u32" where
  "mode_incr mode = (if mode = 1 then 1 else if mode = 2 then - 1 else 0)"

definition dmac_transfer :: "('d machine, 'z) tables_scheme \<Rightarrow> u32 \<Rightarrow> u32 \<Rightarrow> u32 \<Rightarrow> u32 \<Rightarrow> u32 \<Rightarrow> u32 \<Rightarrow> 'd machine
    \<Rightarrow> as_error + u32 \<times> u32 \<times> 'd machine" where
  "dmac_transfer t TS srcIncr dstIncr src dst len m =
     (if TS = 0 then move_loop (move64 t) (srcIncr * 8) (dstIncr * 8) (unat len) src dst m
      else if TS = 1 then move_loop (move8 t) srcIncr dstIncr (unat len) src dst m
      else if TS = 2 then move_loop (move16 t) (srcIncr * 2) (dstIncr * 2) (unat len) src dst m
      else let len = (if TS = 4 then len * 8 else len)
           in move_loop (move32 t) (srcIncr * 4) (dstIncr * 4) (unat len) src dst m)"

definition finish_channel :: "nat \<Rightarrow> u32 \<Rightarrow> u32 \<Rightarrow> 'z dmac_st_scheme \<Rightarrow> 'z dmac_st_scheme" where
  "finish_channel ch src dst s =
     (let s = set_TE ch s
      in s\<lparr>DMAC_SAR := (DMAC_SAR s)(ch := src), DMAC_DAR := (DMAC_DAR s)(ch := dst),
           DMAC_DMATCR := (DMAC_DMATCR s)(ch := 0)\<rparr>)"

definition drive_dmte :: "nat \<Rightarrow> 'z dmac_st_scheme \<Rightarrow> 'z dmac_st_scheme" where
  "drive_dmte ch s =
     (let s = InterruptPend (dmac_itr ch) (chcr_TE (DMAC_CHCR s ch)) s
      in InterruptMask (dmac_itr ch) (chcr_IE (DMAC_CHCR s ch)) s)"

text \<open>The writable bits: channels 2 and 3 have no \<open>AL\<close> or \<open>RL\<close>.\<close>

definition chcr_mask :: "nat \<Rightarrow> u32 \<Rightarrow> u32" where
  "chcr_mask ch data = (if ch = 0 \<or> ch = 1 then data AND 0xff0ffff7 else data AND 0xff0afff7)"

definition WriteCHCR :: "nat \<Rightarrow> ('z dmac_st_scheme machine, 'y) tables_scheme \<Rightarrow> u32 \<Rightarrow> 'z dmac_st_scheme machine
    \<Rightarrow> as_error + 'z dmac_st_scheme machine" where
  "WriteCHCR ch t data m =
     (let chcr = chcr_mask ch data;
          m = upd_dev (set_chcr ch chcr) m; s = dev m
      in if \<not> chcr_TE chcr \<and> chcr_DE chcr \<and> bit (DMAC_DMAOR s) 0
         then sum_bind
                (if chcr_RS chcr = 4
                 then sum_bind (dmac_transfer t (chcr_TS chcr) (mode_incr (chcr_SM chcr)) (mode_incr (chcr_DM chcr))
                                  (DMAC_SAR s ch) (DMAC_DAR s ch) (DMAC_DMATCR s ch) m)
                        (\<lambda>(src, dst, m). Inr (upd_dev (finish_channel ch src dst) m))
                 else Inr m)
                (\<lambda>m. Inr (upd_dev (drive_dmte ch) m))
         else Inr m)"

subsection \<open>The register bank\<close>

definition dmac_reg_write :: "('z dmac_st_scheme machine, 'y) tables_scheme \<Rightarrow> u32 \<Rightarrow> u32 \<Rightarrow> 'z dmac_st_scheme machine
    \<Rightarrow> as_error + 'z dmac_st_scheme machine" where
  "dmac_reg_write t addr data m =
     (let index = unat (addr AND 0xFF) div 4; ch = index div 4
      in if 17 \<le> index then Inr m
         else if addr AND 3 \<noteq> 0 then Inr m
         else if index = 16 then Inr (upd_dev (\<lambda>s. s\<lparr>DMAC_DMAOR := data AND 0x8307\<rparr>) m)
         else if index mod 4 = 0 then Inr (upd_dev (\<lambda>s. s\<lparr>DMAC_SAR := (DMAC_SAR s)(ch := data)\<rparr>) m)
         else if index mod 4 = 1 then Inr (upd_dev (\<lambda>s. s\<lparr>DMAC_DAR := (DMAC_DAR s)(ch := data)\<rparr>) m)
         else if index mod 4 = 2
         then Inr (upd_dev (\<lambda>s. s\<lparr>DMAC_DMATCR := (DMAC_DMATCR s)(ch := data AND 0x00ffffff)\<rparr>) m)
         else WriteCHCR ch t data m)"

definition dmac_reg_read :: "u32 \<Rightarrow> 'z dmac_st_scheme \<Rightarrow> u32" where
  "dmac_reg_read addr s =
     (let index = unat (addr AND 0xFF) div 4; ch = index div 4
      in if 17 \<le> index then 0
         else if addr AND 3 \<noteq> 0 then 0
         else if index = 16 then DMAC_DMAOR s
         else if index mod 4 = 0 then DMAC_SAR s ch
         else if index mod 4 = 1 then DMAC_DAR s ch
         else if index mod 4 = 2 then DMAC_DMATCR s ch
         else DMAC_CHCR s ch)"

definition dmac_reset :: "'z dmac_st_scheme \<Rightarrow> 'z dmac_st_scheme" where
  "dmac_reset s = s\<lparr>DMAC_SAR := \<lambda>_. 0, DMAC_DAR := \<lambda>_. 0, DMAC_DMATCR := \<lambda>_. 0, DMAC_CHCR := \<lambda>_. 0, DMAC_DMAOR := 0\<rparr>"

subsection \<open>The DMAs of the PowerVR\<close>

record 'm pvr_ops =
  TAWrite :: "u32 \<Rightarrow> u64 option \<Rightarrow> u32 \<Rightarrow> u32 \<Rightarrow> 'm \<Rightarrow> 'm"
  pvr_write32p :: "u32 \<Rightarrow> u32 \<Rightarrow> 'm \<Rightarrow> 'm"
  ta_vtx_data :: "u64 \<Rightarrow> u32 \<Rightarrow> 'm \<Rightarrow> 'm"

definition holly_PVR_DMA :: u32 where "holly_PVR_DMA = 0x0000 OR 11"

definition holly_PVR_SortDMA :: u32 where "holly_PVR_SortDMA = 0x0000 OR 20"

definition DMAOR_MASK :: u32 where "DMAOR_MASK = 0xFFFF8201"

text \<open>The tile accelerator path: two calls when the source wraps at the end of memory.\<close>

definition ch2_ta :: "'d machine board \<Rightarrow> 'd machine pvr_ops \<Rightarrow> u32 \<Rightarrow> u32 \<Rightarrow> u32 \<Rightarrow> 'd machine \<Rightarrow> 'd machine" where
  "ch2_ta b pvr dst src len m =
     (let s = plat_settings b;
          (len, src, m) =
            (if ram_size s < (src AND ram_mask s) + len
             then let newLen = ram_size s - (src AND ram_mask s)
                  in (len - newLen, src + newLen, TAWrite pvr dst (GetMemPtr b src newLen) (newLen div 32) src m)
             else (len, src, m))
      in TAWrite pvr dst (GetMemPtr b src len) (len div 32) src m)"

text \<open>The 64-bit path to texture memory; returns the last \<open>dst\<close>.\<close>

definition ch2_tex64 :: "'d machine board \<Rightarrow> ('d machine, 'z) tables_scheme \<Rightarrow> u32 \<Rightarrow> u32 \<Rightarrow> u32 \<Rightarrow> 'd machine
    \<Rightarrow> copy_error + u32 \<times> 'd machine" where
  "ch2_tex64 b t dst src len m =
     (let s = plat_settings b; dst = (dst AND 0x00FFFFFF) OR 0xa4000000
      in sum_bind
           (if ram_size s < (src AND ram_mask s) + len
            then let newLen = ram_size s - (src AND ram_mask s)
                 in sum_bind (WriteMemBlock_nommu_dma t dst src newLen m)
                      (\<lambda>m. Inr (len - newLen, src + newLen, dst + newLen, m))
            else Inr (len, src, dst, m))
           (\<lambda>(len, src, dst, m). sum_bind (WriteMemBlock_nommu_dma t dst src len m)
              (\<lambda>m. Inr (dst + len, m))))"

partial_function (option) ch2_tex32 ::
  "('d machine, 'z) tables_scheme \<Rightarrow> 'd machine pvr_ops \<Rightarrow> u32 \<Rightarrow> u32 \<Rightarrow> u32 \<Rightarrow> 'd machine
    \<Rightarrow> (copy_error + u32 \<times> 'd machine) option" where
  "ch2_tex32 t pvr dst src len m =
     (if 0 < len
      then case read32 t src m of
             Inl e \<Rightarrow> Some (Inl (Access e))
           | Inr vm \<Rightarrow> ch2_tex32 t pvr (dst + 4) (src + 4) (len - 4) (pvr_write32p pvr dst (fst vm) (snd vm))
      else Some (Inr (dst, m)))"

definition ch2_finish :: "'z dmac_st_scheme \<Rightarrow> 'z dmac_st_scheme" where
  "ch2_finish s =
     (let s = set_TE 2 s; s = s\<lparr>DMAC_DMATCR := (DMAC_DMATCR s)(2 := 0)\<rparr>;
          s = s\<lparr>SB_C2DST := 0, SB_C2DLEN := 0\<rparr>
      in asic_RaiseInterrupt holly_CH2_DMA s)"

definition DMAC_Ch2St ::
  "'z dmac_st_scheme machine board \<Rightarrow> ('z dmac_st_scheme machine, 'y) tables_scheme
    \<Rightarrow> 'z dmac_st_scheme machine pvr_ops \<Rightarrow> 'z dmac_st_scheme machine
    \<Rightarrow> (copy_error + 'z dmac_st_scheme machine) option" where
  "DMAC_Ch2St b t pvr m =
     (let s = dev m; dmaor = DMAC_DMAOR s;
          src = DMAC_SAR s 2 AND 0x1fffffe0; dst = SB_C2DSTAT s AND 0x01ffffe0; len = SB_C2DLEN s
      in if 0x8201 \<noteq> dmaor AND DMAOR_MASK then Some (Inr m)
         else if drop_bit 26 src \<noteq> 3
         then Some (Inr (upd_dev (\<lambda>s. asic_RaiseInterrupt holly_CH2_DMA (s\<lparr>DMAC_DMAOR := set_bit 2 (DMAC_DMAOR s)\<rparr>)) m))
         else if dst AND 0x01000000 = 0 then Some (Inr (upd_dev ch2_finish (ch2_ta b pvr dst src len m)))
         else let path64b = (if SB_C2DSTAT s AND 0x02000000 \<noteq> 0 then SB_LMMODE1 s = 0 else SB_LMMODE0 s = 0)
              in map_option (\<lambda>r. sum_bind r (\<lambda>(dst, m). Inr (upd_dev (\<lambda>s. ch2_finish (s\<lparr>SB_C2DSTAT := dst\<rparr>)) m)))
                   (if path64b then Some (ch2_tex64 b t dst src len m)
                    else ch2_tex32 t pvr ((dst AND 0xFFFFFF) OR 0xa5000000) src len m))"

definition RegWrite_SB_C2DST ::
  "'z dmac_st_scheme machine board \<Rightarrow> ('z dmac_st_scheme machine, 'y) tables_scheme
    \<Rightarrow> 'z dmac_st_scheme machine pvr_ops \<Rightarrow> u32 \<Rightarrow> 'z dmac_st_scheme machine
    \<Rightarrow> (copy_error + 'z dmac_st_scheme machine) option" where
  "RegWrite_SB_C2DST b t pvr data m =
     (if data AND 1 \<noteq> 0 then DMAC_Ch2St b t pvr (upd_dev (\<lambda>s. s\<lparr>SB_C2DST := 1\<rparr>) m) else Some (Inr m))"

definition do_pvr_dma :: "('z dmac_st_scheme machine, 'y) tables_scheme \<Rightarrow> 'z dmac_st_scheme machine
    \<Rightarrow> copy_error + 'z dmac_st_scheme machine" where
  "do_pvr_dma t m =
     (let s = dev m; src = SB_PDSTAR s; dst = SB_PDSTAP s; len = SB_PDLEN s
      in if 0x8201 \<noteq> DMAC_DMAOR s AND DMAOR_MASK then Inr m
         else sum_bind (if SB_PDDIR s \<noteq> 0 then WriteMemBlock_nommu_dma t src dst len m
                        else WriteMemBlock_nommu_dma t dst src len m)
                (\<lambda>m. Inr (upd_dev (\<lambda>s.
                   let s = set_TE 0 (s\<lparr>DMAC_SAR := (DMAC_SAR s)(0 := src + len)\<rparr>);
                       s = s\<lparr>DMAC_DMATCR := (DMAC_DMATCR s)(0 := 0), SB_PDST := 0\<rparr>
                   in asic_RaiseInterrupt holly_PVR_DMA s) m)))"

definition RegWrite_SB_PDST :: "('z dmac_st_scheme machine, 'y) tables_scheme \<Rightarrow> u32 \<Rightarrow> 'z dmac_st_scheme machine
    \<Rightarrow> copy_error + 'z dmac_st_scheme machine" where
  "RegWrite_SB_PDST t data m =
     (if data AND 1 \<noteq> 0 then do_pvr_dma t (upd_dev (\<lambda>s. s\<lparr>SB_PDST := 1\<rparr>) m) else Inr m)"

subsection \<open>The sort DMA\<close>

text \<open>The start link address of list \<open>SB_SDDIV\<close>, which moves on to the next list.\<close>

definition calculate_start_link_addr :: "'m board \<Rightarrow> 'z dmac_st_scheme machine \<Rightarrow> u32 \<times> 'z dmac_st_scheme machine" where
  "calculate_start_link_addr b m =
     (let s = dev m; base = mem_b_ptr b + ucast (SB_SDSTAW s AND ram_mask (plat_settings b));
          rv = (if SB_SDWLT s = 0 then ucast (host_load (host m) (base + 2 * ucast (SB_SDDIV s)) 2)
                else ucast (host_load (host m) (base + 4 * ucast (SB_SDDIV s)) 4))
      in (rv, upd_dev (\<lambda>s. s\<lparr>SB_SDDIV := SB_SDDIV s + 1\<rparr>) m))"

text \<open>One round of the loop: the next link address and the machine.\<close>

definition sort_round :: "'m board \<Rightarrow> 'z dmac_st_scheme machine pvr_ops \<Rightarrow> u32 \<Rightarrow> 'z dmac_st_scheme machine
    \<Rightarrow> u32 \<times> 'z dmac_st_scheme machine" where
  "sort_round b pvr link_addr m =
     (let s = dev m;
          link_addr = (if SB_SDLAS s = 1 then link_addr * 32 else link_addr AND NOT 31);
          ea = (SB_SDBAAW s + link_addr) AND ram_mask (plat_settings b);
          ea_ptr = mem_b_ptr b + ucast ea;
          link_addr = ucast (host_load (host m) (ea_ptr + 0x1C) 4);
          m = ta_vtx_data pvr ea_ptr (ucast (host_load (host m) (ea_ptr + 0x18) 4)) m
      in if link_addr = 1 then calculate_start_link_addr b m else (link_addr, m))"

partial_function (option) sort_loop :: "'m board \<Rightarrow> 'z dmac_st_scheme machine pvr_ops \<Rightarrow> u32
    \<Rightarrow> 'z dmac_st_scheme machine \<Rightarrow> 'z dmac_st_scheme machine option" where
  "sort_loop b pvr link_addr m =
     (if link_addr \<noteq> 2
      then sort_loop b pvr (fst (sort_round b pvr link_addr m)) (snd (sort_round b pvr link_addr m))
      else Some m)"

definition pvr_do_sort_dma :: "'m board \<Rightarrow> 'z dmac_st_scheme machine pvr_ops \<Rightarrow> 'z dmac_st_scheme machine
    \<Rightarrow> 'z dmac_st_scheme machine option" where
  "pvr_do_sort_dma b pvr m =
     (let (link_addr, m) = calculate_start_link_addr b (upd_dev (\<lambda>s. s\<lparr>SB_SDDIV := 0\<rparr>) m)
      in map_option (upd_dev (\<lambda>s. asic_RaiseInterrupt holly_PVR_SortDMA
                                    (s\<lparr>SB_SDST := 0, SB_SDSTAW := SB_SDSTAW s + 32\<rparr>)))
           (sort_loop b pvr link_addr m))"

definition RegWrite_SB_SDST :: "'m board \<Rightarrow> 'z dmac_st_scheme machine pvr_ops \<Rightarrow> u32 \<Rightarrow> 'z dmac_st_scheme machine
    \<Rightarrow> 'z dmac_st_scheme machine option" where
  "RegWrite_SB_SDST b pvr data m = (if data AND 1 \<noteq> 0 then pvr_do_sort_dma b pvr m else Some m)"

subsection \<open>The registers and the interrupt lines\<close>

text \<open>The interrupt controller does not depend on the registers a device adds to its state.\<close>

lemma intc_frame:
  assumes "INTC_IPRA s' = INTC_IPRA s" "INTC_IPRB s' = INTC_IPRB s" "INTC_IPRC s' = INTC_IPRC s"
    "InterruptEnvId s' = InterruptEnvId s" "InterruptBit s' = InterruptBit s"
    "InterruptLevelBit s' = InterruptLevelBit s" "interrupt_vpend s' = interrupt_vpend s"
    "interrupt_vmask s' = interrupt_vmask s" "decoded_srimask s' = decoded_srimask s"
    "interrupt_pend s' = interrupt_pend s" "sr s' = sr s"
  shows "intc_inv s' = intc_inv s" "raised s' = raised s" "enabled s' = enabled s"
proof -
  have "levels s' = levels s" using GetPrLvl_cong [OF assms(1-3)] by (rule levels_cong)
  then show "intc_inv s' = intc_inv s" by (simp add: intc_inv_def table_ok_def synced_def assms(4-11))
  show "raised s' = raised s" "enabled s' = enabled s"
    by (simp_all add: raised_def enabled_def fun_eq_iff assms(4-11))
qed

lemma dmac_updates [simp]:
  "intc_inv (set_chcr ch v s) = intc_inv s" "raised (set_chcr ch v s) = raised s" "enabled (set_chcr ch v s) = enabled s"
  by (rule intc_frame; simp add: set_chcr_def)+

lemma dmac_finish [simp]:
  "intc_inv (finish_channel ch src dst s) = intc_inv s" "raised (finish_channel ch src dst s) = raised s"
  "enabled (finish_channel ch src dst s) = enabled s"
  by (rule intc_frame; simp add: finish_channel_def set_TE_def set_chcr_def Let_def)+

lemma InterruptMask_frame:
  obtains P Q where "InterruptMask i v s = s\<lparr>interrupt_vmask := P, interrupt_pend := Q\<rparr>"
  by (cases v) (auto simp: InterruptMask_def SetInterruptMask_def ResetInterruptMask_def recalc_pending_itrs_def)

lemma dmac_regs_lines [simp]:
  "DMAC_SAR (InterruptPend i v s) = DMAC_SAR s" "DMAC_DAR (InterruptPend i v s) = DMAC_DAR s"
  "DMAC_DMATCR (InterruptPend i v s) = DMAC_DMATCR s" "DMAC_CHCR (InterruptPend i v s) = DMAC_CHCR s"
  "DMAC_SAR (InterruptMask i v s) = DMAC_SAR s" "DMAC_DAR (InterruptMask i v s) = DMAC_DAR s"
  "DMAC_DMATCR (InterruptMask i v s) = DMAC_DMATCR s" "DMAC_CHCR (InterruptMask i v s) = DMAC_CHCR s"
  by (rule InterruptPend_frame [of i v s], simp)+ (rule InterruptMask_frame [of i v s], simp)+

lemma drive_dmte_regs [simp]:
  "DMAC_SAR (drive_dmte ch s) = DMAC_SAR s" "DMAC_DAR (drive_dmte ch s) = DMAC_DAR s"
  "DMAC_DMATCR (drive_dmte ch s) = DMAC_DMATCR s" "DMAC_CHCR (drive_dmte ch s) = DMAC_CHCR s"
  by (simp_all add: drive_dmte_def Let_def)

lemma dmac_itr_line: "ch < 4 \<Longrightarrow> dmac_itr ch < 28"
  by (auto simp: dmac_itr_def less_Suc_eq numeral_eq_Suc)

lemma drive_dmte_lines:
  assumes "intc_inv s" "ch < 4"
  shows "intc_inv (drive_dmte ch s)" "raised (drive_dmte ch s) (dmac_itr ch) = chcr_TE (DMAC_CHCR s ch)"
    "enabled (drive_dmte ch s) (dmac_itr ch) = chcr_IE (DMAC_CHCR s ch)"
proof -
  note i = dmac_itr_line [OF assms(2)]
  have inv: "intc_inv (InterruptPend (dmac_itr ch) v s)" "raised (InterruptPend (dmac_itr ch) v s) (dmac_itr ch) = v" for v
    using intc.ok_drive [OF assms(1)] intc.level_same [OF assms(1)] i by (simp_all add: sh4_INT_ID_COUNT_def)
  note M = InterruptMask_lines [OF inv(1) i]
  show "intc_inv (drive_dmte ch s)" "raised (drive_dmte ch s) (dmac_itr ch) = chcr_TE (DMAC_CHCR s ch)"
    "enabled (drive_dmte ch s) (dmac_itr ch) = chcr_IE (DMAC_CHCR s ch)"
    using M(1) M(2) [OF i] M(3) [OF i] inv by (simp_all add: drive_dmte_def Let_def)
qed

lemma finish_channel_regs [simp]:
  "DMAC_SAR (finish_channel ch src dst s) ch = src" "DMAC_DAR (finish_channel ch src dst s) ch = dst"
  "DMAC_DMATCR (finish_channel ch src dst s) ch = 0" "chcr_TE (DMAC_CHCR (finish_channel ch src dst s) ch)"
  "chcr_IE (DMAC_CHCR (finish_channel ch src dst s) ch) = chcr_IE (DMAC_CHCR s ch)"
  by (simp_all add: finish_channel_def set_TE_def set_chcr_def Let_def chcr_TE_def chcr_IE_def bit_set_bit_iff)

lemma upd_dev_simps [simp]:
  "host (upd_dev f m) = host m" "dev (upd_dev f m) = f (dev m)"
  by (simp_all add: upd_dev_def)

subsection \<open>Transfers between mapped memories\<close>

lemma load_fits:
  "8 * n \<le> LENGTH('w::len) \<Longrightarrow> ucast (ucast (host_load h p n) :: 'w word) = host_load h p n"
  by (rule bit_word_eqI) (auto simp: bit_simps bit_host_load)

definition move_of :: "nat \<Rightarrow> ('d machine, 'z) tables_scheme \<Rightarrow> u32 \<Rightarrow> u32 \<Rightarrow> 'd machine \<Rightarrow> as_error + 'd machine" where
  "move_of e t = (if e = 8 then move64 t else if e = 1 then move8 t else if e = 2 then move16 t else move32 t)"

lemma move_linear:
  assumes "linear_range t bd kd dst N" "linear_range t bs ks src N" "i < N" "e \<in> {1, 2, 4, 8}"
  shows "move_of e t (src + of_nat i) (dst + of_nat i) m = Inr (m\<lparr>host :=
    host_store (bd + ucast (dst AND mask kd) + of_nat i) e
      (host_load (host m) (bs + ucast (src AND mask ks) + of_nat i) e) (host m)\<rparr>)"
proof -
  have d: "block_page t bd kd (dst + of_nat i)"
    "ucast ((dst + of_nat i) AND mask kd) = (ucast (dst AND mask kd) + of_nat i :: u64)"
    and s: "block_page t bs ks (src + of_nat i)"
    "ucast ((src + of_nat i) AND mask ks) = (ucast (src AND mask ks) + of_nat i :: u64)"
    using assms(1-3) by (auto simp: linear_range_def)
  consider "e = 1" | "e = 2" | "e = 4" | "e = 8" using assms(4) by blast
  then show ?thesis
    by cases (simp_all add: move_of_def move8_def move16_def move32_def move64_def read8_def read16_def read32_def
        read64_def write8_def write16_def write32_def write64_def narrow_def readt_block [OF s(1)] writet_block [OF d(1)]
        d(2) s(2) load_fits add.assoc del: host_load.simps)
qed

text \<open>The guest range of \<open>n\<close> bytes at \<open>a\<close> lies at \<open>p\<close> in the host.\<close>

definition placed :: "('m, 'z) tables_scheme \<Rightarrow> u64 \<Rightarrow> u32 \<Rightarrow> nat \<Rightarrow> bool" where
  "placed t p a n \<longleftrightarrow> (\<exists>base k. linear_range t base k a n \<and> p = base + ucast (a AND mask k))"

lemma placedI: "linear_range t base k a n \<Longrightarrow> placed t (base + ucast (a AND mask k)) a n"
  by (auto simp: placed_def)

text \<open>What the transfer loops rely on: a move of an element between two ranges that lie somewhere in the host is
  a load and a store there, and does nothing else.\<close>

locale element_moves =
  fixes mv :: "nat \<Rightarrow> u32 \<Rightarrow> u32 \<Rightarrow> 'm \<Rightarrow> as_error + 'm"
    and mem :: "'m \<Rightarrow> u64 \<Rightarrow> u8" and set_mem :: "(u64 \<Rightarrow> u8) \<Rightarrow> 'm \<Rightarrow> 'm"
    and lies :: "u64 \<Rightarrow> u32 \<Rightarrow> nat \<Rightarrow> bool"
  assumes mv_copies: "lies d dst N \<Longrightarrow> lies s src N \<Longrightarrow> i < N \<Longrightarrow> e \<in> {1, 2, 4, 8} \<Longrightarrow>
      mv e (src + of_nat i) (dst + of_nat i) m
        = Inr (set_mem (host_store (d + of_nat i) e (host_load (mem m) (s + of_nat i) e) (mem m)) m)"
    and mem_set [simp]: "mem (set_mem h m) = h"
    and set_set [simp]: "set_mem h (set_mem h' m) = set_mem h m"
    and set_mem_id [simp]: "set_mem (mem m) m = m"
begin

lemma loop_copies_from:
  assumes "lies d dst N" "lies s src N" "e \<in> {1, 2, 4, 8}"
  shows "i + e * n \<le> N \<Longrightarrow> move_loop (mv e) (of_nat e) (of_nat e) n (src + of_nat i) (dst + of_nat i) m
    = Inr (src + of_nat (i + e * n), dst + of_nat (i + e * n), set_mem (host_elems e d s n i (mem m)) m)"
proof (induction n arbitrary: i m)
  case (Suc n)
  have e: "0 < e" using assms(3) by auto
  then have i: "i < N" "(i + e) + e * n \<le> N" using Suc.prems by simp_all
  have step: "move_loop (mv e) (of_nat e) (of_nat e) n (src + of_nat i + of_nat e) (dst + of_nat i + of_nat e) m'
      = move_loop (mv e) (of_nat e) (of_nat e) n (src + of_nat (i + e)) (dst + of_nat (i + e)) m'" for m'
    by (simp add: add.assoc)
  show ?case
    using Suc.IH [OF i(2)] by (simp add: mv_copies [OF assms(1,2) i(1) assms(3)] step algebra_simps)
qed simp

lemma loop_copies:
  assumes "lies d dst (e * n)" "lies s src (e * n)" "e \<in> {1, 2, 4, 8}"
  shows "move_loop (mv e) (of_nat e) (of_nat e) n src dst m
    = Inr (src + of_nat (e * n), dst + of_nat (e * n), set_mem (host_elems e d s n 0 (mem m)) m)"
  using loop_copies_from [OF assms, of 0 n m] by simp

lemma loop_moves_block:
  assumes "lies d dst (e * n)" "lies s src (e * n)" "e \<in> {1, 2, 4, 8}" "apart d s (e * n)" "e * n \<le> 2 ^ 32"
  shows "\<exists>m'. move_loop (mv e) (of_nat e) (of_nat e) n src dst m = Inr (src + of_nat (e * n), dst + of_nat (e * n), m')
    \<and> (\<forall>q. mem m' q = (if unat (q - d) < e * n then mem m (s + (q - d)) else mem m q))"
proof -
  have "e \<le> 8" using assms(3) by auto
  then show ?thesis
    using loop_copies [OF assms(1-3), of m] host_elems_spec [OF assms(4,5), of e 0 n "mem m"] by simp
qed

end

interpretation moves: element_moves "\<lambda>e. move_of e t" host "\<lambda>h m. m\<lparr>host := h\<rparr>" "placed t"
  for t :: "('d machine, 'z) tables_scheme"
  by unfold_locales (auto simp: placed_def move_linear)

text \<open>The element size and the bytes of one unit of a transfer size.\<close>

definition elem_bytes :: "u32 \<Rightarrow> nat" where
  "elem_bytes TS = (if TS = 0 then 8 else if TS = 1 then 1 else if TS = 2 then 2 else 4)"

definition unit_bytes :: "u32 \<Rightarrow> nat" where
  "unit_bytes TS = (if TS = 0 then 8 else if TS = 1 then 1 else if TS = 2 then 2 else if TS = 4 then 32 else 4)"

lemma transfer_linear:
  assumes "linear_range t bd kd dst N" "linear_range t bs ks src N" "N = unit_bytes TS * unat len" "unat len < 2 ^ 24"
  shows "dmac_transfer t TS 1 1 src dst len m = Inr (src + of_nat N, dst + of_nat N, m\<lparr>host :=
    host_elems (elem_bytes TS) (bd + ucast (dst AND mask kd)) (bs + ucast (src AND mask ks)) (N div elem_bytes TS) 0 (host m)\<rparr>)"
proof -
  have e: "elem_bytes TS \<in> {1, 2, 4, 8}" "0 < elem_bytes TS" by (simp_all add: elem_bytes_def)
  have dv: "elem_bytes TS dvd unit_bytes TS" by (simp add: elem_bytes_def unit_bytes_def)
  then have n: "elem_bytes TS * (N div elem_bytes TS) = N" by (simp add: assms(3))
  have l8: "unat (len * 8) = 8 * unat len" using assms(4) by (simp add: unat_word_ariths(2))
  have "dmac_transfer t TS 1 1 src dst len m
      = move_loop (move_of (elem_bytes TS) t) (of_nat (elem_bytes TS)) (of_nat (elem_bytes TS)) (N div elem_bytes TS) src dst m"
    by (simp add: dmac_transfer_def Let_def elem_bytes_def unit_bytes_def move_of_def assms(3) l8)
  also have "\<dots> = Inr (src + of_nat N, dst + of_nat N, m\<lparr>host :=
    host_elems (elem_bytes TS) (bd + ucast (dst AND mask kd)) (bs + ucast (src AND mask ks)) (N div elem_bytes TS) 0 (host m)\<rparr>)"
    using moves.loop_copies [of t _ dst "elem_bytes TS" "N div elem_bytes TS" _ src, OF _ _ e(1)] placedI [OF assms(1)] placedI [OF assms(2)] n
    by simp
  finally show ?thesis .
qed

text \<open>C4: a manual transfer with both addresses incremented, started by a write of a channel's control register,
  copies the block for each transfer size: \<open>DMATCR\<close> units go from the source range to the
  destination range and no other byte changes, when the ranges lie in mapped memory and do not overlap. Afterwards
  both address registers are past their range, \<open>DMATCR\<close> is 0, \<open>TE\<close> is set, the channel's interrupt line
  is raised, and enabled as \<open>IE\<close> says. A count of 0 transfers nothing.\<close>

theorem dma_transfer_copies:
  fixes m :: "'z dmac_st_scheme machine"
  defines "s \<equiv> dev m"
  assumes "intc_inv s" "ch < 4" "chcr = chcr_mask ch data" "\<not> chcr_TE chcr" "chcr_DE chcr" "bit (DMAC_DMAOR s) 0"
    and "chcr_RS chcr = 4" "chcr_SM chcr = 1" "chcr_DM chcr = 1"
    and "unat (DMAC_DMATCR s ch) < 2 ^ 24" "N = unit_bytes (chcr_TS chcr) * unat (DMAC_DMATCR s ch)"
    and "linear_range t bd kd (DMAC_DAR s ch) N" "linear_range t bs ks (DMAC_SAR s ch) N"
    and "D = bd + ucast (DMAC_DAR s ch AND mask kd)" "S = bs + ucast (DMAC_SAR s ch AND mask ks)" "apart D S N"
  shows "\<exists>m'. WriteCHCR ch t data m = Inr m'
    \<and> (\<forall>q. host m' q = (if unat (q - D) < N then host m (S + (q - D)) else host m q))
    \<and> DMAC_SAR (dev m') ch = DMAC_SAR s ch + of_nat N \<and> DMAC_DAR (dev m') ch = DMAC_DAR s ch + of_nat N
    \<and> DMAC_DMATCR (dev m') ch = 0 \<and> chcr_TE (DMAC_CHCR (dev m') ch)
    \<and> raised (dev m') (dmac_itr ch) \<and> enabled (dev m') (dmac_itr ch) = chcr_IE chcr"
proof -
  let ?TS = "chcr_TS chcr"
  define m1 where "m1 = upd_dev (set_chcr ch chcr) m"
  define h where "h = host_elems (elem_bytes ?TS) D S (N div elem_bytes ?TS) 0 (host m)"
  define m2 where "m2 = m1\<lparr>host := h\<rparr>"
  define m3 where "m3 = upd_dev (finish_channel ch (DMAC_SAR s ch + of_nat N) (DMAC_DAR s ch + of_nat N)) m2"
  have regs: "DMAC_SAR (dev m1) = DMAC_SAR s" "DMAC_DAR (dev m1) = DMAC_DAR s" "DMAC_DMATCR (dev m1) = DMAC_DMATCR s"
    "DMAC_DMAOR (dev m1) = DMAC_DMAOR s" "host m1 = host m" by (simp_all add: m1_def set_chcr_def s_def)
  have regs': "DMAC_SAR (set_chcr ch chcr (dev m)) = DMAC_SAR s" "DMAC_DAR (set_chcr ch chcr (dev m)) = DMAC_DAR s"
    "DMAC_DMATCR (set_chcr ch chcr (dev m)) = DMAC_DMATCR s" "DMAC_DMAOR (set_chcr ch chcr (dev m)) = DMAC_DMAOR s"
    by (simp_all add: set_chcr_def s_def)
  have "dmac_transfer t ?TS 1 1 (DMAC_SAR s ch) (DMAC_DAR s ch) (DMAC_DMATCR s ch) m1
      = Inr (DMAC_SAR s ch + of_nat N, DMAC_DAR s ch + of_nat N, m2)"
    using transfer_linear [OF assms(13,14,12,11), of m1] by (simp add: m2_def h_def assms(15,16) regs(5))
  then have run: "WriteCHCR ch t data m = Inr (upd_dev (drive_dmte ch) m3)"
    using assms(5-10) by (simp add: WriteCHCR_def Let_def mode_incr_def regs regs' m3_def
        flip: assms(4) m1_def del: sum_bind_Inr)
  have "dev m2 = set_chcr ch chcr s" by (simp add: m2_def m1_def s_def)
  then have d3: "dev m3 = finish_channel ch (DMAC_SAR s ch + of_nat N) (DMAC_DAR s ch + of_nat N) (set_chcr ch chcr s)"
    by (simp add: m3_def)
  have inv: "intc_inv (dev m3)" using assms(2) by (simp add: d3)
  have ie: "chcr_IE (DMAC_CHCR (dev m3) ch) = chcr_IE chcr" by (simp add: d3) (simp add: set_chcr_def)
  have e: "elem_bytes ?TS \<le> 8" "elem_bytes ?TS dvd N" by (simp_all add: elem_bytes_def unit_bytes_def assms(12))
  have "(32::nat) * unat (DMAC_DMATCR s ch) \<le> 2 ^ 32" using assms(11) by simp
  then have "N \<le> 2 ^ 32" unfolding assms(12) by (simp add: unit_bytes_def)
  then have "h q = (if unat (q - D) < N then host m (S + (q - D)) else host m q)" for q
    using host_elems_spec [OF assms(17) _ e(1), of 0 "N div elem_bytes ?TS" "host m" q] e(2) by (simp add: h_def)
  moreover have "host (upd_dev (drive_dmte ch) m3) = h" by (simp add: m3_def m2_def)
  ultimately show ?thesis
    using run drive_dmte_lines [OF inv assms(3)] ie by (simp add: d3)
qed

subsection \<open>Channel 2\<close>

text \<open>No host byte belongs both to VRAM and to main memory.\<close>

definition memories_apart :: "'m board \<Rightarrow> bool" where
  "memories_apart b \<longleftrightarrow> (\<forall>i < 2 ^ vram_bits (plat_settings b). \<forall>j < 2 ^ ram_bits (plat_settings b).
     vram_ptr b + of_nat i \<noteq> mem_b_ptr b + of_nat j)"

lemma vram_page:
  assumes "board_ok b" "memInfo_ptr t = final_info b" "drop_bit 24 addr = 0xA4"
  shows "block_page t (vram_ptr b) (vram_bits (plat_settings b)) addr"
proof -
  have "memInfo_ptr t 0xA4 = entry_of (vram_ptr b) (vram_bits (plat_settings b))"
    using final_info_val [of "0xA4" b] by (simp add: assms(2) seg_val_def)
  then show ?thesis
    using board_aligned(1) [OF assms(1)]
    by (simp add: block_page_def page_entry_def assms(3) host_aligned_def entry_of_def vram_bits_def)
qed

lemma dma_memcpy:
  "block_page t bd kd dst \<Longrightarrow> block_page t bs ks src \<Longrightarrow> WriteMemBlock_nommu_dma t dst src sz m
     = Inr (m\<lparr>host := host_memcpy (bd + ucast (dst AND mask kd)) (bs + ucast (src AND mask ks)) sz (host m)\<rparr>)"
  by (simp add: WriteMemBlock_nommu_dma_def Const_block)

text \<open>The bytes a channel 2 DMA puts into texture memory: \<open>len\<close> bytes of main memory from offset \<open>o\<close>
  on, wrapped at its end, at the host address \<open>D\<close>.\<close>

definition ring_copy :: "u64 \<Rightarrow> u64 \<Rightarrow> nat \<Rightarrow> nat \<Rightarrow> nat \<Rightarrow> (u64 \<Rightarrow> u8) \<Rightarrow> u64 \<Rightarrow> u8" where
  "ring_copy D R k o' len h = (\<lambda>q. if unat (q - D) < len then h (R + of_nat ((o' + unat (q - D)) mod 2 ^ k)) else h q)"

lemma host_memcpy_ring:
  assumes "o' + unat len \<le> 2 ^ k" "k \<le> 32" "S = R + of_nat o'"
  shows "host_memcpy D S len h = ring_copy D R k o' (unat len) h"
proof
  fix q
  have "S + (q - D) = R + of_nat (o' + unat (q - D))" by (simp add: assms(3) add.assoc)
  then show "host_memcpy D S len h q = ring_copy D R k o' (unat len) h q"
    using assms(1) unfolding host_memcpy_def ring_copy_def assms(3)
    by (cases "unat (q - D) < unat len") (simp_all add: add.assoc)
qed

text \<open>Two pieces, the second from the start of memory.\<close>

lemma host_memcpy_ring_wrapped:
  assumes "o' + unat n1 = 2 ^ k" "unat n2 \<le> 2 ^ k" "k \<le> 25" "unat n1 + unat n2 \<le> 2 ^ kv" "kv \<le> 24"
    and apart: "\<And>i j. i < unat n1 \<Longrightarrow> j < 2 ^ k \<Longrightarrow> D + of_nat i \<noteq> R + of_nat j"
  shows "host_memcpy (D + ucast n1) R n2 (host_memcpy D (R + of_nat o') n1 h) = ring_copy D R k o' (unat n1 + unat n2) h"
proof
  fix q
  let ?x = "unat (q - D)"
  have big: "(2::nat) ^ k \<le> 2 ^ 25" "(2::nat) ^ kv \<le> 2 ^ 24"
    using power_increasing [OF assms(3), of "2::nat"] power_increasing [OF assms(5), of "2::nat"] by simp_all
  have u1: "unat (ucast n1 :: u64) = unat n1" by (rule unat_ucast64)
  have win: "unat (q - (D + ucast n1)) < unat n2 \<longleftrightarrow> unat n1 \<le> ?x \<and> ?x < unat n1 + unat n2"
    and off: "unat n1 \<le> ?x \<Longrightarrow> unat (q - (D + ucast n1)) = ?x - unat n1"
  proof -
    have e: "q - (D + ucast n1) = (q - D) - ucast n1" by simp
    have lt: "?x < 2 ^ 64" using unsigned_less [of "q - D", where 'a = nat] by simp
    show "unat (q - (D + ucast n1)) < unat n2 \<longleftrightarrow> unat n1 \<le> ?x \<and> ?x < unat n1 + unat n2"
      unfolding e using lt u1 assms(4) big by (auto simp: unat_sub_if_size word_size)
    show "unat n1 \<le> ?x \<Longrightarrow> unat (q - (D + ucast n1)) = ?x - unat n1"
      unfolding e using u1 by (simp add: unat_sub_if_size)
  qed
  have src: "host_memcpy D (R + of_nat o') n1 h (R + of_nat j) = h (R + of_nat j)" if "j < 2 ^ k" for j
  proof -
    have "\<not> unat (R + of_nat j - D) < unat n1"
    proof
      assume "unat (R + of_nat j - D) < unat n1"
      then have "D + of_nat (unat (R + of_nat j - D)) \<noteq> R + of_nat j" using that by (rule apart)
      then show False by simp
    qed
    then show ?thesis by (simp add: host_memcpy_def)
  qed
  consider "?x < unat n1" | "unat n1 \<le> ?x" "?x < unat n1 + unat n2" | "unat n1 + unat n2 \<le> ?x" by linarith
  then show "host_memcpy (D + ucast n1) R n2 (host_memcpy D (R + of_nat o') n1 h) q = ring_copy D R k o' (unat n1 + unat n2) h q"
  proof cases
    case 1
    with win assms(1) show ?thesis by (simp add: ring_copy_def) (simp add: host_memcpy_def win add.assoc)
  next
    case 2
    have "R + (q - (D + ucast n1)) = R + of_nat (?x - unat n1)" unfolding off [OF 2(1), symmetric] by simp
    moreover have "?x - unat n1 < 2 ^ k" using 2 assms(2) by linarith
    moreover have "(o' + ?x) mod 2 ^ k = ?x - unat n1"
    proof -
      have "o' + ?x = 2 ^ k + (?x - unat n1)" using 2(1) assms(1) by linarith
      then show ?thesis using \<open>?x - unat n1 < 2 ^ k\<close> by simp
    qed
    moreover have "host_memcpy (D + ucast n1) R n2 H q = H (R + (q - (D + ucast n1)))" for H :: "u64 \<Rightarrow> u8"
      using 2 win by (simp only: host_memcpy_def if_True simp_thms)
    moreover have "ring_copy D R k o' (unat n1 + unat n2) h q = h (R + of_nat ((o' + ?x) mod 2 ^ k))"
      using 2 by (simp only: ring_copy_def if_True)
    ultimately show ?thesis using src [of "?x - unat n1"] by (simp only:)
  next
    case 3
    then show ?thesis using win by (simp add: ring_copy_def host_memcpy_def)
  qed
qed

definition tex_addr :: "u32 \<Rightarrow> u32" where
  "tex_addr dst = (dst AND 0x00FFFFFF) OR 0xa4000000"

lemma tex_addr_page: "drop_bit 24 (tex_addr dst) = 0xA4"
proof -
  have m: "(0x00FFFFFF :: u32) = mask 24" by (simp add: mask_eq_exp_minus_1)
  have "drop_bit 24 (dst AND mask 24) = 0" by (rule bit_word_eqI) (auto simp: bit_simps)
  then show ?thesis unfolding tex_addr_def m drop_bit_or by (simp add: drop_bit_eq_div)
qed

lemma tex_addr_offset:
  assumes "k \<le> 24"
  shows "tex_addr dst AND mask k = dst AND mask k"
proof -
  define c :: u32 where "c = 0xa4000000"
  have c: "c = push_bit 24 0xA4" by (simp add: c_def push_bit_eq_mult)
  have nb: "bit c i \<Longrightarrow> 24 \<le> i" for i unfolding c bit_push_bit_iff by blast
  have m: "(0x00FFFFFF :: u32) = mask 24" by (simp add: mask_eq_exp_minus_1)
  show ?thesis
    unfolding tex_addr_def m c_def [symmetric] using assms by (intro bit_word_eqI) (auto simp: bit_simps dest: nb)
qed

lemma unat_and_mask: "unat ((x :: u32) AND mask k) = unat x mod 2 ^ k"
  by (simp only: unsigned_take_bit_eq take_bit_eq_mod [of k "unat x"] flip: take_bit_eq_mask)

lemma ch2_tex64_ring:
  fixes b :: "'d machine board" and t :: "('d machine, 'z) tables_scheme"
  defines "st \<equiv> plat_settings b"
  assumes ok: "board_ok b" "memInfo_ptr t = final_info b" "memories_apart b"
    and src: "drop_bit 26 src AND 7 = 3" and len: "len \<le> ram_size st"
    and room: "unat (dst AND vram_mask st) + unat len \<le> 2 ^ vram_bits st"
    and wrap: "ram_size st < (src AND ram_mask st) + len \<Longrightarrow>
      drop_bit 26 (src + (ram_size st - (src AND ram_mask st))) AND 7 = 3"
  shows "ch2_tex64 b t dst src len m = Inr (tex_addr dst + len, m\<lparr>host :=
    ring_copy (vram_ptr b + ucast (dst AND vram_mask st)) (mem_b_ptr b) (ram_bits st)
      (unat (src AND ram_mask st)) (unat len) (host m)\<rparr>)"
proof -
  let ?k = "ram_bits st" and ?kv = "vram_bits st"
  let ?D = "vram_ptr b + ucast (dst AND vram_mask st)"
  note sizes = platform_sizes [OF ok(1), folded st_def]
  have k: "?k \<le> 25" "?k \<le> 32" "?kv \<le> 24" "?kv \<le> 32" by (simp_all add: ram_bits_def vram_bits_def)
  have rs: "unat (ram_size st) = 2 ^ ?k" using sizes(1) by (auto simp: MB_def)
  have big: "(2::nat) ^ ?k \<le> 2 ^ 25" "(2::nat) ^ ?kv \<le> 2 ^ 24"
    using power_increasing [OF k(1), of "2::nat"] power_increasing [OF k(3), of "2::nat"] by simp_all
  define o' where "o' = src AND ram_mask st"
  have o: "unat o' < 2 ^ ?k"
    unfolding o'_def sizes(2) using k(2)
    by (simp only: unsigned_take_bit_eq take_bit_nat_less_exp flip: take_bit_eq_mask)
  have len': "unat len \<le> 2 ^ ?k" using len rs by (simp add: word_le_nat_alt)
  have sum: "unat (o' + len) = unat o' + unat len" using o len' big by (simp add: unat_word_ariths(1))
  have off: "tex_addr dst AND mask ?kv = dst AND vram_mask st"
    unfolding sizes(4) by (rule tex_addr_offset [OF k(3)])
  have vp: "block_page t (vram_ptr b) ?kv (tex_addr dst)"
    unfolding st_def by (rule vram_page [OF ok(1,2) tex_addr_page])
  have rp: "block_page t (mem_b_ptr b) ?k src" unfolding st_def by (rule ram_page [OF ok(1,2) src])
  have o_mask: "o' = src AND mask ?k" by (simp add: o'_def sizes(2))
  have def: "ch2_tex64 b t dst src len m =
      sum_bind (if ram_size st < o' + len
                then sum_bind (WriteMemBlock_nommu_dma t (tex_addr dst) src (ram_size st - o') m)
                       (\<lambda>m. Inr (len - (ram_size st - o'), src + (ram_size st - o'), tex_addr dst + (ram_size st - o'), m))
                else Inr (len, src, tex_addr dst, m))
        (\<lambda>(len, src, dst, m). sum_bind (WriteMemBlock_nommu_dma t dst src len m) (\<lambda>m. Inr (dst + len, m)))"
    by (simp only: ch2_tex64_def Let_def tex_addr_def o'_def st_def)
  show ?thesis
  proof (cases "ram_size st < o' + len")
    case False
    then have "unat o' + unat len \<le> 2 ^ ?k" using sum rs by (simp add: word_less_nat_alt)
    then have "host_memcpy ?D (mem_b_ptr b + ucast o') len (host m)
        = ring_copy ?D (mem_b_ptr b) ?k (unat o') (unat len) (host m)"
      by (rule host_memcpy_ring [OF _ k(2)]) (simp add: word_unat_eq_iff unat_ucast64)
    then show ?thesis
      unfolding def using False
      by (simp only: if_False sum_bind.simps split_conv dma_memcpy [OF vp rp] off o_mask [symmetric] o'_def [symmetric])
  next
    case True
    define n1 where "n1 = ram_size st - o'"
    have n1: "unat n1 = 2 ^ ?k - unat o'" "unat o' + unat n1 = 2 ^ ?k"
      using o rs by (simp_all add: n1_def unat_sub_if_size)
    have lt: "unat n1 < unat len" using True sum rs n1 o by (simp add: word_less_nat_alt)
    have n2: "unat (len - n1) = unat len - unat n1" using lt by (simp add: unat_sub_if_size)
    have nc: "unat (tex_addr dst AND mask ?kv) + unat n1 < 2 ^ ?kv" using room lt off by simp
    have n1': "of_nat (unat n1) = n1" by simp
    have "drop_bit 24 x = drop_bit (24 - ?kv) (drop_bit ?kv x)" for x :: u32 using k(3) by simp
    then have "drop_bit 24 (tex_addr dst + n1) = 0xA4"
      using no_carry(2) [OF k(4) nc] tex_addr_page [of dst] unfolding n1' by metis
    then have vp2: "block_page t (vram_ptr b) ?kv (tex_addr dst + n1)"
      unfolding st_def by (rule vram_page [OF ok(1,2)])
    have off2: "ucast ((tex_addr dst + n1) AND mask ?kv) = (ucast (dst AND vram_mask st) + ucast n1 :: u64)"
      using ucast_no_carry [OF k(4) nc] unfolding n1' off by (simp add: word_unat_eq_iff unat_ucast64)
    have rp2: "block_page t (mem_b_ptr b) ?k (src + n1)"
      using ram_page [OF ok(1,2)] wrap True unfolding st_def o'_def n1_def by blast
    have "unat (src + n1) = (unat src + unat n1) mod 2 ^ 32" using unat_word_ariths(1) [of src n1] by simp
    moreover have "(2::nat) ^ ?k dvd 2 ^ 32" using k(2) by (rule le_imp_power_dvd)
    ultimately have "unat (src + n1) mod 2 ^ ?k = (unat src + unat n1) mod 2 ^ ?k" by (simp only: mod_mod_cancel)
    also have "\<dots> = (unat src mod 2 ^ ?k + unat n1) mod 2 ^ ?k" by (simp only: mod_add_left_eq)
    also have "unat src mod 2 ^ ?k = unat o'" by (simp only: o_mask unat_and_mask)
    also have "(unat o' + unat n1) mod 2 ^ ?k = 0" by (simp only: n1(2) mod_self)
    finally have "unat ((src + n1) AND mask ?k) = 0" by (simp only: unat_and_mask)
    then have z: "(src + n1) AND mask ?k = 0" by (simp add: word_unat_eq_iff)
    have "host_memcpy (?D + ucast n1) (mem_b_ptr b) (len - n1) (host_memcpy ?D (mem_b_ptr b + of_nat (unat o')) n1 (host m))
        = ring_copy ?D (mem_b_ptr b) ?k (unat o') (unat n1 + unat (len - n1)) (host m)"
    proof (rule host_memcpy_ring_wrapped [OF n1(2) _ k(1) _ k(3)])
      show "unat (len - n1) \<le> 2 ^ ?k" using n2 len' by linarith
      show "unat n1 + unat (len - n1) \<le> 2 ^ ?kv" using n2 lt room by linarith
      show "?D + of_nat i \<noteq> mem_b_ptr b + of_nat j" if "i < unat n1" "j < 2 ^ ?k" for i j
      proof -
        have "unat (dst AND vram_mask st) + i < 2 ^ ?kv" using that(1) lt room by linarith
        then have "vram_ptr b + of_nat (unat (dst AND vram_mask st) + i) \<noteq> mem_b_ptr b + of_nat j"
          using ok(3) that(2) unfolding memories_apart_def st_def by blast
        moreover have "ucast (dst AND vram_mask st) = (of_nat (unat (dst AND vram_mask st)) :: u64)"
          by (simp add: word_unat_eq_iff unat_ucast64)
        ultimately show ?thesis by (simp only: add.assoc of_nat_add not_False_eq_True)
      qed
    qed
    moreover have "ucast o' = (of_nat (unat o') :: u64)" by (simp add: word_unat_eq_iff unat_ucast64)
    ultimately have cp: "host_memcpy (vram_ptr b + (ucast (dst AND vram_mask st) + ucast n1)) (mem_b_ptr b) (len - n1)
        (host_memcpy ?D (mem_b_ptr b + ucast o') n1 (host m)) = ring_copy ?D (mem_b_ptr b) ?k (unat o') (unat len) (host m)"
      using n2 lt by (simp only: add.assoc le_add_diff_inverse less_imp_le)
    have hst: "host (m\<lparr>host := h\<rparr>) = h" "m\<lparr>host := h\<rparr>\<lparr>host := h'\<rparr> = m\<lparr>host := h'\<rparr>" for h h' by simp_all
    have z64: "R + ucast (0 :: u32) = (R :: u64)" for R by simp
    have sum2: "tex_addr dst + n1 + (len - n1) = tex_addr dst + len" by simp
    have ou: "src AND ram_mask st = o'" by (simp only: o'_def)
    show ?thesis
      unfolding def ou using True
      by (simp only: if_True sum_bind.simps split_conv n1_def [symmetric] dma_memcpy [OF vp rp] dma_memcpy [OF vp2 rp2]
          off off2 z z64 o_mask [symmetric] hst cp sum2)
  qed
qed

subsection \<open>The end of a DMA\<close>

lemma dmac_regs_asic [simp]:
  "DMAC_SAR (asic_RaiseInterrupt n s) = DMAC_SAR s" "DMAC_DAR (asic_RaiseInterrupt n s) = DMAC_DAR s"
  "DMAC_DMATCR (asic_RaiseInterrupt n s) = DMAC_DMATCR s" "DMAC_CHCR (asic_RaiseInterrupt n s) = DMAC_CHCR s"
  "DMAC_DMAOR (asic_RaiseInterrupt n s) = DMAC_DMAOR s" "SB_C2DSTAT (asic_RaiseInterrupt n s) = SB_C2DSTAT s"
  "SB_C2DLEN (asic_RaiseInterrupt n s) = SB_C2DLEN s" "SB_C2DST (asic_RaiseInterrupt n s) = SB_C2DST s"
proof -
  have P: "DMAC_DMAOR (InterruptPend i v s) = DMAC_DMAOR s" "SB_C2DSTAT (InterruptPend i v s) = SB_C2DSTAT s"
    "SB_C2DLEN (InterruptPend i v s) = SB_C2DLEN s" "SB_C2DST (InterruptPend i v s) = SB_C2DST s"
    for i v and s :: "'a dmac_st_scheme"
    by (rule InterruptPend_frame [of i v s], simp)+
  show "DMAC_SAR (asic_RaiseInterrupt n s) = DMAC_SAR s" "DMAC_DAR (asic_RaiseInterrupt n s) = DMAC_DAR s"
    "DMAC_DMATCR (asic_RaiseInterrupt n s) = DMAC_DMATCR s" "DMAC_CHCR (asic_RaiseInterrupt n s) = DMAC_CHCR s"
    "DMAC_DMAOR (asic_RaiseInterrupt n s) = DMAC_DMAOR s" "SB_C2DSTAT (asic_RaiseInterrupt n s) = SB_C2DSTAT s"
    "SB_C2DLEN (asic_RaiseInterrupt n s) = SB_C2DLEN s" "SB_C2DST (asic_RaiseInterrupt n s) = SB_C2DST s"
    by (simp_all add: asic_RaiseInterrupt_def Let_def asic_Pending_def asic_RL6Pending_def asic_RL4Pending_def
        asic_RL2Pending_def P)
qed

lemma holly_CH2_bit: "holly_type holly_CH2_DMA = 0" "holly_mask holly_CH2_DMA = push_bit 19 1"
  by (simp_all add: holly_type_def holly_mask_def holly_CH2_DMA_def)

lemma raise_CH2_status: "bit (SB_ISTNRM (asic_RaiseInterrupt holly_CH2_DMA s)) 19"
  by (simp add: asic_RaiseInterrupt_def Let_def asic_Pending_def asic_RL6Pending_def asic_RL4Pending_def
      asic_RL2Pending_def holly_CH2_bit bit_or_iff del: push_bit_of_1) (simp add: bit_simps)

lemma ch2_finish_spec:
  assumes "intc_inv s"
  shows "holly_inv (ch2_finish s)" "SB_C2DLEN (ch2_finish s) = 0" "SB_C2DST (ch2_finish s) = 0"
    "SB_C2DSTAT (ch2_finish s) = SB_C2DSTAT s" "chcr_TE (DMAC_CHCR (ch2_finish s) 2)"
    "DMAC_DMATCR (ch2_finish s) 2 = 0" "bit (SB_ISTNRM (ch2_finish s)) 19"
proof -
  let ?s = "let s = set_TE 2 s; s = s\<lparr>DMAC_DMATCR := (DMAC_DMATCR s)(2 := 0)\<rparr> in s\<lparr>SB_C2DST := 0, SB_C2DLEN := 0\<rparr>"
  have "intc_inv ?s = intc_inv s" by (rule intc_frame) (simp_all add: set_TE_def set_chcr_def Let_def)
  then show "holly_inv (ch2_finish s)" using asic_ops_inv(1) [of ?s] assms by (simp add: ch2_finish_def Let_def)
  show "SB_C2DLEN (ch2_finish s) = 0" "SB_C2DST (ch2_finish s) = 0" "SB_C2DSTAT (ch2_finish s) = SB_C2DSTAT s"
    "chcr_TE (DMAC_CHCR (ch2_finish s) 2)" "DMAC_DMATCR (ch2_finish s) 2 = 0" "bit (SB_ISTNRM (ch2_finish s)) 19"
    by (simp_all add: ch2_finish_def Let_def set_TE_def set_chcr_def chcr_TE_def bit_set_bit_iff raise_CH2_status)
qed

text \<open>C3: a channel 2 DMA to texture memory over the 64-bit path puts \<open>SB_C2DLEN\<close> bytes of main memory,
  from the offset of the source address on and wrapped at the end of memory, at the destination's offset in VRAM, and
  changes no other byte; it ends with the destination register past the block, the length, start and
  count registers cleared, \<open>TE\<close> set, its bit set in the status register, and the interrupt lines of the system bus
  following their registers. The block must fit VRAM, and a wrapped source must not leave area 3.\<close>

theorem ch2_texture_dma:
  fixes m :: "'z dmac_st_scheme machine"
  defines "s \<equiv> dev m"
  assumes "board_ok b" "mem_map_default b t0 = Inr t" "memories_apart b" "intc_inv s"
    and "DMAC_DMAOR s AND DMAOR_MASK = 0x8201" "src = DMAC_SAR s 2 AND 0x1fffffe0" "drop_bit 26 src = 3"
    and "dst = SB_C2DSTAT s AND 0x01ffffe0" "dst AND 0x01000000 \<noteq> 0"
    and "SB_LMMODE0 s = 0" "SB_LMMODE1 s = 0" "SB_C2DLEN s \<le> ram_size (plat_settings b)"
    and "unat (dst AND vram_mask (plat_settings b)) + unat (SB_C2DLEN s) \<le> 2 ^ vram_bits (plat_settings b)"
    and "ram_size (plat_settings b) < (src AND ram_mask (plat_settings b)) + SB_C2DLEN s
      \<Longrightarrow> drop_bit 26 (src + (ram_size (plat_settings b) - (src AND ram_mask (plat_settings b)))) = 3"
  shows "\<exists>m'. DMAC_Ch2St b t pvr m = Some (Inr m')
    \<and> host m' = ring_copy (vram_ptr b + ucast (dst AND vram_mask (plat_settings b))) (mem_b_ptr b)
        (ram_bits (plat_settings b)) (unat (src AND ram_mask (plat_settings b))) (unat (SB_C2DLEN s)) (host m)
    \<and> SB_C2DSTAT (dev m') = tex_addr dst + SB_C2DLEN s \<and> SB_C2DLEN (dev m') = 0 \<and> SB_C2DST (dev m') = 0
    \<and> DMAC_DMATCR (dev m') 2 = 0 \<and> chcr_TE (DMAC_CHCR (dev m') 2)
    \<and> bit (SB_ISTNRM (dev m')) 19 \<and> holly_inv (dev m')"
proof -
  let ?st = "plat_settings b"
  note info = default_info [OF assms(2,3)]
  define h where "h = ring_copy (vram_ptr b + ucast (dst AND vram_mask ?st)) (mem_b_ptr b) (ram_bits ?st)
      (unat (src AND ram_mask ?st)) (unat (SB_C2DLEN s)) (host m)"
  define m1 where "m1 = m\<lparr>host := h\<rparr>"
  have "drop_bit 26 src AND 7 = 3" using assms(8) by simp
  moreover have "drop_bit 26 (src + (ram_size ?st - (src AND ram_mask ?st))) AND 7 = 3"
    if "ram_size ?st < (src AND ram_mask ?st) + SB_C2DLEN s" using assms(15) [OF that] by simp
  ultimately have tex: "ch2_tex64 b t dst src (SB_C2DLEN s) m = Inr (tex_addr dst + SB_C2DLEN s, m1)"
    unfolding m1_def h_def by (rule ch2_tex64_ring [OF assms(2) info assms(4) _ assms(13,14)])
  define f where "f = (\<lambda>s :: 'z dmac_st_scheme. ch2_finish (s\<lparr>SB_C2DSTAT := tex_addr dst + SB_C2DLEN (dev m)\<rparr>))"
  have run: "DMAC_Ch2St b t pvr m = Some (Inr (upd_dev f m1))"
    unfolding DMAC_Ch2St_def Let_def
    using assms(6,8,10-12) tex
    by (simp add: f_def flip: s_def assms(7,9) del: sum_bind_Inr)
  have "intc_inv (s\<lparr>SB_C2DSTAT := v\<rparr>) = intc_inv s" for v by (rule intc_frame) simp_all
  then have inv: "intc_inv (s\<lparr>SB_C2DSTAT := v\<rparr>)" for v using assms(5) by simp
  have "dev (upd_dev f m1) = ch2_finish (s\<lparr>SB_C2DSTAT := tex_addr dst + SB_C2DLEN s\<rparr>)"
    by (simp add: f_def m1_def s_def)
  then show ?thesis
    using run ch2_finish_spec [OF inv] by (simp add: m1_def h_def)
qed

subsection \<open>Errors\<close>

text \<open>C27: the 64-bit path does not clip the block to VRAM: when the destination's offset plus the length
  exceeds the size of VRAM (and the source does not wrap), the copy overwrites the host byte that follows
  the VRAM block with a byte of main memory.\<close>

theorem ch2_vram_overflow:
  fixes m :: "'z dmac_st_scheme machine"
  defines "s \<equiv> dev m"
  assumes "board_ok b" "mem_map_default b t0 = Inr t"
    and "DMAC_DMAOR s AND DMAOR_MASK = 0x8201" "src = DMAC_SAR s 2 AND 0x1fffffe0" "drop_bit 26 src = 3"
    and "dst = SB_C2DSTAT s AND 0x01ffffe0" "dst AND 0x01000000 \<noteq> 0" "SB_LMMODE0 s = 0" "SB_LMMODE1 s = 0"
    and "\<not> ram_size (plat_settings b) < (src AND ram_mask (plat_settings b)) + SB_C2DLEN s"
    and "d = unat (dst AND vram_mask (plat_settings b))" "2 ^ vram_bits (plat_settings b) < d + unat (SB_C2DLEN s)"
  shows "\<exists>m'. DMAC_Ch2St b t pvr m = Some (Inr m')
    \<and> host m' (vram_ptr b + of_nat (2 ^ vram_bits (plat_settings b)))
      = host m (mem_b_ptr b + of_nat (unat (src AND ram_mask (plat_settings b)) + (2 ^ vram_bits (plat_settings b) - d)))"
proof -
  let ?st = "plat_settings b"
  let ?kv = "vram_bits ?st" and ?k = "ram_bits ?st"
  note info = default_info [OF assms(2,3)] and sizes = platform_sizes [OF assms(2)]
  have kv: "?kv \<le> 24" by (simp add: vram_bits_def)
  have "drop_bit 26 src AND 7 = 3" using assms(6) by simp
  note pages = vram_page [OF assms(2) info tex_addr_page [of dst]] ram_page [OF assms(2) info this]
  define h where "h = host_memcpy (vram_ptr b + ucast (dst AND vram_mask ?st)) (mem_b_ptr b + ucast (src AND ram_mask ?st))
      (SB_C2DLEN s) (host m)"
  have "tex_addr dst AND mask ?kv = dst AND vram_mask ?st"
    unfolding sizes(4) by (rule tex_addr_offset [OF kv])
  then have cp: "WriteMemBlock_nommu_dma t (tex_addr dst) src (SB_C2DLEN s) m = Inr (m\<lparr>host := h\<rparr>)"
    using dma_memcpy [OF pages, of "SB_C2DLEN s" m] by (simp only: h_def sizes(2))
  have tex: "ch2_tex64 b t dst src (SB_C2DLEN s) m = Inr (tex_addr dst + SB_C2DLEN s, m\<lparr>host := h\<rparr>)"
    unfolding ch2_tex64_def Let_def tex_addr_def [symmetric] using assms(11)
    by (simp only: if_False sum_bind.simps split_conv cp)
  define f where "f = (\<lambda>s :: 'z dmac_st_scheme. ch2_finish (s\<lparr>SB_C2DSTAT := tex_addr dst + SB_C2DLEN (dev m)\<rparr>))"
  have run: "DMAC_Ch2St b t pvr m = Some (Inr (upd_dev f (m\<lparr>host := h\<rparr>)))"
    unfolding DMAC_Ch2St_def Let_def
    using assms(4,6,8-10) tex by (simp add: f_def flip: s_def assms(5,7) del: sum_bind_Inr)
  have d: "d < 2 ^ ?kv" unfolding assms(12) sizes(4) unat_and_mask by simp
  have "(2::nat) ^ ?kv \<le> 2 ^ 24" using power_increasing [OF kv, of "2::nat"] by simp
  then have u: "unat (of_nat (2 ^ ?kv - d) :: u64) = 2 ^ ?kv - d" by (simp add: unat_of_nat)
  have e: "vram_ptr b + of_nat (2 ^ ?kv) - (vram_ptr b + ucast (dst AND vram_mask ?st)) = of_nat (2 ^ ?kv - d)"
  proof -
    have "ucast (dst AND vram_mask ?st) = (of_nat d :: u64)" by (simp add: word_unat_eq_iff unat_ucast64 assms(12))
    moreover have "(of_nat (2 ^ ?kv) :: u64) = of_nat d + of_nat (2 ^ ?kv - d)" using d by (simp only: of_nat_add [symmetric]) simp
    ultimately show ?thesis by simp
  qed
  have lt: "2 ^ ?kv - d < unat (SB_C2DLEN s)" using assms(13) d by linarith
  have "h (vram_ptr b + of_nat (2 ^ ?kv)) = host m (mem_b_ptr b + ucast (src AND ram_mask ?st) + of_nat (2 ^ ?kv - d))"
    unfolding h_def host_memcpy_def e u using lt by (simp only: if_True)
  moreover have "ucast (src AND ram_mask ?st) = (of_nat (unat (src AND ram_mask ?st)) :: u64)"
    by (simp add: word_unat_eq_iff unat_ucast64)
  ultimately have "h (vram_ptr b + of_nat (2 ^ ?kv)) = host m (mem_b_ptr b + of_nat (unat (src AND ram_mask ?st) + (2 ^ ?kv - d)))"
    by (simp only: of_nat_add add.assoc)
  moreover have "host (upd_dev f (m\<lparr>host := h\<rparr>)) = h" by simp
  ultimately show ?thesis using run by metis
qed

text \<open>C28: a tile accelerator DMA whose source wraps in the last mirror of main memory hands a null pointer to
  \<open>TAWrite\<close>: the code goes on at the address after area 3, for which \<open>GetMemPtr\<close> has no memory.\<close>

theorem ch2_null_source:
  fixes m :: "'z dmac_st_scheme machine"
  defines "s \<equiv> dev m"
  assumes "DMAC_DMAOR s AND DMAOR_MASK = 0x8201" "src = DMAC_SAR s 2 AND 0x1fffffe0" "drop_bit 26 src = 3"
    and "dst = SB_C2DSTAT s AND 0x01ffffe0" "dst AND 0x01000000 = 0" "len = SB_C2DLEN s"
    and "ram_size (plat_settings b) < (src AND ram_mask (plat_settings b)) + len"
    and "newLen = ram_size (plat_settings b) - (src AND ram_mask (plat_settings b))"
    and "drop_bit 26 (src + newLen) AND 7 \<noteq> 3"
  shows "DMAC_Ch2St b t pvr m = Some (Inr (upd_dev ch2_finish
    (TAWrite pvr dst None ((len - newLen) div 32) (src + newLen)
      (TAWrite pvr dst (GetMemPtr b src newLen) (newLen div 32) src m))))"
proof -
  have "GetMemPtr b (src + newLen) (len - newLen) = None" using assms(10) by (simp add: GetMemPtr_def Let_def)
  then have "ch2_ta b pvr dst src len m = TAWrite pvr dst None ((len - newLen) div 32) (src + newLen)
      (TAWrite pvr dst (GetMemPtr b src newLen) (newLen div 32) src m)"
    using assms(8) by (simp add: ch2_ta_def Let_def flip: assms(9))
  then show ?thesis
    using assms(2,4,6) by (simp add: DMAC_Ch2St_def Let_def flip: s_def assms(3,5,7))
qed

text \<open>A write of a control register with \<open>DE\<close> clear stores the register and does nothing else: the
  interrupt request of a finished transfer stays raised when the program acknowledges it by
  clearing \<open>TE\<close>, and \<open>IE\<close> has no effect on the line.\<close>

theorem chcr_acknowledge_keeps_request:
  fixes m :: "'z dmac_st_scheme machine"
  assumes "\<not> chcr_DE (chcr_mask ch data)"
  shows "\<exists>m'. WriteCHCR ch t data m = Inr m' \<and> host m' = host m \<and> DMAC_CHCR (dev m') ch = chcr_mask ch data
    \<and> raised (dev m') = raised (dev m) \<and> enabled (dev m') = enabled (dev m)"
  using assms by (simp add: WriteCHCR_def Let_def set_chcr_def [of ch "chcr_mask ch data" "dev m"])
    (simp add: raised_def enabled_def fun_eq_iff)

subsection \<open>Examples\<close>

text \<open>A machine after reset, with a channel 0 transfer of eight words set up in its registers.\<close>

definition dmac_zero :: dmac_st where
  "dmac_zero = holly_st.extend holly_zero (dmac_st.fields (\<lambda>_. 0x0C000000) (\<lambda>_. 0x0D000040) (\<lambda>_. 8) (\<lambda>_. 0) 0x8201
     0x11000000 0x40 0 0 0 0 0 0 0 0 0 0 0 0 0 0)"

lemma dmac_zero_regs [simp]:
  "DMAC_SAR dmac_zero = (\<lambda>_. 0x0C000000)" "DMAC_DAR dmac_zero = (\<lambda>_. 0x0D000040)"
  "DMAC_DMATCR dmac_zero = (\<lambda>_. 8)" "DMAC_DMAOR dmac_zero = 0x8201" "SB_C2DSTAT dmac_zero = 0x11000000"
  "SB_C2DLEN dmac_zero = 0x40" "SB_LMMODE0 dmac_zero = 0" "SB_LMMODE1 dmac_zero = 0"
  by (simp_all add: dmac_zero_def holly_st.defs dmac_st.defs)

lemma dmac_zero_inv: "intc_inv dmac_zero"
proof -
  have "intc_inv dmac_zero = intc_inv holly_zero"
    by (rule intc_frame) (simp_all add: dmac_zero_def holly_st.defs)
  moreover have "intc_inv holly_zero" using holly_zero_power_on by (simp add: holly_power_on_def)
  ultimately show ?thesis by simp
qed

definition dmac_machine :: "dmac_st \<Rightarrow> dmac_st machine" where
  "dmac_machine s = \<lparr>host = \<lambda>p. ucast p, dev = s\<rparr>"

theorem dma_transfer_copies_witness:
  "\<exists>m'. WriteCHCR 0 example_tables 0x5435 (dmac_machine dmac_zero) = Inr m' \<and> host m' 0x1041 = 1
    \<and> DMAC_DMATCR (dev m') 0 = 0 \<and> raised (dev m') 5 \<and> enabled (dev m') 5"
proof -
  have dev: "dev (dmac_machine dmac_zero) = dmac_zero" "host (dmac_machine dmac_zero) = (\<lambda>p. ucast p)"
    by (simp_all add: dmac_machine_def)
  have chcr: "chcr_mask 0 0x5435 = 0x5435" by (simp add: chcr_mask_def)
  have f: "\<not> chcr_TE 0x5435" "chcr_DE 0x5435" "chcr_IE 0x5435" "chcr_RS 0x5435 = 4" "chcr_SM 0x5435 = 1"
    "chcr_DM 0x5435 = 1" "chcr_TS 0x5435 = 3"
    by (simp_all add: chcr_TE_def chcr_DE_def chcr_IE_def chcr_RS_def chcr_SM_def chcr_DM_def chcr_TS_def get_field_def
        drop_bit_eq_div take_bit_eq_mod)
  have lin: "linear_range example_tables 0x1000 24 0x0D000040 32" "linear_range example_tables 0x1000 24 0x0C000000 32"
    using linear_example by simp_all
  have ap: "apart (0x1000 + ucast (0x0D000040 AND mask 24 :: u32)) (0x1000 + ucast (0x0C000000 AND mask 24 :: u32)) 32"
    by (rule apartI) (simp_all add: mask_eq_exp_minus_1)
  let ?m = "dmac_machine dmac_zero"
  let ?D = "0x1000 + ucast (0x0D000040 AND mask 24 :: u32) :: u64"
  let ?S = "0x1000 + ucast (0x0C000000 AND mask 24 :: u32) :: u64"
  have "\<exists>m'. WriteCHCR 0 example_tables 0x5435 ?m = Inr m'
      \<and> (\<forall>q. host m' q = (if unat (q - ?D) < 32 then host ?m (?S + (q - ?D)) else host ?m q))
      \<and> DMAC_SAR (dev m') 0 = DMAC_SAR (dev ?m) 0 + of_nat 32 \<and> DMAC_DAR (dev m') 0 = DMAC_DAR (dev ?m) 0 + of_nat 32
      \<and> DMAC_DMATCR (dev m') 0 = 0 \<and> chcr_TE (DMAC_CHCR (dev m') 0)
      \<and> raised (dev m') (dmac_itr 0) \<and> enabled (dev m') (dmac_itr 0) = chcr_IE 0x5435"
    by (rule dma_transfer_copies [where bd = "0x1000" and kd = 24 and bs = "0x1000" and ks = 24])
      (simp_all only: dev(1) dmac_zero_regs dmac_zero_inv chcr f lin ap, simp_all add: unit_bytes_def bit_iff_odd)
  then obtain m' where m': "WriteCHCR 0 example_tables 0x5435 ?m = Inr m'"
      "\<forall>q. host m' q = (if unat (q - ?D) < 32 then host ?m (?S + (q - ?D)) else host ?m q)"
      "DMAC_DMATCR (dev m') 0 = 0" "raised (dev m') (dmac_itr 0)" "enabled (dev m') (dmac_itr 0) = chcr_IE 0x5435"
    by blast
  have "host m' 0x1041 = host ?m 0x1001" using m'(2) by (simp add: mask_eq_exp_minus_1)
  then have "host m' 0x1041 = 1" by (simp add: dev)
  moreover have "dmac_itr 0 = 5" by (simp add: dmac_itr_def)
  ultimately show ?thesis using m'(1,3-5) f(3) by metis
qed

definition pvr_nop :: "'m pvr_ops" where
  "pvr_nop = \<lparr>TAWrite = \<lambda>_ _ _ _ m. m, pvr_write32p = \<lambda>_ _ m. m, ta_vtx_data = \<lambda>_ _ m. m\<rparr>"

lemma example_apart: "memories_apart example_board"
  unfolding memories_apart_def
proof (intro allI impI)
  fix i j :: nat
  assume "i < 2 ^ vram_bits (plat_settings (example_board :: 'a board))"
    "j < 2 ^ ram_bits (plat_settings (example_board :: 'a board))"
  then have ij: "i < 2 ^ 23" "j < 2 ^ 24"
    by (simp_all add: vram_bits_def ram_bits_def example_board_def setPlatform_def Let_def MB_def)
  have "unat ((0x10000000 :: u64) + of_nat i) = 0x10000000 + i" "unat ((0x20000000 :: u64) + of_nat j) = 0x20000000 + j"
    using ij by (simp_all add: unat_word_ariths(1) unat_of_nat)
  moreover have "0x10000000 + i \<noteq> 0x20000000 + j" using ij by simp
  ultimately have "(0x10000000 :: u64) + of_nat i \<noteq> 0x20000000 + of_nat j" by auto
  then show "vram_ptr (example_board :: 'a board) + of_nat i \<noteq> mem_b_ptr (example_board :: 'a board) + of_nat j"
    by (simp add: example_board_def)
qed

lemma example_sizes:
  "vram_mask (plat_settings example_board) = 0x7FFFFF" "vram_bits (plat_settings example_board) = 23"
  "ram_bits (plat_settings example_board) = 24" "vram_ptr example_board = 0x10000000" "mem_b_ptr example_board = 0x20000000"
  by (simp_all add: vram_bits_def ram_bits_def example_board_def setPlatform_def Let_def MB_def)

lemma ch2_tex_regs:
  "DMAC_DMAOR dmac_zero AND DMAOR_MASK = 0x8201" "DMAC_SAR dmac_zero 2 AND 0x1fffffe0 = 0x0C000000"
  "SB_C2DSTAT dmac_zero AND 0x01ffffe0 = 0x01000000" "drop_bit 26 (0x0C000000 :: u32) = 3"
  by (simp_all add: DMAOR_MASK_def drop_bit_eq_div)

theorem ch2_texture_dma_witness:
  "\<exists>t m'. mem_map_default example_board example_map = Inr t
     \<and> DMAC_Ch2St example_board t pvr_nop (dmac_machine dmac_zero) = Some (Inr m')
     \<and> host m' 0x10000005 = 5 \<and> SB_C2DLEN (dev m') = 0 \<and> bit (SB_ISTNRM (dev m')) 19"
proof -
  obtain t :: "dmac_st machine mem_map" where t: "mem_map_default example_board example_map = Inr t"
    using mem_map_run [OF example_board_ok, of example_map] by blast
  let ?m = "dmac_machine dmac_zero"
  have dev: "dev ?m = dmac_zero" "host ?m = (\<lambda>p. ucast p)" by (simp_all add: dmac_machine_def)
  let ?b = "example_board :: dmac_st machine board"
  have "\<exists>m'. DMAC_Ch2St ?b t pvr_nop ?m = Some (Inr m')
    \<and> host m' = ring_copy (vram_ptr ?b + ucast (0x01000000 AND vram_mask (plat_settings ?b))) (mem_b_ptr ?b)
        (ram_bits (plat_settings ?b)) (unat (0x0C000000 AND ram_mask (plat_settings ?b))) (unat (SB_C2DLEN (dev ?m))) (host ?m)
    \<and> SB_C2DSTAT (dev m') = tex_addr 0x01000000 + SB_C2DLEN (dev ?m) \<and> SB_C2DLEN (dev m') = 0 \<and> SB_C2DST (dev m') = 0
    \<and> DMAC_DMATCR (dev m') 2 = 0 \<and> chcr_TE (DMAC_CHCR (dev m') 2)
    \<and> bit (SB_ISTNRM (dev m')) 19 \<and> holly_inv (dev m')"
    by (rule ch2_texture_dma [OF example_board_ok t example_apart])
      (simp_all only: dev(1) dmac_zero_inv ch2_tex_regs, simp_all add: example_sizes example_mask)
  then obtain m' where m': "DMAC_Ch2St ?b t pvr_nop ?m = Some (Inr m')" "SB_C2DLEN (dev m') = 0" "bit (SB_ISTNRM (dev m')) 19"
    "host m' = ring_copy (vram_ptr ?b + ucast (0x01000000 AND vram_mask (plat_settings ?b))) (mem_b_ptr ?b)
        (ram_bits (plat_settings ?b)) (unat (0x0C000000 AND ram_mask (plat_settings ?b))) (unat (SB_C2DLEN (dev ?m))) (host ?m)"
    by blast
  have "host m' 0x10000005 = 5" unfolding m'(4) by (simp add: ring_copy_def dev example_sizes example_mask)
  with t m'(1-3) show ?thesis by blast
qed

text \<open>The same with a destination 32 bytes before the end of VRAM, and with a source 32 bytes before the
  end of the last mirror of memory.\<close>

definition dmac_at_vram_end :: dmac_st where
  "dmac_at_vram_end = dmac_zero\<lparr>SB_C2DSTAT := 0x117FFFE0\<rparr>"

definition dmac_at_ram_end :: dmac_st where
  "dmac_at_ram_end = dmac_zero\<lparr>SB_C2DSTAT := 0x10000000, DMAC_SAR := \<lambda>_. 0x0FFFFFE0\<rparr>"

lemma vram_end_regs:
  "DMAC_DMAOR dmac_at_vram_end AND DMAOR_MASK = 0x8201" "DMAC_SAR dmac_at_vram_end 2 AND 0x1fffffe0 = 0x0C000000"
  "SB_C2DSTAT dmac_at_vram_end AND 0x01ffffe0 = 0x017FFFE0" "SB_C2DLEN dmac_at_vram_end = 0x40"
  "SB_LMMODE0 dmac_at_vram_end = 0" "SB_LMMODE1 dmac_at_vram_end = 0"
  by (simp_all add: dmac_at_vram_end_def DMAOR_MASK_def)

theorem ch2_vram_overflow_witness:
  "\<exists>t m'. mem_map_default example_board example_map = Inr t
     \<and> DMAC_Ch2St example_board t pvr_nop (dmac_machine dmac_at_vram_end) = Some (Inr m')
     \<and> host (dmac_machine dmac_at_vram_end) 0x10800000 = 0 \<and> host m' 0x10800000 = 0x20"
proof -
  obtain t :: "dmac_st machine mem_map" where t: "mem_map_default example_board example_map = Inr t"
    using mem_map_run [OF example_board_ok, of example_map] by blast
  let ?m = "dmac_machine dmac_at_vram_end"
  have dev: "dev ?m = dmac_at_vram_end" "host ?m = (\<lambda>p. ucast p)" by (simp_all add: dmac_machine_def)
  let ?b = "example_board :: dmac_st machine board"
  have "\<exists>m'. DMAC_Ch2St ?b t pvr_nop ?m = Some (Inr m')
    \<and> host m' (vram_ptr ?b + of_nat (2 ^ vram_bits (plat_settings ?b)))
      = host ?m (mem_b_ptr ?b + of_nat (unat (0x0C000000 AND ram_mask (plat_settings ?b)) + (2 ^ vram_bits (plat_settings ?b) - 0x7FFFE0)))"
    by (rule ch2_vram_overflow [OF example_board_ok t])
      (simp_all only: dev(1) vram_end_regs ch2_tex_regs(4), simp_all add: example_sizes example_mask)
  then show ?thesis using t by (auto simp: example_sizes example_mask dev)
qed

lemma ram_end_regs:
  "DMAC_DMAOR dmac_at_ram_end AND DMAOR_MASK = 0x8201" "DMAC_SAR dmac_at_ram_end 2 AND 0x1fffffe0 = 0x0FFFFFE0"
  "SB_C2DSTAT dmac_at_ram_end AND 0x01ffffe0 = 0" "SB_C2DLEN dmac_at_ram_end = 0x40"
  by (simp_all add: dmac_at_ram_end_def DMAOR_MASK_def)

theorem ch2_null_source_witness:
  "DMAC_Ch2St example_board (example_tables :: dmac_st machine tables) pvr_nop (dmac_machine dmac_at_ram_end) = Some (Inr (upd_dev ch2_finish
    (TAWrite pvr_nop 0 None 1 0x10000000 (TAWrite pvr_nop 0 (Some 0x20FFFFE0) 1 0x0FFFFFE0 (dmac_machine dmac_at_ram_end)))))"
proof -
  let ?m = "dmac_machine dmac_at_ram_end"
  let ?b = "example_board :: dmac_st machine board"
  have dev: "dev ?m = dmac_at_ram_end" by (simp add: dmac_machine_def)
  have g: "GetMemPtr ?b 0x0FFFFFE0 0x20 = Some 0x20FFFFE0"
    by (simp add: GetMemPtr_def Let_def example_mask example_sizes drop_bit_eq_div)
  have "DMAC_Ch2St ?b (example_tables :: dmac_st machine tables) pvr_nop ?m = Some (Inr (upd_dev ch2_finish
    (TAWrite pvr_nop 0 None ((0x40 - 0x20) div 32) (0x0FFFFFE0 + 0x20)
      (TAWrite pvr_nop 0 (GetMemPtr ?b 0x0FFFFFE0 0x20) (0x20 div 32) 0x0FFFFFE0 ?m))))"
    by (rule ch2_null_source)
      (simp_all only: dev ram_end_regs, simp_all add: example_mask drop_bit_eq_div)
  then show ?thesis by (simp add: g)
qed

subsection \<open>When the sort DMA ends\<close>

definition sort_state :: "'m board \<Rightarrow> 'z dmac_st_scheme machine pvr_ops \<Rightarrow> u32 \<times> 'z dmac_st_scheme machine
    \<Rightarrow> u32 \<times> 'z dmac_st_scheme machine" where
  "sort_state b pvr = (\<lambda>(link_addr, m). sort_round b pvr link_addr m)"

lemma sort_loop_rounds:
  "sort_loop b pvr l m = Some m' \<Longrightarrow> \<exists>n. (sort_state b pvr ^^ n) (l, m) = (2, m')"
proof (induction rule: sort_loop.raw_induct [rotated, consumes 1])
  case (1 sort_loop b pvr l m m')
  show ?case
  proof (cases "l = 2")
    case True
    then show ?thesis using 1 by (intro exI [of _ 0]) simp
  next
    case False
    then obtain n where "(sort_state b pvr ^^ n) (sort_round b pvr l m) = (2, m')"
      using 1 by (metis prod.collapse)
    then have "(sort_state b pvr ^^ Suc n) (l, m) = (2, m')" by (simp only: funpow_Suc_right comp_apply) (simp add: sort_state_def)
    then show ?thesis by blast
  qed
qed

lemma sort_loop_returns:
  "fst ((sort_state b pvr ^^ n) (l, m)) = 2 \<Longrightarrow> \<exists>m'. sort_loop b pvr l m = Some m'"
proof (induction n arbitrary: l m)
  case 0
  then show ?case by (subst sort_loop.simps) simp
next
  case (Suc n)
  have "(sort_state b pvr ^^ Suc n) (l, m) = (sort_state b pvr ^^ n) (fst (sort_round b pvr l m), snd (sort_round b pvr l m))"
    by (simp only: funpow_Suc_right comp_apply) (simp add: sort_state_def)
  with Suc show ?case by (subst sort_loop.simps) simp
qed

text \<open>The sort DMA returns exactly when its walk over the lists in memory comes to the end mark.\<close>

lemma sort_loop_ends_iff:
  "(\<exists>m'. sort_loop b pvr l m = Some m') \<longleftrightarrow> (\<exists>n. fst ((sort_state b pvr ^^ n) (l, m)) = 2)"
  using sort_loop_rounds sort_loop_returns by (metis fst_conv)

end
